(* ===== verification/Prelude.thy ===== *)
theory Prelude
  imports Main "HOL-Library.Word" "HOL-Library.AList" "HOL-Library.Code_Target_Nat"
begin

text \<open>
  The vocabulary the components of the pool share.

  \<^item> Machine integers are words of their width (\<open>u64\<close>, \<open>u128\<close>); \<open>sat_sub\<close>,
    \<open>sat_add\<close>, \<open>sat_mul\<close>, \<open>checked_add\<close> and \<open>checked_sub\<close> are the methods of
    the same name of the Rust integers. The release profile sets
    \<open>overflow-checks = true\<close>, so a plain \<open>+\<close> or \<open>-\<close> of the source panics when
    it overflows: \<open>add_chk\<close> and \<open>sub_chk\<close>.
  \<^item> \<open>outcome\<close> is what a fallible operation produces: \<open>Ok\<close>, \<open>Err\<close>, a panic, or
    \<open>Diverge\<close> where a loop of the model ran out of fuel (the theorems show when it
    cannot).
  \<^item> An operation on a mutable state returns the new state next to its outcome, because
    the changes made before an early return stay: \<open>bindS\<close> is the sequencing of two such
    operations (the question mark operator), \<open>bindO\<close> the one without state.
  \<^item> \<open>hmap\<close> is the \<open>HashMap\<close> of the standard library: an association list with
    distinct keys, whose order stands for the (unspecified) iteration order.
\<close>

named_theorems outcome_simps "equations of the outcome combinators"
named_theorems map_simps "lookup and update laws of the hash map model"
named_theorems wf_intros "preservation of well-formedness by the operations"

section \<open>Machine integers\<close>

type_synonym u8 = "8 word"
type_synonym u32 = "32 word"
type_synonym u64 = "64 word"
type_synonym u128 = "128 word"

definition sat_sub :: "'w::len word \<Rightarrow> 'w word \<Rightarrow> 'w word" where
  "sat_sub a b = (if a < b then 0 else a - b)"

definition sat_add :: "'w::len word \<Rightarrow> 'w word \<Rightarrow> 'w word" where
  "sat_add a b = (if unat a + unat b < 2 ^ LENGTH('w) then a + b else - 1)"

definition sat_mul :: "'w::len word \<Rightarrow> 'w word \<Rightarrow> 'w word" where
  "sat_mul a b = (if unat a * unat b < 2 ^ LENGTH('w) then a * b else - 1)"

definition checked_add :: "'w::len word \<Rightarrow> 'w word \<Rightarrow> 'w word option" where
  "checked_add a b = (if unat a + unat b < 2 ^ LENGTH('w) then Some (a + b) else None)"

definition checked_sub :: "'w::len word \<Rightarrow> 'w word \<Rightarrow> 'w word option" where
  "checked_sub a b = (if a < b then None else Some (a - b))"

lemma unat_sat_sub [simp]: "unat (sat_sub a b) = unat a - unat b"
  by (auto simp: sat_sub_def word_less_nat_alt unat_sub word_le_nat_alt)

lemma sat_sub_0 [simp]: "sat_sub 0 b = 0"
  by (simp add: sat_sub_def word_gt_0)

lemma sat_sub_le: "sat_sub a b \<le> a"
  by (simp add: word_le_nat_alt)

lemma unat_plus_small: "unat a + unat b < 2 ^ LENGTH('w) \<Longrightarrow> unat (a + b) = unat a + unat b"
  for a b :: "'w::len word"
  by (simp add: unat_word_ariths)

lemma unat_max_word: "unat (- 1 :: 'w::len word) = 2 ^ LENGTH('w) - 1"
  by (simp add: unsigned_minus_1_eq_mask mask_eq_exp_minus_1)

lemma unat_sat_add: "unat (sat_add a b) = min (unat a + unat b) (2 ^ LENGTH('w) - 1)"
  for a b :: "'w::len word"
  by (auto simp: sat_add_def unat_plus_small min_def unat_max_word)

lemma checked_add_SomeD: "checked_add a b = Some c \<Longrightarrow> c = a + b \<and> unat c = unat a + unat b"
  by (auto simp: checked_add_def unat_plus_small split: if_splits)

lemma checked_sub_SomeD: "checked_sub a b = Some c \<Longrightarrow> unat c = unat a - unat b \<and> unat b \<le> unat a"
  by (auto simp: checked_sub_def unat_sub word_le_nat_alt word_less_nat_alt split: if_splits)

lemma unat_pred: "h \<noteq> 0 \<Longrightarrow> unat (sat_sub h 1) < unat h" for h :: "'w::len word"
  by (simp add: unat_gt_0)

text \<open>
  Tests for overflow in the machine's own arithmetic, for evaluation.
\<close>

lemma word_add_overflow: "unat a + unat b < 2 ^ LENGTH('w) \<longleftrightarrow> a \<le> a + b"
  for a b :: "'w::len word"
  by (metis no_olen_add_nat word_le_plus_either unat_plus_small olen_add_eqv)

lemma checked_add_code [code]: "checked_add a b = (let s = a + b in if a \<le> s then Some s else None)"
  by (simp add: checked_add_def word_add_overflow Let_def)

lemma sat_add_code [code]: "sat_add a b = (let s = a + b in if a \<le> s then s else - 1)"
  by (simp add: sat_add_def word_add_overflow Let_def)

lemma word_mult_overflow:
  "unat a * unat b < 2 ^ LENGTH('w) \<longleftrightarrow> b = 0 \<or> a * b div b = a" for a b :: "'w::len word"
proof (cases "b = 0")
  case False
  then have b: "0 < unat b" by (simp add: unat_gt_0)
  show ?thesis
  proof (cases "unat a * unat b < 2 ^ LENGTH('w)")
    case True
    then have "unat (a * b) = unat a * unat b" by (simp add: unat_word_ariths)
    then have "unat (a * b div b) = unat a" using b by (simp add: unat_div)
    then show ?thesis using True False by (simp add: word_unat_eq_iff)
  next
    case F: False
    have "unat (a * b) < 2 ^ LENGTH('w)" by simp
    then have "unat (a * b) div unat b * unat b < unat a * unat b"
      using F by (metis div_times_less_eq_dividend le_less_trans not_less)
    then have "unat (a * b div b) < unat a" using b by (simp add: unat_div)
    then show ?thesis using F False by auto
  qed
qed simp

lemma sat_mul_code [code]: "sat_mul a b = (let p = a * b in if b = 0 \<or> p div b = a then p else - 1)"
  by (simp add: sat_mul_def word_mult_overflow Let_def)

section \<open>Outcomes\<close>

datatype ('e, 'a) outcome = Ok 'a | Err 'e | Panic | Diverge

fun bindO :: "('e, 'a) outcome \<Rightarrow> ('a \<Rightarrow> ('e, 'b) outcome) \<Rightarrow> ('e, 'b) outcome" where
  "bindO (Ok x) f = f x"
| "bindO (Err e) f = Err e"
| "bindO Panic f = Panic"
| "bindO Diverge f = Diverge"

fun bindS :: "'s \<times> ('e, 'a) outcome \<Rightarrow> ('s \<Rightarrow> 'a \<Rightarrow> 's \<times> ('e, 'b) outcome) \<Rightarrow> 's \<times> ('e, 'b) outcome" where
  "bindS (s, Ok x) f = f s x"
| "bindS (s, Err e) f = (s, Err e)"
| "bindS (s, Panic) f = (s, Panic)"
| "bindS (s, Diverge) f = (s, Diverge)"

fun map_err :: "('e \<Rightarrow> 'f) \<Rightarrow> ('e, 'a) outcome \<Rightarrow> ('f, 'a) outcome" where
  "map_err g (Ok x) = Ok x"
| "map_err g (Err e) = Err (g e)"
| "map_err g Panic = Panic"
| "map_err g Diverge = Diverge"

definition ok_or :: "'e \<Rightarrow> 'a option \<Rightarrow> ('e, 'a) outcome" where
  "ok_or e x = (case x of None \<Rightarrow> Err e | Some y \<Rightarrow> Ok y)"

definition unwrap :: "'a option \<Rightarrow> ('e, 'a) outcome" where
  "unwrap x = (case x of None \<Rightarrow> Panic | Some y \<Rightarrow> Ok y)"

definition add_chk :: "'w::len word \<Rightarrow> 'w word \<Rightarrow> ('e, 'w word) outcome" where
  "add_chk a b = unwrap (checked_add a b)"

definition sub_chk :: "'w::len word \<Rightarrow> 'w word \<Rightarrow> ('e, 'w word) outcome" where
  "sub_chk a b = unwrap (checked_sub a b)"

lemma bindO_eq_Ok [simp]: "bindO m f = Ok y \<longleftrightarrow> (\<exists>x. m = Ok x \<and> f x = Ok y)"
  by (cases m) auto

lemma bindO_eq_Diverge: "bindO m f = Diverge \<longleftrightarrow> m = Diverge \<or> (\<exists>x. m = Ok x \<and> f x = Diverge)"
  by (cases m) auto

lemma bindO_eq_Panic: "bindO m f = Panic \<longleftrightarrow> m = Panic \<or> (\<exists>x. m = Ok x \<and> f x = Panic)"
  by (cases m) auto

lemma bindO_eq_Err: "bindO m f = Err x \<longleftrightarrow> m = Err x \<or> (\<exists>y. m = Ok y \<and> f y = Err x)"
  by (cases m) auto

lemma map_err_iff [simp]:
  "map_err f m = Ok y \<longleftrightarrow> m = Ok y" "map_err f m = Diverge \<longleftrightarrow> m = Diverge"
  "map_err f m = Panic \<longleftrightarrow> m = Panic"
  by (cases m; simp)+

lemma bindO_assoc: "bindO (bindO m f) g = bindO m (\<lambda>x. bindO (f x) g)"
  by (cases m) auto

lemma ok_or_simps [outcome_simps, simp]:
  "ok_or e None = Err e" "ok_or e (Some x) = Ok x"
  by (simp_all add: ok_or_def)

lemma unwrap_simps [outcome_simps, simp]:
  "unwrap None = Panic" "unwrap (Some x) = Ok x"
  by (simp_all add: unwrap_def)

lemma ok_or_eq_Ok [simp]: "ok_or e x = Ok y \<longleftrightarrow> x = Some y"
  by (cases x) auto

lemma unwrap_eq_Ok [simp]: "unwrap x = Ok y \<longleftrightarrow> x = Some y"
  by (cases x) auto

lemma ok_or_not [simp]: "ok_or e x \<noteq> Panic" "ok_or e x \<noteq> Diverge"
  by (cases x; simp)+

lemma unwrap_not [simp]: "unwrap x \<noteq> Err e" "unwrap x \<noteq> Diverge"
  by (cases x; simp)+

lemma add_chk_Ok: "add_chk a b = Ok c \<Longrightarrow> c = a + b \<and> unat c = unat a + unat b"
  by (auto simp: add_chk_def dest: checked_add_SomeD)

lemma add_chk_unat: "add_chk a b = Ok c \<Longrightarrow> unat c = unat a + unat b"
  using add_chk_Ok by blast

lemma sub_chk_Ok: "sub_chk a b = Ok c \<Longrightarrow> unat c = unat a - unat b \<and> unat b \<le> unat a"
  by (auto simp: sub_chk_def dest: checked_sub_SomeD)

lemma add_chk_not [simp]: "add_chk a b \<noteq> Err e" "add_chk a b \<noteq> Diverge"
  by (simp_all add: add_chk_def)

lemma sub_chk_not [simp]: "sub_chk a b \<noteq> Err e" "sub_chk a b \<noteq> Diverge"
  by (simp_all add: sub_chk_def)

text \<open>
  Case analysis and preservation for \<open>bindS\<close>: a relation between the states before and
  after (or an invariant) that both halves keep is kept by the sequence, whatever the
  outcome of the first half.
\<close>

lemma bindS_cases:
  assumes "bindS m f = (s', r)"
  obtains (first) s x where "m = (s, Ok x)" "f s x = (s', r)"
  | (stop) r0 where "m = (s', r0)" "\<And>x. r0 \<noteq> Ok x" "\<And>x. r \<noteq> Ok x"
  using assms by (cases "(m, f)" rule: bindS.cases) auto

lemma bindS_Ok:
  "bindS m f = (s', Ok y) \<longleftrightarrow> (\<exists>s x. m = (s, Ok x) \<and> f s x = (s', Ok y))"
  by (cases "(m, f)" rule: bindS.cases) auto

lemma bindS_preserves:
  assumes "P (fst m)" and "\<And>s x. m = (s, Ok x) \<Longrightarrow> P s \<Longrightarrow> P (fst (f s x))"
  shows "P (fst (bindS m f))"
  using assms by (cases "(m, f)" rule: bindS.cases) auto

lemma bindS_cong [fundef_cong]:
  assumes "m = m'" and "\<And>s x. m' = (s, Ok x) \<Longrightarrow> f s x = f' s x"
  shows "bindS m f = bindS m' f'"
  using assms by (cases "(m', f)" rule: bindS.cases) auto

lemma bindO_cong [fundef_cong]:
  assumes "m = m'" and "\<And>x. m' = Ok x \<Longrightarrow> f x = f' x"
  shows "bindO m f = bindO m' f'"
  using assms by (cases m') auto

section \<open>Loops over collections that may fail\<close>

fun foldO :: "('a \<Rightarrow> 's \<Rightarrow> ('e, 's) outcome) \<Rightarrow> 'a list \<Rightarrow> 's \<Rightarrow> ('e, 's) outcome" where
  "foldO f [] s = Ok s"
| "foldO f (x # xs) s = bindO (f x s) (foldO f xs)"

lemma foldO_append: "foldO f (xs @ ys) s = bindO (foldO f xs s) (foldO f ys)"
proof (induction xs arbitrary: s)
  case (Cons x xs)
  then show ?case by (cases "f x s") auto
qed simp

lemma foldO_prefix: "foldO f xs s = Ok t \<Longrightarrow> \<exists>u. foldO f (take i xs) s = Ok u"
proof -
  assume "foldO f xs s = Ok t"
  then have "bindO (foldO f (take i xs) s) (foldO f (drop i xs)) = Ok t"
    using foldO_append [of f "take i xs" "drop i xs" s] by simp
  then show ?thesis by auto
qed

lemma foldO_invariant:
  assumes "foldO f xs s = Ok t" and "P s"
    and "\<And>x u v. x \<in> set xs \<Longrightarrow> P u \<Longrightarrow> f x u = Ok v \<Longrightarrow> P v"
  shows "P t"
  using assms by (induction xs arbitrary: s) auto

lemma foldO_not_Diverge:
  assumes "\<And>x s. x \<in> set xs \<Longrightarrow> f x s \<noteq> Diverge"
  shows "foldO f xs s \<noteq> Diverge"
  using assms by (induction xs arbitrary: s) (auto simp: bindO_eq_Diverge)

section \<open>Hash maps\<close>

type_synonym ('k, 'v) hmap = "('k \<times> 'v) list"

abbreviation hm_get :: "('k, 'v) hmap \<Rightarrow> 'k \<Rightarrow> 'v option" where
  "hm_get m k \<equiv> map_of m k"

abbreviation hm_insert :: "'k \<Rightarrow> 'v \<Rightarrow> ('k, 'v) hmap \<Rightarrow> ('k, 'v) hmap" where
  "hm_insert k v m \<equiv> AList.update k v m"

abbreviation hm_remove :: "'k \<Rightarrow> ('k, 'v) hmap \<Rightarrow> ('k, 'v) hmap" where
  "hm_remove k m \<equiv> AList.delete k m"

definition hm_contains :: "('k, 'v) hmap \<Rightarrow> 'k \<Rightarrow> bool" where
  "hm_contains m k \<longleftrightarrow> hm_get m k \<noteq> None"

abbreviation hm_keys :: "('k, 'v) hmap \<Rightarrow> 'k list" where
  "hm_keys m \<equiv> map fst m"

abbreviation hm_values :: "('k, 'v) hmap \<Rightarrow> 'v list" where
  "hm_values m \<equiv> map snd m"

definition hm_ok :: "('k, 'v) hmap \<Rightarrow> bool" where
  "hm_ok m \<longleftrightarrow> distinct (hm_keys m)"

text \<open>
  The contract of a store of values under keys, as its clients rely on it: a lookup finds
  what was inserted last and nothing that was removed, and every operation keeps the
  store's own invariant.
\<close>

locale keyed_store =
  fixes get :: "'m \<Rightarrow> 'k \<Rightarrow> 'v option"
    and put :: "'k \<Rightarrow> 'v \<Rightarrow> 'm \<Rightarrow> 'm"
    and del :: "'k \<Rightarrow> 'm \<Rightarrow> 'm"
    and ok :: "'m \<Rightarrow> bool"
  assumes get_put: "ok m \<Longrightarrow> get (put k v m) k' = (if k' = k then Some v else get m k')"
    and get_del: "ok m \<Longrightarrow> get (del k m) k' = (if k' = k then None else get m k')"
    and ok_put: "ok m \<Longrightarrow> ok (put k v m)"
    and ok_del: "ok m \<Longrightarrow> ok (del k m)"
begin

lemma ok_fold_del: "ok m \<Longrightarrow> ok (fold del ks m)"
  by (induction ks arbitrary: m) (auto simp: ok_del)

lemma get_fold_del:
  "ok m \<Longrightarrow> get (fold del ks m) k = (if k \<in> set ks then None else get m k)"
  by (induction ks arbitrary: m) (auto simp: get_del ok_del)

lemma get_put_same: "ok m \<Longrightarrow> get (put k v m) k = Some v"
  by (simp add: get_put)

lemma get_put_del: "ok m \<Longrightarrow> get (del k (put k v m)) k' = (if k' = k then None else get m k')"
  by (simp add: get_del get_put ok_put)

text \<open>A property of all stored values survives insertion of a value that has it, and removal.\<close>

lemma all_put:
  assumes "ok m" and "\<And>k v. get m k = Some v \<Longrightarrow> P k v" and "P k0 v0"
  shows "get (put k0 v0 m) k = Some v \<Longrightarrow> P k v"
  using assms by (auto simp: get_put split: if_splits)

lemma all_fold_del:
  assumes "ok m" and "\<And>k v. get m k = Some v \<Longrightarrow> P k v"
  shows "get (fold del ks m) k = Some v \<Longrightarrow> P k v"
  using assms by (auto simp: get_fold_del split: if_splits)

end

interpretation hm: keyed_store hm_get hm_insert hm_remove hm_ok
  by unfold_locales
    (auto simp: hm_ok_def update_conv' delete_conv' intro: distinct_update distinct_delete)

lemma hm_contains_iff [map_simps]: "hm_contains m k \<longleftrightarrow> k \<in> set (hm_keys m)"
  by (auto simp: hm_contains_def map_of_eq_None_iff)

lemma hm_get_insert [map_simps, simp]:
  "hm_get (hm_insert k v m) k' = (if k' = k then Some v else hm_get m k')"
  by (simp add: update_conv')

lemma hm_get_remove [map_simps, simp]:
  "hm_get (hm_remove k m) k' = (if k' = k then None else hm_get m k')"
  by (simp add: delete_conv')

lemma hm_ok_Nil [simp]: "hm_ok []"
  by (simp add: hm_ok_def)

lemma hm_ok_get: "hm_ok m \<Longrightarrow> hm_get m k = Some v \<longleftrightarrow> (k, v) \<in> set m"
  by (simp add: hm_ok_def)

lemma hm_keys_insert [simp]: "fst ` set (hm_insert k v m) = insert k (fst ` set m)"
  using dom_update [of k v m] by simp

lemma hm_length_insert:
  "length (hm_insert k v m) = (if hm_contains m k then length m else Suc (length m))"
  by (induction m) (auto simp: hm_contains_def)

lemma hm_length_remove:
  assumes "hm_ok m"
  shows "length (hm_remove k m) = (if hm_contains m k then length m - 1 else length m)"
  using assms
proof (induction m)
  case (Cons p m)
  then have IH: "length (hm_remove k m) = (if hm_contains m k then length m - 1 else length m)"
    and p: "fst p \<notin> set (hm_keys m)"
    by (simp_all add: hm_ok_def)
  show ?case
  proof (cases "fst p = k")
    case True
    with p have "hm_remove k m = m" by (intro delete_id) simp
    with True show ?thesis by (cases p) (simp add: hm_contains_def)
  next
    case False
    with IH show ?thesis
      by (cases p) (cases m, auto simp: hm_contains_def)
  qed
qed (simp add: hm_contains_def)

lemma set_map_filter: "set (List.map_filter f xs) = {y. \<exists>x\<in>set xs. f x = Some y}"
  by (induction xs) (auto simp: List.map_filter_def split: option.splits)

section \<open>Runs of a step relation\<close>

text \<open>A property that every step keeps holds in every state of a run.\<close>

locale run_invariant =
  fixes step :: "'s \<Rightarrow> 's \<Rightarrow> bool" and inv :: "'s \<Rightarrow> bool"
  assumes kept: "step s s' \<Longrightarrow> inv s \<Longrightarrow> inv s'"
begin

lemma run_kept: "step\<^sup>*\<^sup>* s s' \<Longrightarrow> inv s \<Longrightarrow> inv s'"
  by (induction rule: rtranclp_induct) (auto intro: kept)

lemma run_implies: "step\<^sup>*\<^sup>* s s' \<Longrightarrow> inv s \<Longrightarrow> (\<And>u. inv u \<Longrightarrow> P u) \<Longrightarrow> P s'"
  using run_kept by blast

end

section \<open>Stable sorting by a key\<close>

lemma sort_key_set [simp]: "set (sort_key f xs) = set xs"
  by simp

lemma sort_key_sorted: "sorted (map f (sort_key f xs))"
  by simp

end
