(* ===== verification/ShareTypes.thy ===== *)
theory ShareTypes
  imports Prelude
begin

text \<open>
  The data the share chain is built from: the constants of \<open>sharechain/mod.rs\<close>,
  \<open>sharechain/p2chain.rs\<close> and \<open>sharechain/in_memory.rs\<close>, the error enums of
  \<open>sharechain/error.rs\<close>, and the values that come from the Tari crates.

  The Tari crates are not part of the repository. Their newtypes are read as the number or
  the bytes they wrap (\<open>Difficulty\<close> and \<open>EpochTime\<close> are a \<open>u64\<close>,
  \<open>AccumulatedDifficulty\<close> a \<open>u128\<close>, \<open>FixedHash\<close> 32 bytes), structures only as far as the
  pool looks into them, and every function of theirs that the pool calls is a field of the
  record \<open>ext\<close>, which the definitions take as an argument. What a theorem needs to know
  of such a function is a named hypothesis (\<open>acc_arith\<close>, \<open>difficulty_conv\<close>), which
  restates the documented contract of the function.
\<close>

section \<open>Constants\<close>

definition PROTOCOL_VERSION :: u64 where "PROTOCOL_VERSION = 37"

definition MAIN_REWARD_SHARE :: u64 where "MAIN_REWARD_SHARE = 5"
definition UNCLE_REWARD_SHARE :: u64 where "UNCLE_REWARD_SHARE = 4"
definition DIFFICULTY_ADJUSTMENT_WINDOW :: nat where "DIFFICULTY_ADJUSTMENT_WINDOW = 90"
definition MEDIAN_TIMESTAMP_WINDOW :: nat where "MEDIAN_TIMESTAMP_WINDOW = 11"
definition MIN_RANDOMX_DIFFICULTY :: u64 where "MIN_RANDOMX_DIFFICULTY = 1000"
definition MIN_SHA3X_DIFFICULTY :: u64 where "MIN_SHA3X_DIFFICULTY = 100000000"

definition SAFETY_MARGIN :: u64 where "SAFETY_MARGIN = 20"
definition MAX_EXTRA_SYNC :: u64 where "MAX_EXTRA_SYNC = 2000"
definition MAX_MISSING_PARENTS :: nat where "MAX_MISSING_PARENTS = 10"

definition UNCLE_LIMIT :: nat where "UNCLE_LIMIT = 3"
definition MAX_UNCLE_AGE :: u64 where "MAX_UNCLE_AGE = 3"
definition MAX_FUTURE_BLOCK_TIME :: u64 where "MAX_FUTURE_BLOCK_TIME = 540"
definition UNCLE_START_HEIGHT :: u64 where "UNCLE_START_HEIGHT = 10"

lemmas share_constants =
  PROTOCOL_VERSION_def MAIN_REWARD_SHARE_def UNCLE_REWARD_SHARE_def
  DIFFICULTY_ADJUSTMENT_WINDOW_def MEDIAN_TIMESTAMP_WINDOW_def MIN_RANDOMX_DIFFICULTY_def
  MIN_SHA3X_DIFFICULTY_def SAFETY_MARGIN_def MAX_EXTRA_SYNC_def MAX_MISSING_PARENTS_def
  UNCLE_LIMIT_def MAX_UNCLE_AGE_def MAX_FUTURE_BLOCK_TIME_def UNCLE_START_HEIGHT_def

section \<open>Values of the Tari crates\<close>

type_synonym bytes = "u8 list"
type_synonym fixed_hash = "256 word"
type_synonym block_hash = fixed_hash
type_synonym difficulty = u64
type_synonym accumulated_difficulty = u128
type_synonym epoch_time = u64
type_synonym tari_address = bytes
type_synonym public_key = bytes
type_synonym uncle_ref = "u64 \<times> fixed_hash"

abbreviation zero_hash :: fixed_hash where "zero_hash \<equiv> 0"

datatype pow_algorithm = RandomX | Sha3x

datatype opcode = PushPubKey public_key | OtherOpcode bytes

type_synonym tari_script = "opcode list"

text \<open>\<open>script.opcode(i)\<close> of a Tari script.\<close>

definition script_opcode :: "tari_script \<Rightarrow> nat \<Rightarrow> opcode option" where
  "script_opcode s i = (if i < length s then Some (s ! i) else None)"

record transaction_output =
  to_minimum_value_promise :: u64
  to_script :: tari_script
  to_coinbase_extra :: bytes
  to_rest :: bytes

record block_header =
  bh_pow_algo :: pow_algorithm
  bh_output_mr :: fixed_hash
  bh_rest :: bytes

record tari_block =
  tb_header :: block_header
  tb_body :: bytes

text \<open>The arguments a consensus hash is chained over, in the order of the calls.\<close>

datatype hash_field =
    HHash fixed_hash | HBytes bytes | HStr string | HU64 u64 | HU128 u128
  | HHeader block_header | HUncles "uncle_ref list"

record block_validation_params =
  random_x_factory :: bytes
  consensus_manager :: bytes
  genesis_block_hash :: fixed_hash

section \<open>Errors\<close>

datatype validation_error =
    VUncleTooOld | VUnclesOnSameHeightOrHigher | VUnclesBeforeStartHeight | VTooManyUncles
  | VInvalidPowAlgorithm | VFromIntConversion | VMissingBlockValidationParams
  | VDifficulty string | VRandomXDifficulty string | VDifficultyTarget | VFutureTimestamp
  | VMedianTimestamp | VOutputMismatch | VInvalidOutputs | VInvalidCoinbase

datatype share_chain_error =
    TariAddressError string | InvalidBlock string | FromIntConversion | ConsensusBuilder string
  | BlockHashConversion string | BlockValidation string | DifficultyOverflow
  | UncleBlockNotFound | BlockNotFound | BlockLevelNotFound | ValidationError validation_error
  | MissingBlockValidationParams | UncleInMainChain u64 fixed_hash | UncleParentNotInMainChain
  | UncleTooOld | UnclesOnSameHeightOrHigher | BlockTotalWorkMismatch | Anyhow string
  | LwmaNotInitializedCorrectly

type_synonym 'a sc_result = "(share_chain_error, 'a) outcome"

section \<open>Functions of the Tari crates\<close>

record 'l ext =
  public_spend_key :: "tari_address \<Rightarrow> public_key"
  to_base58 :: "tari_address \<Rightarrow> string"
  default_address :: tari_address
  new_block_header :: "u64 \<Rightarrow> block_header"
  consensus_hash :: "hash_field list \<Rightarrow> fixed_hash"
  get_coinbase_outputs :: "bytes \<Rightarrow> transaction_output list"
  header_normal_output_mr :: "bytes \<Rightarrow> string + fixed_hash"
  output_hash :: "transaction_output \<Rightarrow> fixed_hash"
  output_mmr_root :: "fixed_hash list \<Rightarrow> fixed_hash option"
  sha3x_difficulty :: "block_header \<Rightarrow> string + difficulty"
  randomx_difficulty :: "block_header \<Rightarrow> block_validation_params \<Rightarrow> string + difficulty"
  difficulty_min :: difficulty
  difficulty_from_u64 :: "u64 \<Rightarrow> difficulty option"
  acc_min :: accumulated_difficulty
  acc_default :: accumulated_difficulty
  acc_from_u128 :: "u128 \<Rightarrow> accumulated_difficulty option"
  acc_checked_add :: "accumulated_difficulty \<Rightarrow> difficulty \<Rightarrow> accumulated_difficulty option"
  acc_checked_sub :: "accumulated_difficulty \<Rightarrow> difficulty \<Rightarrow> accumulated_difficulty option"
  epoch_checked_add :: "epoch_time \<Rightarrow> epoch_time \<Rightarrow> epoch_time option"
  lwma_new :: "nat \<Rightarrow> u64 \<Rightarrow> 'l option"
  lwma_add_front :: "epoch_time \<Rightarrow> difficulty \<Rightarrow> 'l \<Rightarrow> 'l"
  lwma_add_back :: "epoch_time \<Rightarrow> difficulty \<Rightarrow> 'l \<Rightarrow> 'l"
  lwma_is_full :: "'l \<Rightarrow> bool"
  lwma_get_difficulty :: "'l \<Rightarrow> difficulty option"

text \<open>
  The checked arithmetic of \<open>AccumulatedDifficulty\<close> computes the exact sum or difference
  when it returns one, and \<open>from_u128\<close> keeps the number it accepts.
\<close>

definition acc_arith :: "'l ext \<Rightarrow> bool" where
  "acc_arith e \<longleftrightarrow>
     (\<forall>n r. acc_from_u128 e n = Some r \<longrightarrow> r = n)
   \<and> (\<forall>a d r. acc_checked_add e a d = Some r \<longrightarrow> unat r = unat a + unat d)
   \<and> (\<forall>a d r. acc_checked_sub e a d = Some r \<longrightarrow> unat d \<le> unat a \<and> unat r = unat a - unat d)"

lemma acc_from_u128D: "acc_arith e \<Longrightarrow> acc_from_u128 e n = Some r \<Longrightarrow> r = n"
  by (simp add: acc_arith_def)

lemma acc_addD: "acc_arith e \<Longrightarrow> acc_checked_add e a d = Some r \<Longrightarrow> unat r = unat a + unat d"
  unfolding acc_arith_def by blast

lemma acc_subD:
  "acc_arith e \<Longrightarrow> acc_checked_sub e a d = Some r \<Longrightarrow> unat d \<le> unat a \<and> unat r = unat a - unat d"
  unfolding acc_arith_def by blast

text \<open>
  A concrete environment for the witnesses: numbers are what they say, the moving average
  is the list of what was fed to it and reports the last difficulty.
\<close>

definition demo_ext :: "(epoch_time \<times> difficulty) list ext" where
  "demo_ext = \<lparr>
     public_spend_key = (\<lambda>a. a), to_base58 = map (\<lambda>b. char_of (unat b)), default_address = [],
     new_block_header = (\<lambda>v. \<lparr>bh_pow_algo = Sha3x, bh_output_mr = 0, bh_rest = []\<rparr>),
     consensus_hash = (\<lambda>fs. of_nat (length fs)),
     get_coinbase_outputs = (\<lambda>b. []), header_normal_output_mr = (\<lambda>b. Inr 0),
     output_hash = (\<lambda>out. ucast (to_minimum_value_promise out)),
     output_mmr_root = (\<lambda>hs. Some (sum_list hs)),
     sha3x_difficulty = (\<lambda>h. Inr 100), randomx_difficulty = (\<lambda>h p. Inr 100),
     difficulty_min = 1, difficulty_from_u64 = (\<lambda>d. if d = 0 then None else Some d),
     acc_min = 1, acc_default = 1,
     acc_from_u128 = (\<lambda>n. if n = 0 then None else Some n),
     acc_checked_add = (\<lambda>a d. checked_add a (ucast d)),
     acc_checked_sub = (\<lambda>a d. checked_sub a (ucast d)),
     epoch_checked_add = checked_add,
     lwma_new = (\<lambda>w t. if t = 0 then None else Some []),
     lwma_add_front = (\<lambda>t d l. (t, d) # l), lwma_add_back = (\<lambda>t d l. l @ [(t, d)]),
     lwma_is_full = (\<lambda>l. 91 \<le> length l),
     lwma_get_difficulty = (\<lambda>l. if l = [] then None else Some (snd (last l)))\<rparr>"

lemma unat_ucast_u64_u128 [simp]: "unat (ucast (d :: u64) :: u128) = unat d"
proof -
  have "unat d < 2 ^ 64" using unsigned_less [of d] by simp
  then have "unat d < 2 ^ 128" by (rule less_le_trans) simp
  then show ?thesis by (simp add: unsigned_ucast_eq take_bit_nat_eq_self)
qed

lemma acc_arith_demo: "acc_arith demo_ext"
  by (auto simp: acc_arith_def demo_ext_def split: if_splits
      dest!: checked_add_SomeD checked_sub_SomeD)

end
