(* ===== verification/P2Block.thy ===== *)
theory P2Block
  imports ShareTypes
begin

text \<open>
  \<open>sharechain/p2block.rs\<close>: the block of the share chain, its builder, and the
  \<open>VerifiedStatus\<close> bit set that records which checks a block has passed.
\<close>

unbundle bit_operations_syntax

section \<open>VerifiedStatus\<close>

type_synonym verified_status = u8

definition VS_PARENTS :: verified_status where "VS_PARENTS = 1"
definition VS_TARGET_DIFFICULTY :: verified_status where "VS_TARGET_DIFFICULTY = 2"
definition VS_DIFFICULTY :: verified_status where "VS_DIFFICULTY = 4"
definition VS_CORRECT_SHARES :: verified_status where "VS_CORRECT_SHARES = 8"
definition VS_MEDIAN_TIMESTAMP :: verified_status where "VS_MEDIAN_TIMESTAMP = 16"

lemmas vs_flag_defs =
  VS_PARENTS_def VS_TARGET_DIFFICULTY_def VS_DIFFICULTY_def VS_CORRECT_SHARES_def
  VS_MEDIAN_TIMESTAMP_def

definition vs_contains :: "verified_status \<Rightarrow> verified_status \<Rightarrow> bool" where
  "vs_contains s f \<longleftrightarrow> s AND f = f"

definition vs_insert :: "verified_status \<Rightarrow> verified_status \<Rightarrow> verified_status" where
  "vs_insert s f = s OR f"

definition vs_new :: verified_status where "vs_new = 0"

definition is_verified :: "verified_status \<Rightarrow> bool" where
  "is_verified s \<longleftrightarrow> vs_contains s VS_PARENTS \<and> vs_contains s VS_TARGET_DIFFICULTY
     \<and> vs_contains s VS_DIFFICULTY \<and> vs_contains s VS_MEDIAN_TIMESTAMP
     \<and> vs_contains s VS_CORRECT_SHARES"

definition set_has_parents :: "verified_status \<Rightarrow> verified_status" where
  "set_has_parents s = vs_insert s VS_PARENTS"
definition set_target_difficulty_verified :: "verified_status \<Rightarrow> verified_status" where
  "set_target_difficulty_verified s = vs_insert s VS_TARGET_DIFFICULTY"
definition set_difficulty_verified :: "verified_status \<Rightarrow> verified_status" where
  "set_difficulty_verified s = vs_insert s VS_DIFFICULTY"
definition set_median_timestamp :: "verified_status \<Rightarrow> verified_status" where
  "set_median_timestamp s = vs_insert s VS_MEDIAN_TIMESTAMP"
definition set_correct_shares :: "verified_status \<Rightarrow> verified_status" where
  "set_correct_shares s = vs_insert s VS_CORRECT_SHARES"

definition has_parents :: "verified_status \<Rightarrow> bool" where
  "has_parents s = vs_contains s VS_PARENTS"
definition has_target_difficulty_verified :: "verified_status \<Rightarrow> bool" where
  "has_target_difficulty_verified s = vs_contains s VS_TARGET_DIFFICULTY"
definition has_difficulty_verified :: "verified_status \<Rightarrow> bool" where
  "has_difficulty_verified s = vs_contains s VS_DIFFICULTY"
definition has_median_timestamp :: "verified_status \<Rightarrow> bool" where
  "has_median_timestamp s = vs_contains s VS_MEDIAN_TIMESTAMP"
definition has_correct_shares :: "verified_status \<Rightarrow> bool" where
  "has_correct_shares s = vs_contains s VS_CORRECT_SHARES"

text \<open>Each flag is one bit of the byte, so setting one flag changes no other.\<close>

lemma vs_contains_bits:
  "vs_contains s VS_PARENTS = bit s 0" "vs_contains s VS_TARGET_DIFFICULTY = bit s 1"
  "vs_contains s VS_DIFFICULTY = bit s 2" "vs_contains s VS_CORRECT_SHARES = bit s 3"
  "vs_contains s VS_MEDIAN_TIMESTAMP = bit s 4"
proof -
  have *: "(s AND 2 ^ n = 2 ^ n) = bit s n" if "n < 8" for n
    using that by (auto simp: bit_eq_iff [of "s AND 2 ^ n" "2 ^ n"] bit_simps)
  show "vs_contains s VS_PARENTS = bit s 0" "vs_contains s VS_TARGET_DIFFICULTY = bit s 1"
    "vs_contains s VS_DIFFICULTY = bit s 2" "vs_contains s VS_CORRECT_SHARES = bit s 3"
    "vs_contains s VS_MEDIAN_TIMESTAMP = bit s 4"
    using * [of 0] * [of 1] * [of 2] * [of 3] * [of 4]
    by (simp_all add: vs_contains_def vs_flag_defs)
qed

lemmas has_defs = has_parents_def has_target_difficulty_verified_def has_difficulty_verified_def
  has_median_timestamp_def has_correct_shares_def

lemmas set_defs = set_has_parents_def set_target_difficulty_verified_def
  set_difficulty_verified_def set_median_timestamp_def set_correct_shares_def

lemma vs_insert_bits:
  "bit (vs_insert s VS_PARENTS) n \<longleftrightarrow> bit s n \<or> n = 0"
  "bit (vs_insert s VS_TARGET_DIFFICULTY) n \<longleftrightarrow> bit s n \<or> n = 1"
  "bit (vs_insert s VS_DIFFICULTY) n \<longleftrightarrow> bit s n \<or> n = 2"
  "bit (vs_insert s VS_CORRECT_SHARES) n \<longleftrightarrow> bit s n \<or> n = 3"
  "bit (vs_insert s VS_MEDIAN_TIMESTAMP) n \<longleftrightarrow> bit s n \<or> n = 4"
proof -
  have *: "bit (s OR 2 ^ k) n \<longleftrightarrow> bit s n \<or> n = k" if "k < 8" for k
    using that by (auto simp: bit_simps)
  show "bit (vs_insert s VS_PARENTS) n \<longleftrightarrow> bit s n \<or> n = 0"
    "bit (vs_insert s VS_TARGET_DIFFICULTY) n \<longleftrightarrow> bit s n \<or> n = 1"
    "bit (vs_insert s VS_DIFFICULTY) n \<longleftrightarrow> bit s n \<or> n = 2"
    "bit (vs_insert s VS_CORRECT_SHARES) n \<longleftrightarrow> bit s n \<or> n = 3"
    "bit (vs_insert s VS_MEDIAN_TIMESTAMP) n \<longleftrightarrow> bit s n \<or> n = 4"
    using * [of 0] * [of 1] * [of 2] * [of 3] * [of 4]
    by (simp_all add: vs_insert_def vs_flag_defs)
qed

lemma has_set_simps [simp]:
  "has_parents (set_has_parents s)"
  "has_parents (set_target_difficulty_verified s) = has_parents s"
  "has_parents (set_difficulty_verified s) = has_parents s"
  "has_parents (set_median_timestamp s) = has_parents s"
  "has_parents (set_correct_shares s) = has_parents s"
  "has_target_difficulty_verified (set_target_difficulty_verified s)"
  "has_target_difficulty_verified (set_has_parents s) = has_target_difficulty_verified s"
  "has_target_difficulty_verified (set_difficulty_verified s) = has_target_difficulty_verified s"
  "has_target_difficulty_verified (set_median_timestamp s) = has_target_difficulty_verified s"
  "has_target_difficulty_verified (set_correct_shares s) = has_target_difficulty_verified s"
  "has_difficulty_verified (set_difficulty_verified s)"
  "has_difficulty_verified (set_has_parents s) = has_difficulty_verified s"
  "has_difficulty_verified (set_target_difficulty_verified s) = has_difficulty_verified s"
  "has_difficulty_verified (set_median_timestamp s) = has_difficulty_verified s"
  "has_difficulty_verified (set_correct_shares s) = has_difficulty_verified s"
  "has_median_timestamp (set_median_timestamp s)"
  "has_median_timestamp (set_has_parents s) = has_median_timestamp s"
  "has_median_timestamp (set_target_difficulty_verified s) = has_median_timestamp s"
  "has_median_timestamp (set_difficulty_verified s) = has_median_timestamp s"
  "has_median_timestamp (set_correct_shares s) = has_median_timestamp s"
  "has_correct_shares (set_correct_shares s)"
  "has_correct_shares (set_has_parents s) = has_correct_shares s"
  "has_correct_shares (set_target_difficulty_verified s) = has_correct_shares s"
  "has_correct_shares (set_difficulty_verified s) = has_correct_shares s"
  "has_correct_shares (set_median_timestamp s) = has_correct_shares s"
  by (simp_all add: has_defs set_defs vs_contains_bits vs_insert_bits)

lemma is_verified_iff:
  "is_verified s \<longleftrightarrow> has_parents s \<and> has_target_difficulty_verified s \<and> has_difficulty_verified s
     \<and> has_median_timestamp s \<and> has_correct_shares s"
  by (simp add: is_verified_def has_defs)

lemma vs_new_has_none [simp]:
  "\<not> has_parents vs_new" "\<not> has_target_difficulty_verified vs_new"
  "\<not> has_difficulty_verified vs_new" "\<not> has_median_timestamp vs_new"
  "\<not> has_correct_shares vs_new" "\<not> is_verified vs_new"
  by (simp_all add: is_verified_iff has_defs vs_contains_bits vs_new_def)

text \<open>\<open>Display for VerifiedStatus\<close>.\<close>

fun join_strings :: "string \<Rightarrow> string list \<Rightarrow> string" where
  "join_strings sep [] = []"
| "join_strings sep [s] = s"
| "join_strings sep (s # ss) = s @ sep @ join_strings sep ss"

definition vs_names :: "verified_status \<Rightarrow> string list" where
  "vs_names s =
     (if has_parents s then [''Parents''] else [])
   @ (if has_target_difficulty_verified s then [''Target Difficulty''] else [])
   @ (if has_difficulty_verified s then [''Achieved Difficulty''] else [])
   @ (if has_median_timestamp s then [''Median Timestamp''] else [])
   @ (if has_correct_shares s then [''Correct Shares''] else [])"

definition vs_display :: "verified_status \<Rightarrow> string" where
  "vs_display s = (if vs_names s = [] then ''Has verified: none''
                   else ''Has verified: '' @ join_strings '', '' (vs_names s))"

section \<open>P2Block\<close>

record p2block =
  b_version :: u64
  b_squad :: string
  b_hash :: block_hash
  b_timestamp :: epoch_time
  b_prev_hash :: block_hash
  b_height :: u64
  b_original_header :: block_header
  b_coinbases :: "transaction_output list"
  b_other_output_hash :: fixed_hash
  b_miner_wallet_address :: tari_address
  b_sent_to_main_chain :: bool
  b_target_difficulty :: difficulty
  b_uncles :: "uncle_ref list"
  b_miner_coinbase_extra :: bytes
  b_verified :: verified_status
  b_total_pow :: accumulated_difficulty

definition default_block :: "'l ext \<Rightarrow> epoch_time \<Rightarrow> p2block" where
  "default_block e now = \<lparr>
     b_version = PROTOCOL_VERSION, b_squad = ''NoSquad'', b_hash = zero_hash,
     b_timestamp = now, b_prev_hash = zero_hash, b_height = 0,
     b_original_header = new_block_header e 0, b_coinbases = [], b_other_output_hash = 0,
     b_miner_wallet_address = default_address e, b_sent_to_main_chain = False,
     b_target_difficulty = difficulty_min e, b_uncles = [], b_miner_coinbase_extra = [],
     b_verified = vs_new, b_total_pow = acc_default e\<rparr>"

definition generate_hash :: "'l ext \<Rightarrow> p2block \<Rightarrow> block_hash" where
  "generate_hash e b = consensus_hash e
     [HHash (b_prev_hash b), HStr (b_squad b), HU64 (b_version b), HU64 (b_timestamp b),
      HU64 (b_height b), HBytes (b_miner_wallet_address b), HHeader (b_original_header b),
      HU64 (b_target_difficulty b), HUncles (b_uncles b), HBytes (b_miner_coinbase_extra b),
      HU128 (b_total_pow b)]"

definition fix_hash :: "'l ext \<Rightarrow> p2block \<Rightarrow> p2block" where
  "fix_hash e b = b\<lparr>b_hash := generate_hash e b\<rparr>"

text \<open>
  The first assignment to \<open>total_pow\<close> stays when the subtraction fails, as in the source.
\<close>

definition change_target_difficulty ::
    "'l ext \<Rightarrow> p2block \<Rightarrow> difficulty \<Rightarrow> p2block \<times> unit sc_result" where
  "change_target_difficulty e b d =
     (case acc_checked_add e (b_total_pow b) d of
        None \<Rightarrow> (b, Err DifficultyOverflow)
      | Some p \<Rightarrow>
          (let b = b\<lparr>b_total_pow := p\<rparr> in
           case acc_checked_sub e (b_total_pow b) (b_target_difficulty b) of
             None \<Rightarrow> (b, Err DifficultyOverflow)
           | Some q \<Rightarrow>
               (fix_hash e (b\<lparr>b_total_pow := q, b_target_difficulty := d\<rparr>), Ok ())))"

definition get_miner_coinbase_extra :: "'l ext \<Rightarrow> p2block \<Rightarrow> bytes" where
  "get_miner_coinbase_extra e b =
     (let own_script = [PushPubKey (public_spend_key e (b_miner_wallet_address b))] in
      case find (\<lambda>c. to_script c = own_script) (b_coinbases b) of
        None \<Rightarrow> []
      | Some c \<Rightarrow> to_coinbase_extra c)"

definition populate_tari_data :: "'l ext \<Rightarrow> p2block \<Rightarrow> tari_block \<Rightarrow> p2block \<times> unit sc_result" where
  "populate_tari_data e b t =
     (let b = b\<lparr>b_coinbases := get_coinbase_outputs e (tb_body t)\<rparr> in
      case header_normal_output_mr e (tb_body t) of
        Inl reason \<Rightarrow> (b, Err (InvalidBlock reason))
      | Inr mr \<Rightarrow> (b\<lparr>b_other_output_hash := mr, b_original_header := tb_header t\<rparr>, Ok ()))"

definition block_algo :: "p2block \<Rightarrow> pow_algorithm" where
  "block_algo b = bh_pow_algo (b_original_header b)"

section \<open>P2BlockBuilder\<close>

record p2block_builder =
  bb_block :: p2block
  bb_use_specific_hash :: bool
  bb_added_target_difficulty :: bool

definition builder_new ::
    "'l ext \<Rightarrow> epoch_time \<Rightarrow> (fixed_hash \<times> accumulated_difficulty) option \<Rightarrow> p2block_builder" where
  "builder_new e now prev =
     (let block = default_block e now;
          block = (case prev of
                     Some (prev_block_hash, total_pow) \<Rightarrow>
                       block\<lparr>b_prev_hash := prev_block_hash, b_total_pow := total_pow\<rparr>
                   | None \<Rightarrow> block\<lparr>b_prev_hash := zero_hash, b_total_pow := acc_default e\<rparr>)
      in \<lparr>bb_block = block, bb_use_specific_hash = False, bb_added_target_difficulty = False\<rparr>)"

definition builder_new_from_block ::
    "'l ext \<Rightarrow> epoch_time \<Rightarrow> p2block option \<Rightarrow> p2block_builder" where
  "builder_new_from_block e now block_arg =
     (let block = default_block e now;
          block = (case block_arg of
                     Some b \<Rightarrow> block\<lparr>b_prev_hash := b_hash b, b_total_pow := b_total_pow b\<rparr>
                   | None \<Rightarrow> block)
      in \<lparr>bb_block = block, bb_use_specific_hash = False, bb_added_target_difficulty = False\<rparr>)"

definition with_squad :: "string \<Rightarrow> p2block_builder \<Rightarrow> p2block_builder" where
  "with_squad s bb = bb\<lparr>bb_block := (bb_block bb)\<lparr>b_squad := s\<rparr>\<rparr>"

definition with_timestamp :: "epoch_time \<Rightarrow> p2block_builder \<Rightarrow> p2block_builder" where
  "with_timestamp t bb = bb\<lparr>bb_block := (bb_block bb)\<lparr>b_timestamp := t\<rparr>\<rparr>"

definition with_height :: "u64 \<Rightarrow> p2block_builder \<Rightarrow> p2block_builder" where
  "with_height h bb = bb\<lparr>bb_block := (bb_block bb)\<lparr>b_height := h\<rparr>\<rparr>"

definition with_tari_block ::
    "'l ext \<Rightarrow> tari_block \<Rightarrow> p2block_builder \<Rightarrow> p2block_builder sc_result" where
  "with_tari_block e t bb =
     (case populate_tari_data e (bb_block bb) t of
        (b, Ok ()) \<Rightarrow> Ok (bb\<lparr>bb_block := b\<rparr>)
      | (b, Err err) \<Rightarrow> Err err
      | (b, Panic) \<Rightarrow> Panic
      | (b, Diverge) \<Rightarrow> Diverge)"

definition with_miner_wallet_address :: "tari_address \<Rightarrow> p2block_builder \<Rightarrow> p2block_builder" where
  "with_miner_wallet_address a bb = bb\<lparr>bb_block := (bb_block bb)\<lparr>b_miner_wallet_address := a\<rparr>\<rparr>"

definition with_miner_coinbase_extra :: "bytes \<Rightarrow> p2block_builder \<Rightarrow> p2block_builder" where
  "with_miner_coinbase_extra x bb = bb\<lparr>bb_block := (bb_block bb)\<lparr>b_miner_coinbase_extra := x\<rparr>\<rparr>"

definition with_uncles :: "'l ext \<Rightarrow> p2block list \<Rightarrow> p2block_builder \<Rightarrow> p2block_builder sc_result" where
  "with_uncles e uncles bb =
     bindO (foldO (\<lambda>u (refs, pow).
                     bindO (ok_or DifficultyOverflow (acc_checked_add e pow (b_target_difficulty u)))
                       (\<lambda>pow'. Ok (refs @ [(b_height u, b_hash u)], pow')))
                  uncles ([], b_total_pow (bb_block bb)))
       (\<lambda>(refs, pow). Ok (bb\<lparr>bb_block := (bb_block bb)\<lparr>b_total_pow := pow, b_uncles := refs\<rparr>\<rparr>))"

definition build :: "'l ext \<Rightarrow> p2block_builder \<Rightarrow> p2block sc_result" where
  "build e bb =
     (let b = bb_block bb in
      bindO (if \<not> bb_added_target_difficulty bb \<or> b_prev_hash b = zero_hash
             then if b_prev_hash b = zero_hash
                  then bindO (ok_or DifficultyOverflow
                                (acc_from_u128 e (ucast (b_target_difficulty b))))
                         (\<lambda>p. Ok (b\<lparr>b_total_pow := p\<rparr>))
                  else bindO (ok_or DifficultyOverflow
                                (acc_checked_add e (b_total_pow b) (b_target_difficulty b)))
                         (\<lambda>p. Ok (b\<lparr>b_total_pow := p\<rparr>))
             else Ok b)
        (\<lambda>b. Ok (if \<not> bb_use_specific_hash bb then b\<lparr>b_hash := generate_hash e b\<rparr> else b)))"

section \<open>Building a block\<close>

lemma change_target_Ok:
  assumes "acc_arith e" "change_target_difficulty e b d = (b', Ok ())"
  shows "\<exists>q. b' = fix_hash e (b\<lparr>b_total_pow := q, b_target_difficulty := d\<rparr>)
    \<and> unat q + unat (b_target_difficulty b) = unat (b_total_pow b) + unat d"
proof -
  obtain p q where p: "acc_checked_add e (b_total_pow b) d = Some p"
    and q: "acc_checked_sub e p (b_target_difficulty b) = Some q"
    and b': "b' = fix_hash e (b\<lparr>b_total_pow := q, b_target_difficulty := d\<rparr>)"
    using assms(2) by (auto simp: change_target_difficulty_def Let_def split: option.split_asm)
  from acc_addD [OF assms(1) p] acc_subD [OF assms(1) q] b' show ?thesis by auto
qed

lemma with_uncles_Ok:
  assumes "acc_arith e" "with_uncles e us bb = Ok bb'"
  shows "\<exists>p. bb' = bb\<lparr>bb_block := (bb_block bb)\<lparr>b_total_pow := p,
              b_uncles := map (\<lambda>u. (b_height u, b_hash u)) us\<rparr>\<rparr>
    \<and> unat p = unat (b_total_pow (bb_block bb)) + (\<Sum>u\<leftarrow>us. unat (b_target_difficulty u))"
proof -
  let ?f = "\<lambda>u (refs, pow).
           bindO (ok_or DifficultyOverflow (acc_checked_add e pow (b_target_difficulty u)))
             (\<lambda>pow'. Ok (refs @ [(b_height u, b_hash u)], pow'))"
  have f: "foldO ?f us (r0, p0) = Ok (r, p) \<Longrightarrow>
      r = r0 @ map (\<lambda>u. (b_height u, b_hash u)) us \<and> unat p = unat p0 + (\<Sum>u\<leftarrow>us. unat (b_target_difficulty u))" for r0 p0 r p
  proof (induction us arbitrary: r0 p0)
    case (Cons u us)
    then obtain p1 where p1: "acc_checked_add e p0 (b_target_difficulty u) = Some p1"
      and rest: "foldO ?f us (r0 @ [(b_height u, b_hash u)], p1) = Ok (r, p)"
      by auto
    from Cons.IH [OF rest] acc_addD [OF assms(1) p1] show ?case by simp
  qed simp
  obtain r p where rp: "foldO ?f us ([], b_total_pow (bb_block bb)) = Ok (r, p)"
    "bb' = bb\<lparr>bb_block := (bb_block bb)\<lparr>b_total_pow := p, b_uncles := r\<rparr>\<rparr>"
    using assms(2) by (auto simp: with_uncles_def)
  from f [OF rp(1)] rp(2) show ?thesis by auto
qed

lemma build_Ok:
  assumes "acc_arith e" "build e bb = Ok b" "\<not> bb_use_specific_hash bb" "\<not> bb_added_target_difficulty bb"
    and "b_prev_hash (bb_block bb) \<noteq> zero_hash"
  shows "\<exists>p. b = fix_hash e ((bb_block bb)\<lparr>b_total_pow := p\<rparr>)
    \<and> unat p = unat (b_total_pow (bb_block bb)) + unat (b_target_difficulty (bb_block bb))"
proof -
  obtain p where p: "acc_checked_add e (b_total_pow (bb_block bb)) (b_target_difficulty (bb_block bb)) = Some p"
    "b = fix_hash e ((bb_block bb)\<lparr>b_total_pow := p\<rparr>)"
    using assms(2-) by (auto simp: build_def Let_def fix_hash_def)
  from acc_addD [OF assms(1) p(1)] p(2) show ?thesis by auto
qed

end
