(* ===== verification/BlockCache.thy ===== *)
theory BlockCache
  imports P2Block
begin

text \<open>
  \<open>sharechain/lmdb_block_storage.rs\<close>. The trait \<open>BlockCache\<close> is the locale
  \<open>block_cache\<close>; the chain is verified over the store \<open>cache_get\<close>,
  \<open>cache_insert\<close>, \<open>cache_delete\<close>, \<open>cache_all_blocks\<close>, which is interpreted as an
  instance of it. \<open>LmdbBlockStorage\<close> is modelled in full, with its write that retries
  and doubles the map when LMDB reports \<open>MapFull\<close> and its start-up migration, and is
  shown to implement that store (\<open>lmdb_abs\<close>) whenever ten attempts are enough.

  LMDB itself (package \<open>rkv\<close>) and \<open>bincode\<close> are not in the repository: what they
  answer is the record \<open>lmdb_ext\<close>.
\<close>

section \<open>The trait\<close>

locale block_cache = keyed_store get put del ok
  for get :: "'m \<Rightarrow> block_hash \<Rightarrow> p2block option" and put :: "block_hash \<Rightarrow> p2block \<Rightarrow> 'm \<Rightarrow> 'm"
    and del :: "block_hash \<Rightarrow> 'm \<Rightarrow> 'm" and ok :: "'m \<Rightarrow> bool" +
  fixes all_blocks :: "'m \<Rightarrow> p2block list"
  assumes all_blocks_set: "ok m \<Longrightarrow> set (all_blocks m) = {b. \<exists>h. get m h = Some b}"
begin

text \<open>
  The users of a cache only ever store a block under the block's own hash. This is kept by
  every operation they use, so a lookup returns a block with the hash asked for.
\<close>

definition keyed :: "'m \<Rightarrow> bool" where
  "keyed m \<longleftrightarrow> ok m \<and> (\<forall>h b. get m h = Some b \<longrightarrow> b_hash b = h)"

lemma keyed_put: "keyed m \<Longrightarrow> keyed (put (b_hash b) b m)"
  by (auto simp: keyed_def ok_put get_put split: if_splits)

lemma keyed_fold_del: "keyed m \<Longrightarrow> keyed (fold del hs m)"
  by (auto simp: keyed_def ok_fold_del get_fold_del split: if_splits)

lemma keyed_get: "keyed m \<Longrightarrow> get m h = Some b \<Longrightarrow> b_hash b = h"
  by (simp add: keyed_def)

lemma all_blocks_put:
  "keyed m \<Longrightarrow> b \<in> set (all_blocks (put (b_hash b) b m))"
  by (auto simp: all_blocks_set keyed_def ok_put get_put)

lemma all_blocks_del:
  "keyed m \<Longrightarrow> b \<in> set (all_blocks (del h m)) \<Longrightarrow> b_hash b \<noteq> h"
  by (auto simp: all_blocks_set keyed_def ok_del get_del split: if_splits)

end

section \<open>The store of the chain\<close>

type_synonym block_store = "(block_hash, p2block) hmap"

definition cache_get :: "block_store \<Rightarrow> block_hash \<Rightarrow> p2block option" where
  "cache_get s h = hm_get s h"

definition cache_insert :: "block_hash \<Rightarrow> p2block \<Rightarrow> block_store \<Rightarrow> block_store" where
  "cache_insert h b s = hm_insert h b s"

definition cache_delete :: "block_hash \<Rightarrow> block_store \<Rightarrow> block_store" where
  "cache_delete h s = hm_remove h s"

definition cache_all_blocks :: "block_store \<Rightarrow> p2block list" where
  "cache_all_blocks s = sort_key b_height (hm_values s)"

interpretation bc: block_cache cache_get cache_insert cache_delete hm_ok cache_all_blocks
proof unfold_locales
  fix m :: block_store assume "hm_ok m"
  then show "set (cache_all_blocks m) = {b. \<exists>h. cache_get m h = Some b}"
    by (force simp: cache_all_blocks_def cache_get_def hm_ok_get image_iff)
qed (auto simp: cache_get_def cache_insert_def cache_delete_def hm.ok_put hm.ok_del)

lemma cache_get_insert [simp]:
  "cache_get (cache_insert h b s) h' = (if h' = h then Some b else cache_get s h')"
  by (simp add: cache_get_def cache_insert_def)

lemma cache_get_delete [simp]:
  "cache_get (cache_delete h s) h' = (if h' = h then None else cache_get s h')"
  by (simp add: cache_get_def cache_delete_def)

section \<open>LmdbBlockStorage\<close>

datatype lmdb_value = Blob bytes | Str string | OtherValue

datatype put_result = PutOk | MapFull | StoreFailure

type_synonym lmdb_store = "(block_hash, lmdb_value) hmap"

record lmdb_env =
  db_block_cache :: lmdb_store
  db_block_cache_v2 :: lmdb_store
  db_migrations :: "(bytes, lmdb_value) hmap"
  db_map_size :: u64

text \<open>
  \<open>lx_put size h v s\<close> is what \<open>put\<close> followed by \<open>commit\<close> answers for the entry
  \<open>(h, v)\<close> in a map of that size holding \<open>s\<close>; \<open>lx_set_map_size\<close> says whether the map
  can be given a size, \<open>lx_delete\<close> and \<open>lx_commit_delete\<close> whether the deletion of an entry
  and its commit succeed.
\<close>

record lmdb_ext =
  lx_serialize :: "p2block \<Rightarrow> bytes"
  lx_deserialize :: "bytes \<Rightarrow> p2block option"
  lx_put :: "u64 \<Rightarrow> block_hash \<Rightarrow> lmdb_value \<Rightarrow> lmdb_store \<Rightarrow> put_result"
  lx_set_map_size :: "u64 \<Rightarrow> bool"
  lx_delete :: "block_hash \<Rightarrow> lmdb_store \<Rightarrow> bool"
  lx_commit_delete :: "block_hash \<Rightarrow> lmdb_store \<Rightarrow> bool"

definition MIGRATION_01 :: string where "MIGRATION_01 = ''01_remove_block_cache''"

fun read_migrations :: "(bytes \<times> lmdb_value) list \<Rightarrow> (string, string list) outcome" where
  "read_migrations [] = Ok []"
| "read_migrations ((k, Str s) # ms) = bindO (read_migrations ms) (\<lambda>ss. Ok (s # ss))"
| "read_migrations ((k, _) # ms) = Panic"

definition lmdb_new_from_path :: "lmdb_env \<Rightarrow> lmdb_env \<times> (string, unit) outcome" where
  "lmdb_new_from_path env =
     (case read_migrations (db_migrations env) of
        Ok migrations \<Rightarrow>
          if MIGRATION_01 \<notin> set migrations
          then (env\<lparr>db_block_cache := [],
                    db_migrations := hm_insert [1, 0] (Str MIGRATION_01) (db_migrations env)\<rparr>, Ok ())
          else (env, Ok ())
      | Err e \<Rightarrow> (env, Err e) | Panic \<Rightarrow> (env, Panic) | Diverge \<Rightarrow> (env, Diverge))"

definition lmdb_get :: "lmdb_ext \<Rightarrow> lmdb_env \<Rightarrow> block_hash \<Rightarrow> (string, p2block option) outcome" where
  "lmdb_get x env h =
     (case hm_get (db_block_cache_v2 env) h of
        Some (Blob b) \<Rightarrow> bindO (unwrap (lx_deserialize x b)) (\<lambda>blk. Ok (Some blk))
      | Some _ \<Rightarrow> Ok None
      | None \<Rightarrow> Ok None)"

text \<open>A failed deletion is unwrapped, a failed commit of one only logged.\<close>

definition lmdb_delete :: "lmdb_ext \<Rightarrow> block_hash \<Rightarrow> lmdb_env \<Rightarrow> lmdb_env \<times> (string, unit) outcome" where
  "lmdb_delete x h env =
     (if \<not> lx_delete x h (db_block_cache_v2 env) then (env, Panic)
      else if lx_commit_delete x h (db_block_cache_v2 env)
      then (env\<lparr>db_block_cache_v2 := hm_remove h (db_block_cache_v2 env)\<rparr>, Ok ())
      else (env, Ok ()))"

definition resize_db :: "lmdb_ext \<Rightarrow> lmdb_env \<Rightarrow> lmdb_env \<times> (string, unit) outcome" where
  "resize_db x env =
     (let size = db_map_size env in
      if unat size * 2 < 2 ^ 64
      then let new_size = size * 2 in
           if lx_set_map_size x new_size then (env\<lparr>db_map_size := new_size\<rparr>, Ok ())
           else (env, Panic)
      else (env, Panic))"

text \<open>
  The loop \<open>for retry in 0..10\<close>; \<open>next_resize\<close> is never reset once it was set. When
  the attempts are used up the call returns as if it had succeeded.
\<close>

fun lmdb_insert_loop ::
    "lmdb_ext \<Rightarrow> nat \<Rightarrow> bool \<Rightarrow> block_hash \<Rightarrow> p2block \<Rightarrow> lmdb_env \<Rightarrow> lmdb_env \<times> (string, unit) outcome" where
  "lmdb_insert_loop x 0 next_resize h b env = (env, Ok ())"
| "lmdb_insert_loop x (Suc n) next_resize h b env =
     bindS (if next_resize then resize_db x env else (env, Ok ()))
       (\<lambda>env _.
          let v = Blob (lx_serialize x b) in
          case lx_put x (db_map_size env) h v (db_block_cache_v2 env) of
            PutOk \<Rightarrow> (env\<lparr>db_block_cache_v2 := hm_insert h v (db_block_cache_v2 env)\<rparr>, Ok ())
          | MapFull \<Rightarrow> lmdb_insert_loop x n True h b env
          | StoreFailure \<Rightarrow> (env, Panic))"

definition lmdb_insert ::
    "lmdb_ext \<Rightarrow> block_hash \<Rightarrow> p2block \<Rightarrow> lmdb_env \<Rightarrow> lmdb_env \<times> (string, unit) outcome" where
  "lmdb_insert x h b env = lmdb_insert_loop x 10 False h b env"

fun read_blocks :: "lmdb_ext \<Rightarrow> (block_hash \<times> lmdb_value) list \<Rightarrow> (string, p2block list) outcome" where
  "read_blocks x [] = Ok []"
| "read_blocks x ((h, Blob b) # es) =
     bindO (unwrap (lx_deserialize x b)) (\<lambda>blk. bindO (read_blocks x es) (\<lambda>bs. Ok (blk # bs)))"
| "read_blocks x ((h, _) # es) = Err ''Invalid block in storage''"

definition lmdb_all_blocks :: "lmdb_ext \<Rightarrow> lmdb_env \<Rightarrow> (string, p2block list) outcome" where
  "lmdb_all_blocks x env =
     bindO (read_blocks x (db_block_cache_v2 env)) (\<lambda>res. Ok (sort_key b_height res))"

section \<open>LMDB implements the store\<close>

text \<open>
  A map whose entries are all blobs that \<open>bincode\<close> can read stands for the store of the
  decoded blocks.
\<close>

fun decode_entries :: "lmdb_ext \<Rightarrow> lmdb_store \<Rightarrow> block_store option" where
  "decode_entries x [] = Some []"
| "decode_entries x ((h, Blob b) # es) =
     (case (lx_deserialize x b, decode_entries x es) of
        (Some blk, Some s) \<Rightarrow> Some ((h, blk) # s)
      | _ \<Rightarrow> None)"
| "decode_entries x ((h, _) # es) = None"

definition lmdb_abs :: "lmdb_ext \<Rightarrow> lmdb_env \<Rightarrow> block_store option" where
  "lmdb_abs x env = decode_entries x (db_block_cache_v2 env)"

definition bincode_roundtrip :: "lmdb_ext \<Rightarrow> p2block \<Rightarrow> bool" where
  "bincode_roundtrip x b \<longleftrightarrow> lx_deserialize x (lx_serialize x b) = Some b"

lemma decode_get:
  "decode_entries x es = Some s \<Longrightarrow>
   (case hm_get es h of
      Some (Blob b) \<Rightarrow> bindO (unwrap (lx_deserialize x b)) (\<lambda>blk. Ok (Some blk))
    | Some _ \<Rightarrow> Ok None | None \<Rightarrow> Ok None) = (Ok (hm_get s h) :: (string, p2block option) outcome)"
  by (induction x es arbitrary: s rule: decode_entries.induct) (auto split: option.splits)

lemma decode_insert:
  "decode_entries x es = Some s \<Longrightarrow> bincode_roundtrip x b \<Longrightarrow>
   decode_entries x (hm_insert h (Blob (lx_serialize x b)) es) = Some (hm_insert h b s)"
  by (induction x es arbitrary: s rule: decode_entries.induct)
    (auto simp: bincode_roundtrip_def split: option.splits)

lemma decode_remove:
  "decode_entries x es = Some s \<Longrightarrow> decode_entries x (hm_remove h es) = Some (hm_remove h s)"
  by (induction x es arbitrary: s rule: decode_entries.induct) (auto split: option.splits)

lemma decode_read: "decode_entries x es = Some s \<Longrightarrow> read_blocks x es = Ok (hm_values s)"
  by (induction x es arbitrary: s rule: decode_entries.induct) (auto split: option.splits)

text \<open>The sizes the retry loop tries: the current one, then its doublings.\<close>

definition doublings_possible :: "lmdb_ext \<Rightarrow> u64 \<Rightarrow> nat \<Rightarrow> bool" where
  "doublings_possible x sz k \<longleftrightarrow>
     unat sz * 2 ^ k < 2 ^ 64 \<and> (\<forall>i\<le>k. 0 < i \<longrightarrow> lx_set_map_size x (sz * 2 ^ i))"

lemma doublings_Suc:
  assumes "doublings_possible x sz (Suc k)"
  shows "unat sz * 2 < 2 ^ 64" "lx_set_map_size x (sz * 2)" "doublings_possible x (sz * 2) k"
proof -
  have b: "unat sz * 2 ^ Suc k < 2 ^ 64"
    and s: "\<And>i. i \<le> Suc k \<Longrightarrow> 0 < i \<Longrightarrow> lx_set_map_size x (sz * 2 ^ i)"
    using assms by (auto simp: doublings_possible_def)
  have "unat sz * 2 * 1 \<le> unat sz * 2 * 2 ^ k"
    by (rule mult_le_mono2) simp
  also have "\<dots> < 2 ^ 64" using b by (simp only: power_Suc mult.assoc)
  finally show le: "unat sz * 2 < 2 ^ 64" by (simp only: mult_1_right)
  then have u: "unat (sz * 2) = unat sz * 2"
    by (simp add: unat_word_ariths)
  show "lx_set_map_size x (sz * 2)" using s [of 1] by simp
  have "lx_set_map_size x (sz * 2 * 2 ^ i)" if "i \<le> k" "0 < i" for i
    using s [of "Suc i"] that by (simp add: mult.assoc)
  with b u show "doublings_possible x (sz * 2) k"
    by (simp add: doublings_possible_def mult.assoc)
qed

lemma insert_loop_resized:
  assumes "\<And>i. i < k \<Longrightarrow> lx_put x (db_map_size env * 2 ^ Suc i) h (Blob (lx_serialize x b)) (db_block_cache_v2 env) = MapFull"
    and "lx_put x (db_map_size env * 2 ^ Suc k) h (Blob (lx_serialize x b)) (db_block_cache_v2 env) = PutOk"
    and "doublings_possible x (db_map_size env) (Suc k)" and "k < n"
  shows "lmdb_insert_loop x n True h b env =
    (env\<lparr>db_map_size := db_map_size env * 2 ^ Suc k,
         db_block_cache_v2 := hm_insert h (Blob (lx_serialize x b)) (db_block_cache_v2 env)\<rparr>, Ok ())"
  using assms
proof (induction k arbitrary: n env)
  case 0
  then obtain m where n: "n = Suc m" by (cases n) auto
  note d = doublings_Suc [OF "0.prems"(3)]
  show ?case
    using "0.prems"(2) d by (simp add: n resize_db_def Let_def)
next
  case (Suc k)
  then obtain m where n: "n = Suc m" by (cases n) auto
  note d = doublings_Suc [OF Suc.prems(3)]
  let ?env = "env\<lparr>db_map_size := db_map_size env * 2\<rparr>"
  have "lmdb_insert_loop x m True h b ?env =
    (?env\<lparr>db_map_size := db_map_size ?env * 2 ^ Suc k,
         db_block_cache_v2 := hm_insert h (Blob (lx_serialize x b)) (db_block_cache_v2 ?env)\<rparr>, Ok ())"
  proof (rule Suc.IH)
    fix i assume "i < k"
    then show "lx_put x (db_map_size ?env * 2 ^ Suc i) h (Blob (lx_serialize x b)) (db_block_cache_v2 ?env) = MapFull"
      using Suc.prems(1) [of "Suc i"] by (simp add: mult.assoc)
  qed (use Suc.prems(2,4) d n in \<open>simp_all add: mult.assoc\<close>)
  moreover have "lx_put x (db_map_size env * 2) h (Blob (lx_serialize x b)) (db_block_cache_v2 env) = MapFull"
    using Suc.prems(1) [of 0] by simp
  ultimately show ?case
    using d by (simp add: n resize_db_def Let_def mult.assoc)
qed

text \<open>
  The write as a whole: if the entry fits after \<open>k\<close> doublings, and not before, and
  \<open>k\<close> is at most nine, it is stored and the map has grown to that sz.
\<close>

lemma lmdb_insert_fits:
  assumes "\<And>i. i < k \<Longrightarrow> lx_put x (db_map_size env * 2 ^ i) h (Blob (lx_serialize x b)) (db_block_cache_v2 env) = MapFull"
    and "lx_put x (db_map_size env * 2 ^ k) h (Blob (lx_serialize x b)) (db_block_cache_v2 env) = PutOk"
    and "doublings_possible x (db_map_size env) k" and "k \<le> 9"
  shows "lmdb_insert x h b env =
    (env\<lparr>db_map_size := db_map_size env * 2 ^ k,
         db_block_cache_v2 := hm_insert h (Blob (lx_serialize x b)) (db_block_cache_v2 env)\<rparr>, Ok ())"
proof (cases k)
  case 0
  with assms(2) show ?thesis
    by (simp add: lmdb_insert_def eval_nat_numeral Let_def)
next
  case (Suc j)
  have "lmdb_insert_loop x 9 True h b env =
    (env\<lparr>db_map_size := db_map_size env * 2 ^ Suc j,
         db_block_cache_v2 := hm_insert h (Blob (lx_serialize x b)) (db_block_cache_v2 env)\<rparr>, Ok ())"
  proof (rule insert_loop_resized)
    show "lx_put x (db_map_size env * 2 ^ Suc i) h (Blob (lx_serialize x b)) (db_block_cache_v2 env) = MapFull"
      if "i < j" for i
      using assms(1) [of "Suc i"] that Suc by simp
  qed (use assms Suc in simp_all)
  moreover have "lx_put x (db_map_size env) h (Blob (lx_serialize x b)) (db_block_cache_v2 env) = MapFull"
    using assms(1) [of 0] Suc by simp
  moreover have "lmdb_insert x h b env = lmdb_insert_loop x (Suc 9) False h b env"
    by (simp only: lmdb_insert_def) (simp only: eval_nat_numeral BitM.simps)
  ultimately show ?thesis
    by (simp only: lmdb_insert_loop.simps if_False bindS.simps Let_def put_result.simps Suc)
qed

text \<open>A write that never fits is dropped without an error.\<close>

lemma insert_loop_never:
  assumes "\<And>s. lx_put x s h (Blob (lx_serialize x b)) (db_block_cache_v2 env) = MapFull"
    and "lmdb_insert_loop x n r h b env = (env', Ok ())"
  shows "db_block_cache_v2 env' = db_block_cache_v2 env"
  using assms
proof (induction n arbitrary: r env)
  case (Suc n)
  have step: "lmdb_insert_loop x n True h b env1 = (env', Ok ())
      \<and> db_block_cache_v2 env1 = db_block_cache_v2 env"
    if "(if r then resize_db x env else (env, Ok ())) = (env1, Ok u)" for env1 u
    using that Suc.prems
    by (auto simp: resize_db_def Let_def bindS_Ok split: if_splits)
  obtain env1 u where e1: "(if r then resize_db x env else (env, Ok ())) = (env1, Ok u)"
    using Suc.prems(2) by (auto simp: bindS_Ok simp del: One_nat_def)
  show ?case
    using Suc.IH [of env1 True] step [OF e1] Suc.prems(1) by simp
qed simp


end
