(* ===== verification/ChainLevel.thy ===== *)
theory ChainLevel
  imports BlockCache
begin

text \<open>
  \<open>sharechain/p2chain_level.rs\<close>: all known blocks of one height. A level keeps the
  headers of its blocks and the hash of the one on the main chain (zero when there is
  none); the blocks themselves are in the block cache, which all levels share. The shared
  cache is passed to and returned from the operations that touch it.
\<close>

record p2block_header =
  hd_height :: u64
  hd_hash :: fixed_hash
  hd_prev_hash :: fixed_hash
  hd_timestamp :: epoch_time
  hd_target_difficulty :: difficulty
  hd_total_pow :: accumulated_difficulty
  hd_verified :: verified_status
  hd_uncles :: "uncle_ref list"
  hd_wallet_address :: tari_address
  hd_coinbase_extra :: bytes

record p2chain_level =
  lv_height :: u64
  lv_chain_block :: block_hash
  lv_block_headers :: "(block_hash, p2block_header) hmap"

definition header_of :: "p2block \<Rightarrow> p2block_header" where
  "header_of b = \<lparr>
     hd_height = b_height b, hd_hash = b_hash b, hd_prev_hash = b_prev_hash b,
     hd_timestamp = b_timestamp b, hd_target_difficulty = b_target_difficulty b,
     hd_total_pow = b_total_pow b, hd_verified = b_verified b, hd_uncles = b_uncles b,
     hd_wallet_address = b_miner_wallet_address b,
     hd_coinbase_extra = b_miner_coinbase_extra b\<rparr>"

lemma header_of_simps [simp]:
  "hd_height (header_of b) = b_height b" "hd_hash (header_of b) = b_hash b"
  "hd_prev_hash (header_of b) = b_prev_hash b" "hd_timestamp (header_of b) = b_timestamp b"
  "hd_target_difficulty (header_of b) = b_target_difficulty b"
  "hd_total_pow (header_of b) = b_total_pow b" "hd_verified (header_of b) = b_verified b"
  "hd_uncles (header_of b) = b_uncles b"
  "hd_wallet_address (header_of b) = b_miner_wallet_address b"
  "hd_coinbase_extra (header_of b) = b_miner_coinbase_extra b"
  by (simp_all add: header_of_def)

definition level_new :: "p2block \<Rightarrow> block_store \<Rightarrow> p2chain_level \<times> block_store" where
  "level_new block cache =
     (\<lparr>lv_height = b_height block, lv_chain_block = zero_hash,
       lv_block_headers = hm_insert (b_hash block) (header_of block) []\<rparr>,
      cache_insert (b_hash block) block cache)"

text \<open>A block appears once for each of its uncles with that hash, and once more as a child.\<close>

definition all_children_and_nephews_of :: "p2chain_level \<Rightarrow> fixed_hash \<Rightarrow> uncle_ref list" where
  "all_children_and_nephews_of l hash =
     concat (map (\<lambda>b. map (\<lambda>u. (hd_height b, hd_hash b)) (filter (\<lambda>u. snd u = hash) (hd_uncles b))
                      @ (if hd_prev_hash b = hash then [(hd_height b, hd_hash b)] else []))
                 (hm_values (lv_block_headers l)))"

definition level_get_prev_hash :: "p2chain_level \<Rightarrow> fixed_hash \<Rightarrow> fixed_hash option" where
  "level_get_prev_hash l hash = map_option hd_prev_hash (hm_get (lv_block_headers l) hash)"

definition level_get_uncles :: "p2chain_level \<Rightarrow> fixed_hash \<Rightarrow> uncle_ref list" where
  "level_get_uncles l hash =
     (case hm_get (lv_block_headers l) hash of None \<Rightarrow> [] | Some b \<Rightarrow> hd_uncles b)"

definition level_is_verified :: "p2chain_level \<Rightarrow> fixed_hash \<Rightarrow> bool" where
  "level_is_verified l hash =
     (case hm_get (lv_block_headers l) hash of None \<Rightarrow> False | Some b \<Rightarrow> is_verified (hd_verified b))"

definition set_chain_block :: "block_hash \<Rightarrow> p2chain_level \<Rightarrow> p2chain_level" where
  "set_chain_block hash l = l\<lparr>lv_chain_block := hash\<rparr>"

definition level_add_block ::
    "p2block \<Rightarrow> p2chain_level \<Rightarrow> block_store \<Rightarrow> (p2chain_level \<times> block_store) sc_result" where
  "level_add_block block l cache =
     (if lv_height l \<noteq> b_height block
      then Err (InvalidBlock ''Block height does not match the chain level height'')
      else Ok (l\<lparr>lv_block_headers := hm_insert (b_hash block) (header_of block) (lv_block_headers l)\<rparr>,
               cache_insert (b_hash block) block cache))"

definition level_get_header :: "p2chain_level \<Rightarrow> block_hash \<Rightarrow> p2block_header option" where
  "level_get_header l hash = hm_get (lv_block_headers l) hash"

definition block_header_in_main_chain :: "p2chain_level \<Rightarrow> p2block_header option" where
  "block_header_in_main_chain l = level_get_header l (lv_chain_block l)"

definition get_block_in_main_chain :: "p2chain_level \<Rightarrow> block_store \<Rightarrow> p2block option" where
  "get_block_in_main_chain l cache = cache_get cache (lv_chain_block l)"

definition level_get :: "p2chain_level \<Rightarrow> block_store \<Rightarrow> block_hash \<Rightarrow> p2block option" where
  "level_get l cache hash = cache_get cache hash"

definition level_contains :: "p2chain_level \<Rightarrow> block_hash \<Rightarrow> bool" where
  "level_contains l hash = hm_contains (lv_block_headers l) hash"

definition level_all_blocks :: "p2chain_level \<Rightarrow> block_store \<Rightarrow> p2block list" where
  "level_all_blocks l cache = List.map_filter (cache_get cache) (hm_keys (lv_block_headers l))"

definition level_all_headers :: "p2chain_level \<Rightarrow> p2block_header list" where
  "level_all_headers l = hm_values (lv_block_headers l)"

section \<open>Well-formed levels\<close>

text \<open>
  Every header is filed under its own hash and has the height of its level, and the main
  chain block of the level, if any, is one of its headers.
\<close>

definition level_wf :: "p2chain_level \<Rightarrow> bool" where
  "level_wf l \<longleftrightarrow> hm_ok (lv_block_headers l)
     \<and> (\<forall>k x. hm_get (lv_block_headers l) k = Some x \<longrightarrow> hd_hash x = k \<and> hd_height x = lv_height l)
     \<and> (lv_chain_block l = zero_hash \<or> level_contains l (lv_chain_block l))"

lemma level_wf_header:
  "level_wf l \<Longrightarrow> level_get_header l k = Some x \<Longrightarrow> hd_hash x = k \<and> hd_height x = lv_height l"
  by (simp add: level_wf_def level_get_header_def)

lemma level_wf_new: "level_wf (fst (level_new b cache))"
  by (simp add: level_wf_def level_new_def hm_ok_def)

lemma level_wf_add_block:
  "level_wf l \<Longrightarrow> level_add_block b l cache = Ok (l', cache') \<Longrightarrow> level_wf l'"
  by (auto simp: level_wf_def level_add_block_def level_contains_def hm_contains_def hm.ok_put
      split: if_splits)

lemma level_wf_set_chain_block:
  "level_wf l \<Longrightarrow> h = zero_hash \<or> level_contains l h \<Longrightarrow> level_wf (set_chain_block h l)"
  by (auto simp: level_wf_def set_chain_block_def level_contains_def)

lemma level_add_block_Ok:
  "level_add_block b l cache = Ok (l', cache') \<longleftrightarrow>
     lv_height l = b_height b
   \<and> l' = l\<lparr>lv_block_headers := hm_insert (b_hash b) (header_of b) (lv_block_headers l)\<rparr>
   \<and> cache' = cache_insert (b_hash b) b cache"
  by (auto simp: level_add_block_def)

lemma set_chain_block_simps [simp]:
  "lv_height (set_chain_block h l) = lv_height l"
  "lv_chain_block (set_chain_block h l) = h"
  "lv_block_headers (set_chain_block h l) = lv_block_headers l"
  "level_get_header (set_chain_block h l) k = level_get_header l k"
  "level_contains (set_chain_block h l) k = level_contains l k"
  by (simp_all add: set_chain_block_def level_get_header_def level_contains_def)

lemma level_contains_iff: "level_contains l k \<longleftrightarrow> level_get_header l k \<noteq> None"
  by (simp add: level_contains_def level_get_header_def hm_contains_def)

text \<open>The children and nephews of a block are exactly the headers that name it.\<close>

lemma children_and_nephews_iff:
  assumes "level_wf l"
  shows "(h, k) \<in> set (all_children_and_nephews_of l hash) \<longleftrightarrow>
    h = lv_height l \<and> (\<exists>x. level_get_header l k = Some x
       \<and> (hd_prev_hash x = hash \<or> hash \<in> snd ` set (hd_uncles x)))"
proof -
  have mem: "x \<in> set (hm_values (lv_block_headers l)) \<longleftrightarrow>
      level_get_header l (hd_hash x) = Some x \<and> hd_height x = lv_height l" for x
    using assms by (force simp: level_wf_def level_get_header_def hm_ok_get)
  have "(h, k) \<in> set (all_children_and_nephews_of l hash) \<longleftrightarrow>
      (\<exists>x \<in> set (hm_values (lv_block_headers l)). hd_height x = h \<and> hd_hash x = k
         \<and> (hd_prev_hash x = hash \<or> hash \<in> snd ` set (hd_uncles x)))"
    by (auto simp: all_children_and_nephews_of_def split: if_splits)
  also have "\<dots> \<longleftrightarrow> h = lv_height l \<and> (\<exists>x. level_get_header l k = Some x
       \<and> (hd_prev_hash x = hash \<or> hash \<in> snd ` set (hd_uncles x)))" (is "?L \<longleftrightarrow> ?R")
  proof
    assume ?L
    then show ?R unfolding Bex_def mem by auto
  next
    assume ?R
    then obtain x where x: "level_get_header l k = Some x" "h = lv_height l"
      "hd_prev_hash x = hash \<or> hash \<in> snd ` set (hd_uncles x)" by auto
    with level_wf_header [OF assms x(1)] show ?L
      unfolding Bex_def mem by (intro exI [of _ x]) simp
  qed
  finally show ?thesis .
qed

end
