(* ===== verification/ChainAdd.thy ===== *)
theory ChainAdd
  imports ChainLevel
begin

text \<open>
  \<open>ChainAddResult\<close> of \<open>sharechain/p2chain.rs\<close>: what adding blocks reports, the new tip
  if the tip moved and the blocks that are missing to verify what was added.
\<close>

record chain_add_result =
  new_tip :: "(fixed_hash \<times> u64) option"
  missing_blocks :: "(fixed_hash, u64) hmap"

definition default_add_result :: chain_add_result where
  "default_add_result = \<lparr>new_tip = None, missing_blocks = []\<rparr>"

fun combine_missing :: "(fixed_hash \<times> u64) list \<Rightarrow> (fixed_hash, u64) hmap \<Rightarrow> (fixed_hash, u64) hmap" where
  "combine_missing [] m = m"
| "combine_missing ((hash, height) # rest) m =
     (if MAX_MISSING_PARENTS \<le> length m then m
      else combine_missing rest (hm_insert hash height m))"

definition combine :: "chain_add_result \<Rightarrow> chain_add_result \<Rightarrow> chain_add_result" where
  "combine self other =
     (let self = (case (new_tip self, new_tip other) of
                    (Some current_tip, Some other_tip) \<Rightarrow>
                      if snd current_tip < snd other_tip then self\<lparr>new_tip := Some other_tip\<rparr> else self
                  | (None, Some t) \<Rightarrow> self\<lparr>new_tip := Some t\<rparr>
                  | _ \<Rightarrow> self)
      in self\<lparr>missing_blocks := combine_missing (missing_blocks other) (missing_blocks self)\<rparr>)"

definition result_set_new_tip :: "fixed_hash \<Rightarrow> u64 \<Rightarrow> chain_add_result \<Rightarrow> chain_add_result" where
  "result_set_new_tip hash height self =
     (case new_tip self of
        Some (_, current_height) \<Rightarrow>
          if current_height < height then self\<lparr>new_tip := Some (hash, height)\<rparr> else self
      | None \<Rightarrow> self\<lparr>new_tip := Some (hash, height)\<rparr>)"

definition into_missing_parents_vec :: "chain_add_result \<Rightarrow> (u64 \<times> fixed_hash) list" where
  "into_missing_parents_vec self = map (\<lambda>(hash, height). (height, hash)) (missing_blocks self)"

definition add_missing :: "fixed_hash \<Rightarrow> u64 \<Rightarrow> chain_add_result \<Rightarrow> chain_add_result" where
  "add_missing hash height r = r\<lparr>missing_blocks := hm_insert hash height (missing_blocks r)\<rparr>"

section \<open>Bounds\<close>

lemma combine_missing_length:
  "length (combine_missing xs m) \<le> max (length m) MAX_MISSING_PARENTS"
proof (induction xs m rule: combine_missing.induct)
  case (2 hash height rest m)
  show ?case
  proof (cases "MAX_MISSING_PARENTS \<le> length m")
    case False
    then have "length (hm_insert hash height m) \<le> MAX_MISSING_PARENTS"
      by (simp add: hm_length_insert)
    with 2 False show ?thesis by auto
  qed simp
qed simp

lemma combine_missing_keys:
  "fst ` set m \<subseteq> fst ` set (combine_missing xs m)
   \<and> fst ` set (combine_missing xs m) \<subseteq> fst ` set m \<union> fst ` set xs"
proof (induction xs m rule: combine_missing.induct)
  case (2 hash height rest m)
  show ?case
  proof (cases "MAX_MISSING_PARENTS \<le> length m")
    case False
    with 2 show ?thesis by (simp only: combine_missing.simps hm_keys_insert) auto
  qed auto
qed simp

lemma combine_missing_full:
  "length (combine_missing xs m) < MAX_MISSING_PARENTS \<Longrightarrow>
   fst ` set (combine_missing xs m) = fst ` set m \<union> fst ` set xs"
proof (induction xs m rule: combine_missing.induct)
  case (2 hash height rest m)
  then have "\<not> MAX_MISSING_PARENTS \<le> length m" by auto
  with 2 show ?case by (simp only: combine_missing.simps hm_keys_insert) simp
qed simp

definition tip_height_of :: "chain_add_result \<Rightarrow> nat" where
  "tip_height_of r = (case new_tip r of None \<Rightarrow> 0 | Some t \<Rightarrow> Suc (unat (snd t)))"

lemma combine_tip_height:
  "tip_height_of (combine a b) = max (tip_height_of a) (tip_height_of b)"
  by (auto simp: tip_height_of_def combine_def Let_def word_less_nat_alt split: option.splits)

lemma combine_missing_blocks:
  "missing_blocks (combine a b) = combine_missing (missing_blocks b) (missing_blocks a)"
  by (auto simp: combine_def Let_def split: option.splits)

lemma combine_new_tip_in: "new_tip (combine a b) \<in> {new_tip a, new_tip b}"
  by (auto simp: combine_def Let_def split: option.splits)

end
