(* ===== verification/P2Chain.thy ===== *)
theory P2Chain
  imports ChainAdd
begin

text \<open>
  The state of \<open>P2Chain\<close> (\<open>sharechain/p2chain.rs\<close>): levels by height, the shared
  block cache, the height of the tip and the running difficulty average; its look-ups,
  the bounded clean-up and the step that makes a block the tip. The levels are shared
  behind locks, so a change of a level is \<open>put_level\<close>.
\<close>

record miner_share =
  ms_miner :: tari_address
  ms_share_count :: u64
  ms_coinbase_extra :: bytes

type_synonym share_map = "(public_key, miner_share) hmap"

record cached_shares =
  cs_at_hash :: fixed_hash
  cs_shares :: share_map

record 'l p2chain =
  ch_algo :: pow_algorithm
  ch_block_time :: u64
  ch_block_cache :: block_store
  ch_cached_shares :: "cached_shares option"
  ch_levels :: "(u64, p2chain_level) hmap"
  ch_total_size :: u64
  ch_share_window :: u64
  ch_current_tip :: u64
  ch_lwma :: 'l
  ch_minimum_randomx_target_difficulty :: u64
  ch_minimum_sha3_target_difficulty :: u64
  ch_bypass_checks :: verified_status
  ch_params :: "block_validation_params option"

definition new_empty ::
    "'l ext \<Rightarrow> pow_algorithm \<Rightarrow> u64 \<Rightarrow> u64 \<Rightarrow> u64 \<Rightarrow> block_store \<Rightarrow> u64 \<Rightarrow> u64 \<Rightarrow> verified_status
     \<Rightarrow> block_validation_params option \<Rightarrow> 'l p2chain sc_result" where
  "new_empty e algo total_size share_window block_time cache min_rx min_sha3 bypass params =
     bindO (unwrap (lwma_new e DIFFICULTY_ADJUSTMENT_WINDOW block_time))
       (\<lambda>lwma. Ok \<lparr>
          ch_algo = algo, ch_block_time = block_time, ch_block_cache = cache,
          ch_cached_shares = None, ch_levels = [], ch_total_size = total_size,
          ch_share_window = share_window, ch_current_tip = 0, ch_lwma = lwma,
          ch_minimum_randomx_target_difficulty = min_rx,
          ch_minimum_sha3_target_difficulty = min_sha3,
          ch_bypass_checks = bypass, ch_params = params\<rparr>)"

section \<open>Look-ups\<close>

definition level_at_height :: "'l p2chain \<Rightarrow> u64 \<Rightarrow> p2chain_level option" where
  "level_at_height c height = hm_get (ch_levels c) height"

definition get_tip :: "'l p2chain \<Rightarrow> p2chain_level option" where
  "get_tip c = (case level_at_height c (ch_current_tip c) of
                  None \<Rightarrow> None
                | Some l \<Rightarrow> if lv_chain_block l \<noteq> zero_hash then Some l else None)"

definition get_height :: "'l p2chain \<Rightarrow> u64" where
  "get_height c = (case get_tip c of None \<Rightarrow> 0 | Some tip \<Rightarrow> lv_height tip)"

definition total_accumulated_tip_difficulty :: "'l ext \<Rightarrow> 'l p2chain \<Rightarrow> accumulated_difficulty" where
  "total_accumulated_tip_difficulty e c =
     (case get_tip c of
        Some tip \<Rightarrow> (case block_header_in_main_chain tip of
                      Some block \<Rightarrow> hd_total_pow block | None \<Rightarrow> acc_min e)
      | None \<Rightarrow> acc_min e)"

definition lowest_chain_level_height :: "'l p2chain \<Rightarrow> u64 option" where
  "lowest_chain_level_height c =
     (let min_size = sat_sub (ch_current_tip c) (ch_total_size c) in
      if hm_contains (ch_levels c) min_size then Some min_size else None)"

definition get_max_chain_length :: "'l p2chain \<Rightarrow> nat" where
  "get_max_chain_length c =
     (let first_index = (case lowest_chain_level_height c of None \<Rightarrow> 0 | Some h \<Rightarrow> h) in
      unat (sat_sub (ch_current_tip c) first_index))"

definition get_block_at_height :: "'l p2chain \<Rightarrow> u64 \<Rightarrow> fixed_hash \<Rightarrow> p2block option" where
  "get_block_at_height c height hash =
     Option.bind (level_at_height c height) (\<lambda>l. level_get l (ch_block_cache c) hash)"

definition get_block_header_at_height :: "'l p2chain \<Rightarrow> u64 \<Rightarrow> fixed_hash \<Rightarrow> p2block_header option" where
  "get_block_header_at_height c height hash =
     Option.bind (level_at_height c height) (\<lambda>l. level_get_header l hash)"

definition block_exists :: "'l p2chain \<Rightarrow> u64 \<Rightarrow> fixed_hash \<Rightarrow> bool" where
  "block_exists c height hash =
     (case level_at_height c height of None \<Rightarrow> False | Some l \<Rightarrow> level_contains l hash)"

definition get_parent_of :: "'l p2chain \<Rightarrow> u64 \<Rightarrow> fixed_hash \<Rightarrow> fixed_hash option" where
  "get_parent_of c height hash =
     Option.bind (level_at_height c height) (\<lambda>l. level_get_prev_hash l hash)"

definition get_uncles :: "'l p2chain \<Rightarrow> u64 \<Rightarrow> fixed_hash \<Rightarrow> uncle_ref list sc_result" where
  "get_uncles c height hash =
     bindO (unwrap (level_at_height c height)) (\<lambda>l. Ok (level_get_uncles l hash))"

definition get_parent_block :: "'l p2chain \<Rightarrow> p2block \<Rightarrow> p2block option" where
  "get_parent_block c block =
     Option.bind (checked_sub (b_height block) 1) (\<lambda>parent_height.
       Option.bind (level_at_height c parent_height) (\<lambda>l.
         level_get l (ch_block_cache c) (b_prev_hash block)))"

definition put_level :: "u64 \<Rightarrow> p2chain_level \<Rightarrow> 'l p2chain \<Rightarrow> 'l p2chain" where
  "put_level height l c = c\<lparr>ch_levels := hm_insert height l (ch_levels c)\<rparr>"

section \<open>Clean-up\<close>

text \<open>\<open>levels.remove(height)\<close>, then the deletion of the level's blocks from the cache.\<close>

definition remove_level :: "u64 \<Rightarrow> 'l p2chain \<Rightarrow> 'l p2chain" where
  "remove_level height c =
     (case hm_get (ch_levels c) height of
        None \<Rightarrow> c
      | Some level \<Rightarrow>
          c\<lparr>ch_levels := hm_remove height (ch_levels c),
            ch_block_cache := fold (\<lambda>block. cache_delete (hd_hash block)) (level_all_headers level)
                                   (ch_block_cache c)\<rparr>)"

fun cleanup_loop :: "u64 \<Rightarrow> u64 list \<Rightarrow> 'l p2chain \<Rightarrow> 'l p2chain \<times> unit sc_result" where
  "cleanup_loop limit [] c =
     (if unat limit < length (ch_levels c) then (c, Panic) else (c, Ok ()))"
| "cleanup_loop limit (k # keys) c =
     (if unat limit < length (ch_levels c) then cleanup_loop limit keys (remove_level k c)
      else (c, Ok ()))"

definition cleanup_chain :: "'l p2chain \<Rightarrow> 'l p2chain \<times> unit sc_result" where
  "cleanup_chain c =
     (let keys = sort (hm_keys (ch_levels c)) in
      bindS (c, bindO (add_chk (ch_total_size c) SAFETY_MARGIN) (\<lambda>s. add_chk s MAX_EXTRA_SYNC))
        (\<lambda>c limit. cleanup_loop limit keys c))"

definition set_new_tip :: "'l ext \<Rightarrow> 'l p2chain \<Rightarrow> u64 \<Rightarrow> fixed_hash \<Rightarrow> 'l p2chain \<times> unit sc_result" where
  "set_new_tip e c new_height hash =
     bindS (c, ok_or BlockNotFound (get_block_at_height c new_height hash)) (\<lambda>c block.
       let c = c\<lparr>ch_lwma := lwma_add_back e (b_timestamp block) (b_target_difficulty block) (ch_lwma c)\<rparr> in
       bindS (c, ok_or BlockLevelNotFound (level_at_height c new_height)) (\<lambda>c level.
         let c = put_level new_height (set_chain_block hash level) c;
             c = c\<lparr>ch_current_tip := lv_height level\<rparr>
         in cleanup_chain c))"

section \<open>Well-formed chains\<close>

definition cache_wf :: "block_store \<Rightarrow> bool" where
  "cache_wf s \<longleftrightarrow> hm_ok s \<and> (\<forall>h b. cache_get s h = Some b \<longrightarrow> b_hash b = h)"

lemma cache_wf_keyed: "cache_wf s \<longleftrightarrow> bc.keyed s"
  by (simp add: cache_wf_def bc.keyed_def)

definition levels_wf :: "'l p2chain \<Rightarrow> bool" where
  "levels_wf c \<longleftrightarrow> hm_ok (ch_levels c)
     \<and> (\<forall>h l. level_at_height c h = Some l \<longrightarrow> lv_height l = h \<and> level_wf l)"

definition chain_wf :: "'l p2chain \<Rightarrow> bool" where
  "chain_wf c \<longleftrightarrow> levels_wf c \<and> cache_wf (ch_block_cache c)"

lemma levels_wfD:
  "levels_wf c \<Longrightarrow> level_at_height c h = Some l \<Longrightarrow> lv_height l = h \<and> level_wf l"
  by (simp add: levels_wf_def)

lemma chain_wf_levels: "chain_wf c \<Longrightarrow> levels_wf c"
  by (simp add: chain_wf_def)

lemma level_at_put_level [simp]:
  "level_at_height (put_level h l c) h' = (if h' = h then Some l else level_at_height c h')"
  by (simp add: put_level_def level_at_height_def)

lemma put_level_frame [simp]:
  "ch_block_cache (put_level h l c) = ch_block_cache c"
  "ch_current_tip (put_level h l c) = ch_current_tip c"
  "ch_share_window (put_level h l c) = ch_share_window c"
  "ch_total_size (put_level h l c) = ch_total_size c"
  "ch_bypass_checks (put_level h l c) = ch_bypass_checks c"
  "ch_lwma (put_level h l c) = ch_lwma c"
  "ch_levels (put_level h l c) = hm_insert h l (ch_levels c)"
  by (simp_all add: put_level_def)

lemma level_at_height_update [simp]:
  "level_at_height (c\<lparr>ch_lwma := x\<rparr>) h = level_at_height c h"
  "level_at_height (c\<lparr>ch_current_tip := t\<rparr>) h = level_at_height c h"
  "level_at_height (c\<lparr>ch_cached_shares := s\<rparr>) h = level_at_height c h"
  "level_at_height (c\<lparr>ch_block_cache := s'\<rparr>) h = level_at_height c h"
  by (simp_all add: level_at_height_def)

lemma levels_wf_update [simp]:
  "levels_wf (c\<lparr>ch_lwma := x\<rparr>) = levels_wf c"
  "levels_wf (c\<lparr>ch_current_tip := t\<rparr>) = levels_wf c"
  "levels_wf (c\<lparr>ch_cached_shares := s\<rparr>) = levels_wf c"
  "levels_wf (c\<lparr>ch_block_cache := s'\<rparr>) = levels_wf c"
  by (simp_all add: levels_wf_def)

lemma chain_wf_update [simp]:
  "chain_wf (c\<lparr>ch_lwma := x\<rparr>) = chain_wf c"
  "chain_wf (c\<lparr>ch_current_tip := t\<rparr>) = chain_wf c"
  "chain_wf (c\<lparr>ch_cached_shares := s\<rparr>) = chain_wf c"
  by (simp_all add: chain_wf_def)

lemma levels_wf_put_level:
  "levels_wf c \<Longrightarrow> lv_height l = h \<Longrightarrow> level_wf l \<Longrightarrow> levels_wf (put_level h l c)"
  by (auto simp: levels_wf_def hm.ok_put)

lemma chain_wf_put_level [wf_intros]:
  "chain_wf c \<Longrightarrow> lv_height l = h \<Longrightarrow> level_wf l \<Longrightarrow> chain_wf (put_level h l c)"
  by (simp add: chain_wf_def levels_wf_put_level)

lemma chain_wf_set_chain_block:
  assumes "chain_wf c" "level_at_height c h = Some l" "k = zero_hash \<or> level_contains l k"
  shows "chain_wf (put_level h (set_chain_block k l) c)"
  using assms levels_wfD [OF chain_wf_levels [OF assms(1)] assms(2)]
  by (intro chain_wf_put_level) (auto intro: level_wf_set_chain_block)

lemma chain_wf_new_empty:
  "new_empty e a t w bt cache mr ms by p = Ok c \<Longrightarrow> cache_wf cache \<Longrightarrow> chain_wf c"
  by (auto simp: new_empty_def chain_wf_def levels_wf_def level_at_height_def)

lemma fold_cache_delete:
  "fold (\<lambda>b. cache_delete (hd_hash b)) bs s = fold cache_delete (map hd_hash bs) s"
  by (simp add: fold_map comp_def)

lemma chain_wf_remove_level [wf_intros]: "chain_wf c \<Longrightarrow> chain_wf (remove_level k c)"
  unfolding remove_level_def
  by (auto simp: chain_wf_def levels_wf_def level_at_height_def cache_wf_keyed fold_cache_delete
      hm.ok_del split: option.splits intro: bc.keyed_fold_del)

lemma remove_level_frame [simp]:
  "ch_current_tip (remove_level k c) = ch_current_tip c"
  "ch_share_window (remove_level k c) = ch_share_window c"
  "ch_total_size (remove_level k c) = ch_total_size c"
  "ch_bypass_checks (remove_level k c) = ch_bypass_checks c"
  "ch_lwma (remove_level k c) = ch_lwma c"
  by (simp_all add: remove_level_def split: option.splits)

lemma level_at_remove_level:
  "level_at_height (remove_level k c) h = (if h = k then None else level_at_height c h)"
  by (auto simp: remove_level_def level_at_height_def split: option.splits)

lemma levels_remove_level: "ch_levels (remove_level k c) = hm_remove k (ch_levels c)"
proof (cases "hm_get (ch_levels c) k")
  case None
  then have "k \<notin> fst ` set (ch_levels c)" by (simp add: map_of_eq_None_iff)
  with None show ?thesis by (simp add: remove_level_def)
qed (simp add: remove_level_def)

section \<open>Clean-up removes the lowest levels\<close>

text \<open>
  The loop removes the first \<open>n\<close> keys of the list, where \<open>n\<close> is the number of levels
  above the limit, and never runs out of keys.
\<close>

lemma cleanup_loop_levels:
  assumes "hm_ok (ch_levels c)" "distinct keys" "set keys = fst ` set (ch_levels c)"
  shows "cleanup_loop limit keys c =
    (fold remove_level (take (length (ch_levels c) - unat limit) keys) c, Ok ())"
  using assms
proof (induction limit keys c rule: cleanup_loop.induct)
  case (1 limit c)
  then have "ch_levels c = []" by auto
  then show ?case by simp
next
  case (2 limit k keys c)
  show ?case
  proof (cases "unat limit < length (ch_levels c)")
    case True
    have len: "length (ch_levels (remove_level k c)) = length (ch_levels c) - 1"
    proof -
      have "k \<in> fst ` set (ch_levels c)" using "2.prems"(3) by auto
      then show ?thesis using "2.prems"(1)
        by (simp add: levels_remove_level hm_length_remove map_simps)
    qed
    have k: "k \<notin> set keys" "set keys = fst ` set (ch_levels c) - {k}"
      using "2.prems"(2,3) by auto
    have "set keys = fst ` set (ch_levels (remove_level k c))"
      using k "2.prems"(1)
      by (simp add: levels_remove_level) (metis delete_keys list.set_map set_removeAll)
    moreover have "hm_ok (ch_levels (remove_level k c))"
      using "2.prems"(1) by (simp add: levels_remove_level hm.ok_del)
    ultimately have "cleanup_loop limit keys (remove_level k c) =
      (fold remove_level (take (length (ch_levels c) - 1 - unat limit) keys) (remove_level k c), Ok ())"
      using "2.IH" [OF True] "2.prems"(2) len by simp
    moreover have "length (ch_levels c) - unat limit = Suc (length (ch_levels c) - 1 - unat limit)"
      using True by simp
    ultimately show ?thesis using True by simp
  qed simp
qed

definition chain_limit :: "'l p2chain \<Rightarrow> u64 sc_result" where
  "chain_limit c = bindO (add_chk (ch_total_size c) SAFETY_MARGIN) (\<lambda>s. add_chk s MAX_EXTRA_SYNC)"

lemma chain_limit_Ok:
  "chain_limit c = Ok limit \<Longrightarrow> unat limit = unat (ch_total_size c) + 2020"
  by (auto simp: chain_limit_def SAFETY_MARGIN_def MAX_EXTRA_SYNC_def dest!: add_chk_Ok)

text \<open>The levels clean-up drops: as many of the lowest as there are too many.\<close>

definition dropped_levels :: "'l p2chain \<Rightarrow> nat \<Rightarrow> u64 list" where
  "dropped_levels c limit = take (length (ch_levels c) - limit) (sort (hm_keys (ch_levels c)))"

lemma cleanup_chain_eq:
  assumes "levels_wf c"
  shows "cleanup_chain c =
    (case chain_limit c of
       Ok limit \<Rightarrow> (fold remove_level (dropped_levels c (unat limit)) c, Ok ())
     | Err x \<Rightarrow> (c, Err x) | Panic \<Rightarrow> (c, Panic) | Diverge \<Rightarrow> (c, Diverge))"
proof -
  have "cleanup_loop limit (sort (hm_keys (ch_levels c))) c =
      (fold remove_level (dropped_levels c (unat limit)) c, Ok ())" for limit
    unfolding dropped_levels_def
    using assms by (intro cleanup_loop_levels) (auto simp: levels_wf_def hm_ok_def)
  then show ?thesis
    unfolding cleanup_chain_def chain_limit_def [symmetric] Let_def
    by (cases "chain_limit c") simp_all
qed

lemma fold_remove_level_wf [wf_intros]: "chain_wf c \<Longrightarrow> chain_wf (fold remove_level ks c)"
  by (induction ks arbitrary: c) (auto intro: wf_intros)

lemma fold_remove_level_frame [simp]:
  "ch_current_tip (fold remove_level ks c) = ch_current_tip c"
  "ch_share_window (fold remove_level ks c) = ch_share_window c"
  "ch_total_size (fold remove_level ks c) = ch_total_size c"
  "ch_bypass_checks (fold remove_level ks c) = ch_bypass_checks c"
  "ch_lwma (fold remove_level ks c) = ch_lwma c"
  by (induction ks arbitrary: c) simp_all

lemma level_at_fold_remove_level:
  "level_at_height (fold remove_level ks c) h = (if h \<in> set ks then None else level_at_height c h)"
  by (induction ks arbitrary: c) (auto simp: level_at_remove_level)

lemma cleanup_chain_wf [wf_intros]: "chain_wf c \<Longrightarrow> chain_wf (fst (cleanup_chain c))"
  by (auto simp: cleanup_chain_eq chain_wf_levels split: outcome.splits intro: wf_intros)

lemma cleanup_chain_not_Err:
  "levels_wf c \<Longrightarrow> snd (cleanup_chain c) \<noteq> Err x \<and> snd (cleanup_chain c) \<noteq> Diverge"
  by (cases "checked_add (ch_total_size c) SAFETY_MARGIN")
    (auto simp: cleanup_chain_eq chain_limit_def add_chk_def split: outcome.splits)

lemma set_new_tip_wf:
  assumes "chain_wf c" "block_exists c h k \<or> k = zero_hash"
  shows "chain_wf (fst (set_new_tip e c h k))"
  using assms
  by (cases "get_block_at_height c h k"; cases "level_at_height c h")
    (auto simp: set_new_tip_def Let_def block_exists_def get_block_at_height_def
      intro!: cleanup_chain_wf chain_wf_set_chain_block)

end
