(* ===== verification/ChainVerify.thy ===== *)
theory ChainVerify
  imports P2Chain
begin

text \<open>
  The checks of \<open>sharechain/p2chain.rs\<close> that a block has to pass: accumulated work and
  parents, achieved difficulty, target difficulty, median time, and the payout shares. A
  check answers \<open>Ok True\<close> (passed), \<open>Ok False\<close> (cannot be decided yet) or an error
  (the block is invalid). None of them changes the chain.
\<close>

section \<open>Accumulated work\<close>

text \<open>\<open>Ok None\<close> is the early return of \<open>Ok(false)\<close>.\<close>

fun pow_of_uncles ::
    "'l ext \<Rightarrow> 'l p2chain \<Rightarrow> uncle_ref list \<Rightarrow> accumulated_difficulty \<Rightarrow> accumulated_difficulty option sc_result" where
  "pow_of_uncles e c [] total_work = Ok (Some total_work)"
| "pow_of_uncles e c (u # us) total_work =
     (case get_block_at_height c (fst u) (snd u) of
        None \<Rightarrow> Ok None
      | Some uncle_block \<Rightarrow>
          if \<not> has_target_difficulty_verified (b_verified uncle_block)
             \<or> \<not> has_difficulty_verified (b_verified uncle_block)
          then Ok None
          else bindO (ok_or DifficultyOverflow
                        (acc_checked_add e total_work (b_target_difficulty uncle_block)))
                 (pow_of_uncles e c us))"

definition verify_pow_and_parents :: "'l ext \<Rightarrow> 'l p2chain \<Rightarrow> p2block \<Rightarrow> bool sc_result" where
  "verify_pow_and_parents e c block =
     (if has_parents (b_verified block) \<or> has_parents (ch_bypass_checks c) then Ok True
      else
        bindO (unwrap (acc_from_u128 e (ucast (b_target_difficulty block)))) (\<lambda>total_work.
        bindO (pow_of_uncles e c (b_uncles block) total_work) (\<lambda>r.
          case r of None \<Rightarrow> Ok False
          | Some total_work \<Rightarrow>
        bindO (if b_height block \<noteq> 0
               then (case get_block_at_height c (sat_sub (b_height block) 1) (b_prev_hash block) of
                       None \<Rightarrow> Ok None
                     | Some parent \<Rightarrow>
                         bindO (add_chk total_work (b_total_pow parent)) (\<lambda>s.
                         bindO (ok_or DifficultyOverflow (acc_from_u128 e s)) (\<lambda>t. Ok (Some t))))
               else Ok (Some total_work)) (\<lambda>r.
          case r of None \<Rightarrow> Ok False
          | Some total_work \<Rightarrow>
              if b_total_pow block \<noteq> total_work then Err (ValidationError VDifficultyTarget)
              else Ok True))))"

section \<open>Achieved difficulty\<close>

fun sum_to_outcome :: "(string \<Rightarrow> 'e) \<Rightarrow> string + 'a \<Rightarrow> ('e, 'a) outcome" where
  "sum_to_outcome f (Inl s) = Err (f s)"
| "sum_to_outcome f (Inr x) = Ok x"

text \<open>The difficulty a header achieves, by the algorithm it names.\<close>

definition header_difficulty ::
    "'l ext \<Rightarrow> block_validation_params option \<Rightarrow> block_header \<Rightarrow> (validation_error, difficulty) outcome" where
  "header_difficulty e params header =
     (case bh_pow_algo header of
        RandomX \<Rightarrow> bindO (ok_or VMissingBlockValidationParams params)
                     (\<lambda>p. sum_to_outcome VRandomXDifficulty (randomx_difficulty e header p))
      | Sha3x \<Rightarrow> sum_to_outcome VDifficulty (sha3x_difficulty e header))"

definition verify_difficulty :: "'l ext \<Rightarrow> 'l p2chain \<Rightarrow> p2block \<Rightarrow> bool sc_result" where
  "verify_difficulty e c block =
     (if has_difficulty_verified (b_verified block) \<or> has_difficulty_verified (ch_bypass_checks c)
      then Ok True
      else bindO (map_err ValidationError (header_difficulty e (ch_params c) (b_original_header block)))
        (\<lambda>curr_difficulty.
           if curr_difficulty < b_target_difficulty block
              \<and> \<not> has_difficulty_verified (ch_bypass_checks c)
           then Ok False else Ok True))"

section \<open>Target difficulty\<close>

definition get_lwma_difficulty_for_block ::
    "'l ext \<Rightarrow> 'l p2chain \<Rightarrow> 'l \<Rightarrow> p2block \<Rightarrow> difficulty sc_result" where
  "get_lwma_difficulty_for_block e c lwma block =
     bindO (unwrap (difficulty_from_u64 e
              (case bh_pow_algo (b_original_header block) of
                 RandomX \<Rightarrow> ch_minimum_randomx_target_difficulty c
               | Sha3x \<Rightarrow> ch_minimum_sha3_target_difficulty c)))
       (\<lambda>mn. Ok (case lwma_get_difficulty e lwma of
                    Some val \<Rightarrow> if val < mn then mn else val
                  | None \<Rightarrow> mn))"

text \<open>
  The walk back that refills the moving average: \<open>Ok None\<close> is the early return of
  \<open>None\<close> when a level or a header is missing.
\<close>

fun target_loop :: "'l ext \<Rightarrow> 'l p2chain \<Rightarrow> nat \<Rightarrow> p2block_header \<Rightarrow> 'l \<Rightarrow> 'l option sc_result" where
  "target_loop e c 0 cur lwma = Diverge"
| "target_loop e c (Suc fuel) cur lwma =
     (if lwma_is_full e lwma then Ok (Some lwma)
      else case level_at_height c (sat_sub (hd_height cur) 1) of
             None \<Rightarrow> Ok None
           | Some parent_level \<Rightarrow>
               (case level_get_header parent_level (hd_prev_hash cur) of
                  None \<Rightarrow> Ok None
                | Some nextblock \<Rightarrow>
                    let lwma = lwma_add_front e (hd_timestamp nextblock)
                                 (hd_target_difficulty nextblock) lwma in
                    if hd_height nextblock = 0 then Ok (Some lwma)
                    else target_loop e c fuel nextblock lwma))"

definition get_target_difficulty_for_block ::
    "'l ext \<Rightarrow> 'l p2chain \<Rightarrow> p2block \<Rightarrow> difficulty option sc_result" where
  "get_target_difficulty_for_block e c block =
     (let tip_header_hash = (case Option.bind (get_tip c) block_header_in_main_chain of
                               None \<Rightarrow> zero_hash | Some h \<Rightarrow> hd_hash h) in
      if b_prev_hash block = tip_header_hash
      then bindO (get_lwma_difficulty_for_block e c (ch_lwma c) block) (\<lambda>d. Ok (Some d))
      else bindO (unwrap (lwma_new e DIFFICULTY_ADJUSTMENT_WINDOW (ch_block_time c))) (\<lambda>lwma.
        case level_at_height c (sat_sub (b_height block) 1) of
          None \<Rightarrow> Ok None
        | Some level \<Rightarrow>
            (case level_get_header level (b_prev_hash block) of
               None \<Rightarrow> Ok None
             | Some current_block \<Rightarrow>
                 let lwma = lwma_add_front e (hd_timestamp current_block)
                              (hd_target_difficulty current_block) lwma in
                 bindO (target_loop e c (Suc (Suc (unat (b_height block)))) current_block lwma)
                   (\<lambda>r. case r of None \<Rightarrow> Ok None
                      | Some lwma \<Rightarrow>
                          bindO (get_lwma_difficulty_for_block e c lwma block) (\<lambda>d. Ok (Some d))))))"

definition verify_target_difficulty :: "'l ext \<Rightarrow> 'l p2chain \<Rightarrow> p2block \<Rightarrow> bool sc_result" where
  "verify_target_difficulty e c block =
     (if has_target_difficulty_verified (b_verified block)
         \<or> has_target_difficulty_verified (ch_bypass_checks c)
      then Ok True
      else bindO (get_target_difficulty_for_block e c block)
        (\<lambda>r. case r of
               Some difficulty \<Rightarrow>
                 if difficulty \<noteq> b_target_difficulty block then Ok False else Ok True
             | None \<Rightarrow> Ok False))"

section \<open>Median time\<close>

function median_collect ::
    "'l p2chain \<Rightarrow> p2block_header \<Rightarrow> epoch_time list \<Rightarrow> epoch_time list sc_result" where
  "median_collect c current_block timestamps =
     (if length timestamps < MEDIAN_TIMESTAMP_WINDOW
      then if hd_height current_block = 0 then Ok timestamps
           else bindO (ok_or BlockLevelNotFound
                         (level_at_height c (sat_sub (hd_height current_block) 1))) (\<lambda>level.
                bindO (ok_or BlockNotFound (level_get_header level (hd_prev_hash current_block)))
                  (\<lambda>current_block.
                     median_collect c current_block (timestamps @ [hd_timestamp current_block])))
      else Ok timestamps)"
  by pat_completeness auto
termination
  by (relation "measure (\<lambda>(c, b, ts). MEDIAN_TIMESTAMP_WINDOW - length ts)") auto

declare median_collect.simps [simp del]

definition median_of :: "epoch_time list \<Rightarrow> epoch_time" where
  "median_of timestamps =
     (let ts = sort timestamps; mid_index = length ts div 2 in
      if length ts mod 2 = 0
      then let mean = ((ucast (ts ! (mid_index - 1)) :: u128) + ucast (ts ! mid_index)) div 2 in
           if unat mean < 2 ^ 64 then ucast mean else - 1
      else ts ! mid_index)"

definition calculate_median_timestamp_for_block ::
    "'l p2chain \<Rightarrow> u64 \<Rightarrow> fixed_hash \<Rightarrow> epoch_time sc_result" where
  "calculate_median_timestamp_for_block c block_height block_prev_hash =
     bindO (ok_or BlockLevelNotFound (level_at_height c (sat_sub block_height 1))) (\<lambda>level.
     bindO (ok_or BlockNotFound (level_get_header level block_prev_hash)) (\<lambda>current_block.
     bindO (median_collect c current_block [hd_timestamp current_block])
       (\<lambda>timestamps. Ok (median_of timestamps))))"

definition verify_median_timestamp_for_block :: "'l p2chain \<Rightarrow> p2block \<Rightarrow> bool sc_result" where
  "verify_median_timestamp_for_block c block =
     (if has_median_timestamp (b_verified block) \<or> has_median_timestamp (ch_bypass_checks c)
         \<or> b_height block = 0
      then Ok True
      else case calculate_median_timestamp_for_block c (b_height block) (b_prev_hash block) of
             Ok median_timestamp \<Rightarrow>
               if median_timestamp < b_timestamp block then Ok True
               else Err (ValidationError VMedianTimestamp)
           | Err _ \<Rightarrow> Ok False
           | Panic \<Rightarrow> Panic
           | Diverge \<Rightarrow> Diverge)"

section \<open>Shares\<close>

definition update_insert ::
    "'l ext \<Rightarrow> tari_address \<Rightarrow> u64 \<Rightarrow> bytes \<Rightarrow> share_map \<Rightarrow> share_map sc_result" where
  "update_insert e miner new_share coinbase_extra shares =
     (let spend_key = public_spend_key e miner in
      case hm_get shares spend_key of
        Some ms \<Rightarrow>
          bindO (add_chk (ms_share_count ms) new_share)
            (\<lambda>n. Ok (hm_insert spend_key
                       (ms\<lparr>ms_share_count := n, ms_coinbase_extra := coinbase_extra\<rparr>) shares))
      | None \<Rightarrow>
          Ok (hm_insert spend_key
               \<lparr>ms_miner = miner, ms_share_count = new_share, ms_coinbase_extra = coinbase_extra\<rparr>
               shares))"

text \<open>The header of an uncle on record: \<open>level_at_height(uncle.0)?.get_header(uncle.1)?\<close>.\<close>

definition uncle_header :: "'l p2chain \<Rightarrow> uncle_ref \<Rightarrow> p2block_header sc_result" where
  "uncle_header c u = ok_or UncleBlockNotFound (get_block_header_at_height c (fst u) (snd u))"

text \<open>A block on the main chain counts for its miner and for the miners of its uncles.\<close>

definition count_block :: "'l ext \<Rightarrow> 'l p2chain \<Rightarrow> p2block_header \<Rightarrow> share_map \<Rightarrow> share_map sc_result" where
  "count_block e c cur shares =
     bindO (update_insert e (hd_wallet_address cur) MAIN_REWARD_SHARE (hd_coinbase_extra cur) shares)
       (foldO (\<lambda>u shares. bindO (uncle_header c u) (\<lambda>ub.
                 update_insert e (hd_wallet_address ub) UNCLE_REWARD_SHARE (hd_coinbase_extra ub) shares))
          (hd_uncles cur))"

fun shares_loop ::
    "'l ext \<Rightarrow> 'l p2chain \<Rightarrow> nat \<Rightarrow> u64 \<Rightarrow> p2block_header \<Rightarrow> share_map \<Rightarrow> share_map sc_result" where
  "shares_loop e c 0 stop_height cur shares = Diverge"
| "shares_loop e c (Suc fuel) stop_height cur shares =
     (if stop_height < hd_height cur
      then bindO (ok_or BlockNotFound
                    (get_block_header_at_height c (sat_sub (hd_height cur) 1) (hd_prev_hash cur)))
             (\<lambda>cur. bindO (count_block e c cur shares) (\<lambda>shares.
                if hd_height cur = 0 then Ok shares
                else shares_loop e c fuel stop_height cur shares))
      else Ok shares)"

definition get_calculate_and_cache_hashmap_of_shares ::
    "'l ext \<Rightarrow> 'l p2chain \<Rightarrow> u64 \<Rightarrow> fixed_hash \<Rightarrow> share_map sc_result" where
  "get_calculate_and_cache_hashmap_of_shares e c calculating_height hash =
     (case level_at_height c calculating_height of
        None \<Rightarrow> if calculating_height = 0 then Ok [] else Err BlockLevelNotFound
      | Some start_level \<Rightarrow>
          bindO (sub_chk (ch_share_window c) 2) (\<lambda>back.
            let stop_height = sat_sub (lv_height start_level) back in
            bindO (ok_or BlockNotFound (level_get_header start_level hash)) (\<lambda>cur_block.
            bindO (count_block e c cur_block []) (\<lambda>shares.
              shares_loop e c (Suc (unat (hd_height cur_block))) stop_height cur_block shares))))"

text \<open>\<open>miners_shares.insert\<close>: the share replaces whatever the miner had.\<close>

definition insert_share :: "'l ext \<Rightarrow> tari_address \<Rightarrow> u64 \<Rightarrow> bytes \<Rightarrow> share_map \<Rightarrow> share_map" where
  "insert_share e miner n extra shares =
     hm_insert (public_spend_key e miner)
       \<lparr>ms_miner = miner, ms_share_count = n, ms_coinbase_extra = extra\<rparr> shares"

fun insert_uncle_shares :: "'l ext \<Rightarrow> 'l p2chain \<Rightarrow> uncle_ref list \<Rightarrow> share_map \<Rightarrow> share_map option" where
  "insert_uncle_shares e c [] shares = Some shares"
| "insert_uncle_shares e c (u # us) shares =
     (case get_block_at_height c (fst u) (snd u) of
        None \<Rightarrow> None
      | Some ub \<Rightarrow>
          insert_uncle_shares e c us
            (insert_share e (b_miner_wallet_address ub) UNCLE_REWARD_SHARE
               (b_miner_coinbase_extra ub) shares))"

text \<open>The shares before the new block: the cached ones if they are for its parent.\<close>

definition shares_at_parent :: "'l ext \<Rightarrow> 'l p2chain \<Rightarrow> p2block \<Rightarrow> share_map sc_result" where
  "shares_at_parent e c block =
     (case ch_cached_shares c of
        Some shares \<Rightarrow>
          if b_prev_hash block = cs_at_hash shares then Ok (cs_shares shares)
          else get_calculate_and_cache_hashmap_of_shares e c (sat_sub (b_height block) 1) (b_prev_hash block)
      | None \<Rightarrow>
          get_calculate_and_cache_hashmap_of_shares e c (sat_sub (b_height block) 1) (b_prev_hash block))"

definition sum_u64 :: "u64 list \<Rightarrow> u128 sc_result" where
  "sum_u64 xs = foldO (\<lambda>x acc. add_chk acc (ucast x)) xs 0"

text \<open>
  One coinbase: its miner must have a share, its value must be within ten of what the
  running sum of shares gives it, and its extra data must be the miner's.
\<close>

definition coinbase_value :: "u128 \<Rightarrow> u128 \<Rightarrow> u128 \<Rightarrow> u128 \<Rightarrow> u64 sc_result" where
  "coinbase_value cur_share_sum block_reward total_shares prev_coinbase_value =
     (if total_shares = 0 then Panic
      else bindO (sub_chk (sat_mul cur_share_sum block_reward div total_shares) prev_coinbase_value)
             (\<lambda>v. Ok (if unat v < 2 ^ 64 then ucast v else 0)))"

definition check_coinbase ::
    "share_map \<Rightarrow> u128 \<Rightarrow> u128 \<Rightarrow> transaction_output \<Rightarrow> u128 \<times> u128 \<Rightarrow> (u128 \<times> u128) sc_result" where
  "check_coinbase miners_shares block_reward total_shares out = (\<lambda>(cur_share_sum, prev_coinbase_value).
     (case script_opcode (to_script out) 0 of
        Some (PushPubKey spend_key) \<Rightarrow>
          (case hm_get miners_shares spend_key of
             Some ms \<Rightarrow>
               bindO (add_chk cur_share_sum (ucast (ms_share_count ms))) (\<lambda>cur_share_sum.
               bindO (coinbase_value cur_share_sum block_reward total_shares prev_coinbase_value) (\<lambda>value.
               bindO (add_chk prev_coinbase_value (ucast value)) (\<lambda>prev_coinbase_value.
                 let output_value = to_minimum_value_promise out in
                 if value \<le> sat_sub output_value 10 \<or> sat_add output_value 10 \<le> value
                 then Err (ValidationError VInvalidCoinbase)
                 else if ms_coinbase_extra ms \<noteq> to_coinbase_extra out
                 then Err (ValidationError VInvalidCoinbase)
                 else Ok (cur_share_sum, prev_coinbase_value))))
           | None \<Rightarrow> Err (ValidationError VInvalidCoinbase))
      | _ \<Rightarrow> Err (ValidationError VInvalidCoinbase)))"

definition verify_coinbases :: "share_map \<Rightarrow> transaction_output list \<Rightarrow> bool sc_result" where
  "verify_coinbases miners_shares coinbases =
     bindO (sum_u64 (map to_minimum_value_promise coinbases)) (\<lambda>block_reward.
     bindO (sum_u64 (map ms_share_count (hm_values miners_shares))) (\<lambda>total_shares.
       if coinbases = [] then Err (ValidationError VInvalidCoinbase)
       else bindO (foldO (check_coinbase miners_shares block_reward total_shares) coinbases (0, 0))
              (\<lambda>_. Ok True)))"

definition verify_shares_for_block :: "'l ext \<Rightarrow> 'l p2chain \<Rightarrow> p2block \<Rightarrow> bool sc_result" where
  "verify_shares_for_block e c block =
     (if has_correct_shares (b_verified block) \<or> has_correct_shares (ch_bypass_checks c)
         \<or> b_height block = 0
      then Ok True
      else case shares_at_parent e c block of
             Ok shares \<Rightarrow>
               (let shares = insert_share e (b_miner_wallet_address block) MAIN_REWARD_SHARE
                               (b_miner_coinbase_extra block) shares in
                case insert_uncle_shares e c (b_uncles block) shares of
                  None \<Rightarrow> Ok False
                | Some miners_shares \<Rightarrow> verify_coinbases miners_shares (b_coinbases block))
           | Err _ \<Rightarrow> Ok False
           | Panic \<Rightarrow> Panic
           | Diverge \<Rightarrow> Diverge)"

section \<open>The checks together\<close>

definition chain_is_verified :: "'l p2chain \<Rightarrow> fixed_hash \<Rightarrow> u64 \<Rightarrow> bool sc_result" where
  "chain_is_verified c hash height =
     bindO (ok_or BlockLevelNotFound (level_at_height c height)) (\<lambda>l. Ok (level_is_verified l hash))"

definition apply_check :: "bool sc_result \<Rightarrow> (verified_status \<Rightarrow> verified_status) \<Rightarrow> verified_status
    \<Rightarrow> verified_status sc_result" where
  "apply_check check set_flag verified =
     bindO check (\<lambda>passed. Ok (if passed then set_flag verified else verified))"

definition new_status :: "'l ext \<Rightarrow> 'l p2chain \<Rightarrow> p2block \<Rightarrow> verified_status sc_result" where
  "new_status e c block =
     bindO (apply_check (verify_pow_and_parents e c block) set_has_parents (b_verified block)) (\<lambda>v.
     bindO (apply_check (verify_difficulty e c block) set_difficulty_verified v) (\<lambda>v.
     bindO (apply_check (verify_target_difficulty e c block) set_target_difficulty_verified v) (\<lambda>v.
     bindO (apply_check (verify_median_timestamp_for_block c block) set_median_timestamp v) (\<lambda>v.
     apply_check (verify_shares_for_block e c block) set_correct_shares v))))"

text \<open>The level at \<open>height\<close> takes a block: its header and the cache are updated.\<close>

definition add_block_at :: "u64 \<Rightarrow> p2block \<Rightarrow> 'l p2chain \<Rightarrow> 'l p2chain \<times> unit sc_result" where
  "add_block_at height block c =
     bindS (c, ok_or BlockLevelNotFound (level_at_height c height)) (\<lambda>c level.
     bindS (c, level_add_block block level (ch_block_cache c)) (\<lambda>c (level, cache).
       ((put_level height level c)\<lparr>ch_block_cache := cache\<rparr>, Ok ())))"

definition verify_block :: "'l ext \<Rightarrow> 'l p2chain \<Rightarrow> fixed_hash \<Rightarrow> u64 \<Rightarrow> 'l p2chain \<times> unit sc_result" where
  "verify_block e c hash height =
     bindS (c, chain_is_verified c hash height) (\<lambda>c already.
       if already then (c, Ok ())
       else
         bindS (c, ok_or BlockLevelNotFound (level_at_height c height)) (\<lambda>c level.
         bindS (c, ok_or BlockNotFound (level_get level (ch_block_cache c) hash)) (\<lambda>c block.
         bindS (c, new_status e c block) (\<lambda>c verified.
           add_block_at height (block\<lparr>b_verified := verified\<rparr>) c))))"

end
