(* ===== verification/ChainUpdate.thy ===== *)
theory ChainUpdate
  imports ChainVerify
begin

text \<open>
  How a block enters the chain (\<open>sharechain/p2chain.rs\<close>): \<open>add_block_to_chain\<close> files
  it under its height, \<open>verify_chain\<close> works off a queue of blocks that may have become
  verifiable, \<open>verify_chain_inner\<close> verifies one of them and extends the tip or
  reorganises the chain, and \<open>try_load\<close> rebuilds a chain from stored blocks.
\<close>

section \<open>Missing ancestors\<close>

fun missing_of_uncles :: "'l p2chain \<Rightarrow> uncle_ref list \<Rightarrow> chain_add_result \<Rightarrow> chain_add_result" where
  "missing_of_uncles c [] r = r"
| "missing_of_uncles c (u # us) r =
     missing_of_uncles c us
       (case get_parent_of c (fst u) (snd u) of
          Some uncle_parent_hash \<Rightarrow>
            if \<not> block_exists c (sat_sub (fst u) 1) uncle_parent_hash
            then add_missing uncle_parent_hash (sat_sub (fst u) 1) r else r
        | None \<Rightarrow> add_missing (snd u) (fst u) r)"

definition find_missing ::
    "'l p2chain \<Rightarrow> u64 \<Rightarrow> fixed_hash \<Rightarrow> fixed_hash \<Rightarrow> chain_add_result sc_result" where
  "find_missing c height hash prev_hash =
     (let r = default_add_result in
      if height \<noteq> 0
      then let r = (if \<not> block_exists c (sat_sub height 1) prev_hash
                    then add_missing prev_hash (sat_sub height 1) r else r)
           in bindO (get_uncles c height hash) (\<lambda>us. Ok (missing_of_uncles c us r))
      else Ok r)"

definition u64_range :: "u64 \<Rightarrow> u64 \<Rightarrow> u64 list" where
  "u64_range a b = map word_of_nat [unat a ..< unat b]"

definition get_all_children_and_nephews ::
    "'l p2chain \<Rightarrow> u64 \<Rightarrow> fixed_hash \<Rightarrow> uncle_ref list sc_result" where
  "get_all_children_and_nephews c height hash =
     bindO (add_chk height 1) (\<lambda>lo. bindO (add_chk height MAX_UNCLE_AGE) (\<lambda>hi.
       Ok (concat (map (\<lambda>check_height.
                          case level_at_height c check_height of
                            None \<Rightarrow> []
                          | Some level \<Rightarrow> all_children_and_nephews_of level hash)
                       (u64_range lo hi)))))"

section \<open>Extending the tip\<close>

text \<open>The parent of every uncle is on the main chain, and the uncle is not.\<close>

fun check_tip_uncles :: "'l p2chain \<Rightarrow> uncle_ref list \<Rightarrow> unit sc_result" where
  "check_tip_uncles c [] = Ok ()"
| "check_tip_uncles c (u # us) =
     bindO (ok_or BlockNotFound (get_block_at_height c (fst u) (snd u))) (\<lambda>uncle_block.
     bindO (ok_or BlockNotFound (get_parent_block c uncle_block)) (\<lambda>uncle_parent.
     bindO (ok_or BlockLevelNotFound (level_at_height c (sat_sub (fst u) 1))) (\<lambda>uncle_level.
       if lv_chain_block uncle_level \<noteq> b_hash uncle_parent then Err UncleParentNotInMainChain
       else bindO (ok_or BlockLevelNotFound (level_at_height c (fst u))) (\<lambda>own_level.
         if lv_chain_block own_level = snd u then Err (UncleInMainChain (fst u) (snd u))
         else check_tip_uncles c us))))"

section \<open>Reorganisation\<close>

fun missing_uncles_of_parent :: "'l p2chain \<Rightarrow> uncle_ref list \<Rightarrow> chain_add_result \<Rightarrow> chain_add_result" where
  "missing_uncles_of_parent c [] r = r"
| "missing_uncles_of_parent c (u # us) r =
     missing_uncles_of_parent c us
       (if \<not> block_exists c (fst u) (snd u) then add_missing (snd u) (fst u) r else r)"

text \<open>
  The search back for the start of the chain, the fork or the end of the share window. The
  answer tells whether all blocks met were verified, and what is missing.
\<close>

function search_fork ::
    "'l p2chain \<Rightarrow> u64 \<Rightarrow> p2block_header \<Rightarrow> chain_add_result \<Rightarrow> (bool \<times> chain_add_result) sc_result" where
  "search_fork c counter cur r =
     (if hd_height cur = 0 then Ok (True, r)
      else case get_block_header_at_height c (sat_sub (hd_height cur) 1) (hd_prev_hash cur) of
             Some parent \<Rightarrow>
               if \<not> is_verified (hd_verified parent)
               then let r = (if \<not> block_exists c (sat_sub (hd_height parent) 1) (hd_prev_hash parent)
                             then add_missing (hd_prev_hash parent) (sat_sub (hd_height parent) 1) r
                             else r)
                    in Ok (False, missing_uncles_of_parent c (hd_uncles parent) r)
               else bindO (add_chk counter 1) (\<lambda>counter.
                 if ch_share_window c \<le> counter then Ok (True, r)
                 else bindO (ok_or BlockLevelNotFound (level_at_height c (hd_height cur))) (\<lambda>level.
                   if lv_chain_block level = hd_hash cur then Ok (True, r)
                   else bindO (ok_or BlockNotFound
                          (get_block_header_at_height c (sat_sub (hd_height cur) 1) (hd_prev_hash cur)))
                     (\<lambda>cur. search_fork c counter cur r)))
           | None \<Rightarrow> Ok (True, add_missing (hd_prev_hash cur) (sat_sub (hd_height cur) 1) r))"
  by pat_completeness auto
termination
  by (relation "measure (\<lambda>(c, counter, cur, r). unat (ch_share_window c) - unat counter)")
    (auto simp: word_le_nat_alt dest!: add_chk_Ok)

declare search_fork.simps [simp del]

text \<open>All chain block links above the new tip are reset.\<close>

function clear_above :: "'l p2chain \<Rightarrow> u64 \<Rightarrow> 'l p2chain \<times> unit sc_result" where
  "clear_above c current_height =
     (case level_at_height c (sat_add current_height 1) of
        None \<Rightarrow> (c, Ok ())
      | Some child_level \<Rightarrow>
          bindS (put_level (sat_add current_height 1) (set_chain_block zero_hash child_level) c,
                 add_chk current_height 1) clear_above)"
  by pat_completeness auto
termination
proof (relation "measure (\<lambda>(c, h). 2 ^ 64 - unat h)")
  fix c :: "'l p2chain" and h :: u64 and l s x
  assume "(put_level (sat_add h 1) (set_chain_block zero_hash l) c, add_chk h 1) = (s, Ok x)"
  then have "unat x = unat h + 1" by (auto dest: add_chk_Ok)
  moreover have "unat x < 2 ^ 64" using unsigned_less [of x] by simp
  ultimately have "2 ^ 64 - unat x < 2 ^ 64 - unat h" by linarith
  then show "((s, x), (c, h)) \<in> measure (\<lambda>(c, h). 2 ^ 64 - unat h)" by simp
qed simp

declare clear_above.simps [simp del]

text \<open>
  The walk down from the new tip: the parent of each block becomes the chain block of its
  level, until the chain meets the old one and the moving average is full again.
\<close>

function relink :: "'l ext \<Rightarrow> 'l p2chain \<Rightarrow> u64 \<Rightarrow> p2block_header \<Rightarrow> 'l \<Rightarrow> 'l p2chain \<times> 'l sc_result" where
  "relink e c counter current_block lwma =
     (case level_at_height c (sat_sub (hd_height current_block) 1) of
        None \<Rightarrow> (c, Ok lwma)
      | Some parent_level \<Rightarrow>
          bindS (c, add_chk counter 1) (\<lambda>c counter.
            if hd_prev_hash current_block \<noteq> lv_chain_block parent_level
            then (case level_get_header parent_level (hd_prev_hash current_block) of
                    None \<Rightarrow> (c, Panic)
                  | Some nextblock \<Rightarrow>
                      let c = put_level (sat_sub (hd_height current_block) 1)
                                (set_chain_block (hd_prev_hash current_block) parent_level) c;
                          lwma = lwma_add_front e (hd_timestamp nextblock)
                                   (hd_target_difficulty nextblock) lwma
                      in if hd_height nextblock = 0 \<or> ch_share_window c \<le> counter
                         then (c, Ok lwma) else relink e c counter nextblock lwma)
            else if \<not> lwma_is_full e lwma
            then (case level_get_header parent_level (hd_prev_hash current_block) of
                    None \<Rightarrow> if hd_height current_block = 0 then (c, Ok lwma) else (c, Panic)
                  | Some nextblock \<Rightarrow>
                      let lwma = lwma_add_front e (hd_timestamp nextblock)
                                   (hd_target_difficulty nextblock) lwma
                      in if hd_height nextblock = 0 \<or> ch_share_window c \<le> counter
                         then (c, Ok lwma) else relink e c counter nextblock lwma)
            else (c, Ok lwma)))"
  by pat_completeness auto
termination
  by (relation "measure (\<lambda>(e, c, counter, b, l). unat (ch_share_window c) - unat counter)")
    (auto simp: word_le_nat_alt dest!: add_chk_Ok)

declare relink.simps [simp del]

text \<open>The switch of the chain to \<open>block\<close>, which is heavier than the tip.\<close>

definition reorg :: "'l ext \<Rightarrow> 'l p2chain \<Rightarrow> p2block_header \<Rightarrow> 'l p2chain \<times> unit sc_result" where
  "reorg e c block =
     bindS (c, unwrap (lwma_new e DIFFICULTY_ADJUSTMENT_WINDOW (ch_block_time c))) (\<lambda>c lwma.
       let lwma = lwma_add_front e (hd_timestamp block) (hd_target_difficulty block) lwma in
       bindS (c, unwrap (level_at_height c (hd_height block))) (\<lambda>c chain_height.
         let c = put_level (hd_height block) (set_chain_block (hd_hash block) chain_height) c;
             c = c\<lparr>ch_cached_shares := None\<rparr>;
             c = c\<lparr>ch_current_tip := hd_height block\<rparr>
         in bindS (clear_above c (hd_height block)) (\<lambda>c _.
            bindS (relink e c 1 block lwma) (\<lambda>c lwma.
              (c\<lparr>ch_lwma := lwma\<rparr>, Ok ())))))"

section \<open>One block of the queue\<close>

type_synonym inner_result = "chain_add_result \<times> uncle_ref list"

text \<open>The common end of the branches: the result and the blocks to look at next.\<close>

definition with_next ::
    "'l p2chain \<Rightarrow> u64 \<Rightarrow> fixed_hash \<Rightarrow> chain_add_result \<Rightarrow> 'l p2chain \<times> inner_result sc_result" where
  "with_next c height hash r =
     (c, bindO (get_all_children_and_nephews c height hash) (\<lambda>nxt. Ok (r, nxt)))"

definition extend_tip ::
    "'l ext \<Rightarrow> 'l p2chain \<Rightarrow> u64 \<Rightarrow> fixed_hash \<Rightarrow> p2block_header \<Rightarrow> chain_add_result
     \<Rightarrow> 'l p2chain \<times> inner_result sc_result" where
  "extend_tip e c height hash block r =
     bindS (c, check_tip_uncles c (hd_uncles block)) (\<lambda>c _.
     bindS (set_new_tip e c height hash) (\<lambda>c _.
       with_next c height hash (result_set_new_tip hash height r)))"

definition try_reorg ::
    "'l ext \<Rightarrow> 'l p2chain \<Rightarrow> u64 \<Rightarrow> fixed_hash \<Rightarrow> p2block_header \<Rightarrow> chain_add_result
     \<Rightarrow> 'l p2chain \<times> inner_result sc_result" where
  "try_reorg e c height hash block r =
     bindS (c, search_fork c 1 block r) (\<lambda>c (all_blocks_verified, r).
       if \<not> all_blocks_verified then with_next c height hash r
       else if missing_blocks r \<noteq> [] then with_next c height hash r
       else if total_accumulated_tip_difficulty e c < hd_total_pow block
       then bindS (reorg e c block) (\<lambda>c _.
              with_next c height hash (result_set_new_tip hash height r))
       else with_next c height hash r)"

definition verify_chain_inner ::
    "'l ext \<Rightarrow> 'l p2chain \<Rightarrow> u64 \<Rightarrow> fixed_hash \<Rightarrow> 'l p2chain \<times> inner_result sc_result" where
  "verify_chain_inner e c height hash =
     bindS (c, ok_or BlockNotFound (get_parent_of c height hash)) (\<lambda>c block_prev_hash.
     bindS (c, find_missing c height hash block_prev_hash) (\<lambda>c r.
       if missing_blocks r \<noteq> [] then with_next c height hash r
       else
         bindS (verify_block e c hash height) (\<lambda>c _.
         bindS (c, ok_or BlockNotFound (get_block_header_at_height c height hash)) (\<lambda>c block.
           if get_tip c = None \<and> height = 0
           then bindS (set_new_tip e c height hash) (\<lambda>c _.
                  (c, Ok (result_set_new_tip hash height r, [])))
           else if \<not> is_verified (hd_verified block) then (c, Ok (r, []))
           else if map_option lv_chain_block (get_tip c) = Some (hd_prev_hash block)
           then extend_tip e c height hash block r
           else try_reorg e c height hash block r))))"

section \<open>The queue\<close>

fun enqueue ::
    "uncle_ref \<Rightarrow> fixed_hash list \<Rightarrow> uncle_ref list \<Rightarrow> uncle_ref list \<Rightarrow> uncle_ref list" where
  "enqueue cur processed [] queue = queue"
| "enqueue cur processed (item # items) queue =
     enqueue cur processed items
       (if item \<in> set queue \<or> snd item \<in> set processed then queue
        else if item \<noteq> cur then queue @ [item] else queue)"

fun verify_chain_loop ::
    "'l ext \<Rightarrow> nat \<Rightarrow> 'l p2chain \<Rightarrow> uncle_ref list \<Rightarrow> fixed_hash list \<Rightarrow> chain_add_result
     \<Rightarrow> 'l p2chain \<times> chain_add_result sc_result" where
  "verify_chain_loop e fuel c [] processed acc = (c, Ok acc)"
| "verify_chain_loop e 0 c (q # qs) processed acc = (c, Diverge)"
| "verify_chain_loop e (Suc fuel) c (q # qs) processed acc =
     bindS (verify_chain_inner e c (fst q) (snd q)) (\<lambda>c (add_result, do_next_level).
       let processed = snd q # processed; acc = combine acc add_result in
       if MAX_MISSING_PARENTS \<le> length (missing_blocks acc) then (c, Ok acc)
       else verify_chain_loop e fuel c (enqueue q processed do_next_level qs) processed acc)"

text \<open>The number of headers on record bounds the number of rounds.\<close>

definition chain_size :: "'l p2chain \<Rightarrow> nat" where
  "chain_size c = sum_list (map (\<lambda>l. length (lv_block_headers l)) (hm_values (ch_levels c)))"

definition verify_chain ::
    "'l ext \<Rightarrow> 'l p2chain \<Rightarrow> u64 \<Rightarrow> fixed_hash \<Rightarrow> 'l p2chain \<times> chain_add_result sc_result" where
  "verify_chain e c height hash =
     verify_chain_loop e (Suc (chain_size c)) c [(height, hash)] [] default_add_result"

section \<open>Adding a block\<close>

definition add_block_inner :: "'l ext \<Rightarrow> 'l p2chain \<Rightarrow> p2block \<Rightarrow> 'l p2chain \<times> chain_add_result sc_result" where
  "add_block_inner e c block =
     (let new_level = (\<lambda>c. case level_new block (ch_block_cache c) of
                         (level, cache) \<Rightarrow>
                           (put_level (b_height block) level c)\<lparr>ch_block_cache := cache\<rparr>)
      in if ch_levels c = [] then verify_chain e (new_level c) (b_height block) (b_hash block)
         else case level_at_height c (b_height block) of
                Some level \<Rightarrow>
                  bindS (add_block_at (b_height block) block c)
                    (\<lambda>c _. verify_chain e c (b_height block) (b_hash block))
              | None \<Rightarrow> verify_chain e (new_level c) (b_height block) (b_hash block))"

definition add_block_to_chain ::
    "'l ext \<Rightarrow> 'l p2chain \<Rightarrow> p2block \<Rightarrow> 'l p2chain \<times> chain_add_result sc_result" where
  "add_block_to_chain e c block =
     (if b_prev_hash block \<in> snd ` set (b_uncles block)
      then (c, Err (InvalidBlock ''Uncle cannot be the same as prev_hash''))
      else add_block_inner e c block)"

section \<open>Loading a chain\<close>

text \<open>
  The filters of the loading loop, then \<open>add_block_to_chain\<close>, whose error is only
  logged; a panic ends the load.
\<close>

definition skip_on_load :: "string \<Rightarrow> epoch_time \<Rightarrow> p2block \<Rightarrow> bool" where
  "skip_on_load squad earliest_date block \<longleftrightarrow>
     b_version block \<noteq> PROTOCOL_VERSION \<or> b_squad block \<noteq> squad
   \<or> \<not> has_target_difficulty_verified (b_verified block) \<or> b_timestamp block < earliest_date"

fun load_loop :: "'l ext \<Rightarrow> string \<Rightarrow> epoch_time \<Rightarrow> p2block list \<Rightarrow> 'l p2chain \<Rightarrow> 'l p2chain sc_result" where
  "load_loop e squad earliest_date [] c = Ok c"
| "load_loop e squad earliest_date (b # bs) c =
     (if skip_on_load squad earliest_date b then load_loop e squad earliest_date bs c
      else case add_block_to_chain e c b of
             (c, Ok _) \<Rightarrow> load_loop e squad earliest_date bs c
           | (c, Err _) \<Rightarrow> load_loop e squad earliest_date bs c
           | (c, Panic) \<Rightarrow> Panic
           | (c, Diverge) \<Rightarrow> Diverge)"

text \<open>
  \<open>ago secs\<close> is the time stamp of \<open>Utc::now()\<close> less that many seconds, or \<open>None\<close>
  where the date arithmetic of the library panics.
\<close>

definition earliest_load_date :: "(int \<Rightarrow> int option) \<Rightarrow> u64 \<Rightarrow> u64 \<Rightarrow> epoch_time sc_result" where
  "earliest_load_date ago total_size block_time =
     bindO (bindO (add_chk total_size SAFETY_MARGIN) (\<lambda>s. add_chk s MAX_EXTRA_SYNC)) (\<lambda>max_size.
       if unat max_size < 2 ^ 63 \<and> unat block_time < 2 ^ 63
          \<and> int (unat max_size) * int (unat block_time) * 2 < 2 ^ 63
       then bindO (unwrap (ago (int (unat max_size) * int (unat block_time) * 2)))
              (\<lambda>t. Ok (word_of_int t))
       else Panic)"

definition try_load ::
    "'l ext \<Rightarrow> (int \<Rightarrow> int option) \<Rightarrow> pow_algorithm \<Rightarrow> u64 \<Rightarrow> u64 \<Rightarrow> u64 \<Rightarrow> (string, p2block list) outcome
     \<Rightarrow> block_store \<Rightarrow> string \<Rightarrow> u64 \<Rightarrow> u64 \<Rightarrow> verified_status \<Rightarrow> block_validation_params option
     \<Rightarrow> 'l p2chain sc_result" where
  "try_load e ago algo total_size share_window block_time from_blocks new_cache squad
      min_rx min_sha3 bypass params =
     bindO (new_empty e algo total_size share_window block_time new_cache min_rx min_sha3 bypass params)
       (\<lambda>new_chain.
     bindO (earliest_load_date ago total_size block_time) (\<lambda>earliest_date.
     bindO (map_err Anyhow from_blocks) (\<lambda>blocks.
       load_loop e squad earliest_date blocks new_chain)))"

end
