(* ===== verification/ChainInvariant.thy ===== *)
theory ChainInvariant
  imports ChainUpdate
begin

text \<open>
  Every operation on the chain keeps it well-formed (\<open>chain_wf\<close>), whatever its outcome:
  levels are filed under their height, headers under their hash, the chain block of a level
  is one of its headers or zero, and the cache holds blocks under their own hash.
\<close>


lemma add_block_at_wf [wf_intros]:
  assumes "chain_wf c" shows "chain_wf (fst (add_block_at h b c))"
proof (cases "level_at_height c h")
  case (Some l)
  from levels_wfD [OF chain_wf_levels [OF assms] Some] have l: "lv_height l = h" "level_wf l" by auto
  show ?thesis
  proof (cases "level_add_block b l (ch_block_cache c)")
    case (Ok p)
    obtain l' s' where p: "p = (l', s')" by (cases p)
    from Ok p have ok: "level_add_block b l (ch_block_cache c) = Ok (l', s')" by simp
    then have "level_wf l'" "lv_height l' = h" "s' = cache_insert (b_hash b) b (ch_block_cache c)"
      using l level_wf_add_block [OF l(2) ok] by (auto simp: level_add_block_Ok)
    moreover have "cache_wf s'"
      using assms calculation by (simp add: chain_wf_def cache_wf_keyed bc.keyed_put)
    ultimately show ?thesis
      using assms Some ok by (simp add: add_block_at_def chain_wf_def levels_wf_put_level)
  qed (use Some assms in \<open>simp_all add: add_block_at_def\<close>)
qed (use assms in \<open>simp add: add_block_at_def\<close>)

lemma add_block_at_frame [simp]:
  "ch_current_tip (fst (add_block_at h b c)) = ch_current_tip c"
  "ch_share_window (fst (add_block_at h b c)) = ch_share_window c"
  "ch_total_size (fst (add_block_at h b c)) = ch_total_size c"
  "ch_bypass_checks (fst (add_block_at h b c)) = ch_bypass_checks c"
  "ch_lwma (fst (add_block_at h b c)) = ch_lwma c"
  by (cases "level_at_height c h"; simp add: add_block_at_def;
      cases "level_add_block b (the (level_at_height c h)) (ch_block_cache c)"; auto)+

lemma verify_block_cases:
  "fst (verify_block e c hash h) = c
   \<or> (\<exists>b v. cache_get (ch_block_cache c) hash = Some b \<and> new_status e c b = Ok v
        \<and> verify_block e c hash h = add_block_at h (b\<lparr>b_verified := v\<rparr>) c)"
proof (cases "chain_is_verified c hash h")
  case (Ok already)
  show ?thesis
  proof (cases already)
    case False
    show ?thesis
    proof (cases "level_at_height c h")
      case (Some l)
      show ?thesis
      proof (cases "cache_get (ch_block_cache c) hash")
        case None
        with Ok False Some show ?thesis by (simp add: verify_block_def level_get_def)
      next
        case (Some b)
        with Ok False \<open>level_at_height c h = Some l\<close> show ?thesis
          by (cases "new_status e c b") (simp_all add: verify_block_def level_get_def)
      qed
    qed (use Ok False in \<open>simp add: verify_block_def\<close>)
  qed (use Ok in \<open>simp add: verify_block_def\<close>)
qed (simp_all add: verify_block_def)

lemma verify_block_wf [wf_intros]: "chain_wf c \<Longrightarrow> chain_wf (fst (verify_block e c hash h))"
  using verify_block_cases [of e c hash h] by (auto intro: add_block_at_wf)

lemma verify_block_frame [simp]:
  "ch_current_tip (fst (verify_block e c hash h)) = ch_current_tip c"
  "ch_share_window (fst (verify_block e c hash h)) = ch_share_window c"
  "ch_total_size (fst (verify_block e c hash h)) = ch_total_size c"
  "ch_bypass_checks (fst (verify_block e c hash h)) = ch_bypass_checks c"
  "ch_lwma (fst (verify_block e c hash h)) = ch_lwma c"
  using verify_block_cases [of e c hash h] by auto

lemma with_next_fst [simp]: "fst (with_next c h k r) = c"
  by (simp add: with_next_def)

lemma clear_above_wf [wf_intros]: "chain_wf c \<Longrightarrow> chain_wf (fst (clear_above c h))"
proof (induction c h rule: clear_above.induct)
  case (1 c h)
  show ?case
  proof (cases "level_at_height c (sat_add h 1)")
    case (Some l)
    have wf: "chain_wf (put_level (sat_add h 1) (set_chain_block zero_hash l) c)"
      using "1.prems" Some by (intro chain_wf_set_chain_block) simp_all
    show ?thesis
      using "1.IH" [OF Some] wf Some
      by (cases "add_chk h 1 :: u64 sc_result") (simp_all add: clear_above.simps [of c h])
  qed (use "1.prems" in \<open>simp add: clear_above.simps\<close>)
qed

lemma relink_wf [wf_intros]: "chain_wf c \<Longrightarrow> chain_wf (fst (relink e c n b lwma))"
proof (induction e c n b lwma rule: relink.induct)
  case (1 e c n b lwma)
  let ?h = "sat_sub (hd_height b) 1"
  show ?case
  proof (cases "level_at_height c ?h")
    case (Some l)
    show ?thesis
    proof (cases "add_chk n 1 :: u64 sc_result")
      case (Ok m)
      show ?thesis
      proof (cases "level_get_header l (hd_prev_hash b)")
        case (Some nb)
        have wf: "chain_wf (put_level ?h (set_chain_block (hd_prev_hash b) l) c)"
          using "1.prems" \<open>level_at_height c ?h = Some l\<close> Some
          by (intro chain_wf_set_chain_block) (simp_all add: level_contains_iff)
        show ?thesis
          using "1.IH" [OF \<open>level_at_height c ?h = Some l\<close>, of c m] "1.prems" wf Ok Some
            \<open>level_at_height c ?h = Some l\<close>
          by (auto simp: relink.simps [of e c n b lwma] Let_def)
      qed (use "1.prems" Some Ok in \<open>auto simp: relink.simps [of e c n b lwma]\<close>)
    qed (use "1.prems" Some in \<open>simp_all add: relink.simps [of e c n b lwma]\<close>)
  qed (use "1.prems" in \<open>simp add: relink.simps [of e c n b lwma]\<close>)
qed

lemma reorg_wf:
  assumes "chain_wf c" "block_exists c (hd_height b) (hd_hash b)"
  shows "chain_wf (fst (reorg e c b))"
proof -
  obtain l where l: "level_at_height c (hd_height b) = Some l" "level_contains l (hd_hash b)"
    using assms(2) by (auto simp: block_exists_def split: option.splits)
  have "chain_wf (put_level (hd_height b) (set_chain_block (hd_hash b) l) c)"
    using assms(1) l by (intro chain_wf_set_chain_block) simp_all
  then show ?thesis
    unfolding reorg_def Let_def
    by (intro bindS_preserves [of chain_wf]) (auto simp: assms l intro!: bindS_preserves [of chain_wf] wf_intros)
qed


lemma get_parent_of_block_exists:
  "get_parent_of c h k = Some p \<Longrightarrow> block_exists c h k"
  by (auto simp: get_parent_of_def block_exists_def level_get_prev_hash_def level_contains_def
      hm_contains_def bind_eq_Some_conv)

lemma get_header_block_exists:
  "get_block_header_at_height c h k = Some b \<Longrightarrow> block_exists c h k"
  by (auto simp: get_block_header_at_height_def block_exists_def level_contains_iff bind_eq_Some_conv)

lemma get_header_wf:
  assumes "levels_wf c" "get_block_header_at_height c h k = Some b"
  shows "hd_height b = h \<and> hd_hash b = k"
proof -
  obtain l where "level_at_height c h = Some l" "level_get_header l k = Some b"
    using assms(2) by (auto simp: get_block_header_at_height_def bind_eq_Some_conv)
  then show ?thesis using levels_wfD [OF assms(1)] level_wf_header by blast
qed

lemma extend_tip_wf:
  "chain_wf c \<Longrightarrow> block_exists c h k \<Longrightarrow> chain_wf (fst (extend_tip e c h k b r))"
  unfolding extend_tip_def
  by (auto intro!: bindS_preserves [of chain_wf] set_new_tip_wf)

lemma try_reorg_wf:
  "chain_wf c \<Longrightarrow> block_exists c (hd_height b) (hd_hash b) \<Longrightarrow> chain_wf (fst (try_reorg e c h k b r))"
  unfolding try_reorg_def
  by (auto intro!: bindS_preserves [of chain_wf] reorg_wf split: prod.splits)

lemma verify_chain_inner_wf [wf_intros]:
  assumes "chain_wf c"
  shows "chain_wf (fst (verify_chain_inner e c h k))"
proof -
  have step: "chain_wf (fst (if get_tip c1 = None \<and> h = 0
             then bindS (set_new_tip e c1 h k) (\<lambda>c _. (c, Ok (result_set_new_tip k h r, [])))
             else if \<not> is_verified (hd_verified b) then (c1, Ok (r, []))
             else if map_option lv_chain_block (get_tip c1) = Some (hd_prev_hash b)
             then extend_tip e c1 h k b r else try_reorg e c1 h k b r))"
    if "chain_wf c1" "get_block_header_at_height c1 h k = Some b" for c1 b r
    using get_header_wf [OF chain_wf_levels [OF that(1)] that(2)] get_header_block_exists [OF that(2)] that(1)
    by (auto intro!: bindS_preserves [of chain_wf] set_new_tip_wf extend_tip_wf try_reorg_wf)
  show ?thesis
    unfolding verify_chain_inner_def
    apply (rule bindS_preserves [of chain_wf])
     apply (simp add: assms)
    apply (rule bindS_preserves [of chain_wf])
     apply (simp add: assms)
    apply (simp split del: if_split)
    apply (split if_split, intro conjI impI)
     apply simp
    apply (rule bindS_preserves [of chain_wf])
     apply (simp add: verify_block_wf)
    apply (rule bindS_preserves [of chain_wf])
     apply simp
    apply (clarsimp split del: if_split)
    apply (rule step)
     apply assumption+
    done
qed

lemma verify_chain_loop_wf [wf_intros]:
  "chain_wf c \<Longrightarrow> chain_wf (fst (verify_chain_loop e n c q ps acc))"
proof (induction e n c q ps acc rule: verify_chain_loop.induct)
  case (3 e n c q qs ps acc)
  show ?case
    unfolding verify_chain_loop.simps
    by (rule bindS_preserves [of chain_wf])
      (use 3 in \<open>auto simp: Let_def intro: verify_chain_inner_wf split: prod.splits\<close>)
qed simp_all

lemma verify_chain_wf [wf_intros]: "chain_wf c \<Longrightarrow> chain_wf (fst (verify_chain e c h k))"
  unfolding verify_chain_def by (rule verify_chain_loop_wf)

lemma new_level_wf:
  assumes "chain_wf c" "level_new b (ch_block_cache c) = (l, s)"
  shows "chain_wf ((put_level (b_height b) l c)\<lparr>ch_block_cache := s\<rparr>)"
proof -
  have "level_wf l" "lv_height l = b_height b" "s = cache_insert (b_hash b) b (ch_block_cache c)"
    using assms(2) level_wf_new [of b "ch_block_cache c"] by (auto simp: level_new_def)
  with assms(1) show ?thesis
    by (simp add: chain_wf_def levels_wf_put_level cache_wf_keyed bc.keyed_put)
qed

lemma chain_wf_add_block:
  assumes "chain_wf c" shows "chain_wf (fst (add_block_to_chain e c b))"
  using assms
  by (auto simp: add_block_to_chain_def add_block_inner_def Let_def
      split: prod.splits option.splits
      intro!: verify_chain_wf new_level_wf bindS_preserves [of chain_wf] add_block_at_wf)

lemma load_loop_wf:
  "chain_wf c \<Longrightarrow> load_loop e sq d bs c = Ok c' \<Longrightarrow> chain_wf c'"
proof (induction e sq d bs c rule: load_loop.induct)
  case (2 e sq d b bs c)
  have "chain_wf (fst (add_block_to_chain e c b))"
    using 2 by (intro chain_wf_add_block)
  with 2 show ?case by (auto split: if_splits prod.splits outcome.splits)
qed simp

end
