(* ===== verification/ChainTermination.thy ===== *)
theory ChainTermination
  imports ChainInvariant
begin

text \<open>
  Adding a block returns. The walks of the checks go down one height a step, so the fuel
  they get (the height of the block) is enough on a well-formed chain; the queue of
  \<open>verify_chain\<close> only ever holds blocks on record and never takes one twice, so the
  number of headers bounds its rounds.
\<close>


section \<open>The blocks on record\<close>

definition refs :: "'l p2chain \<Rightarrow> uncle_ref set" where
  "refs c = {(h, k). block_exists c h k}"

lemma refs_iff: "(h, k) \<in> refs c \<longleftrightarrow> block_exists c h k"
  by (simp add: refs_def)

lemma block_exists_alt:
  "block_exists c h k \<longleftrightarrow> (\<exists>l. level_at_height c h = Some l \<and> level_contains l k)"
  by (auto simp: block_exists_def split: option.splits)

lemma refs_list:
  "refs c \<subseteq> set (concat (map (\<lambda>(h, l). map (\<lambda>(k, x). (h, k)) (lv_block_headers l)) (ch_levels c)))"
proof
  fix p assume "p \<in> refs c"
  then obtain h k l where p: "p = (h, k)" and l: "(h, l) \<in> set (ch_levels c)"
    and k: "k \<in> fst ` set (lv_block_headers l)"
    by (cases p) (auto simp: refs_iff block_exists_alt level_at_height_def level_contains_def
        map_simps dest: map_of_SomeD)
  from k obtain x where "(k, x) \<in> set (lv_block_headers l)" by auto
  with l p show "p \<in> set (concat (map (\<lambda>(h, l). map (\<lambda>(k, x). (h, k)) (lv_block_headers l)) (ch_levels c)))"
    by (force intro: bexI [of _ "(h, l)"])
qed

lemma finite_refs: "finite (refs c)"
  using refs_list by (rule finite_subset) simp

lemma card_refs: "card (refs c) \<le> chain_size c"
proof -
  let ?xs = "concat (map (\<lambda>(h, l). map (\<lambda>(k, x). (h, k)) (lv_block_headers l)) (ch_levels c))"
  have "card (refs c) \<le> card (set ?xs)" by (rule card_mono) (use refs_list in auto)
  also have "\<dots> \<le> length ?xs" by (rule card_length)
  also have "\<dots> = chain_size c"
    by (simp add: chain_size_def length_concat comp_def split_def)
  finally show ?thesis .
qed

lemma refs_update [simp]:
  "refs (c\<lparr>ch_lwma := x\<rparr>) = refs c"
  "refs (c\<lparr>ch_current_tip := t\<rparr>) = refs c"
  "refs (c\<lparr>ch_cached_shares := s\<rparr>) = refs c"
  "refs (c\<lparr>ch_block_cache := s'\<rparr>) = refs c"
  by (simp_all add: refs_def block_exists_def)

lemma refs_set_chain_block:
  "level_at_height c h = Some l \<Longrightarrow> refs (put_level h (set_chain_block k l) c) = refs c"
  by (auto simp: refs_def block_exists_alt split: if_splits)

lemma refs_remove_level: "refs (remove_level k c) \<subseteq> refs c"
  by (auto simp: refs_def block_exists_alt level_at_remove_level split: if_splits)

lemma refs_fold_remove_level: "refs (fold remove_level ks c) \<subseteq> refs c"
  by (auto simp: refs_def block_exists_alt level_at_fold_remove_level split: if_splits)

lemma refs_cleanup: "levels_wf c \<Longrightarrow> refs (fst (cleanup_chain c)) \<subseteq> refs c"
  by (auto simp: cleanup_chain_eq split: outcome.splits dest!: subsetD [OF refs_fold_remove_level])

lemma refs_add_block_at:
  "refs (fst (add_block_at h b c)) \<subseteq> insert (h, b_hash b) (refs c)"
proof (cases "level_at_height c h")
  case (Some l)
  then show ?thesis
    by (cases "lv_height l = b_height b")
      (auto simp: add_block_at_def level_add_block_def refs_def block_exists_alt level_contains_def
        hm_contains_def split: if_splits)
qed (simp add: add_block_at_def subset_insertI)

lemma refs_verify_block:
  assumes "chain_wf c" "(h, k) \<in> refs c"
  shows "refs (fst (verify_block e c k h)) \<subseteq> refs c"
  using verify_block_cases [of e c k h]
proof
  assume "\<exists>b v. cache_get (ch_block_cache c) k = Some b \<and> new_status e c b = Ok v
        \<and> verify_block e c k h = add_block_at h (b\<lparr>b_verified := v\<rparr>) c"
  then obtain b v where b: "cache_get (ch_block_cache c) k = Some b"
    and v: "verify_block e c k h = add_block_at h (b\<lparr>b_verified := v\<rparr>) c" by blast
  have "b_hash b = k" using assms(1) b by (simp add: chain_wf_def cache_wf_def)
  with refs_add_block_at [of h "b\<lparr>b_verified := v\<rparr>" c] v assms(2) show ?thesis by auto
qed simp

lemma refs_clear_above: "refs (fst (clear_above c h)) = refs c"
proof (induction c h rule: clear_above.induct)
  case (1 c h)
  then show ?case
    by (cases "level_at_height c (sat_add h 1)"; cases "add_chk h 1 :: u64 sc_result")
      (simp_all add: clear_above.simps [of c h] refs_set_chain_block)
qed

lemma refs_relink: "refs (fst (relink e c n b lwma)) = refs c"
proof (induction e c n b lwma rule: relink.induct)
  case (1 e c n b lwma)
  show ?case
  proof (cases "level_at_height c (sat_sub (hd_height b) 1)")
    case (Some l)
    note IH = "1.IH" [OF Some]
    show ?thesis
    proof (cases "add_chk n 1 :: u64 sc_result")
      case (Ok m)
      then show ?thesis
        using Some IH [of c m]
        by (cases "level_get_header l (hd_prev_hash b)")
          (auto simp: relink.simps [of e c n b lwma] Let_def refs_set_chain_block)
    qed (use Some in \<open>simp_all add: relink.simps [of e c n b lwma]\<close>)
  qed (simp add: relink.simps [of e c n b lwma])
qed

text \<open>A bound on the blocks on record, together with well-formedness.\<close>

definition bounded :: "uncle_ref set \<Rightarrow> 'l p2chain \<Rightarrow> bool" where
  "bounded U c \<longleftrightarrow> chain_wf c \<and> refs c \<subseteq> U"

lemma bounded_put:
  "bounded U c \<Longrightarrow> level_at_height c h = Some l \<Longrightarrow> k = zero_hash \<or> level_contains l k \<Longrightarrow>
   bounded U (put_level h (set_chain_block k l) c)"
  by (auto simp: bounded_def chain_wf_set_chain_block refs_set_chain_block)

lemma bounded_update [simp]:
  "bounded U (c\<lparr>ch_lwma := x\<rparr>) = bounded U c"
  "bounded U (c\<lparr>ch_current_tip := t\<rparr>) = bounded U c"
  "bounded U (c\<lparr>ch_cached_shares := s\<rparr>) = bounded U c"
  by (simp_all add: bounded_def)

lemma bounded_cleanup: "bounded U c \<Longrightarrow> bounded U (fst (cleanup_chain c))"
  using refs_cleanup [of c] by (auto simp: bounded_def intro: wf_intros dest: chain_wf_levels)

lemma bounded_set_new_tip:
  assumes "bounded U c" "block_exists c h k"
  shows "bounded U (fst (set_new_tip e c h k))"
  using assms
  by (cases "get_block_at_height c h k"; cases "level_at_height c h")
    (auto simp: set_new_tip_def Let_def block_exists_def intro!: bounded_cleanup bounded_put)

lemma bounded_clear_above: "bounded U c \<Longrightarrow> bounded U (fst (clear_above c h))"
  by (simp add: bounded_def refs_clear_above wf_intros)

lemma bounded_relink: "bounded U c \<Longrightarrow> bounded U (fst (relink e c n b lwma))"
  by (simp add: bounded_def refs_relink wf_intros)

lemma bounded_reorg:
  assumes "bounded U c" "block_exists c (hd_height b) (hd_hash b)"
  shows "bounded U (fst (reorg e c b))"
proof -
  obtain l where l: "level_at_height c (hd_height b) = Some l" "level_contains l (hd_hash b)"
    using assms(2) by (auto simp: block_exists_def split: option.splits)
  have "bounded U (put_level (hd_height b) (set_chain_block (hd_hash b) l) c)"
    using assms(1) l by (intro bounded_put) simp_all
  then show ?thesis
    unfolding reorg_def Let_def using assms(1)
    by (auto simp: l intro!: bindS_preserves [of "bounded U"] bounded_clear_above bounded_relink)
qed

section \<open>The blocks to look at next are on record\<close>

lemma children_refs:
  assumes "levels_wf c" "get_all_children_and_nephews c h k = Ok xs"
  shows "set xs \<subseteq> refs c"
proof -
  have *: "p \<in> refs c" if l: "level_at_height c i = Some l" and p: "p \<in> set (all_children_and_nephews_of l k)"
    for p i l
  proof -
    from levels_wfD [OF assms(1) l] have wf: "lv_height l = i" "level_wf l" by auto
    obtain a b where ab: "p = (a, b)" by (cases p)
    with p children_and_nephews_iff [OF wf(2), of a b k]
    have "a = i" "level_contains l b" using wf by (auto simp: level_contains_iff)
    with l ab show ?thesis by (simp add: refs_iff block_exists_alt)
  qed
  show ?thesis
    using assms(2) by (auto simp: get_all_children_and_nephews_def split: option.splits intro: * * [OF sym])
qed

definition next_ok :: "uncle_ref set \<Rightarrow> 'l p2chain \<times> inner_result sc_result \<Rightarrow> bool" where
  "next_ok U m \<longleftrightarrow> bounded U (fst m) \<and> (\<forall>r xs. snd m = Ok (r, xs) \<longrightarrow> set xs \<subseteq> U)"

lemma next_ok_bindS:
  assumes "bounded U (fst m)" "\<And>s x. m = (s, Ok x) \<Longrightarrow> bounded U s \<Longrightarrow> next_ok U (f s x)"
  shows "next_ok U (bindS m f)"
  using assms by (cases "(m, f)" rule: bindS.cases) (auto simp: next_ok_def)

lemma next_ok_with_next: "bounded U c \<Longrightarrow> next_ok U (with_next c h k r)"
  using children_refs [of c h k] by (auto simp: next_ok_def with_next_def bounded_def chain_wf_def)

lemma next_ok_extend_tip:
  "bounded U c \<Longrightarrow> block_exists c h k \<Longrightarrow> next_ok U (extend_tip e c h k b r)"
  unfolding extend_tip_def
  by (auto intro!: next_ok_bindS bounded_set_new_tip next_ok_with_next)

lemma next_ok_try_reorg:
  "bounded U c \<Longrightarrow> block_exists c (hd_height b) (hd_hash b) \<Longrightarrow> next_ok U (try_reorg e c h k b r)"
  unfolding try_reorg_def
  by (auto intro!: next_ok_bindS bounded_reorg next_ok_with_next split: prod.splits)

lemma next_ok_verify_chain_inner:
  assumes "bounded U c"
  shows "next_ok U (verify_chain_inner e c h k)"
proof -
  have step: "next_ok U (if get_tip c1 = None \<and> h = 0
             then bindS (set_new_tip e c1 h k) (\<lambda>c _. (c, Ok (result_set_new_tip k h r, [])))
             else if \<not> is_verified (hd_verified b) then (c1, Ok (r, []))
             else if map_option lv_chain_block (get_tip c1) = Some (hd_prev_hash b)
             then extend_tip e c1 h k b r else try_reorg e c1 h k b r)"
    if "bounded U c1" "get_block_header_at_height c1 h k = Some b" for c1 b r
  proof -
    have b: "block_exists c1 h k" "block_exists c1 (hd_height b) (hd_hash b)"
      using get_header_wf [OF _ that(2)] get_header_block_exists [OF that(2)] that(1)
      by (auto simp: bounded_def chain_wf_def)
    have "next_ok U (bindS (set_new_tip e c1 h k) (\<lambda>c _. (c, Ok (result_set_new_tip k h r, []))))"
      using that(1) b(1) by (intro next_ok_bindS bounded_set_new_tip) (auto simp: next_ok_def)
    moreover have "next_ok U (c1, Ok (r, []))" using that(1) by (simp add: next_ok_def)
    ultimately show ?thesis
      using that(1) b by (auto intro!: next_ok_extend_tip next_ok_try_reorg)
  qed
  have U: "(h, k) \<in> refs c \<Longrightarrow> bounded U (fst (verify_block e c k h))"
    using assms refs_verify_block [of c h k e] by (auto simp: bounded_def intro: wf_intros)
  show ?thesis
    unfolding verify_chain_inner_def
    apply (rule next_ok_bindS)
     apply (simp add: assms)
    apply (clarsimp dest!: get_parent_of_block_exists simp: refs_iff [symmetric])
    apply (rule next_ok_bindS)
     apply (simp add: assms)
    apply (clarsimp split del: if_split)
    apply (split if_split, intro conjI impI)
     apply (simp add: next_ok_with_next)
    apply (rule next_ok_bindS)
     apply (simp add: U)
    apply (rule next_ok_bindS)
     apply simp
    apply (clarsimp split del: if_split)
    apply (rule step)
     apply assumption+
    done
qed

section \<open>The walks of the checks\<close>

lemma level_header_height:
  assumes "levels_wf c" "level_at_height c h = Some l" "level_get_header l k = Some b"
  shows "hd_height b = h"
  using levels_wfD [OF assms(1,2)] level_wf_header [OF _ assms(3)] by blast

lemma target_loop_returns:
  assumes "levels_wf c" "unat (hd_height cur) < fuel"
  shows "target_loop e c fuel cur lwma \<noteq> Diverge"
  using assms(2)
proof (induction fuel arbitrary: cur lwma)
  case (Suc fuel)
  have "unat (hd_height nb) < fuel"
    if "level_at_height c (sat_sub (hd_height cur) 1) = Some l"
      "level_get_header l (hd_prev_hash cur) = Some nb" "hd_height nb \<noteq> 0" for l nb
    using level_header_height [OF assms(1) that(1,2)] that(3) Suc.prems
    by (auto simp flip: unat_eq_zero)
  then show ?case
    using Suc.IH by (auto simp: Let_def split: option.splits)
qed simp

lemma get_lwma_difficulty_returns: "get_lwma_difficulty_for_block e c l b \<noteq> Diverge"
  by (simp add: get_lwma_difficulty_for_block_def bindO_eq_Diverge)

lemma get_target_difficulty_returns:
  assumes "levels_wf c" shows "get_target_difficulty_for_block e c b \<noteq> Diverge"
proof -
  have "unat (hd_height x) < Suc (Suc (unat (b_height b)))"
    if "level_at_height c (sat_sub (b_height b) 1) = Some l" "level_get_header l k = Some x" for l k x
    using level_header_height [OF assms that] by simp
  then show ?thesis
    using target_loop_returns [OF assms]
    by (auto simp: get_target_difficulty_for_block_def Let_def bindO_eq_Diverge
        get_lwma_difficulty_returns simp del: target_loop.simps split: option.splits)
qed

lemma median_collect_returns: "median_collect c b ts \<noteq> Diverge"
  by (induction c b ts rule: median_collect.induct)
    (auto simp: bindO_eq_Diverge median_collect.simps split: if_splits)

lemma count_block_returns: "count_block e c b m \<noteq> Diverge"
  by (auto simp: count_block_def bindO_eq_Diverge uncle_header_def update_insert_def Let_def
      intro!: foldO_not_Diverge split: option.splits)

lemma shares_loop_returns:
  assumes "levels_wf c" "unat (hd_height cur) < fuel"
  shows "shares_loop e c fuel stop cur m \<noteq> Diverge"
  using assms(2)
proof (induction fuel arbitrary: cur m)
  case (Suc fuel)
  have "unat (hd_height nb) < fuel"
    if "get_block_header_at_height c (sat_sub (hd_height cur) 1) (hd_prev_hash cur) = Some nb"
      "hd_height nb \<noteq> 0" for nb
    using get_header_wf [OF assms(1) that(1)] that(2) Suc.prems by (auto simp flip: unat_eq_zero)
  then show ?case
    using Suc.IH by (auto simp: bindO_eq_Diverge count_block_returns)
qed simp

lemma shares_loop_enough:
  "levels_wf c \<Longrightarrow> shares_loop e c (Suc (unat (hd_height cur))) stop cur m \<noteq> Diverge"
  by (rule shares_loop_returns) simp_all

lemma get_shares_returns:
  "levels_wf c \<Longrightarrow> get_calculate_and_cache_hashmap_of_shares e c h k \<noteq> Diverge"
  by (auto simp: get_calculate_and_cache_hashmap_of_shares_def bindO_eq_Diverge Let_def
      count_block_returns shares_loop_enough simp del: shares_loop.simps split: option.splits)

lemma sum_u64_returns: "sum_u64 xs \<noteq> Diverge"
  by (auto simp: sum_u64_def intro!: foldO_not_Diverge)

lemma verify_coinbases_returns: "verify_coinbases m os \<noteq> Diverge"
proof -
  have "check_coinbase m r t out s \<noteq> Diverge" for r t out s
    by (cases s) (auto simp: check_coinbase_def coinbase_value_def bindO_eq_Diverge Let_def
        split: option.splits opcode.splits if_splits)
  then have "foldO (check_coinbase m r t) os s \<noteq> Diverge" for r t s
    by (intro foldO_not_Diverge)
  then show ?thesis
    by (auto simp: verify_coinbases_def bindO_eq_Diverge sum_u64_returns)
qed

lemma pow_of_uncles_returns: "pow_of_uncles e c us w \<noteq> Diverge"
  by (induction e c us w rule: pow_of_uncles.induct)
    (auto simp: bindO_eq_Diverge split: option.splits)

lemma new_status_returns:
  assumes "levels_wf c" shows "new_status e c b \<noteq> Diverge"
proof -
  have "verify_pow_and_parents e c b \<noteq> Diverge"
    by (auto simp: verify_pow_and_parents_def bindO_eq_Diverge pow_of_uncles_returns
        split: option.splits if_splits)
  moreover have "verify_difficulty e c b \<noteq> Diverge"
  proof -
    have "header_difficulty e p h \<noteq> Diverge" for p h
      by (cases "bh_pow_algo h"; cases "sha3x_difficulty e h"; cases p;
          cases "randomx_difficulty e h (the p)") (auto simp: header_difficulty_def)
    then have "map_err ValidationError (header_difficulty e p h) \<noteq> Diverge" for p h
      by (cases "header_difficulty e p h") auto
    then show ?thesis by (simp add: verify_difficulty_def bindO_eq_Diverge)
  qed
  moreover have "verify_target_difficulty e c b \<noteq> Diverge"
    using get_target_difficulty_returns [OF assms]
    by (auto simp: verify_target_difficulty_def bindO_eq_Diverge split: option.splits)
  moreover have "verify_median_timestamp_for_block c b \<noteq> Diverge"
    using median_collect_returns
    by (auto simp: verify_median_timestamp_for_block_def calculate_median_timestamp_for_block_def
        bindO_eq_Diverge split: outcome.splits)
  moreover have "verify_shares_for_block e c b \<noteq> Diverge"
    using get_shares_returns [OF assms]
    by (auto simp: verify_shares_for_block_def shares_at_parent_def verify_coinbases_returns Let_def
        split: outcome.splits option.splits if_splits)
  ultimately show ?thesis
    by (simp add: new_status_def apply_check_def bindO_eq_Diverge)
qed

section \<open>The steps of the update\<close>

lemma bindS_eq_Diverge:
  "snd (bindS m f) = Diverge \<longleftrightarrow> snd m = Diverge \<or> (\<exists>s x. m = (s, Ok x) \<and> snd (f s x) = Diverge)"
  by (cases "(m, f)" rule: bindS.cases) auto

lemma add_block_at_returns: "snd (add_block_at h b c) \<noteq> Diverge"
  by (auto simp: add_block_at_def bindS_eq_Diverge level_add_block_def)

lemma verify_block_returns: "levels_wf c \<Longrightarrow> snd (verify_block e c k h) \<noteq> Diverge"
  by (auto simp: verify_block_def bindS_eq_Diverge chain_is_verified_def bindO_eq_Diverge
      new_status_returns add_block_at_returns)

lemma set_new_tip_returns:
  assumes "chain_wf c" "block_exists c h k"
  shows "snd (set_new_tip e c h k) \<noteq> Diverge"
proof -
  have "snd (cleanup_chain (put_level h (set_chain_block k l) (c\<lparr>ch_lwma := x\<rparr>)\<lparr>ch_current_tip := t\<rparr>)) \<noteq> Diverge"
    if "level_at_height c h = Some l" for l x t
  proof -
    have "chain_wf (put_level h (set_chain_block k l) (c\<lparr>ch_lwma := x\<rparr>))"
      using assms that by (intro chain_wf_set_chain_block) (auto simp: block_exists_def)
    then have "chain_wf (put_level h (set_chain_block k l) (c\<lparr>ch_lwma := x\<rparr>)\<lparr>ch_current_tip := t\<rparr>)"
      by simp
    then show ?thesis using cleanup_chain_not_Err [OF chain_wf_levels] by blast
  qed
  then show ?thesis
    by (auto simp: set_new_tip_def bindS_eq_Diverge Let_def)
qed

lemma clear_above_returns: "snd (clear_above c h) \<noteq> Diverge"
proof (induction c h rule: clear_above.induct)
  case (1 c h)
  then show ?case
    by (cases "level_at_height c (sat_add h 1)"; cases "add_chk h 1 :: u64 sc_result")
      (simp_all add: clear_above.simps [of c h])
qed

lemma relink_returns: "snd (relink e c n b lwma) \<noteq> Diverge"
proof (induction e c n b lwma rule: relink.induct)
  case (1 e c n b lwma)
  show ?case
  proof (cases "level_at_height c (sat_sub (hd_height b) 1)")
    case (Some l)
    show ?thesis
      using Some "1.IH" [OF Some]
      by (cases "add_chk n 1 :: u64 sc_result"; cases "level_get_header l (hd_prev_hash b)")
        (auto simp: relink.simps [of e c n b lwma] Let_def)
  qed (simp add: relink.simps [of e c n b lwma])
qed

lemma reorg_returns: "snd (reorg e c b) \<noteq> Diverge"
  by (auto simp: reorg_def bindS_eq_Diverge Let_def clear_above_returns relink_returns)

lemma search_fork_returns: "search_fork c n b r \<noteq> Diverge"
proof (induction c n b r rule: search_fork.induct)
  case (1 c n b r)
  then show ?case
    by (auto simp: search_fork.simps [of c n b r] bindO_eq_Diverge Let_def split: option.splits)
qed

lemma with_next_returns: "snd (with_next c h k r) \<noteq> Diverge"
  by (simp add: with_next_def bindO_eq_Diverge get_all_children_and_nephews_def)

lemma check_tip_uncles_returns: "check_tip_uncles c us \<noteq> Diverge"
  by (induction c us rule: check_tip_uncles.induct) (auto simp: bindO_eq_Diverge)

lemma verify_chain_inner_returns:
  assumes "chain_wf c" shows "snd (verify_chain_inner e c h k) \<noteq> Diverge"
proof -
  have "snd (set_new_tip e c1 h k) \<noteq> Diverge"
    if "chain_wf c1" "get_block_header_at_height c1 h k = Some b" for c1 b
    using that get_header_block_exists set_new_tip_returns by blast
  moreover have "chain_wf c1" if "verify_block e c k h = (c1, Ok u)" for c1 u
    using verify_block_wf [OF assms, of e k h] that by simp
  ultimately show ?thesis
    using verify_block_returns [OF chain_wf_levels [OF assms]]
    by (auto simp: verify_chain_inner_def bindS_eq_Diverge find_missing_def get_uncles_def Let_def
        bindO_eq_Diverge extend_tip_def try_reorg_def with_next_returns search_fork_returns
        reorg_returns check_tip_uncles_returns split: if_splits prod.splits)
qed

section \<open>The queue empties\<close>

definition queue_ok :: "uncle_ref set \<Rightarrow> uncle_ref set \<Rightarrow> fixed_hash list \<Rightarrow> uncle_ref list \<Rightarrow> bool" where
  "queue_ok U D processed queue \<longleftrightarrow>
     distinct queue \<and> set queue \<inter> D = {} \<and> set queue \<subseteq> U \<and> D \<subseteq> U \<and> snd ` D \<subseteq> set processed"

lemma queue_ok_enqueue:
  "queue_ok U D processed queue \<Longrightarrow> set items \<subseteq> U \<Longrightarrow>
   queue_ok U D processed (enqueue cur processed items queue)"
proof (induction cur processed items queue rule: enqueue.induct)
  case (2 cur processed item items queue)
  have "queue_ok U D processed (queue @ [item])"
    if "item \<notin> set queue" "snd item \<notin> set processed"
    using 2 that by (auto simp: queue_ok_def)
  then show ?case using 2 by simp
qed simp

lemma queue_ok_step:
  assumes "queue_ok U D processed (q # qs)"
  shows "queue_ok U (insert q D) (snd q # processed) qs"
  using assms by (auto simp: queue_ok_def)

lemma verify_chain_loop_returns:
  assumes "finite U" "bounded U c" "queue_ok U D processed queue" "card (U - D) \<le> fuel"
  shows "snd (verify_chain_loop e fuel c queue processed acc) \<noteq> Diverge"
  using assms(2-)
proof (induction e fuel c queue processed acc arbitrary: D rule: verify_chain_loop.induct)
  case (2 e c q qs processed acc)
  then have "q \<in> U - D" by (auto simp: queue_ok_def)
  then show ?case using 2 assms(1) by auto
next
  case (3 e fuel c q qs processed acc)
  have q: "q \<in> U - D" using "3.prems" by (auto simp: queue_ok_def)
  have "card (U - insert q D) < card (U - D)"
    using assms(1) q by (intro psubset_card_mono) auto
  with "3.prems" have fuel: "card (U - insert q D) \<le> fuel" by simp
  have wf: "chain_wf c" using "3.prems" by (simp add: bounded_def)
  show ?case
  proof (cases "verify_chain_inner e c (fst q) (snd q)")
    case (Pair c1 r)
    from next_ok_verify_chain_inner [OF "3.prems"(1), of e "fst q" "snd q"]
    have ok: "bounded U c1" "\<And>r' xs. r = Ok (r', xs) \<Longrightarrow> set xs \<subseteq> U"
      by (simp_all add: Pair next_ok_def)
    show ?thesis
    proof (cases r)
      case (Ok x)
      obtain r' xs where x: "x = (r', xs)" by (cases x)
      have "queue_ok U (insert q D) (snd q # processed) (enqueue q (snd q # processed) xs qs)"
        using Ok x ok queue_ok_step [OF "3.prems"(2)] by (simp add: queue_ok_enqueue)
      note IH = "3.IH" [OF Pair [unfolded Ok] x [symmetric] refl refl _ ok(1) this fuel]
      show ?thesis
        unfolding verify_chain_loop.simps Pair Ok x
        using IH by (simp add: Let_def)
    qed (use verify_chain_inner_returns [OF wf, of e "fst q" "snd q"] Pair in simp_all)
  qed
qed simp

lemma verify_chain_returns:
  assumes "chain_wf c"
  shows "snd (verify_chain e c h k) \<noteq> Diverge"
  unfolding verify_chain_def
proof (rule verify_chain_loop_returns [where U = "insert (h, k) (refs c)" and D = "{}"])
  show "finite (insert (h, k) (refs c))" by (simp add: finite_refs)
  show "card (insert (h, k) (refs c) - {}) \<le> Suc (chain_size c)"
    using card_refs [of c] by (simp add: card_insert_if finite_refs)
qed (use assms in \<open>auto simp: bounded_def queue_ok_def\<close>)

lemma add_block_not_Diverge:
  assumes "chain_wf c"
  shows "snd (add_block_to_chain e c b) \<noteq> Diverge"
proof -
  have "chain_wf c'" if "add_block_at h b c = (c', x)" "h = b_height b" for c' x h
    using add_block_at_wf [OF assms, of h b] that by simp
  with assms show ?thesis
    by (auto simp: add_block_to_chain_def add_block_inner_def Let_def bindS_eq_Diverge
        add_block_at_returns verify_chain_returns new_level_wf split: prod.splits option.splits)
qed

lemma load_loop_returns:
  "chain_wf c \<Longrightarrow> load_loop e sq d bs c \<noteq> Diverge"
proof (induction e sq d bs c rule: load_loop.induct)
  case (2 e sq d b bs c)
  have ok: "chain_wf (fst (add_block_to_chain e c b))" "snd (add_block_to_chain e c b) \<noteq> Diverge"
    using 2 by (simp_all add: chain_wf_add_block add_block_not_Diverge)
  show ?case
  proof (cases "add_block_to_chain e c b")
    case (Pair c1 r)
    with ok 2 show ?thesis by (cases r) auto
  qed
qed simp

end
