(* ===== verification/DemoChain.thy ===== *)
theory DemoChain
  imports ChainTermination
begin

text \<open>
  Concrete chains the theorems about the chain are evaluated on: an empty one, one with a
  verified first block, and one where the second block has been filed but not verified.
\<close>

definition demo_block :: "u64 \<Rightarrow> fixed_hash \<Rightarrow> fixed_hash \<Rightarrow> u128 \<Rightarrow> verified_status \<Rightarrow> p2block" where
  "demo_block h hash prev pow v = \<lparr>
     b_version = PROTOCOL_VERSION, b_squad = ''squad'', b_hash = hash, b_timestamp = 1000 + h,
     b_prev_hash = prev, b_height = h,
     b_original_header = \<lparr>bh_pow_algo = Sha3x, bh_output_mr = 0, bh_rest = []\<rparr>,
     b_coinbases = [\<lparr>to_minimum_value_promise = 1000, to_script = [PushPubKey [1]],
                     to_coinbase_extra = [], to_rest = []\<rparr>],
     b_other_output_hash = 0, b_miner_wallet_address = [1], b_sent_to_main_chain = False,
     b_target_difficulty = 10, b_uncles = [], b_miner_coinbase_extra = [],
     b_verified = v, b_total_pow = pow\<rparr>"

definition demo_level :: "p2block \<Rightarrow> fixed_hash \<Rightarrow> u64 \<times> p2chain_level" where
  "demo_level b k = (b_height b, \<lparr>lv_height = b_height b, lv_chain_block = k,
                       lv_block_headers = [(b_hash b, header_of b)]\<rparr>)"

definition demo_chain :: "(u64 \<times> p2chain_level) list \<Rightarrow> p2block list \<Rightarrow> u64 \<Rightarrow> (epoch_time \<times> difficulty) list p2chain" where
  "demo_chain levels blocks tip = \<lparr>
     ch_algo = Sha3x, ch_block_time = 20, ch_block_cache = map (\<lambda>b. (b_hash b, b)) blocks,
     ch_cached_shares = None, ch_levels = levels, ch_total_size = 100, ch_share_window = 10,
     ch_current_tip = tip, ch_lwma = map (\<lambda>b. (b_timestamp b, b_target_difficulty b)) blocks,
     ch_minimum_randomx_target_difficulty = 1, ch_minimum_sha3_target_difficulty = 10,
     ch_bypass_checks = vs_new, ch_params = None\<rparr>"

definition demo_empty :: "(epoch_time \<times> difficulty) list p2chain" where
  "demo_empty = demo_chain [] [] 0"

text \<open>One verified block, the tip; and the same with a second block on record, not verified.\<close>

definition demo_one :: "(epoch_time \<times> difficulty) list p2chain" where
  "demo_one = (let b = demo_block 0 1 0 10 31 in demo_chain [demo_level b 1] [b] 0)"

definition demo_two :: "(epoch_time \<times> difficulty) list p2chain" where
  "demo_two = (let b0 = demo_block 0 1 0 10 31; b1 = demo_block 1 2 1 20 0 in
     (demo_chain [demo_level b0 1, demo_level b1 0] [b0, b1] 0)\<lparr>ch_lwma := [(1000, 10)]\<rparr>)"

lemmas demo_defs = demo_empty_def demo_one_def demo_two_def demo_chain_def demo_level_def
  demo_block_def header_of_def Let_def

lemma demo_empty_new: "new_empty demo_ext Sha3x 100 10 20 [] 1 10 vs_new None = Ok demo_empty"
  by (simp add: new_empty_def demo_ext_def demo_defs)

lemma chain_wf_demo_empty: "chain_wf demo_empty"
  using chain_wf_new_empty [OF demo_empty_new] by (simp add: cache_wf_def cache_get_def)

lemma chain_wf_demo_one: "chain_wf demo_one"
  by (auto simp: demo_defs chain_wf_def levels_wf_def level_wf_def cache_wf_def cache_get_def
      level_at_height_def hm_ok_def level_contains_def hm_contains_def split: if_splits)

lemma chain_wf_demo_two: "chain_wf demo_two"
  by (auto simp: demo_defs chain_wf_def levels_wf_def level_wf_def cache_wf_def cache_get_def
      level_at_height_def hm_ok_def level_contains_def hm_contains_def split: if_splits)

text \<open>The same without the check of the shares, which the configuration can switch off.\<close>

definition demo_bypass :: "(epoch_time \<times> difficulty) list p2chain" where
  "demo_bypass = demo_two\<lparr>ch_bypass_checks := set_correct_shares vs_new\<rparr>"

lemma chain_wf_demo_bypass: "chain_wf demo_bypass"
  using chain_wf_demo_two by (simp add: demo_bypass_def chain_wf_def levels_wf_def level_at_height_def)

text \<open>Two verified blocks at height one; the second carries more work.\<close>

definition demo_fork :: "(epoch_time \<times> difficulty) list p2chain" where
  "demo_fork = (let b0 = demo_block 0 1 0 10 31; b1 = demo_block 1 2 1 20 31; b2 = demo_block 1 3 1 30 31 in
     (demo_chain [demo_level b0 1,
        (1, \<lparr>lv_height = 1, lv_chain_block = 2, lv_block_headers = [(2, header_of b1), (3, header_of b2)]\<rparr>)]
        [b0, b1, b2] 1))"

lemma chain_wf_demo_fork: "chain_wf demo_fork"
  by (auto simp: demo_fork_def demo_defs chain_wf_def levels_wf_def level_wf_def cache_wf_def cache_get_def
      level_at_height_def hm_ok_def level_contains_def hm_contains_def split: if_splits)

text \<open>The second block passes every check and becomes the tip.\<close>

lemma demo_two_step:
  "snd (verify_chain_inner demo_ext demo_two 1 2) = Ok (\<lparr>new_tip = Some (2, 1), missing_blocks = []\<rparr>, [])"
  by code_simp

end
