(* ===== verification/StorageCorrect.thy ===== *)
theory StorageCorrect
  imports DemoChain
begin

text \<open>
  \<open>LmdbBlockStorage\<close> implements the store the chain is verified over: reads agree, a
  delete removes, and a write arrives whenever ten attempts are enough. A write that never
  fits is lost without an error. The migration at start-up runs once.
\<close>

definition demo_lmdb :: lmdb_ext where
  "demo_lmdb = \<lparr>lx_serialize = (\<lambda>b. [1]), lx_deserialize = (\<lambda>bs. Some (demo_block 0 1 0 10 31)),
     lx_put = (\<lambda>sz h v s. if sz < 40 then MapFull else PutOk), lx_set_map_size = (\<lambda>sz. True),
     lx_delete = (\<lambda>h s. hm_contains s h), lx_commit_delete = (\<lambda>h s. True)\<rparr>"

definition demo_env :: lmdb_env where
  "demo_env = \<lparr>db_block_cache = [], db_block_cache_v2 = [(1, Blob [1])], db_migrations = [], db_map_size = 10\<rparr>"

section \<open>What the storage guarantees\<close>

text \<open>Reading a block, listing the blocks by height and deleting a block (where the database
  carries the deletion out) in the LMDB storage refine the abstract block store.\<close>

theorem lmdb_reads_refine:
  assumes "lmdb_abs x env = Some s"
  shows "lmdb_get x env h = Ok (cache_get s h)
    \<and> lmdb_all_blocks x env = Ok (cache_all_blocks s)
    \<and> (lx_delete x h (db_block_cache_v2 env) \<and> lx_commit_delete x h (db_block_cache_v2 env) \<longrightarrow>
         (\<exists>env'. lmdb_delete x h env = (env', Ok ()) \<and> lmdb_abs x env' = Some (cache_delete h s)))"
  using assms decode_get [of x "db_block_cache_v2 env" s h]
    decode_read [of x "db_block_cache_v2 env" s] decode_remove [of x "db_block_cache_v2 env" s h]
  by (simp add: lmdb_abs_def lmdb_get_def lmdb_all_blocks_def lmdb_delete_def cache_get_def
      cache_all_blocks_def cache_delete_def)

theorem lmdb_reads_refine_witness:
  "lmdb_get demo_lmdb demo_env 1 = Ok (Some (demo_block 0 1 0 10 31))
   \<and> (\<exists>env'. lmdb_delete demo_lmdb 1 demo_env = (env', Ok ()) \<and> lmdb_abs demo_lmdb env' = Some [])"
  using lmdb_reads_refine [of demo_lmdb demo_env "[(1, demo_block 0 1 0 10 31)]" 1]
  by (simp add: lmdb_abs_def demo_env_def demo_lmdb_def cache_get_def cache_delete_def hm_contains_def)

text \<open>C37: When the database accepts the block after k map-full refusals (k at most nine), each
  answered by doubling the map, the insertion refines the insertion into the abstract block
  store.\<close>

theorem lmdb_insert_refines:
  assumes "bincode_roundtrip x b" "lmdb_abs x env = Some s"
    and "\<And>i. i < k \<Longrightarrow> lx_put x (db_map_size env * 2 ^ i) h (Blob (lx_serialize x b)) (db_block_cache_v2 env) = MapFull"
    and "lx_put x (db_map_size env * 2 ^ k) h (Blob (lx_serialize x b)) (db_block_cache_v2 env) = PutOk"
    and "doublings_possible x (db_map_size env) k" "k \<le> 9"
  shows "\<exists>env'. lmdb_insert x h b env = (env', Ok ()) \<and> lmdb_abs x env' = Some (cache_insert h b s)
    \<and> db_map_size env' = db_map_size env * 2 ^ k"
  using lmdb_insert_fits [OF assms(3-6)] decode_insert [OF _ assms(1)] assms(2)
  by (simp add: lmdb_abs_def cache_insert_def)

theorem lmdb_insert_refines_witness:
  "\<exists>env'. lmdb_insert demo_lmdb 2 (demo_block 0 1 0 10 31) demo_env = (env', Ok ())
    \<and> lmdb_abs demo_lmdb env' = Some (cache_insert 2 (demo_block 0 1 0 10 31) [(1, demo_block 0 1 0 10 31)])
    \<and> db_map_size env' = 40"
proof -
  have d: "doublings_possible demo_lmdb (db_map_size demo_env) 2"
    by (simp add: doublings_possible_def demo_lmdb_def demo_env_def)
  have m: "lx_put demo_lmdb (db_map_size demo_env * 2 ^ i) 2 (Blob (lx_serialize demo_lmdb (demo_block 0 1 0 10 31)))
      (db_block_cache_v2 demo_env) = MapFull" if "i < 2" for i :: nat
    using that by (cases i) (auto simp: demo_lmdb_def demo_env_def less_Suc_eq)
  have "\<exists>env'. lmdb_insert demo_lmdb 2 (demo_block 0 1 0 10 31) demo_env = (env', Ok ())
      \<and> lmdb_abs demo_lmdb env' = Some (cache_insert 2 (demo_block 0 1 0 10 31) [(1, demo_block 0 1 0 10 31)])
      \<and> db_map_size env' = db_map_size demo_env * 2 ^ 2"
    by (rule lmdb_insert_refines [OF _ _ m _ d])
      (simp_all add: bincode_roundtrip_def lmdb_abs_def demo_env_def demo_lmdb_def)
  then show ?thesis by (simp add: demo_env_def)
qed

text \<open>An insertion that is refused for a full map ten times returns as if it had succeeded
  and leaves every lookup as it was.\<close>

theorem lmdb_insert_may_drop:
  assumes "\<And>sz. lx_put x sz h (Blob (lx_serialize x b)) (db_block_cache_v2 env) = MapFull"
    and "lmdb_insert x h b env = (env', Ok ())"
  shows "lmdb_get x env' h' = lmdb_get x env h'"
  using insert_loop_never [OF assms(1) assms(2) [unfolded lmdb_insert_def]]
  by (simp add: lmdb_get_def)

theorem lmdb_insert_may_drop_witness:
  "lmdb_get (demo_lmdb\<lparr>lx_put := (\<lambda>sz h v s. MapFull)\<rparr>)
     (fst (lmdb_insert (demo_lmdb\<lparr>lx_put := (\<lambda>sz h v s. MapFull)\<rparr>) 2 (demo_block 0 1 0 10 31) demo_env)) 2 = Ok None"
proof -
  let ?x = "demo_lmdb\<lparr>lx_put := (\<lambda>sz h v s. MapFull)\<rparr>"
  have "snd (lmdb_insert ?x 2 (demo_block 0 1 0 10 31) demo_env) = Ok ()"
    by code_simp
  then have "lmdb_insert ?x 2 (demo_block 0 1 0 10 31) demo_env = (fst (lmdb_insert ?x 2 (demo_block 0 1 0 10 31) demo_env), Ok ())"
    by (metis prod.collapse)
  from lmdb_insert_may_drop [OF _ this, of 2] show ?thesis
    by (simp add: lmdb_get_def demo_env_def)
qed

lemma read_migrations_Ok:
  "read_migrations ms = Ok ss \<longleftrightarrow> (\<forall>m \<in> set ms. \<exists>s. snd m = Str s) \<and> ss = map (\<lambda>m. case snd m of Str s \<Rightarrow> s | _ \<Rightarrow> []) ms"
  by (induction ms arbitrary: ss rule: read_migrations.induct) auto

lemma set_update_subset: "set (hm_insert k v m) \<subseteq> insert (k, v) (set m)"
  by (induction m) auto

text \<open>Opening a database clears the old block cache when the migration was not recorded,
  never touches the current block cache, and opening it again changes nothing.\<close>

theorem migration_once:
  assumes "lmdb_new_from_path env = (env', Ok ())"
  shows "lmdb_new_from_path env' = (env', Ok ()) \<and> db_block_cache_v2 env' = db_block_cache_v2 env
    \<and> (\<forall>ss. read_migrations (db_migrations env) = Ok ss \<longrightarrow> MIGRATION_01 \<notin> set ss \<longrightarrow> db_block_cache env' = [])"
proof -
  obtain ss where ss: "read_migrations (db_migrations env) = Ok ss"
    using assms by (auto simp: lmdb_new_from_path_def split: outcome.splits)
  show ?thesis
  proof (cases "MIGRATION_01 \<in> set ss")
    case True
    with assms ss show ?thesis by (auto simp: lmdb_new_from_path_def)
  next
    case False
    let ?ms = "hm_insert [1, 0] (Str MIGRATION_01) (db_migrations env)"
    have env': "env' = env\<lparr>db_block_cache := [], db_migrations := ?ms\<rparr>"
      using assms ss False by (simp add: lmdb_new_from_path_def)
    have "set ?ms \<subseteq> insert ([1, 0], Str MIGRATION_01) (set (db_migrations env))"
      by (rule set_update_subset)
    then have all: "\<forall>m \<in> set ?ms. \<exists>s. snd m = Str s" using ss by (auto simp: read_migrations_Ok)
    have "hm_get ?ms [1, 0] = Some (Str MIGRATION_01)" by simp
    then have "([1, 0], Str MIGRATION_01) \<in> set ?ms" by (rule map_of_SomeD)
    then have "MIGRATION_01 \<in> set (map (\<lambda>m. case snd m of Str s \<Rightarrow> s | _ \<Rightarrow> []) ?ms)" by force
    with all env' show ?thesis by (auto simp: lmdb_new_from_path_def iffD2 [OF read_migrations_Ok])
  qed
qed

theorem migration_once_witness:
  "lmdb_new_from_path (fst (lmdb_new_from_path demo_env)) = (fst (lmdb_new_from_path demo_env), Ok ())"
proof -
  have "lmdb_new_from_path demo_env = (fst (lmdb_new_from_path demo_env), Ok ())"
    by (simp add: lmdb_new_from_path_def demo_env_def)
  from migration_once [OF this] show ?thesis by blast
qed

end
