(* ===== verification/BlockTree.thy ===== *)
theory BlockTree
  imports P2Block
begin

text \<open>
  Blocks as a tree by previous hash and height: which blocks of a set reach its start, which
  descend from another, and how far a block's ancestors are on record. And the argument why the
  order of arrival does not matter, for any state that takes in blocks one at a time.
\<close>

section \<open>Parents and descent\<close>

definition is_parent :: "p2block \<Rightarrow> p2block \<Rightarrow> bool" where
  "is_parent p b \<longleftrightarrow> b_prev_hash b = b_hash p \<and> unat (b_height b) = Suc (unat (b_height p))"

text \<open>\<open>descends R x b\<close>: \<open>b\<close> is \<open>x\<close>, or comes from \<open>x\<close> by blocks of \<open>R\<close>.\<close>

inductive descends :: "p2block set \<Rightarrow> p2block \<Rightarrow> p2block \<Rightarrow> bool" for R where
  descends_self: "descends R x x"
| descends_child: "descends R x p \<Longrightarrow> b \<in> R \<Longrightarrow> is_parent p b \<Longrightarrow> descends R x b"

lemma descends_iff:
  "descends R x b \<longleftrightarrow> b = x \<or> (\<exists>p. descends R x p \<and> b \<in> R \<and> is_parent p b)"
  by (subst descends.simps) auto

definition rooted :: "p2block \<Rightarrow> p2block set \<Rightarrow> p2block \<Rightarrow> bool" where
  "rooted g R b \<longleftrightarrow> g \<in> R \<and> descends R g b"

text \<open>\<open>b\<close> and its next \<open>n - 1\<close> ancestors are on record.\<close>

fun stretch :: "p2block set \<Rightarrow> nat \<Rightarrow> p2block \<Rightarrow> bool" where
  "stretch R 0 b \<longleftrightarrow> True"
| "stretch R (Suc n) b \<longleftrightarrow> b \<in> R \<and> (n = 0 \<or> (\<exists>p\<in>R. is_parent p b \<and> stretch R n p))"

text \<open>The hashes at which the line of ancestors of \<open>x\<close> breaks off.\<close>

definition gaps :: "p2block set \<Rightarrow> p2block \<Rightarrow> fixed_hash set" where
  "gaps R x = {b_prev_hash a | a. a \<in> R \<and> descends R a x \<and> \<not> (\<exists>p\<in>R. is_parent p a)}"

lemma parent_unique:
  "inj_on b_hash T \<Longrightarrow> p \<in> T \<Longrightarrow> q \<in> T \<Longrightarrow> is_parent p b \<Longrightarrow> is_parent q b \<Longrightarrow> p = q"
  by (auto simp: is_parent_def dest: inj_onD)

lemma descends_mem: "descends R x b \<Longrightarrow> b = x \<or> b \<in> R"
  by (auto elim: descends.cases)

lemma descends_mono: "descends R x b \<Longrightarrow> R \<subseteq> R' \<Longrightarrow> descends R' x b"
  by (induction rule: descends.induct) (auto intro: descends.intros)

lemma descends_height: "descends R x b \<Longrightarrow> b = x \<or> unat (b_height x) < unat (b_height b)"
  by (induction rule: descends.induct) (auto simp: is_parent_def)

lemma descends_trans: "descends R p b \<Longrightarrow> descends R x p \<Longrightarrow> descends R x b"
  by (induction rule: descends.induct) (auto intro: descends.intros)

lemma descends_linear:
  assumes "inj_on b_hash T" "R \<subseteq> T" and b: "b \<in> T"
  shows "descends R a x \<Longrightarrow> a \<in> T \<Longrightarrow> descends R b x \<Longrightarrow> descends R a b \<or> descends R b a"
proof (induction rule: descends.induct)
  case (descends_child a p x)
  consider "x = b" | q where "descends R b q" "is_parent q x"
    using descends_child.prems by (auto simp: descends_iff [of R b x])
  then show ?case
  proof cases
    case 1
    then show ?thesis using descends.descends_child [OF descends_child.hyps] by simp
  next
    case (2 q)
    have "q \<in> T" "p \<in> T"
      using descends_mem [OF 2(1)] descends_mem [OF descends_child.hyps(1)]
        descends_child.prems assms(2) b by auto
    then have "q = p" using parent_unique [OF assms(1) _ _ 2(2) descends_child.hyps(3)] by simp
    with 2 descends_child.IH descends_child.prems show ?thesis by auto
  qed
qed (use assms in auto)

lemma descends_parent_in:
  assumes "descends R x b" "x \<in> R" "b \<noteq> x" shows "\<exists>p\<in>R. is_parent p b"
  using assms descends_mem by (auto simp: descends_iff [of R x b])

section \<open>Gaps\<close>

lemma gaps_unique:
  assumes "inj_on b_hash T" "R \<subseteq> T" "k \<in> gaps R x" "l \<in> gaps R x"
  shows "k = l"
proof -
  obtain a b where a: "k = b_prev_hash a" "a \<in> R" "descends R a x" "\<not> (\<exists>p\<in>R. is_parent p a)"
    and b: "l = b_prev_hash b" "b \<in> R" "descends R b x" "\<not> (\<exists>p\<in>R. is_parent p b)"
    using assms(3,4) by (auto simp: gaps_def)
  have "descends R a b \<or> descends R b a"
    using descends_linear [OF assms(1,2) _ a(3) _ b(3)] a b assms(2) by auto
  with a b descends_parent_in have "a = b" by metis
  with a b show ?thesis by simp
qed

lemma gaps_below:
  assumes "inj_on b_hash T" "R \<subseteq> T" "x \<in> R" "descends R x b"
  shows "gaps R b \<subseteq> gaps R x"
proof
  fix k assume "k \<in> gaps R b"
  then obtain a where a: "k = b_prev_hash a" "a \<in> R" "descends R a b" "\<not> (\<exists>p\<in>R. is_parent p a)"
    by (auto simp: gaps_def)
  have "descends R a x \<or> descends R x a"
    using descends_linear [OF assms(1,2) _ a(3) _ assms(4)] a assms by auto
  then have "descends R a x"
    using descends_parent_in [of R x a] a assms(3) by (auto intro: descends_self)
  with a show "k \<in> gaps R x" by (auto simp: gaps_def)
qed

lemma gaps_single:
  assumes "inj_on b_hash T" "R \<subseteq> T" "distinct ks" "set ks \<subseteq> gaps R x"
  shows "length ks \<le> 1"
proof (rule ccontr)
  assume "\<not> length ks \<le> 1"
  then have len: "1 < length ks" by simp
  then have "ks ! 0 \<in> gaps R x" "ks ! 1 \<in> gaps R x"
    using assms(4) by (auto intro!: nth_mem subsetD [OF assms(4)])
  then have "ks ! 0 = ks ! 1" by (rule gaps_unique [OF assms(1,2)])
  with len nth_eq_iff_index_eq [OF assms(3), of 0 1] show False by linarith
qed

section \<open>Rooted blocks\<close>

lemma rooted_start: "g \<in> R \<Longrightarrow> rooted g R g"
  by (simp add: rooted_def descends_self)

lemma rooted_mem: "rooted g R b \<Longrightarrow> b \<in> R"
  by (auto simp: rooted_def dest: descends_mem)

lemma rooted_child: "rooted g R p \<Longrightarrow> b \<in> R \<Longrightarrow> is_parent p b \<Longrightarrow> rooted g R b"
  by (auto simp: rooted_def intro: descends_child)

lemma rooted_parent:
  assumes "rooted g R b" "b \<noteq> g" shows "\<exists>p. rooted g R p \<and> is_parent p b"
  using assms by (auto simp: rooted_def descends_iff [of R g b])

lemma rooted_mono: "rooted g R b \<Longrightarrow> R \<subseteq> R' \<Longrightarrow> rooted g R' b"
  by (auto simp: rooted_def intro: descends_mono)

lemma rooted_parent_rooted:
  assumes "inj_on b_hash T" "R \<subseteq> T" "rooted g R b" "b \<noteq> g" "p \<in> R" "is_parent p b"
  shows "rooted g R p"
proof -
  obtain q where q: "rooted g R q" "is_parent q b" using rooted_parent [OF assms(3,4)] by auto
  then have "q = p" using rooted_mem [OF q(1)] assms by (intro parent_unique [OF assms(1) _ _ q(2)]) auto
  with q show ?thesis by simp
qed

text \<open>The line of ancestors of a rooted block is the same in a larger set.\<close>

lemma rooted_line:
  assumes "inj_on b_hash T" "R' \<subseteq> T" "R \<subseteq> R'" "b_height g = 0"
  shows "descends R y t \<Longrightarrow> y = g \<Longrightarrow> g \<in> R \<Longrightarrow> descends R' x t \<Longrightarrow> x \<in> R' \<Longrightarrow> x \<in> R \<and> descends R x t"
proof (induction rule: descends.induct)
  case (descends_self y)
  then show ?case using descends_height [of R' x y] assms(4) by (auto intro: descends.descends_self)
next
  case (descends_child y p b)
  consider "x = b" | q where "descends R' x q" "is_parent q b"
    using descends_child.prems(3) by (auto simp: descends_iff [of R' x b])
  then show ?case
  proof cases
    case 1
    with descends_child.hyps(2) show ?thesis by (auto intro: descends.descends_self)
  next
    case (2 q)
    have "p \<in> R" using descends_mem [OF descends_child.hyps(1)] descends_child.prems(1,2) by auto
    moreover have "q \<in> R'" using descends_mem [OF 2(1)] descends_child.prems(4) by auto
    ultimately have "q = p"
      using parent_unique [OF assms(1) _ _ 2(2) descends_child.hyps(3)] assms(2,3) by blast
    with 2(1) descends_child have "x \<in> R \<and> descends R x p" by blast
    with descends_child.hyps show ?thesis by (auto intro: descends.descends_child)
  qed
qed

text \<open>A rooted block has an ancestor of every height below its own.\<close>

lemma rooted_ancestor:
  assumes "b_height g = 0"
  shows "rooted g R t \<Longrightarrow> i \<le> b_height t \<Longrightarrow> \<exists>a\<in>R. b_height a = i \<and> descends R a t"
proof -
  have "descends R y t \<Longrightarrow> y = g \<Longrightarrow> g \<in> R \<Longrightarrow> i \<le> b_height t \<Longrightarrow> \<exists>a\<in>R. b_height a = i \<and> descends R a t" for y
  proof (induction rule: descends.induct)
    case (descends_child y p b)
    show ?case
    proof (cases "i = b_height b")
      case False
      then have "unat i < unat (b_height b)"
        using descends_child.prems(3) word_unat_eq_iff [of i "b_height b"] by (simp add: word_le_nat_alt)
      then have "i \<le> b_height p" using descends_child.hyps(3) by (simp add: is_parent_def word_le_nat_alt)
      with descends_child show ?thesis by (blast intro: descends.descends_child)
    qed (use descends_child.hyps(2) in \<open>auto intro: descends.descends_self\<close>)
  qed (use assms in \<open>auto intro: descends.descends_self\<close>)
  then show "rooted g R t \<Longrightarrow> i \<le> b_height t \<Longrightarrow> \<exists>a\<in>R. b_height a = i \<and> descends R a t"
    by (auto simp: rooted_def)
qed

text \<open>A new block roots only what descends from it.\<close>

lemma rooted_insert:
  assumes "rooted g (insert x R) b" shows "rooted g R b \<or> descends (insert x R) x b"
proof -
  have "descends (insert x R) g b" "g \<in> insert x R" using assms by (simp_all add: rooted_def)
  then show ?thesis
  proof (induction rule: descends.induct)
    case (descends_self g)
    then show ?case by (auto simp: rooted_def intro: descends.intros)
  next
    case (descends_child g p b)
    then show ?case by (auto intro: descends.intros rooted_child)
  qed
qed

lemma stretch_mono: "stretch R n b \<Longrightarrow> R \<subseteq> R' \<Longrightarrow> stretch R' n b"
proof (induction n arbitrary: b)
  case (Suc n)
  then show ?case by auto
qed simp

section \<open>Any order of arrival\<close>

fun add_all :: "('s \<Rightarrow> 'b \<Rightarrow> 's \<times> ('e, 'r) outcome) \<Rightarrow> 'b list \<Rightarrow> 's \<Rightarrow> 's \<times> ('e, unit) outcome" where
  "add_all add [] s = (s, Ok ())"
| "add_all add (b # bs) s = bindS (add s b) (\<lambda>s _. add_all add bs s)"

lemma add_all_map: "add_all f (map h xs) s = add_all (\<lambda>s x. f s (h x)) xs s"
  by (induction xs arbitrary: s) simp_all

text \<open>
  The state takes in every block of an admissible set, and its invariant speaks of the set of
  blocks it has taken in, not of their order.
\<close>

locale any_order =
  fixes add :: "'s \<Rightarrow> 'b \<Rightarrow> 's \<times> ('e, 'r) outcome" and admissible :: "'b set \<Rightarrow> bool"
    and inv :: "'b set \<Rightarrow> 's \<Rightarrow> bool"
  assumes added: "inv R s \<Longrightarrow> admissible (insert b R) \<Longrightarrow>
    \<exists>s' r. add s b = (s', Ok r) \<and> inv (insert b R) s'"
begin

lemma all_added:
  "inv R s \<Longrightarrow> (\<And>i. i \<le> length bs \<Longrightarrow> admissible (R \<union> set (take i bs))) \<Longrightarrow>
   \<exists>s'. add_all add bs s = (s', Ok ()) \<and> inv (R \<union> set bs) s'"
proof (induction bs arbitrary: R s)
  case (Cons b bs)
  have "admissible (insert b R)" using Cons.prems(2) [of 1] by simp
  from added [OF Cons.prems(1) this] obtain s1 r where
    s1: "add s b = (s1, Ok r)" "inv (insert b R) s1" by blast
  have "admissible (insert b R \<union> set (take i bs))" if "i \<le> length bs" for i
    using Cons.prems(2) [of "Suc i"] that by simp
  from Cons.IH [OF s1(2) this] s1(1) show ?case by simp
qed auto

end

text \<open>What can be seen of a state is a function of the blocks it has taken in.\<close>

locale convergent = any_order add admissible inv
  for add :: "'s \<Rightarrow> 'b \<Rightarrow> 's \<times> ('e, 'r) outcome" and admissible and inv +
  fixes view :: "'s \<Rightarrow> 'v"
  assumes agreed: "inv R s \<Longrightarrow> inv R s' \<Longrightarrow> view s = view s'"
begin

lemma converges:
  assumes "inv R s" "inv R s'" "set bs = set bs'"
    and "\<And>i. i \<le> length bs \<Longrightarrow> admissible (R \<union> set (take i bs))"
    and "\<And>i. i \<le> length bs' \<Longrightarrow> admissible (R \<union> set (take i bs'))"
  shows "\<exists>t t'. add_all add bs s = (t, Ok ()) \<and> add_all add bs' s' = (t', Ok ())
    \<and> inv (R \<union> set bs) t \<and> inv (R \<union> set bs) t' \<and> view t = view t'"
  using all_added [OF assms(1,4)] all_added [OF assms(2,5)] assms(3) agreed by metis

end

end
