(* ===== verification/CheckCorrect.thy ===== *)
theory CheckCorrect
  imports StorageCorrect
begin

text \<open>
  What the checks of \<open>ChainVerify\<close> establish: the accumulated work is the exact sum of
  its parts, the median time is a median of the ancestors' time stamps, the shares add up to
  what the counted blocks and uncles are worth, and the coinbases pay in proportion.
\<close>

section \<open>Ancestors\<close>

text \<open>A header and up to \<open>n\<close> of its ancestors, as far as they are on record.\<close>

fun ancestors :: "'l p2chain \<Rightarrow> nat \<Rightarrow> p2block_header \<Rightarrow> p2block_header list" where
  "ancestors c 0 b = [b]"
| "ancestors c (Suc n) b =
     b # (if hd_height b = 0 then []
          else case get_block_header_at_height c (sat_sub (hd_height b) 1) (hd_prev_hash b) of
                 None \<Rightarrow> [] | Some p \<Rightarrow> ancestors c n p)"

lemma ancestors_length: "length (ancestors c n b) \<le> Suc n"
  by (induction n arbitrary: b) (auto split: option.splits)

lemma ancestors_not_Nil [simp]: "ancestors c n b \<noteq> []"
  by (cases n) auto

lemma ancestors_hd: "ancestors c n b = b # tl (ancestors c n b)"
  by (cases n) auto

section \<open>Median time\<close>

lemma median_collect_ancestors:
  "median_collect c b ts = Ok r \<Longrightarrow>
   r = ts @ map hd_timestamp (tl (ancestors c (MEDIAN_TIMESTAMP_WINDOW - length ts) b))"
proof (induction c b ts rule: median_collect.induct)
  case (1 c b ts)
  show ?case
  proof (cases "length ts < MEDIAN_TIMESTAMP_WINDOW \<and> hd_height b \<noteq> 0")
    case True
    then obtain n where n: "MEDIAN_TIMESTAMP_WINDOW - length ts = Suc n"
      by (cases "MEDIAN_TIMESTAMP_WINDOW - length ts") auto
    from True "1.prems" obtain l p where lp: "level_at_height c (sat_sub (hd_height b) 1) = Some l"
      "level_get_header l (hd_prev_hash b) = Some p"
      "median_collect c p (ts @ [hd_timestamp p]) = Ok r"
      by (auto simp: median_collect.simps [of c b ts])
    have "r = (ts @ [hd_timestamp p]) @ map hd_timestamp
        (tl (ancestors c (MEDIAN_TIMESTAMP_WINDOW - length (ts @ [hd_timestamp p])) p))"
      using "1.IH" [of l p] True lp by simp
    moreover have "MEDIAN_TIMESTAMP_WINDOW - length (ts @ [hd_timestamp p]) = n" using n by simp
    ultimately have "r = ts @ map hd_timestamp (hd_timestamp_list)" if "hd_timestamp_list = ancestors c n p" for hd_timestamp_list
      using that ancestors_hd [of c n p] by (metis append.assoc append_Cons append_Nil list.simps(9))
    then show ?thesis
      using n True lp by (simp add: get_block_header_at_height_def)
  next
    case False
    with "1.prems" show ?thesis
      by (cases "MEDIAN_TIMESTAMP_WINDOW - length ts") (auto simp: median_collect.simps [of c b ts] split: if_splits)
  qed
qed

text \<open>Half of the values are at most the median and half at least.\<close>

definition is_median :: "epoch_time list \<Rightarrow> epoch_time \<Rightarrow> bool" where
  "is_median ts m \<longleftrightarrow> length ts \<le> 2 * length (filter (\<lambda>t. t \<le> m) ts)
     \<and> length ts \<le> 2 * length (filter (\<lambda>t. m \<le> t) ts)"

lemma filter_sort_length: "length (filter P (sort ts)) = length (filter P (ts :: 'a::linorder list))"
proof -
  have "filter P (sort ts) = sort (filter P ts)" by (simp add: filter_sort)
  then show ?thesis by simp
qed

lemma length_filter_take: "(\<And>x. x \<in> set (take k xs) \<Longrightarrow> P x) \<Longrightarrow> k \<le> length xs \<Longrightarrow> k \<le> length (filter P xs)"
proof -
  assume P: "\<And>x. x \<in> set (take k xs) \<Longrightarrow> P x" and k: "k \<le> length xs"
  have "length (filter P (take k xs)) = k" using P k by (simp add: filter_True)
  moreover have "filter P xs = filter P (take k xs) @ filter P (drop k xs)"
    by (metis append_take_drop_id filter_append)
  ultimately show ?thesis by simp
qed

lemma length_filter_drop: "(\<And>x. x \<in> set (drop k xs) \<Longrightarrow> P x) \<Longrightarrow> length xs - k \<le> length (filter P xs)"
proof -
  assume P: "\<And>x. x \<in> set (drop k xs) \<Longrightarrow> P x"
  have "length (filter P (drop k xs)) = length xs - k" using P by (simp add: filter_True)
  moreover have "filter P xs = filter P (take k xs) @ filter P (drop k xs)"
    by (metis append_take_drop_id filter_append)
  ultimately show ?thesis by simp
qed

lemma sorted_take_le: "sorted xs \<Longrightarrow> i < length xs \<Longrightarrow> x \<in> set (take (Suc i) xs) \<Longrightarrow> x \<le> xs ! i"
  by (auto simp: in_set_conv_nth sorted_iff_nth_mono)

lemma sorted_drop_ge: "sorted xs \<Longrightarrow> i < length xs \<Longrightarrow> x \<in> set (drop i xs) \<Longrightarrow> xs ! i \<le> x"
  by (auto simp: in_set_conv_nth sorted_iff_nth_mono)

lemma mean_between:
  assumes "a \<le> b" shows "unat (((ucast (a :: u64) :: u128) + ucast b) div 2) = (unat a + unat b) div 2"
proof -
  have "unat a < 2 ^ 64" "unat b < 2 ^ 64" using unsigned_less [of a] unsigned_less [of b] by simp_all
  then have "unat (ucast a :: u128) + unat (ucast b :: u128) < 2 ^ LENGTH(128)" by simp
  then have "unat ((ucast a :: u128) + ucast b) = unat a + unat b"
    by (subst unat_plus_small) simp_all
  then show ?thesis by (simp add: unat_div)
qed

lemma median_of_is_median:
  assumes "ts \<noteq> []" shows "is_median ts (median_of ts)"
proof -
  let ?s = "sort ts" and ?n = "length ts"
  have len: "length ?s = ?n" and n: "0 < ?n" using assms by auto
  show ?thesis
  proof (cases "?n mod 2 = 0")
    case False
    let ?i = "?n div 2"
    have i: "?i < length ?s" using n len by simp
    have m: "median_of ts = ?s ! ?i" using False by (simp add: median_of_def Let_def)
    have "Suc ?i \<le> length (filter (\<lambda>t. t \<le> ?s ! ?i) ?s)"
      using i sorted_take_le [OF sorted_sort i] by (intro length_filter_take) auto
    moreover have "length ?s - ?i \<le> length (filter (\<lambda>t. ?s ! ?i \<le> t) ?s)"
      using sorted_drop_ge [OF sorted_sort i] by (intro length_filter_drop) auto
    moreover have "?n = 2 * ?i + 1" using False by presburger
    ultimately show ?thesis
      using len unfolding is_median_def m filter_sort_length by linarith
  next
    case True
    let ?i = "?n div 2"
    define a b where "a = ?s ! (?i - 1)" and "b = ?s ! ?i"
    have i: "?i < length ?s" "?i - 1 < length ?s" "Suc (?i - 1) = ?i" using n len True by presburger+
    have ab: "a \<le> b" unfolding a_def b_def
      by (intro sorted_nth_mono) (use i in simp_all)
    define mean where "mean = ((ucast a :: u128) + ucast b) div 2"
    have mean: "unat mean = (unat a + unat b) div 2"
      unfolding mean_def using mean_between [OF ab] .
    have abn: "unat a \<le> unat b" using ab by (simp add: word_le_nat_alt)
    have bl: "unat b < 2 ^ 64" using unsigned_less [of b] by simp
    then have ml: "unat mean < 2 ^ 64" using mean abn by linarith
    then have m: "median_of ts = ucast mean"
      using True by (simp add: median_of_def Let_def a_def b_def mean_def)
    have um: "unat (median_of ts) = (unat a + unat b) div 2"
      unfolding m mean [symmetric] using ml
      by (simp add: unsigned_ucast_eq take_bit_nat_eq_self)
    then have am: "a \<le> median_of ts" and mb: "median_of ts \<le> b"
      using abn by (simp_all add: word_le_nat_alt) 
    have "Suc (?i - 1) \<le> length (filter (\<lambda>t. t \<le> median_of ts) ?s)"
      using i sorted_take_le [OF sorted_sort i(2)] am unfolding a_def
      by (intro length_filter_take) (auto intro: order_trans)
    moreover have "length ?s - ?i \<le> length (filter (\<lambda>t. median_of ts \<le> t) ?s)"
      using sorted_drop_ge [OF sorted_sort i(1)] mb unfolding b_def
      by (intro length_filter_drop) (auto intro: order_trans)
    moreover have "?n = 2 * ?i" using True by presburger
    ultimately show ?thesis
      using i(3) len unfolding is_median_def filter_sort_length by linarith
  qed
qed

text \<open>The median time is the median (with the mean of the middle pair) of the times of the
  parent and its up to ten ancestors.\<close>

theorem median_timestamp_correct:
  assumes "calculate_median_timestamp_for_block c height prev = Ok m"
  shows "\<exists>b. get_block_header_at_height c (sat_sub height 1) prev = Some b
    \<and> is_median (map hd_timestamp (ancestors c 10 b)) m
    \<and> length (ancestors c 10 b) \<le> MEDIAN_TIMESTAMP_WINDOW"
proof -
  obtain l b ts where b: "level_at_height c (sat_sub height 1) = Some l" "level_get_header l prev = Some b"
    and ts: "median_collect c b [hd_timestamp b] = Ok ts" and m: "m = median_of ts"
    using assms by (auto simp: calculate_median_timestamp_for_block_def)
  have "ts = [hd_timestamp b] @ map hd_timestamp (tl (ancestors c 10 b))"
    using median_collect_ancestors [OF ts] by (simp add: MEDIAN_TIMESTAMP_WINDOW_def)
  then have "ts = map hd_timestamp (ancestors c 10 b)"
    using ancestors_hd [of c 10 b] by (metis append_Cons append_Nil list.simps(9))
  with b m median_of_is_median [of ts] ancestors_length [of c 10 b] show ?thesis
    by (auto simp: get_block_header_at_height_def MEDIAN_TIMESTAMP_WINDOW_def)
qed

theorem median_timestamp_correct_witness:
  "calculate_median_timestamp_for_block demo_two 1 1 = Ok 1000
   \<and> (\<exists>b. get_block_header_at_height demo_two 0 1 = Some b \<and> is_median (map hd_timestamp (ancestors demo_two 10 b)) 1000)"
proof -
  have m: "calculate_median_timestamp_for_block demo_two 1 1 = Ok 1000" by code_simp
  from median_timestamp_correct [OF m] m show ?thesis by (auto simp: sat_sub_def)
qed

section \<open>Accumulated work\<close>

lemma pow_of_uncles_sum:
  assumes "acc_arith e" "pow_of_uncles e c us w = Ok (Some t)"
  shows "\<exists>bs. map (\<lambda>u. get_block_at_height c (fst u) (snd u)) us = map Some bs
    \<and> (\<forall>b \<in> set bs. has_target_difficulty_verified (b_verified b) \<and> has_difficulty_verified (b_verified b))
    \<and> unat t = unat w + (\<Sum>b\<leftarrow>bs. unat (b_target_difficulty b))"
  using assms(2)
proof (induction us arbitrary: w)
  case (Cons u us)
  obtain b w' where b: "get_block_at_height c (fst u) (snd u) = Some b"
    "has_target_difficulty_verified (b_verified b)" "has_difficulty_verified (b_verified b)"
    "acc_checked_add e w (b_target_difficulty b) = Some w'" "pow_of_uncles e c us w' = Ok (Some t)"
    using Cons.prems by (auto split: option.splits if_splits)
  from Cons.IH [OF b(5)] obtain bs where bs:
    "map (\<lambda>u. get_block_at_height c (fst u) (snd u)) us = map Some bs"
    "\<forall>b \<in> set bs. has_target_difficulty_verified (b_verified b) \<and> has_difficulty_verified (b_verified b)"
    "unat t = unat w' + (\<Sum>b\<leftarrow>bs. unat (b_target_difficulty b))" by blast
  have "unat w' = unat w + unat (b_target_difficulty b)"
    using acc_addD [OF assms(1)] b(4) by blast
  with b bs show ?case by (intro exI [of _ "b # bs"]) simp
qed simp

text \<open>
  A block passes exactly on its claimed total: its own target, the targets of its uncles
  and, above height zero, the total of its parent.
\<close>

text \<open>C11: A block that passes the work check claims exactly the work of its parent plus its own
  target difficulty plus those of its uncles, its parent is on record, and every uncle is on
  record with verified difficulty and target.\<close>

theorem verify_pow_and_parents_total:
  assumes "acc_arith e" "verify_pow_and_parents e c block = Ok True"
    and "\<not> has_parents (b_verified block)" "\<not> has_parents (ch_bypass_checks c)"
  shows "\<exists>uncles before.
      map (\<lambda>u. get_block_at_height c (fst u) (snd u)) (b_uncles block) = map Some uncles
    \<and> (\<forall>u \<in> set uncles. has_target_difficulty_verified (b_verified u)
                          \<and> has_difficulty_verified (b_verified u))
    \<and> (if b_height block = 0 then before = 0
       else \<exists>parent. get_block_at_height c (sat_sub (b_height block) 1) (b_prev_hash block) = Some parent
                     \<and> before = unat (b_total_pow parent))
    \<and> unat (b_total_pow block) =
        before + unat (b_target_difficulty block) + (\<Sum>u\<leftarrow>uncles. unat (b_target_difficulty u))"
proof -
  let ?h = "b_height block"
  let ?parent = "get_block_at_height c (sat_sub ?h 1) (b_prev_hash block)"
  obtain w0 r where w0: "acc_from_u128 e (ucast (b_target_difficulty block)) = Some w0"
    and r: "pow_of_uncles e c (b_uncles block) w0 = Ok r"
    using assms(2-) by (auto simp: verify_pow_and_parents_def)
  obtain w1 where w1: "pow_of_uncles e c (b_uncles block) w0 = Ok (Some w1)"
    using assms(2-) w0 r by (cases r) (auto simp: verify_pow_and_parents_def)
  have rest: "if ?h = 0 then b_total_pow block = w1
      else \<exists>parent s. ?parent = Some parent \<and> add_chk w1 (b_total_pow parent) = (Ok s :: u128 sc_result)
             \<and> acc_from_u128 e s = Some (b_total_pow block)"
  proof (cases "?h = 0")
    case True
    with assms(2-) w0 w1 show ?thesis by (simp add: verify_pow_and_parents_def split: if_splits)
  next
    case False
    with assms(2-) w0 w1 show ?thesis
      by (cases ?parent) (auto simp: verify_pow_and_parents_def split: if_splits)
  qed
  from pow_of_uncles_sum [OF assms(1) w1] obtain us where us:
    "map (\<lambda>u. get_block_at_height c (fst u) (snd u)) (b_uncles block) = map Some us"
    "\<forall>b \<in> set us. has_target_difficulty_verified (b_verified b) \<and> has_difficulty_verified (b_verified b)"
    "unat w1 = unat w0 + (\<Sum>b\<leftarrow>us. unat (b_target_difficulty b))" by blast
  have w: "unat w0 = unat (b_target_difficulty block)"
    using acc_from_u128D [OF assms(1) w0] by simp
  show ?thesis
  proof (cases "?h = 0")
    case True
    with rest us w show ?thesis by (intro exI [of _ us] exI [of _ 0]) auto
  next
    case False
    with rest obtain parent s where p: "?parent = Some parent"
      "add_chk w1 (b_total_pow parent) = (Ok s :: u128 sc_result)"
      "acc_from_u128 e s = Some (b_total_pow block)" by auto
    have "unat (b_total_pow block) = unat w1 + unat (b_total_pow parent)"
      using acc_from_u128D [OF assms(1) p(3)] add_chk_Ok [OF p(2)] by argo
    with False p us w show ?thesis
      by (intro exI [of _ us] exI [of _ "unat (b_total_pow parent)"]) auto
  qed
qed

theorem verify_pow_and_parents_total_witness:
  "\<exists>uncles before. map (\<lambda>u. get_block_at_height demo_two (fst u) (snd u)) [] = map Some uncles
     \<and> unat (20 :: u128) = before + unat (10 :: u64) + (\<Sum>u\<leftarrow>uncles. unat (b_target_difficulty u))"
proof -
  have "verify_pow_and_parents demo_ext demo_two (demo_block 1 2 1 20 0) = Ok True" by code_simp
  from verify_pow_and_parents_total [OF acc_arith_demo this]
  show ?thesis by (auto simp: demo_defs has_defs vs_contains_bits vs_new_def)
qed

section \<open>Shares\<close>

definition total_shares_of :: "share_map \<Rightarrow> nat" where
  "total_shares_of m = (\<Sum>s\<leftarrow>hm_values m. unat (ms_share_count s))"

lemma total_shares_insert_new:
  "hm_get m k = None \<Longrightarrow> total_shares_of (hm_insert k s m) = total_shares_of m + unat (ms_share_count s)"
  by (induction m) (auto simp: total_shares_of_def split: if_splits)

lemma total_shares_insert_old:
  "hm_get m k = Some s0 \<Longrightarrow> hm_ok m \<Longrightarrow>
   total_shares_of (hm_insert k s m) + unat (ms_share_count s0) = total_shares_of m + unat (ms_share_count s)"
  by (induction m) (auto simp: total_shares_of_def hm_ok_def split: if_splits)

lemma update_insert_total:
  assumes "update_insert e a n x m = Ok m'" "hm_ok m"
  shows "hm_ok m' \<and> total_shares_of m' = total_shares_of m + unat n"
proof (cases "hm_get m (public_spend_key e a)")
  case None
  then show ?thesis using assms
    by (auto simp: update_insert_def total_shares_insert_new hm.ok_put)
next
  case (Some s0)
  with assms obtain k where k: "add_chk (ms_share_count s0) n = (Ok k :: u64 sc_result)"
    "m' = hm_insert (public_spend_key e a) (s0\<lparr>ms_share_count := k, ms_coinbase_extra := x\<rparr>) m"
    by (auto simp: update_insert_def)
  then show ?thesis
    using total_shares_insert_old [OF Some assms(2), of "s0\<lparr>ms_share_count := k, ms_coinbase_extra := x\<rparr>"]
      add_chk_Ok [OF k(1)] assms(2)
    by (auto simp: hm.ok_put)
qed

definition shares_of_block :: "p2block_header \<Rightarrow> nat" where
  "shares_of_block = (\<lambda>b. 5 + 4 * length (hd_uncles b))"

lemma count_block_total:
  assumes "count_block e c b m = Ok m'" "hm_ok m"
  shows "hm_ok m' \<and> total_shares_of m' = total_shares_of m + shares_of_block b"
proof -
  have uncles: "foldO (\<lambda>u shares. bindO (uncle_header c u) (\<lambda>ub.
         update_insert e (hd_wallet_address ub) UNCLE_REWARD_SHARE (hd_coinbase_extra ub) shares)) us m = Ok m'
      \<Longrightarrow> hm_ok m \<Longrightarrow> hm_ok m' \<and> total_shares_of m' = total_shares_of m + 4 * length us" for us m m'
  proof (induction us arbitrary: m)
    case (Cons u us)
    from Cons.prems(1) obtain m1 and ub :: p2block_header where m1: "update_insert e (hd_wallet_address ub) UNCLE_REWARD_SHARE (hd_coinbase_extra ub) m = Ok m1"
      "foldO (\<lambda>u shares. bindO (uncle_header c u) (\<lambda>ub.
         update_insert e (hd_wallet_address ub) UNCLE_REWARD_SHARE (hd_coinbase_extra ub) shares)) us m1 = Ok m'"
      by auto
    from update_insert_total [OF m1(1) Cons.prems(2)] Cons.IH [OF m1(2)]
    show ?case by (simp add: UNCLE_REWARD_SHARE_def)
  qed simp
  obtain m1 where m1: "update_insert e (hd_wallet_address b) MAIN_REWARD_SHARE (hd_coinbase_extra b) m = Ok m1"
    "foldO (\<lambda>u shares. bindO (uncle_header c u) (\<lambda>ub.
         update_insert e (hd_wallet_address ub) UNCLE_REWARD_SHARE (hd_coinbase_extra ub) shares)) (hd_uncles b) m1 = Ok m'"
    using assms(1) by (auto simp: count_block_def)
  from update_insert_total [OF m1(1) assms(2)] uncles [OF m1(2)]
  show ?thesis by (simp add: shares_of_block_def MAIN_REWARD_SHARE_def)
qed

lemma shares_loop_total:
  assumes "levels_wf c" "shares_loop e c fuel stop cur m = Ok m'" "hm_ok m"
  shows "hm_ok m' \<and> total_shares_of m' = total_shares_of m
    + sum_list (map shares_of_block (tl (ancestors c (unat (hd_height cur) - unat stop) cur)))"
  using assms(2,3)
proof (induction fuel arbitrary: cur m)
  case (Suc fuel)
  show ?case
  proof (cases "stop < hd_height cur")
    case True
    then obtain p m1 where p: "get_block_header_at_height c (sat_sub (hd_height cur) 1) (hd_prev_hash cur) = Some p"
      "count_block e c p m = Ok m1"
      "(if hd_height p = 0 then Ok m1 else shares_loop e c fuel stop p m1) = Ok m'"
      using Suc.prems(1) by auto
    have hp: "unat (hd_height p) = unat (hd_height cur) - 1"
      using get_header_wf [OF assms(1) p(1)] by simp
    have lt: "unat stop < unat (hd_height cur)" using True by (simp add: word_less_nat_alt)
    define n where "n = unat (hd_height p) - unat stop"
    have n: "unat (hd_height cur) - unat stop = Suc n" using hp lt by (simp add: n_def)
    have "hd_height cur \<noteq> 0" using lt by auto
    then have anc: "tl (ancestors c (unat (hd_height cur) - unat stop) cur) = ancestors c n p"
      using p(1) by (simp add: n)
    note ct = count_block_total [OF p(2) Suc.prems(2)]
    show ?thesis
    proof (cases "hd_height p = 0")
      case p0: True
      then have "ancestors c n p = [p]" by (cases n) simp_all
      with p0 p(3) ct show ?thesis by (simp add: anc)
    next
      case False
      with p(3) have l: "shares_loop e c fuel stop p m1 = Ok m'" by simp
      have "ancestors c n p = p # tl (ancestors c n p)" by (rule ancestors_hd)
      then have "sum_list (map shares_of_block (ancestors c n p))
          = shares_of_block p + sum_list (map shares_of_block (tl (ancestors c n p)))"
        by (metis list.simps(9) sum_list.Cons)
      with Suc.IH [OF l] ct show ?thesis by (simp add: anc n_def)
    qed
  next
    case False
    then have "unat (hd_height cur) - unat stop = 0" by (simp add: word_less_nat_alt)
    with False Suc.prems show ?thesis by simp
  qed
qed simp

lemma ancestors_height:
  "levels_wf c \<Longrightarrow> unat (hd_height b) \<le> n \<Longrightarrow> ancestors c n b = ancestors c (unat (hd_height b)) b"
proof (induction n arbitrary: b)
  case (Suc n)
  show ?case
  proof (cases "unat (hd_height b)")
    case 0
    then have "hd_height b = 0" by (simp add: unat_eq_zero)
    then show ?thesis by simp
  next
    case (Suc m)
    then have b0: "hd_height b \<noteq> 0" by auto
    show ?thesis
    proof (cases "get_block_header_at_height c (sat_sub (hd_height b) 1) (hd_prev_hash b)")
      case (Some p)
      have "unat (hd_height p) = m" using get_header_wf [OF Suc.prems(1) Some] Suc by simp
      then show ?thesis using Suc.IH [of p] Suc.prems Some b0 Suc by simp
    qed (use b0 Suc in simp)
  qed
qed simp

text \<open>
  The shares handed out are five for each of the last \<open>share_window - 1\<close> blocks and four
  for each uncle those blocks name.
\<close>

text \<open>C12: The share map computed at a block has as many shares in total as five for each of the
  blocks of the window below it plus four for each of their uncles.\<close>

theorem shares_total:
  assumes "chain_wf c" "level_at_height c h \<noteq> None"
    and "get_calculate_and_cache_hashmap_of_shares e c h hash = Ok m"
  shows "\<exists>b. get_block_header_at_height c h hash = Some b \<and>
    (\<Sum>s\<leftarrow>hm_values m. unat (ms_share_count s)) =
      (\<Sum>x \<leftarrow> ancestors c (unat (ch_share_window c) - 2) b. 5 + 4 * length (hd_uncles x))"
proof -
  note wf = chain_wf_levels [OF assms(1)]
  obtain l where l: "level_at_height c h = Some l" using assms(2) by auto
  obtain bk b m0 where b: "sub_chk (ch_share_window c) 2 = (Ok bk :: u64 sc_result)"
    "level_get_header l hash = Some b" "count_block e c b [] = Ok m0"
    "shares_loop e c (Suc (unat (hd_height b))) (sat_sub (lv_height l) bk) b m0 = Ok m"
    using assms(3) l by (auto simp: get_calculate_and_cache_hashmap_of_shares_def Let_def)
  have hb: "hd_height b = h" "lv_height l = h"
    using level_wf_header [OF _ b(2)] levels_wfD [OF wf l] by auto
  let ?n = "unat (ch_share_window c) - 2"
  have bk: "unat bk = ?n" using sub_chk_Ok [OF b(1)] by simp
  note c0 = count_block_total [OF b(3)]
  have stop: "unat (hd_height b) - unat (sat_sub (lv_height l) bk) = min (unat h) ?n"
    using hb bk by simp
  have "ancestors c (min (unat h) ?n) b = ancestors c ?n b"
    using ancestors_height [OF wf, of b ?n] hb by (simp add: min_def)
  then have "total_shares_of m = shares_of_block b
      + sum_list (map shares_of_block (tl (ancestors c ?n b)))"
    using shares_loop_total [OF wf b(4)] c0 stop by (simp add: total_shares_of_def)
  also have "\<dots> = sum_list (map shares_of_block (ancestors c ?n b))"
    by (subst (2) ancestors_hd) simp
  finally have "total_shares_of m = sum_list (map shares_of_block (ancestors c ?n b))" .
  then show ?thesis
    using b(2) l by (intro exI [of _ b])
      (simp add: get_block_header_at_height_def total_shares_of_def shares_of_block_def)
qed

theorem shares_total_witness:
  "\<exists>m b. get_calculate_and_cache_hashmap_of_shares demo_ext demo_two 1 2 = Ok m
    \<and> get_block_header_at_height demo_two 1 2 = Some b
    \<and> (\<Sum>s\<leftarrow>hm_values m. unat (ms_share_count s)) = (\<Sum>x\<leftarrow>ancestors demo_two 8 b. 5 + 4 * length (hd_uncles x))"
proof -
  have m: "get_calculate_and_cache_hashmap_of_shares demo_ext demo_two 1 2 =
      Ok [([1], \<lparr>ms_miner = [1], ms_share_count = 10, ms_coinbase_extra = []\<rparr>)]" by code_simp
  have "level_at_height demo_two 1 \<noteq> None" by (simp add: demo_defs level_at_height_def)
  from shares_total [OF chain_wf_demo_two this m] m show ?thesis
    by (auto simp: demo_two_def demo_chain_def Let_def)
qed

section \<open>Coinbases\<close>

lemma unat_sum_u64: "sum_u64 xs = Ok r \<Longrightarrow> unat r = (\<Sum>x\<leftarrow>xs. unat x)"
proof -
  have "foldO (\<lambda>x acc. add_chk acc (ucast x)) xs a = (Ok r :: u128 sc_result)
      \<Longrightarrow> unat r = unat a + (\<Sum>x\<leftarrow>xs. unat x)" for a
  proof (induction xs arbitrary: a)
    case (Cons x xs)
    then obtain s where s: "add_chk a (ucast x) = (Ok s :: u128 sc_result)"
      "foldO (\<lambda>x acc. add_chk acc (ucast x)) xs s = (Ok r :: u128 sc_result)" by auto
    have "unat s = unat a + unat x" using add_chk_unat [OF s(1)] by simp
    with Cons.IH [OF s(2)] show ?case by simp
  qed simp
  from this [of 0] show "sum_u64 xs = Ok r \<Longrightarrow> unat r = (\<Sum>x\<leftarrow>xs. unat x)"
    by (simp add: sum_u64_def)
qed

text \<open>The miner a coinbase pays, and the shares of that miner.\<close>

definition paid_miner :: "share_map \<Rightarrow> transaction_output \<Rightarrow> miner_share option" where
  "paid_miner m out =
     (case script_opcode (to_script out) 0 of
        Some (PushPubKey k) \<Rightarrow> hm_get m k | _ \<Rightarrow> None)"

definition listed_shares :: "share_map \<Rightarrow> transaction_output \<Rightarrow> nat" where
  "listed_shares m out = (case paid_miner m out of None \<Rightarrow> 0 | Some ms \<Rightarrow> unat (ms_share_count ms))"

lemma near:
  fixes v out :: u64
  assumes "\<not> (v \<le> sat_sub out 10 \<or> sat_add out 10 \<le> v)"
  shows "\<bar>int (unat v) - int (unat out)\<bar> \<le> 9 \<and> 0 < unat v"
proof -
  have "unat out - 10 < unat v" "unat v < unat out + 10"
    using assms unat_sat_add [of out 10] by (simp_all add: word_le_nat_alt not_le)
  then show ?thesis by linarith
qed

lemma check_coinbase_Ok:
  assumes "check_coinbase m R T out (s, p) = Ok (s', p')"
    and "(unat s + listed_shares m out) * unat R < 2 ^ 128"
  shows "\<exists>ms. paid_miner m out = Some ms \<and> ms_coinbase_extra ms = to_coinbase_extra out
    \<and> 0 < unat T
    \<and> unat s' = unat s + listed_shares m out \<and> unat p' = unat s' * unat R div unat T
    \<and> \<bar>(int (unat p') - int (unat p)) - int (unat (to_minimum_value_promise out))\<bar> \<le> 9"
proof -
  obtain k ms v where k: "script_opcode (to_script out) 0 = Some (PushPubKey k)" "hm_get m k = Some ms"
    and s': "add_chk s (ucast (ms_share_count ms)) = (Ok s' :: u128 sc_result)"
    and v: "coinbase_value s' R T p = Ok v"
    and p': "add_chk p (ucast v) = (Ok p' :: u128 sc_result)"
    and near': "\<not> (v \<le> sat_sub (to_minimum_value_promise out) 10 \<or> sat_add (to_minimum_value_promise out) 10 \<le> v)"
    and extra: "ms_coinbase_extra ms = to_coinbase_extra out"
    using assms(1)
    by (auto simp: check_coinbase_def Let_def split: option.split_asm opcode.split_asm if_split_asm)
  have ls: "paid_miner m out = Some ms" "listed_shares m out = unat (ms_share_count ms)"
    using k by (simp_all add: paid_miner_def listed_shares_def)
  have s: "unat s' = unat s + listed_shares m out" using add_chk_unat [OF s'] ls by simp
  obtain d where T: "T \<noteq> 0" and d: "sub_chk (sat_mul s' R div T) p = (Ok d :: u128 sc_result)"
    and vd: "v = (if unat d < 2 ^ 64 then ucast d else 0)"
    using v by (auto simp: coinbase_value_def split: if_split_asm)
  have mul: "unat (sat_mul s' R) = unat s' * unat R"
    using assms(2) s by (simp add: sat_mul_def unat_word_ariths)
  have "0 < unat v" using near [OF near'] by blast
  then have "unat d < 2 ^ 64" using vd by (auto split: if_splits)
  then have "unat v = unat d" using vd by (simp add: unsigned_ucast_eq take_bit_nat_eq_self)
  moreover have "unat d = unat s' * unat R div unat T - unat p" "unat p \<le> unat s' * unat R div unat T"
    using sub_chk_Ok [OF d] mul by (simp_all add: unat_div)
  ultimately have "unat p' = unat s' * unat R div unat T" "int (unat p') - int (unat p) = int (unat v)"
    using add_chk_unat [OF p'] by simp_all
  with near [OF near'] T s ls extra show ?thesis by (simp add: unat_gt_0)
qed

lemma coinbases_fold:
  assumes "foldO (check_coinbase m R T) os (s, p) = Ok (s', p')"
    and "(unat s + (\<Sum>x\<leftarrow>os. listed_shares m x)) * unat R < 2 ^ 128"
  shows "(\<forall>out \<in> set os. \<exists>ms. paid_miner m out = Some ms \<and> ms_coinbase_extra ms = to_coinbase_extra out)
    \<and> unat s' = unat s + (\<Sum>x\<leftarrow>os. listed_shares m x)
    \<and> (os \<noteq> [] \<longrightarrow> 0 < unat T \<and> unat p' = unat s' * unat R div unat T) \<and> (os = [] \<longrightarrow> p' = p)
    \<and> \<bar>(int (unat p') - int (unat p)) - int (\<Sum>x\<leftarrow>os. unat (to_minimum_value_promise x))\<bar>
        \<le> 9 * int (length os)"
  using assms
proof (induction os arbitrary: s p)
  case (Cons out os)
  then obtain s1 p1 where 1: "check_coinbase m R T out (s, p) = Ok (s1, p1)"
    "foldO (check_coinbase m R T) os (s1, p1) = Ok (s', p')" by auto
  have "(unat s + listed_shares m out) * unat R \<le> (unat s + (\<Sum>x\<leftarrow>out # os. listed_shares m x)) * unat R"
    by (intro mult_le_mono1) simp
  with Cons.prems(2) have b: "(unat s + listed_shares m out) * unat R < 2 ^ 128" by linarith
  from check_coinbase_Ok [OF 1(1) b] obtain ms where ms: "paid_miner m out = Some ms" "ms_coinbase_extra ms = to_coinbase_extra out"
    "0 < unat T" "unat s1 = unat s + listed_shares m out" "unat p1 = unat s1 * unat R div unat T"
    "\<bar>(int (unat p1) - int (unat p)) - int (unat (to_minimum_value_promise out))\<bar> \<le> 9" by blast
  have "(unat s1 + (\<Sum>x\<leftarrow>os. listed_shares m x)) * unat R < 2 ^ 128"
    using Cons.prems(2) ms(4) by (simp add: add.assoc)
  note IH = Cons.IH [OF 1(2) this]
  have "unat p' = unat s' * unat R div unat T"
  proof (cases "os = []")
    case True
    with IH 1(2) ms show ?thesis by simp
  qed (use IH in simp)
  moreover have "\<bar>(int (unat p') - int (unat p)) - int (\<Sum>x\<leftarrow>out # os. unat (to_minimum_value_promise x))\<bar>
      \<le> 9 * int (length (out # os))"
  proof -
    have "int (\<Sum>x\<leftarrow>out # os. unat (to_minimum_value_promise x)) =
        int (unat (to_minimum_value_promise out)) + int (\<Sum>x\<leftarrow>os. unat (to_minimum_value_promise x))"
      by (simp only: list.map sum_list.Cons of_nat_add)
    moreover have "int (length (out # os)) = 1 + int (length os)" by simp
    ultimately show ?thesis using IH ms(6) by linarith
  qed
  ultimately show ?case using IH ms(1-4) by simp
qed simp

definition demo_shares :: share_map where
  "demo_shares = [([1], \<lparr>ms_miner = [1], ms_share_count = 15, ms_coinbase_extra = []\<rparr>),
                  ([2], \<lparr>ms_miner = [2], ms_share_count = 5, ms_coinbase_extra = []\<rparr>)]"

definition demo_coinbases :: "transaction_output list" where
  "demo_coinbases = [\<lparr>to_minimum_value_promise = 750, to_script = [PushPubKey [1]], to_coinbase_extra = [], to_rest = []\<rparr>,
                     \<lparr>to_minimum_value_promise = 250, to_script = [PushPubKey [2]], to_coinbase_extra = [], to_rest = []\<rparr>]"

lemma demo_coinbases_ok: "verify_coinbases demo_shares demo_coinbases = Ok True"
  by (simp add: verify_coinbases_def sum_u64_def check_coinbase_def coinbase_value_def add_chk_def
      sub_chk_def checked_add_def checked_sub_def sat_mul_def sat_sub_def sat_add_def
      script_opcode_def Let_def demo_shares_def demo_coinbases_def)

text \<open>C10: When the coinbases of a block are accepted, the amount paid by the first i of them
  differs from the running share of the reward (cumulative shares times reward over total
  shares) by at most nine per output.\<close>

theorem coinbases_proportional:
  assumes "verify_coinbases m os = Ok True"
    and "(\<Sum>x\<leftarrow>os. listed_shares m x) * (\<Sum>x\<leftarrow>os. unat (to_minimum_value_promise x)) < 2 ^ 128"
    and "i \<le> length os"
  shows "\<bar>int ((\<Sum>x\<leftarrow>take i os. listed_shares m x) * (\<Sum>x\<leftarrow>os. unat (to_minimum_value_promise x))
               div (\<Sum>s\<leftarrow>hm_values m. unat (ms_share_count s)))
          - int (\<Sum>x\<leftarrow>take i os. unat (to_minimum_value_promise x))\<bar> \<le> 9 * int i"
proof -
  obtain R T s p where R: "sum_u64 (map to_minimum_value_promise os) = Ok R"
    and T: "sum_u64 (map ms_share_count (hm_values m)) = Ok T"
    and f: "foldO (check_coinbase m R T) os (0, 0) = Ok (s, p)"
    using assms(1) by (auto simp: verify_coinbases_def split: if_splits)
  have R': "unat R = (\<Sum>x\<leftarrow>os. unat (to_minimum_value_promise x))"
    using unat_sum_u64 [OF R] by (simp add: comp_def)
  have T': "unat T = (\<Sum>s\<leftarrow>hm_values m. unat (ms_share_count s))"
    using unat_sum_u64 [OF T] by (simp add: comp_def)
  obtain s1 p1 where f1: "foldO (check_coinbase m R T) (take i os) (0, 0) = Ok (s1, p1)"
    using foldO_prefix [OF f, of i] by (metis surj_pair)
  have "(\<Sum>x\<leftarrow>take i os. listed_shares m x) \<le> (\<Sum>x\<leftarrow>take i os. listed_shares m x) + (\<Sum>x\<leftarrow>drop i os. listed_shares m x)"
    by simp
  also have "\<dots> = (\<Sum>x\<leftarrow>os. listed_shares m x)"
    by (metis append_take_drop_id map_append sum_list_append)
  finally have "(\<Sum>x\<leftarrow>take i os. listed_shares m x) * unat R \<le> (\<Sum>x\<leftarrow>os. listed_shares m x) * unat R"
    by (rule mult_le_mono1)
  then have "(unat (0::u128) + (\<Sum>x\<leftarrow>take i os. listed_shares m x)) * unat R < 2 ^ 128"
    using assms(2) unfolding R' by (simp only: unsigned_0 add_0)
  note c = coinbases_fold [OF f1 this]
  show ?thesis
  proof (cases "take i os = []")
    case True
    then show ?thesis unfolding True by simp
  next
    case False
    with c have p1: "unat p1 = (\<Sum>x\<leftarrow>take i os. listed_shares m x) * unat R div unat T"
      by (simp only: unsigned_0 add_0 not_False_eq_True simp_thms)
    have "\<bar>(int (unat p1) - int (unat (0 :: u128))) - int (\<Sum>x\<leftarrow>take i os. unat (to_minimum_value_promise x))\<bar>
        \<le> 9 * int (length (take i os))"
      using c by blast
    moreover have "length (take i os) = i" using assms(3) by simp
    ultimately show ?thesis
      unfolding R' [symmetric] T' [symmetric] p1 [symmetric] by (simp only: unsigned_0 of_nat_0 diff_0_right)
  qed
qed

theorem coinbases_proportional_witness:
  "\<bar>int ((\<Sum>x\<leftarrow>take 1 demo_coinbases. listed_shares demo_shares x) * (\<Sum>x\<leftarrow>demo_coinbases. unat (to_minimum_value_promise x))
      div (\<Sum>s\<leftarrow>hm_values demo_shares. unat (ms_share_count s)))
   - int (\<Sum>x\<leftarrow>take 1 demo_coinbases. unat (to_minimum_value_promise x))\<bar> \<le> 9 * int 1"
  by (rule coinbases_proportional [OF demo_coinbases_ok])
    (simp_all add: demo_coinbases_def listed_shares_def paid_miner_def script_opcode_def demo_shares_def)

section \<open>The verification flags\<close>

lemma check_done:
  "has_parents (b_verified b) \<Longrightarrow> verify_pow_and_parents e c b = Ok True"
  "has_difficulty_verified (b_verified b) \<Longrightarrow> verify_difficulty e c b = Ok True"
  "has_target_difficulty_verified (b_verified b) \<Longrightarrow> verify_target_difficulty e c b = Ok True"
  "has_median_timestamp (b_verified b) \<Longrightarrow> verify_median_timestamp_for_block c b = Ok True"
  "has_correct_shares (b_verified b) \<Longrightarrow> verify_shares_for_block e c b = Ok True"
  by (simp_all add: verify_pow_and_parents_def verify_difficulty_def verify_target_difficulty_def
      verify_median_timestamp_for_block_def verify_shares_for_block_def)

lemma apply_check_Ok:
  "apply_check ch f v = Ok v' \<longleftrightarrow> (\<exists>r. ch = Ok r \<and> v' = (if r then f v else v))"
  by (auto simp: apply_check_def)

lemma has_cond_set:
  "has_parents (if r then set_has_parents v else v) \<longleftrightarrow> r \<or> has_parents v"
  "has_parents (if r then set_difficulty_verified v else v) \<longleftrightarrow> has_parents v"
  "has_parents (if r then set_target_difficulty_verified v else v) \<longleftrightarrow> has_parents v"
  "has_parents (if r then set_median_timestamp v else v) \<longleftrightarrow> has_parents v"
  "has_parents (if r then set_correct_shares v else v) \<longleftrightarrow> has_parents v"
  "has_difficulty_verified (if r then set_has_parents v else v) \<longleftrightarrow> has_difficulty_verified v"
  "has_difficulty_verified (if r then set_difficulty_verified v else v) \<longleftrightarrow> r \<or> has_difficulty_verified v"
  "has_difficulty_verified (if r then set_target_difficulty_verified v else v) \<longleftrightarrow> has_difficulty_verified v"
  "has_difficulty_verified (if r then set_median_timestamp v else v) \<longleftrightarrow> has_difficulty_verified v"
  "has_difficulty_verified (if r then set_correct_shares v else v) \<longleftrightarrow> has_difficulty_verified v"
  "has_target_difficulty_verified (if r then set_has_parents v else v) \<longleftrightarrow> has_target_difficulty_verified v"
  "has_target_difficulty_verified (if r then set_difficulty_verified v else v) \<longleftrightarrow> has_target_difficulty_verified v"
  "has_target_difficulty_verified (if r then set_target_difficulty_verified v else v) \<longleftrightarrow> r \<or> has_target_difficulty_verified v"
  "has_target_difficulty_verified (if r then set_median_timestamp v else v) \<longleftrightarrow> has_target_difficulty_verified v"
  "has_target_difficulty_verified (if r then set_correct_shares v else v) \<longleftrightarrow> has_target_difficulty_verified v"
  "has_median_timestamp (if r then set_has_parents v else v) \<longleftrightarrow> has_median_timestamp v"
  "has_median_timestamp (if r then set_difficulty_verified v else v) \<longleftrightarrow> has_median_timestamp v"
  "has_median_timestamp (if r then set_target_difficulty_verified v else v) \<longleftrightarrow> has_median_timestamp v"
  "has_median_timestamp (if r then set_median_timestamp v else v) \<longleftrightarrow> r \<or> has_median_timestamp v"
  "has_median_timestamp (if r then set_correct_shares v else v) \<longleftrightarrow> has_median_timestamp v"
  "has_correct_shares (if r then set_has_parents v else v) \<longleftrightarrow> has_correct_shares v"
  "has_correct_shares (if r then set_difficulty_verified v else v) \<longleftrightarrow> has_correct_shares v"
  "has_correct_shares (if r then set_target_difficulty_verified v else v) \<longleftrightarrow> has_correct_shares v"
  "has_correct_shares (if r then set_median_timestamp v else v) \<longleftrightarrow> has_correct_shares v"
  "has_correct_shares (if r then set_correct_shares v else v) \<longleftrightarrow> r \<or> has_correct_shares v"
  by simp_all

lemma new_status_Ok:
  assumes "new_status e c b = Ok v"
  shows "has_parents v \<longleftrightarrow> verify_pow_and_parents e c b = Ok True"
    and "has_difficulty_verified v \<longleftrightarrow> verify_difficulty e c b = Ok True"
    and "has_target_difficulty_verified v \<longleftrightarrow> verify_target_difficulty e c b = Ok True"
    and "has_median_timestamp v \<longleftrightarrow> verify_median_timestamp_for_block c b = Ok True"
    and "has_correct_shares v \<longleftrightarrow> verify_shares_for_block e c b = Ok True"
  using assms check_done(1-3,5) [of b e c] check_done(4) [of b c]
  by (auto simp: new_status_def apply_check_Ok has_cond_set simp del: if_split)

lemma add_block_at_header:
  assumes "add_block_at h b c = (c', Ok u)"
  shows "b_height b = h \<or> lv_height (the (level_at_height c h)) \<noteq> h"
    and "get_block_header_at_height c' h (b_hash b) = Some (header_of b)"
    and "get_block_at_height c' h (b_hash b) = Some b"
  using assms
  by (auto simp: add_block_at_def bindS_Ok level_add_block_Ok get_block_header_at_height_def
      get_block_at_height_def level_get_header_def level_get_def)

lemma stored_with_status:
  assumes "chain_wf c" "verify_block e c k h = (c', Ok ())"
    and "chain_is_verified c k h = Ok False" "get_block_at_height c h k = Some blk"
  shows "\<exists>b. get_block_at_height c' h k = Some b
    \<and> get_block_header_at_height c' h k = Some (header_of b)
    \<and> b\<lparr>b_verified := b_verified blk\<rparr> = blk
    \<and> (is_verified (b_verified b) \<longleftrightarrow>
         verify_pow_and_parents e c blk = Ok True \<and> verify_difficulty e c blk = Ok True
       \<and> verify_target_difficulty e c blk = Ok True
       \<and> verify_median_timestamp_for_block c blk = Ok True
       \<and> verify_shares_for_block e c blk = Ok True)"
proof -
  obtain l where l: "level_at_height c h = Some l" "cache_get (ch_block_cache c) k = Some blk"
    using assms(4) by (auto simp: get_block_at_height_def level_get_def bind_eq_Some_conv)
  obtain v where v: "new_status e c blk = Ok v" and add: "add_block_at h (blk\<lparr>b_verified := v\<rparr>) c = (c', Ok ())"
    using assms(2,3) l by (auto simp: verify_block_def bindS_Ok level_get_def)
  have "b_hash blk = k" using assms(1) l(2) by (simp add: chain_wf_def cache_wf_def)
  with add_block_at_header [OF add] new_status_Ok [OF v] show ?thesis
    by (intro exI [of _ "blk\<lparr>b_verified := v\<rparr>"]) (auto simp: is_verified_iff)
qed

text \<open>C9: verify_block on a block that is not yet verified stores the block unchanged but for its
  status, and the status counts as verified exactly when the five checks (work and parents,
  achieved difficulty, target difficulty, median time, payout shares) all pass.\<close>

theorem verified_iff_all_checks:
  assumes "chain_wf c" "verify_block e c k h = (c', Ok ())"
    and "chain_is_verified c k h = Ok False" "get_block_at_height c h k = Some blk"
  shows "\<exists>b. get_block_at_height c' h k = Some b
    \<and> get_block_header_at_height c' h k = Some (header_of b)
    \<and> b\<lparr>b_verified := b_verified blk\<rparr> = blk
    \<and> (is_verified (b_verified b) \<longleftrightarrow>
         verify_pow_and_parents e c blk = Ok True \<and> verify_difficulty e c blk = Ok True
       \<and> verify_target_difficulty e c blk = Ok True
       \<and> verify_median_timestamp_for_block c blk = Ok True
       \<and> verify_shares_for_block e c blk = Ok True)"
  using assms by (rule stored_with_status)

theorem verified_iff_all_checks_witness:
  "\<exists>c' b. verify_block demo_ext demo_bypass 2 1 = (c', Ok ()) \<and> get_block_at_height c' 1 2 = Some b
    \<and> (is_verified (b_verified b) \<longleftrightarrow>
         verify_pow_and_parents demo_ext demo_bypass (demo_block 1 2 1 20 0) = Ok True
       \<and> verify_difficulty demo_ext demo_bypass (demo_block 1 2 1 20 0) = Ok True
       \<and> verify_target_difficulty demo_ext demo_bypass (demo_block 1 2 1 20 0) = Ok True
       \<and> verify_median_timestamp_for_block demo_bypass (demo_block 1 2 1 20 0) = Ok True
       \<and> verify_shares_for_block demo_ext demo_bypass (demo_block 1 2 1 20 0) = Ok True)"
proof -
  have "snd (verify_block demo_ext demo_bypass 2 1) = Ok ()" by code_simp
  then obtain c' where c': "verify_block demo_ext demo_bypass 2 1 = (c', Ok ())" by (metis prod.collapse)
  have a: "chain_is_verified demo_bypass 2 1 = Ok False" by code_simp
  have b: "get_block_at_height demo_bypass 1 2 = Some (demo_block 1 2 1 20 0)"
    by (simp add: demo_bypass_def demo_defs get_block_at_height_def level_at_height_def level_get_def cache_get_def)
  from verified_iff_all_checks [OF chain_wf_demo_bypass c' a b] c' show ?thesis by blast
qed

section \<open>Missing blocks\<close>

lemma add_missing_not_Nil [simp]: "missing_blocks (add_missing k h r) \<noteq> []"
  by (cases "missing_blocks r") (auto simp: add_missing_def)

lemma missing_of_uncles_Nil:
  "missing_blocks (missing_of_uncles c us r) = [] \<longleftrightarrow> missing_blocks r = []
   \<and> (\<forall>u \<in> set us. \<exists>p. get_parent_of c (fst u) (snd u) = Some p \<and> block_exists c (sat_sub (fst u) 1) p)"
proof (induction c us r rule: missing_of_uncles.induct)
  case (2 c u us r)
  then show ?case by (cases "get_parent_of c (fst u) (snd u)") auto
qed simp

text \<open>Nothing is reported missing exactly when the parent of the block is on record and so
  are every uncle and its parent.\<close>

theorem find_missing_complete:
  assumes "find_missing c h k prev = Ok r" "h \<noteq> 0"
  shows "missing_blocks r = [] \<longleftrightarrow>
     block_exists c (sat_sub h 1) prev
   \<and> (\<forall>u \<in> set (level_get_uncles (the (level_at_height c h)) k).
        \<exists>p. get_parent_of c (fst u) (snd u) = Some p \<and> block_exists c (sat_sub (fst u) 1) p)"
proof -
  obtain l where l: "level_at_height c h = Some l" using assms by (auto simp: find_missing_def get_uncles_def)
  show ?thesis
    using assms l
    by (fastforce simp: find_missing_def get_uncles_def Let_def missing_of_uncles_Nil
        default_add_result_def split: if_splits)
qed

theorem find_missing_complete_witness:
  "find_missing demo_two 1 2 7 = Ok \<lparr>new_tip = None, missing_blocks = [(7, 0)]\<rparr> \<and> \<not> block_exists demo_two 0 7"
proof -
  have f: "find_missing demo_two 1 2 7 = Ok \<lparr>new_tip = None, missing_blocks = [(7, 0)]\<rparr>" by code_simp
  have "level_get_uncles (the (level_at_height demo_two 1)) 2 = []" by code_simp
  with find_missing_complete [OF f] f show ?thesis by (simp add: sat_sub_def)
qed

lemma verify_chain_loop_missing:
  assumes "verify_chain_loop e n c q ps acc = (c', Ok r)" "length (missing_blocks acc) \<le> MAX_MISSING_PARENTS"
  shows "length (missing_blocks r) \<le> MAX_MISSING_PARENTS"
  using assms
proof (induction e n c q ps acc rule: verify_chain_loop.induct)
  case (3 e n c q qs ps acc)
  obtain c1 r1 xs where 1: "verify_chain_inner e c (fst q) (snd q) = (c1, Ok (r1, xs))"
    and r: "(if MAX_MISSING_PARENTS \<le> length (missing_blocks (combine acc r1)) then (c1, Ok (combine acc r1))
      else verify_chain_loop e n c1 (enqueue q (snd q # ps) xs qs) (snd q # ps) (combine acc r1)) = (c', Ok r)"
    using "3.prems"(1) by (auto simp: bindS_Ok Let_def)
  have le: "length (missing_blocks (combine acc r1)) \<le> MAX_MISSING_PARENTS"
    using combine_missing_length [of "missing_blocks r1" "missing_blocks acc"] "3.prems"(2)
    by (simp add: combine_missing_blocks max_def split: if_splits)
  show ?case
  proof (cases "MAX_MISSING_PARENTS \<le> length (missing_blocks (combine acc r1))")
    case True
    with r le show ?thesis by simp
  next
    case False
    with r have "verify_chain_loop e n c1 (enqueue q (snd q # ps) xs qs) (snd q # ps) (combine acc r1) = (c', Ok r)" by simp
    from "3.IH" [OF 1 refl refl refl False this le] show ?thesis .
  qed
qed simp_all

text \<open>An addition never reports more than ten missing blocks.\<close>

theorem missing_blocks_bounded:
  assumes "add_block_to_chain e c b = (c', Ok r)"
  shows "length (missing_blocks r) \<le> MAX_MISSING_PARENTS"
proof -
  have "length (missing_blocks r) \<le> MAX_MISSING_PARENTS" if "verify_chain e c0 h k = (c', Ok r)" for c0 h k
    using that unfolding verify_chain_def
    by (rule verify_chain_loop_missing) (simp add: default_add_result_def)
  with assms show ?thesis
    by (auto simp: add_block_to_chain_def add_block_inner_def Let_def bindS_Ok
        split: if_splits option.splits prod.splits)
qed

theorem missing_blocks_bounded_witness:
  "\<exists>c' r. add_block_to_chain demo_ext demo_empty (demo_block 5 2 7 20 0) = (c', Ok r)
    \<and> missing_blocks r = [(7, 4)] \<and> length (missing_blocks r) \<le> MAX_MISSING_PARENTS"
proof -
  have "snd (add_block_to_chain demo_ext demo_empty (demo_block 5 2 7 20 0)) = Ok \<lparr>new_tip = None, missing_blocks = [(7, 4)]\<rparr>"
    by code_simp
  then obtain c' where c': "add_block_to_chain demo_ext demo_empty (demo_block 5 2 7 20 0) = (c', Ok \<lparr>new_tip = None, missing_blocks = [(7, 4)]\<rparr>)"
    by (metis prod.collapse)
  from missing_blocks_bounded [OF c'] c' show ?thesis by auto
qed

section \<open>Clean-up\<close>

lemma cache_fold_delete:
  "cache_get (fold cache_delete ks s) k = (if k \<in> set ks then None else cache_get s k)"
  by (induction ks arbitrary: s) auto

lemma cache_remove_level:
  assumes "levels_wf c"
  shows "cache_get (ch_block_cache (remove_level i c)) k =
    (if \<exists>l. level_at_height c i = Some l \<and> level_contains l k then None
     else cache_get (ch_block_cache c) k)"
proof (cases "level_at_height c i")
  case (Some l)
  from levels_wfD [OF assms Some] have wf: "level_wf l" by simp
  have "set (map hd_hash (level_all_headers l)) = fst ` set (lv_block_headers l)"
    using wf by (force simp: level_all_headers_def level_wf_def hm_ok_get image_iff)
  with Some show ?thesis
    by (simp add: remove_level_def level_at_height_def fold_cache_delete cache_fold_delete
        level_contains_def hm_contains_iff)
qed (simp add: remove_level_def level_at_height_def)

lemma levels_wf_remove_level: "levels_wf c \<Longrightarrow> levels_wf (remove_level k c)"
  by (auto simp: levels_wf_def level_at_remove_level levels_remove_level hm.ok_del split: if_splits)

lemma cache_fold_remove_level:
  assumes "levels_wf c"
  shows "cache_get (ch_block_cache (fold remove_level ks c)) k =
    (if \<exists>i l. i \<in> set ks \<and> level_at_height c i = Some l \<and> level_contains l k then None
     else cache_get (ch_block_cache c) k)"
  using assms
proof (induction ks arbitrary: c)
  case (Cons i ks)
  then show ?case
    by (simp add: levels_wf_remove_level cache_remove_level level_at_remove_level) metis
qed simp

lemma levels_fold_remove_level: "levels_wf c \<Longrightarrow> levels_wf (fold remove_level ks c)"
  by (induction ks arbitrary: c) (auto intro: levels_wf_remove_level)

lemma levels_count:
  "levels_wf c \<Longrightarrow> length (ch_levels c) = card {i. level_at_height c i \<noteq> None}"
proof -
  assume wf: "levels_wf c"
  have "{i. level_at_height c i \<noteq> None} = set (map fst (ch_levels c))"
    unfolding level_at_height_def by (simp add: map_of_eq_None_iff del: not_None_eq)
  then show ?thesis using wf by (simp only: levels_wf_def hm_ok_def distinct_card length_map)
qed

text \<open>Cleaning up leaves at most total size plus 2020 levels, removes only the lowest levels,
  and deletes from the block cache exactly the blocks of the removed levels.\<close>

theorem cleanup_bounds:
  assumes "chain_wf c" "cleanup_chain c = (c', Ok ())"
  shows "length (ch_levels c') \<le> unat (ch_total_size c) + 2020
    \<and> (\<forall>i. level_at_height c' i = level_at_height c i
          \<or> level_at_height c' i = None \<and> (\<forall>j. level_at_height c' j \<noteq> None \<longrightarrow> i < j))
    \<and> (\<forall>k. cache_get (ch_block_cache c') k =
          (if \<exists>i l. level_at_height c i = Some l \<and> level_at_height c' i = None \<and> level_contains l k
           then None else cache_get (ch_block_cache c) k))"
proof -
  note wf = chain_wf_levels [OF assms(1)]
  obtain limit where limit: "chain_limit c = Ok limit"
    and c': "c' = fold remove_level (dropped_levels c (unat limit)) c"
    using assms(2) by (auto simp: cleanup_chain_eq [OF wf] split: outcome.splits)
  let ?n = "length (ch_levels c) - unat limit" and ?keys = "sort (hm_keys (ch_levels c))"
  let ?D = "set (dropped_levels c (unat limit))"
  have keys: "distinct ?keys" "set ?keys = {i. level_at_height c i \<noteq> None}" "length ?keys = length (ch_levels c)"
    using wf by (auto simp: levels_wf_def hm_ok_def level_at_height_def map_of_eq_None_iff simp del: not_None_eq)
  have D: "dropped_levels c (unat limit) = take ?n ?keys" by (simp add: dropped_levels_def)
  have at: "level_at_height c' i = (if i \<in> ?D then None else level_at_height c i)" for i
    unfolding c' by (rule level_at_fold_remove_level)
  have left: "{i. level_at_height c' i \<noteq> None} = set (drop ?n ?keys)"
  proof -
    have "set ?keys = set (take ?n ?keys) \<union> set (drop ?n ?keys)"
      by (metis append_take_drop_id set_append)
    moreover have "set (take ?n ?keys) \<inter> set (drop ?n ?keys) = {}"
      using keys(1) by (metis append_take_drop_id distinct_append)
    ultimately show ?thesis using at keys(2) D by auto
  qed
  have "levels_wf c'" unfolding c' by (rule levels_fold_remove_level [OF wf])
  then have "length (ch_levels c') = card (set (drop ?n ?keys))"
    using levels_count left by metis
  also have "\<dots> \<le> length (drop ?n ?keys)" by (rule card_length)
  also have "\<dots> \<le> unat limit" by simp
  finally have len: "length (ch_levels c') \<le> unat (ch_total_size c) + 2020"
    using chain_limit_Ok [OF limit] by simp
  have low: "i < j" if "i \<in> ?D" "level_at_height c' j \<noteq> None" for i j
  proof -
    from that left have ij: "i \<in> set (take ?n ?keys)" "j \<in> set (drop ?n ?keys)" by (auto simp: D)
    have "sorted (take ?n ?keys @ drop ?n ?keys)" by simp
    with ij have "i \<le> j" unfolding sorted_append by blast
    moreover have "i \<noteq> j" using that at by auto
    ultimately show ?thesis by simp
  qed
  have cache: "cache_get (ch_block_cache c') k =
      (if \<exists>i l. level_at_height c i = Some l \<and> level_at_height c' i = None \<and> level_contains l k
       then None else cache_get (ch_block_cache c) k)" for k
    unfolding at unfolding c' cache_fold_remove_level [OF wf] by auto
  show ?thesis using len low at cache by auto
qed

theorem cleanup_bounds_witness:
  "\<exists>c'. cleanup_chain demo_two = (c', Ok ()) \<and> length (ch_levels c') \<le> 2120"
proof -
  have "snd (cleanup_chain demo_two) = Ok ()" by code_simp
  then obtain c' where c': "cleanup_chain demo_two = (c', Ok ())" by (metis prod.collapse)
  have "unat (ch_total_size demo_two) = 100" by (simp add: demo_defs)
  with cleanup_bounds [OF chain_wf_demo_two c'] c' show ?thesis by auto
qed

section \<open>Blocks the pool builds\<close>

text \<open>Changing the target difficulty of a block exchanges the old target for the new one in
  the accumulated work, recomputes the hash and changes nothing else.\<close>

theorem change_target_difficulty_total:
  assumes "acc_arith e" "change_target_difficulty e b d = (b', Ok ())"
  shows "unat (b_total_pow b') + unat (b_target_difficulty b) = unat (b_total_pow b) + unat d
    \<and> b_target_difficulty b' = d \<and> b_hash b' = generate_hash e b'
    \<and> b'\<lparr>b_total_pow := b_total_pow b, b_target_difficulty := b_target_difficulty b, b_hash := b_hash b\<rparr> = b"
  using change_target_Ok [OF assms] by (auto simp: fix_hash_def generate_hash_def)

theorem change_target_difficulty_total_witness:
  "\<exists>b'. change_target_difficulty demo_ext (demo_block 1 2 1 20 0) 15 = (b', Ok ()) \<and> unat (b_total_pow b') + 10 = 20 + 15"
proof -
  have *: "change_target_difficulty demo_ext (demo_block 1 2 1 20 0) 15 =
     (fst (change_target_difficulty demo_ext (demo_block 1 2 1 20 0) 15), Ok ())"
    by (simp add: change_target_difficulty_def demo_ext_def demo_block_def checked_add_def checked_sub_def Let_def)
  from change_target_difficulty_total [OF acc_arith_demo *] * show ?thesis
    by (intro exI [of _ "fst (change_target_difficulty demo_ext (demo_block 1 2 1 20 0) 15)"]) (auto simp: demo_block_def)
qed

definition demo_bb :: p2block_builder where
  "demo_bb = \<lparr>bb_block = (default_block demo_ext 1005)\<lparr>b_height := 1, b_prev_hash := 1,
                 b_total_pow := 20, b_uncles := [(0, 1)]\<rparr>,
     bb_use_specific_hash = False, bb_added_target_difficulty = False\<rparr>"

definition demo_b0 :: p2block where
  "demo_b0 = (bb_block demo_bb)\<lparr>b_total_pow := 21, b_hash := 11\<rparr>"

definition demo_built :: p2block where
  "demo_built = demo_b0\<lparr>b_total_pow := 30, b_target_difficulty := 10\<rparr>"

lemma pow_of_uncles_refs:
  assumes "acc_arith e"
    and "\<And>u. u \<in> set us \<Longrightarrow> get_block_at_height c (b_height u) (b_hash u) = Some u
      \<and> has_target_difficulty_verified (b_verified u) \<and> has_difficulty_verified (b_verified u)"
  shows "pow_of_uncles e c (map (\<lambda>u. (b_height u, b_hash u)) us) w = Err DifficultyOverflow
    \<or> (\<exists>t. pow_of_uncles e c (map (\<lambda>u. (b_height u, b_hash u)) us) w = Ok (Some t)
        \<and> unat t = unat w + (\<Sum>u\<leftarrow>us. unat (b_target_difficulty u)))"
  using assms(2)
proof (induction us arbitrary: w)
  case (Cons u us)
  show ?case
  proof (cases "acc_checked_add e w (b_target_difficulty u)")
    case None
    with Cons.prems [of u] show ?thesis by simp
  next
    case (Some w')
    with Cons.IH [of w'] Cons.prems acc_addD [OF assms(1) Some] show ?thesis by auto
  qed
qed simp

text \<open>A block built by the builder on a parent with uncles on record, with its target set
  afterwards, is not refused for its claimed work by the verifier.\<close>

theorem built_block_passes_pow_check:
  assumes "acc_arith e" "b_hash parent \<noteq> zero_hash"
    and "with_uncles e us (with_height h (builder_new_from_block e now (Some parent))) = Ok bb"
    and "build e bb = Ok b0" "change_target_difficulty e b0 d = (b, Ok ())"
    and "h \<noteq> 0" "get_block_at_height c (sat_sub h 1) (b_hash parent) = Some parent"
    and "\<And>u. u \<in> set us \<Longrightarrow> get_block_at_height c (b_height u) (b_hash u) = Some u
      \<and> has_target_difficulty_verified (b_verified u) \<and> has_difficulty_verified (b_verified u)"
  shows "verify_pow_and_parents e c b \<in> {Ok True, Err DifficultyOverflow, Panic}"
proof -
  let ?bb0 = "with_height h (builder_new_from_block e now (Some parent))"
  have bb0: "b_prev_hash (bb_block ?bb0) = b_hash parent" "b_total_pow (bb_block ?bb0) = b_total_pow parent"
    "b_height (bb_block ?bb0) = h" "b_verified (bb_block ?bb0) = vs_new"
    "\<not> bb_use_specific_hash ?bb0" "\<not> bb_added_target_difficulty ?bb0"
    by (simp_all add: with_height_def builder_new_from_block_def Let_def default_block_def)
  obtain p1 where bb: "bb = ?bb0\<lparr>bb_block := (bb_block ?bb0)\<lparr>b_total_pow := p1,
         b_uncles := map (\<lambda>u. (b_height u, b_hash u)) us\<rparr>\<rparr>"
    "unat p1 = unat (b_total_pow parent) + (\<Sum>u\<leftarrow>us. unat (b_target_difficulty u))"
    using with_uncles_Ok [OF assms(1,3)] bb0 by auto
  obtain p2 where b0: "b0 = fix_hash e ((bb_block bb)\<lparr>b_total_pow := p2\<rparr>)"
    "unat p2 = unat p1 + unat (b_target_difficulty b0)"
    using build_Ok [OF assms(1,4)] bb bb0 assms(2) by (auto simp: fix_hash_def)
  obtain p3 where b: "b = fix_hash e (b0\<lparr>b_total_pow := p3, b_target_difficulty := d\<rparr>)"
    "unat p3 + unat (b_target_difficulty b0) = unat p2 + unat d"
    using change_target_Ok [OF assms(1,5)] b0 by (auto simp: fix_hash_def)
  have fields: "b_height b = h" "b_prev_hash b = b_hash parent" "b_target_difficulty b = d"
    "b_uncles b = map (\<lambda>u. (b_height u, b_hash u)) us" "\<not> has_parents (b_verified b)"
    and total: "unat (b_total_pow b) = unat (b_total_pow parent) + (\<Sum>u\<leftarrow>us. unat (b_target_difficulty u)) + unat d"
    using b b0 bb bb0 by (simp_all add: fix_hash_def)
  show ?thesis
  proof (cases "has_parents (ch_bypass_checks c)")
    case False
    show ?thesis
    proof (cases "acc_from_u128 e (ucast d)")
      case (Some w)
      then have w: "unat w = unat d" using acc_from_u128D [OF assms(1) Some] by simp
      consider "pow_of_uncles e c (b_uncles b) w = Err DifficultyOverflow"
        | t where "pow_of_uncles e c (b_uncles b) w = Ok (Some t)"
          "unat t = unat w + (\<Sum>u\<leftarrow>us. unat (b_target_difficulty u))"
        using pow_of_uncles_refs [OF assms(1), of us c w] assms(8) fields(4) by auto
      then show ?thesis
      proof cases
        case 1
        with Some fields False show ?thesis by (simp add: verify_pow_and_parents_def)
      next
        case (2 t)
        show ?thesis
        proof (cases "add_chk t (b_total_pow parent) :: u128 sc_result")
          case (Ok s)
          have "s = b_total_pow b"
            using add_chk_unat [OF Ok] 2 w total by (simp add: word_unat_eq_iff)
          with Some fields False 2 Ok assms(6,7) acc_from_u128D [OF assms(1), of s] show ?thesis
            by (cases "acc_from_u128 e s") (simp_all add: verify_pow_and_parents_def)
        qed (use Some fields False 2 assms(6,7) in \<open>simp_all add: verify_pow_and_parents_def\<close>)
      qed
    qed (use fields False in \<open>simp add: verify_pow_and_parents_def\<close>)
  qed (simp add: verify_pow_and_parents_def)
qed

theorem built_block_passes_pow_check_witness:
  "verify_pow_and_parents demo_ext demo_two demo_built \<in> {Ok True, Err DifficultyOverflow, Panic}"
proof -
  let ?p = "demo_block 0 1 0 10 31"
  note ev = with_uncles_def with_height_def builder_new_from_block_def default_block_def demo_ext_def
    checked_add_def checked_sub_def demo_block_def Let_def build_def change_target_difficulty_def
    demo_bb_def demo_b0_def demo_built_def fix_hash_def generate_hash_def
  have u: "with_uncles demo_ext [?p] (with_height 1 (builder_new_from_block demo_ext 1005 (Some ?p))) = Ok demo_bb"
    by (simp add: ev)
  have b: "build demo_ext demo_bb = Ok demo_b0" by (simp add: ev)
  have d: "change_target_difficulty demo_ext demo_b0 10 = (demo_built, Ok ())"
    by (simp add: ev)
  show ?thesis
    by (rule built_block_passes_pow_check [OF acc_arith_demo _ u b d])
      (auto simp: demo_defs get_block_at_height_def level_at_height_def level_get_def cache_get_def
        sat_sub_def has_defs vs_contains_bits)
qed

end
