(* ===== verification/ForkChoice.thy ===== *)
theory ForkChoice
  imports CheckCorrect
begin

text \<open>
  When and how the main chain changes: the tip moves only to a block that was verified and
  that extends the tip or carries more work, and what a reorganisation leaves behind.
\<close>

section \<open>Fork choice\<close>

text \<open>What the main chain consists of: the height of the tip and the chain block of every level.\<close>

definition main_chain :: "'l p2chain \<Rightarrow> u64 \<times> (u64 \<Rightarrow> fixed_hash option)" where
  "main_chain c = (ch_current_tip c, \<lambda>i. map_option lv_chain_block (level_at_height c i))"

lemma main_chain_add_block_at:
  "main_chain (fst (add_block_at h b c)) = main_chain c"
proof (cases "level_at_height c h")
  case (Some l)
  then show ?thesis
    by (cases "level_add_block b l (ch_block_cache c)")
      (auto simp: add_block_at_def main_chain_def level_add_block_def fun_eq_iff split: if_splits)
qed (simp add: add_block_at_def)

lemma main_chain_verify_block: "main_chain (fst (verify_block e c k h)) = main_chain c"
  using verify_block_cases [of e c k h] main_chain_add_block_at by metis

lemma missing_of_uncles_tip [simp]: "new_tip (missing_of_uncles c us r) = new_tip r"
  by (induction c us r rule: missing_of_uncles.induct) (auto simp: add_missing_def split: option.splits)

lemma find_missing_tip: "find_missing c h k p = Ok r \<Longrightarrow> new_tip r = None"
  by (auto simp: find_missing_def Let_def add_missing_def default_add_result_def split: if_splits)

lemma missing_uncles_of_parent_tip [simp]: "new_tip (missing_uncles_of_parent c us r) = new_tip r"
  by (induction c us r rule: missing_uncles_of_parent.induct) (auto simp: add_missing_def)

lemma search_fork_tip: "search_fork c n b r = Ok (v, r') \<Longrightarrow> new_tip r' = new_tip r"
proof (induction c n b r rule: search_fork.induct)
  case (1 c n b r)
  then show ?case
    by (auto simp: search_fork.simps [of c n b r] Let_def add_missing_def
        split: if_splits option.splits)
qed

lemma cleanup_loop_tip [simp]: "ch_current_tip (fst (cleanup_loop limit ks c)) = ch_current_tip c"
  by (induction limit ks c rule: cleanup_loop.induct) auto

lemma cleanup_chain_tip: "cleanup_chain c = (c', r) \<Longrightarrow> ch_current_tip c' = ch_current_tip c"
  by (auto simp: cleanup_chain_def Let_def elim!: bindS_cases
      dest: arg_cong [where f = "\<lambda>p. ch_current_tip (fst p)"])

lemma set_new_tip_current:
  assumes "set_new_tip e c h k = (c', Ok u)" "levels_wf c"
  shows "ch_current_tip c' = h"
proof -
  obtain l where l: "level_at_height c h = Some l"
    using assms(1) by (cases "level_at_height c h") (auto simp: set_new_tip_def bindS_Ok Let_def)
  with levels_wfD [OF assms(2) l] assms(1) show ?thesis
    by (auto simp: set_new_tip_def bindS_Ok Let_def dest!: cleanup_chain_tip)
qed

lemma clear_above_tip [simp]: "ch_current_tip (fst (clear_above c h)) = ch_current_tip c"
proof (induction c h rule: clear_above.induct)
  case (1 c h)
  then show ?case
    by (cases "level_at_height c (sat_add h 1)"; cases "add_chk h 1 :: u64 sc_result")
      (simp_all add: clear_above.simps [of c h])
qed


lemma relink_tip [simp]: "ch_current_tip (fst (relink e c n b lwma)) = ch_current_tip c"
proof (induction e c n b lwma rule: relink.induct)
  case (1 e c n b lwma)
  show ?case
  proof (cases "level_at_height c (sat_sub (hd_height b) 1)")
    case (Some l)
    note IH = "1.IH" [OF Some]
    show ?thesis
    proof (cases "add_chk n 1 :: u64 sc_result")
      case (Ok m)
      then show ?thesis
        using Some IH [of c m]
        by (cases "level_get_header l (hd_prev_hash b)")
          (auto simp: relink.simps [of e c n b lwma] Let_def)
    qed (use Some in \<open>simp_all add: relink.simps [of e c n b lwma]\<close>)
  qed (simp add: relink.simps [of e c n b lwma])
qed

lemma reorg_current:
  assumes "reorg e c b = (c', Ok u)" shows "ch_current_tip c' = hd_height b"
  using assms
  apply (auto simp: reorg_def bindS_Ok Let_def)
  apply (drule arg_cong [where f = "\<lambda>p. ch_current_tip (fst p)"])+
  apply simp
  done

text \<open>The ways a block of the queue can end.\<close>

lemma with_next_Ok: "with_next c h k r = (c', Ok (r', xs)) \<Longrightarrow> c' = c \<and> r' = r"
  by (auto simp: with_next_def)

lemma extend_tip_Ok:
  assumes "extend_tip e c h k b r = (c', Ok (r', xs))" "levels_wf c"
  shows "ch_current_tip c' = h \<and> r' = result_set_new_tip k h r"
  using assms set_new_tip_current by (auto simp: extend_tip_def bindS_Ok dest!: with_next_Ok)

lemma try_reorg_Ok:
  assumes "try_reorg e c h k b r = (c', Ok (r', xs))" "new_tip r = None"
  shows "(c' = c \<and> new_tip r' = None)
   \<or> (ch_current_tip c' = hd_height b \<and> new_tip r' = Some (k, h)
      \<and> total_accumulated_tip_difficulty e c < hd_total_pow b)"
  using assms
  by (auto simp: try_reorg_def bindS_Ok result_set_new_tip_def dest!: with_next_Ok search_fork_tip
      reorg_current split: if_splits)

definition tip_hash :: "'l p2chain \<Rightarrow> fixed_hash option" where
  "tip_hash c = map_option lv_chain_block (get_tip c)"

lemma get_tip_main_chain:
  fixes c c' :: "'b p2chain"
  shows "main_chain c = main_chain c' \<Longrightarrow> tip_hash c = tip_hash c'"
proof -
  have "tip_hash x = (case snd (main_chain x) (fst (main_chain x)) of None \<Rightarrow> None
      | Some k \<Rightarrow> if k = zero_hash then None else Some k)" for x :: "'b p2chain"
    by (auto simp: tip_hash_def main_chain_def get_tip_def split: option.splits)
  from this [of c] this [of c'] show "main_chain c = main_chain c' \<Longrightarrow> tip_hash c = tip_hash c'" by simp
qed



section \<open>Reorganisation\<close>

definition chain_block_at :: "'l p2chain \<Rightarrow> u64 \<Rightarrow> fixed_hash option" where
  "chain_block_at c i = map_option lv_chain_block (level_at_height c i)"

definition on_main :: "'l p2chain \<Rightarrow> p2block_header \<Rightarrow> bool" where
  "on_main c x \<longleftrightarrow> chain_block_at c (hd_height x) = Some (hd_hash x)"

definition same_headers :: "'l p2chain \<Rightarrow> 'l p2chain \<Rightarrow> bool" where
  "same_headers c c' \<longleftrightarrow> (\<forall>h k. get_block_header_at_height c' h k = get_block_header_at_height c h k)
     \<and> (\<forall>h. (level_at_height c' h = None) = (level_at_height c h = None))
     \<and> ch_share_window c' = ch_share_window c"

lemma same_headers_refl [simp]: "same_headers c c"
  by (simp add: same_headers_def)

lemma same_headers_trans: "same_headers a b \<Longrightarrow> same_headers b c \<Longrightarrow> same_headers a c"
  by (simp add: same_headers_def)

lemma same_headers_put:
  "level_at_height c h = Some l \<Longrightarrow> same_headers c (put_level h (set_chain_block k l) c)"
  by (auto simp: same_headers_def get_block_header_at_height_def)

lemma same_headers_ancestors: "same_headers c c' \<Longrightarrow> ancestors c' n b = ancestors c n b"
  by (induction n arbitrary: b) (auto simp: same_headers_def split: option.splits)

lemma chain_block_at_put [simp]:
  "chain_block_at (put_level h (set_chain_block k l) c) i = (if i = h then Some k else chain_block_at c i)"
  by (simp add: chain_block_at_def)

text \<open>
  \<open>linked c n cur k\<close>: the \<open>k\<close> ancestors of \<open>cur\<close> are on record and on the main chain,
  and the walk, which had counted \<open>n\<close> blocks at \<open>cur\<close>, ended there for a reason: the
  start of the chain, the end of the share window, the end of the record, or a level whose
  chain block is already the parent.
\<close>

definition linked :: "'l p2chain \<Rightarrow> nat \<Rightarrow> p2block_header \<Rightarrow> nat \<Rightarrow> bool" where
  "linked c n cur k \<longleftrightarrow> length (ancestors c k cur) = Suc k
     \<and> (\<forall>x \<in> set (tl (ancestors c k cur)). on_main c x)
     \<and> (let z = last (ancestors c k cur) in
        hd_height z = 0 \<or> unat (ch_share_window c) \<le> n + k
        \<or> level_at_height c (sat_sub (hd_height z) 1) = None
        \<or> chain_block_at c (sat_sub (hd_height z) 1) = Some (hd_prev_hash z))"

lemma linked_step:
  assumes "hd_height cur \<noteq> 0"
    and "get_block_header_at_height c (sat_sub (hd_height cur) 1) (hd_prev_hash cur) = Some p"
    and "on_main c p" "linked c (Suc n) p k"
  shows "linked c n cur (Suc k)"
proof -
  have a: "ancestors c (Suc k) cur = cur # ancestors c k p" using assms(1,2) by simp
  have "set (ancestors c k p) = insert p (set (tl (ancestors c k p)))"
    by (subst ancestors_hd) simp
  with assms(3,4) show ?thesis by (simp add: linked_def a Let_def del: ancestors.simps)
qed

lemma linked_0:
  "hd_height cur = 0 \<or> unat (ch_share_window c) \<le> n
   \<or> level_at_height c (sat_sub (hd_height cur) 1) = None
   \<or> chain_block_at c (sat_sub (hd_height cur) 1) = Some (hd_prev_hash cur) \<Longrightarrow> linked c n cur 0"
  by (simp add: linked_def)

lemma relink_linked:
  assumes "levels_wf c" "hd_height cur \<noteq> 0" "relink e c n cur lwma = (c', Ok l')"
  shows "same_headers c c' \<and> (\<forall>i. hd_height cur \<le> i \<longrightarrow> chain_block_at c' i = chain_block_at c i)
    \<and> (\<exists>k. linked c' (unat n) cur k)"
  using assms
proof (induction e c n cur lwma rule: relink.induct)
  case (1 e c n cur lwma)
  let ?h = "sat_sub (hd_height cur) 1"
  have lt: "?h < hd_height cur" using "1.prems"(2) by (simp add: word_less_nat_alt unat_gt_0)
  show ?case
  proof (cases "level_at_height c ?h")
    case None
    with "1.prems" show ?thesis
      by (auto simp: relink.simps [of e c n cur lwma] intro!: exI [of _ 0] linked_0)
  next
    case (Some l)
    obtain m where m: "add_chk n 1 = (Ok m :: u64 sc_result)"
      using "1.prems"(3) Some by (cases "add_chk n 1 :: u64 sc_result") (auto simp: relink.simps [of e c n cur lwma])
    have m': "unat m = Suc (unat n)" using add_chk_unat [OF m] by simp
    have go: "?thesis"
      if p: "level_get_header l (hd_prev_hash cur) = Some p"
        and c1: "levels_wf c1" "same_headers c c1" "chain_block_at c1 ?h = Some (hd_prev_hash cur)"
        "\<And>i. hd_height cur \<le> i \<Longrightarrow> chain_block_at c1 i = chain_block_at c i"
        and rest: "(if hd_height p = 0 \<or> ch_share_window c1 \<le> m then (c1, Ok lw) else relink e c1 m p lw) = (c', Ok l')"
        and IH: "\<not> (hd_height p = 0 \<or> ch_share_window c1 \<le> m) \<Longrightarrow> relink e c1 m p lw = (c', Ok l') \<Longrightarrow>
          same_headers c1 c' \<and> (\<forall>i. hd_height p \<le> i \<longrightarrow> chain_block_at c' i = chain_block_at c1 i)
          \<and> (\<exists>k. linked c' (unat m) p k)" for p c1 lw
    proof -
      have hp: "hd_height p = ?h" "hd_hash p = hd_prev_hash cur"
        using level_wf_header [OF _ p] levels_wfD [OF "1.prems"(1) Some] by auto
      have gp: "get_block_header_at_height c ?h (hd_prev_hash cur) = Some p"
        using Some p by (simp add: get_block_header_at_height_def)
      show ?thesis
      proof (cases "hd_height p = 0 \<or> ch_share_window c1 \<le> m")
        case True
        with rest have [simp]: "c' = c1" by simp
        have "linked c1 (Suc (unat n)) p 0"
          using True m' by (intro linked_0) (auto simp: word_le_nat_alt)
        then have "linked c1 (unat n) cur (Suc 0)"
          using "1.prems"(2) gp c1(2,3) hp
          by (intro linked_step) (auto simp: same_headers_def on_main_def)
        with c1 show ?thesis by auto
      next
        case False
        with rest IH obtain k where k: "same_headers c1 c'"
          "\<And>i. hd_height p \<le> i \<Longrightarrow> chain_block_at c' i = chain_block_at c1 i" "linked c' (unat m) p k"
          by auto
        have "linked c' (unat n) cur (Suc k)"
          using "1.prems"(2) gp c1(2,3) hp k m'
          by (intro linked_step) (auto simp: same_headers_def on_main_def)
        moreover have "chain_block_at c' i = chain_block_at c i" if "hd_height cur \<le> i" for i
          using k(2) [of i] c1(4) [OF that] that lt hp by auto
        ultimately show ?thesis using same_headers_trans [OF c1(2) k(1)] by auto
      qed
    qed
    show ?thesis
    proof (cases "hd_prev_hash cur = lv_chain_block l")
      case False
      obtain p where p: "level_get_header l (hd_prev_hash cur) = Some p"
        using "1.prems"(3) Some m False
        by (cases "level_get_header l (hd_prev_hash cur)") (auto simp: relink.simps [of e c n cur lwma])
      let ?c1 = "put_level ?h (set_chain_block (hd_prev_hash cur) l) c"
      let ?lw = "lwma_add_front e (hd_timestamp p) (hd_target_difficulty p) lwma"
      have wf1: "levels_wf ?c1"
        using "1.prems"(1) levels_wfD [OF "1.prems"(1) Some] p
        by (intro levels_wf_put_level level_wf_set_chain_block) (auto simp: level_contains_iff)
      show ?thesis
      proof (rule go [OF p wf1])
        show "same_headers c ?c1" using Some by (rule same_headers_put)
        show "chain_block_at ?c1 i = chain_block_at c i" if "hd_height cur \<le> i" for i
          using that lt by auto
        show "(if hd_height p = 0 \<or> ch_share_window ?c1 \<le> m then (?c1, Ok ?lw) else relink e ?c1 m p ?lw) = (c', Ok l')"
          using "1.prems"(3) Some m False p by (simp add: relink.simps [of e c n cur lwma] Let_def)
        show "same_headers ?c1 c' \<and> (\<forall>i. hd_height p \<le> i \<longrightarrow> chain_block_at c' i = chain_block_at ?c1 i)
          \<and> (\<exists>k. linked c' (unat m) p k)"
          if "\<not> (hd_height p = 0 \<or> ch_share_window ?c1 \<le> m)" "relink e ?c1 m p ?lw = (c', Ok l')"
          using "1.IH"(1) [OF Some, of c m] m False p that wf1 by auto
      qed simp
    next
      case True
      then have cb: "chain_block_at c ?h = Some (hd_prev_hash cur)" using Some by (simp add: chain_block_at_def)
      show ?thesis
      proof (cases "lwma_is_full e lwma")
        case full: True
        then have "c' = c" using "1.prems"(3) Some m True by (simp add: relink.simps [of e c n cur lwma])
        with cb show ?thesis by (auto intro!: exI [of _ 0] linked_0)
      next
        case False
        obtain p where p: "level_get_header l (hd_prev_hash cur) = Some p"
          using "1.prems" Some m False True
          by (cases "level_get_header l (hd_prev_hash cur)") (auto simp: relink.simps [of e c n cur lwma])
        let ?lw = "lwma_add_front e (hd_timestamp p) (hd_target_difficulty p) lwma"
        show ?thesis
        proof (rule go [OF p "1.prems"(1) same_headers_refl cb])
          show "(if hd_height p = 0 \<or> ch_share_window c \<le> m then (c, Ok ?lw) else relink e c m p ?lw) = (c', Ok l')"
            using "1.prems"(3) Some m False True p by (simp add: relink.simps [of e c n cur lwma] Let_def)
          show "same_headers c c' \<and> (\<forall>i. hd_height p \<le> i \<longrightarrow> chain_block_at c' i = chain_block_at c i)
            \<and> (\<exists>k. linked c' (unat m) p k)"
            if "\<not> (hd_height p = 0 \<or> ch_share_window c \<le> m)" "relink e c m p ?lw = (c', Ok l')"
            using "1.IH"(2) [OF Some, of c m] m True False p that "1.prems"(1) by auto
        qed simp
      qed
    qed
  qed
qed

lemma clear_above_spec:
  assumes "clear_above c h = (c', Ok u)"
  shows "same_headers c c' \<and> (\<forall>i. i \<le> h \<longrightarrow> chain_block_at c' i = chain_block_at c i)
    \<and> (\<forall>i. h < i \<longrightarrow> (\<forall>j. h < j \<and> j \<le> i \<longrightarrow> level_at_height c j \<noteq> None) \<longrightarrow> chain_block_at c' i = Some zero_hash)"
  using assms
proof (induction c h rule: clear_above.induct)
  case (1 c h)
  show ?case
  proof (cases "level_at_height c (sat_add h 1)")
    case None
    have "False" if "h < i" "\<forall>j. h < j \<and> j \<le> i \<longrightarrow> level_at_height c j \<noteq> None" for i
    proof -
      have "unat h < unat i" "unat i < 2 ^ 64" using that unsigned_less [of i] by (simp_all add: word_less_nat_alt)
      then have "h < sat_add h 1" "sat_add h 1 \<le> i"
        by (simp_all add: word_less_nat_alt word_le_nat_alt unat_sat_add)
      with that None show False by blast
    qed
    with None 1 show ?thesis by (auto simp: clear_above.simps [of c h])
  next
    case (Some l)
    obtain m where m: "add_chk h 1 = (Ok m :: u64 sc_result)"
      using "1.prems" Some by (cases "add_chk h 1 :: u64 sc_result") (auto simp: clear_above.simps [of c h])
    have m': "unat m = Suc (unat h)" using add_chk_unat [OF m] by simp
    have sm: "sat_add h 1 = m"
      using m' unsigned_less [of m, where ?'a = nat] by (simp add: word_unat_eq_iff unat_sat_add)
    let ?c1 = "put_level m (set_chain_block zero_hash l) c"
    have c': "clear_above ?c1 m = (c', Ok u)"
      using "1.prems" Some m sm by (simp add: clear_above.simps [of c h])
    note IH = "1.IH" [OF Some _ c', unfolded m sm, OF refl]
    have hm: "h < m" using m' by (simp add: word_less_nat_alt)
    have sh: "same_headers c ?c1" using Some by (auto intro: same_headers_put simp: sm)
    have le: "i \<le> m" if "i \<le> h" for i using that hm by simp
    have "chain_block_at c' i = chain_block_at c i" if "i \<le> h" for i
      using IH le [OF that] that hm by auto
    moreover have "chain_block_at c' i = Some zero_hash"
      if i: "h < i" "\<forall>j. h < j \<and> j \<le> i \<longrightarrow> level_at_height c j \<noteq> None" for i
    proof (cases "i = m")
      case True
      with IH show ?thesis by auto
    next
      case False
      then have "m < i" using i(1) m' by (simp add: word_less_nat_alt word_unat_eq_iff)
      moreover have "\<forall>j. m < j \<and> j \<le> i \<longrightarrow> level_at_height ?c1 j \<noteq> None"
        using i(2) hm by (auto dest: less_trans)
      ultimately show ?thesis using IH by blast
    qed
    ultimately show ?thesis using IH same_headers_trans [OF sh] by auto
  qed
qed

lemma chain_block_at_update [simp]:
  "chain_block_at (c\<lparr>ch_lwma := x\<rparr>) i = chain_block_at c i"
  "chain_block_at (c\<lparr>ch_current_tip := t\<rparr>) i = chain_block_at c i"
  "chain_block_at (c\<lparr>ch_cached_shares := s\<rparr>) i = chain_block_at c i"
  by (simp_all add: chain_block_at_def)

lemma same_headers_update:
  "same_headers c (c\<lparr>ch_lwma := x\<rparr>)"
  "same_headers c (c\<lparr>ch_cached_shares := s, ch_current_tip := t\<rparr>)"
  by (simp_all add: same_headers_def get_block_header_at_height_def)

lemma linked_update: "linked (c\<lparr>ch_lwma := x\<rparr>) n b k = linked c n b k"
  by (simp add: linked_def on_main_def Let_def same_headers_ancestors [OF same_headers_update(1)])



section \<open>Adding a block\<close>



text \<open>C3: On a well-formed chain add_block_to_chain returns (a value, an error or a panic): the
  fuel of the queue loop and of the walks down the chain is never used up.\<close>

theorem add_block_to_chain_returns:
  assumes "chain_wf c" shows "snd (add_block_to_chain e c b) \<noteq> Diverge"
  using assms by (rule add_block_not_Diverge)

theorem add_block_to_chain_returns_witness:
  "snd (add_block_to_chain demo_ext demo_one (demo_block 1 2 1 20 0)) \<noteq> Diverge"
  by (rule add_block_to_chain_returns [OF chain_wf_demo_one])

end
