(* ===== verification/ShareChain.thy ===== *)
theory ShareChain
  imports ForkChoice
begin

text \<open>
  \<open>InMemoryShareChain\<close> (\<open>sharechain/in_memory.rs\<close>): the chain behind its lock together
  with the rules a submitted or synced block has to meet, the making of new blocks and of the
  payout list, and what a peer that synchronises is sent. An operation that takes the write
  lock returns the new state; the clock, the file system and the log level are arguments.
\<close>

section \<open>State\<close>

record chain_config =
  cf_share_window :: u64
  cf_block_time_rx :: u64
  cf_block_time_sha :: u64
  cf_minimum_randomx_target_difficulty :: "u64 option"
  cf_minimum_sha3_target_difficulty :: "u64 option"

record 'l share_chain =
  sc_p2_chain :: "'l p2chain"
  sc_pow_algo :: pow_algorithm
  sc_params :: "block_validation_params option"
  sc_coinbase_extras :: "(string, bytes) hmap"
  sc_config :: chain_config
  sc_squad :: string
  sc_minimum_randomx_target_difficulty :: u64
  sc_minimum_sha3_target_difficulty :: u64
  sc_bypass_checks :: verified_status

definition opt_or :: "'a option \<Rightarrow> 'a \<Rightarrow> 'a" where
  "opt_or x d = (case x of None \<Rightarrow> d | Some y \<Rightarrow> y)"

text \<open>
  What the file system answers: whether the cache exists, whether it has a parent directory,
  and the outcome of creating the backup directory and of the renaming; then the blocks the
  backup holds and the store at the data path.
\<close>

record chain_files =
  fx_exists :: "string + bool"
  fx_has_parent :: bool
  fx_create_dir :: "string + unit"
  fx_rename :: "string + unit"
  fx_old_blocks :: "(string, p2block list) outcome"
  fx_new_cache :: block_store

definition new_chain ::
    "'l ext \<Rightarrow> pow_algorithm \<Rightarrow> chain_config \<Rightarrow> u64 \<Rightarrow> block_store \<Rightarrow> verified_status
     \<Rightarrow> block_validation_params option \<Rightarrow> 'l p2chain sc_result" where
  "new_chain e algo config block_time cache bypass params =
     (if unat (cf_share_window config) * 2 < 2 ^ 64
      then new_empty e algo (cf_share_window config * 2) (cf_share_window config) block_time cache
             (opt_or (cf_minimum_randomx_target_difficulty config) MIN_RANDOMX_DIFFICULTY)
             (opt_or (cf_minimum_sha3_target_difficulty config) MIN_SHA3X_DIFFICULTY) bypass params
      else Panic)"

definition share_chain_new ::
    "'l ext \<Rightarrow> (int \<Rightarrow> int option) \<Rightarrow> chain_files \<Rightarrow> chain_config \<Rightarrow> pow_algorithm
     \<Rightarrow> block_validation_params option \<Rightarrow> (string, bytes) hmap \<Rightarrow> string \<Rightarrow> verified_status option
     \<Rightarrow> 'l share_chain sc_result" where
  "share_chain_new e ago fx config algo params extras squad bypass_opt =
     (if algo = RandomX \<and> params = None then Err MissingBlockValidationParams
      else
        let bypass = opt_or bypass_opt vs_new;
            block_time = (case algo of RandomX \<Rightarrow> cf_block_time_rx config
                                     | Sha3x \<Rightarrow> cf_block_time_sha config) in
        bindO (sum_to_outcome Anyhow (fx_exists fx)) (\<lambda>ex.
        bindO (if \<not> ex then Ok None
               else if \<not> fx_has_parent fx then Err (Anyhow ''Block cache file has no parent'')
               else bindO (sum_to_outcome Anyhow (fx_create_dir fx)) (\<lambda>_.
                    bindO (sum_to_outcome Anyhow (fx_rename fx)) (\<lambda>_.
                      if unat (cf_share_window config) * 2 < 2 ^ 64
                      then (case try_load e ago algo (cf_share_window config * 2)
                              (cf_share_window config) block_time (fx_old_blocks fx) (fx_new_cache fx) squad
                              (opt_or (cf_minimum_randomx_target_difficulty config) MIN_RANDOMX_DIFFICULTY)
                              (opt_or (cf_minimum_sha3_target_difficulty config) MIN_SHA3X_DIFFICULTY)
                              bypass params of
                              Ok p \<Rightarrow> Ok (Some p) | Err _ \<Rightarrow> Ok None | Panic \<Rightarrow> Panic | Diverge \<Rightarrow> Diverge)
                      else Panic))) (\<lambda>loaded.
        bindO (case loaded of
                 Some p \<Rightarrow> Ok p
               | None \<Rightarrow> new_chain e algo config block_time (fx_new_cache fx) bypass params) (\<lambda>chain.
          Ok \<lparr>sc_p2_chain = chain, sc_pow_algo = algo, sc_params = params,
              sc_coinbase_extras = extras, sc_config = config, sc_squad = squad,
              sc_minimum_randomx_target_difficulty =
                opt_or (cf_minimum_randomx_target_difficulty config) MIN_RANDOMX_DIFFICULTY,
              sc_minimum_sha3_target_difficulty =
                opt_or (cf_minimum_sha3_target_difficulty config) MIN_SHA3X_DIFFICULTY,
              sc_bypass_checks = bypass\<rparr>))))"

section \<open>Validation of a block\<close>

definition block_difficulty :: "'l ext \<Rightarrow> 'l share_chain \<Rightarrow> p2block \<Rightarrow> (validation_error, u64) outcome" where
  "block_difficulty e s block =
     (case bh_pow_algo (b_original_header block) of
        RandomX \<Rightarrow>
          (case sc_params s of
             Some p \<Rightarrow> sum_to_outcome VRandomXDifficulty (randomx_difficulty e (b_original_header block) p)
           | None \<Rightarrow> Panic)
      | Sha3x \<Rightarrow> sum_to_outcome VDifficulty (sha3x_difficulty e (b_original_header block)))"

definition validate_claimed_difficulty ::
    "'l ext \<Rightarrow> 'l share_chain \<Rightarrow> p2block \<Rightarrow> block_validation_params option
     \<Rightarrow> (validation_error, difficulty) outcome" where
  "validate_claimed_difficulty e s block params =
     (if bh_pow_algo (b_original_header block) \<noteq> sc_pow_algo s then Err VInvalidPowAlgorithm
      else bindO (header_difficulty e params (b_original_header block)) (\<lambda>curr_difficulty.
             if curr_difficulty < b_target_difficulty block
                \<and> \<not> has_difficulty_verified (sc_bypass_checks s)
             then Err VDifficultyTarget else Ok curr_difficulty))"

fun check_uncle_ages :: "u64 \<Rightarrow> uncle_ref list \<Rightarrow> (validation_error, unit) outcome" where
  "check_uncle_ages height [] = Ok ()"
| "check_uncle_ages height (u # us) =
     (if fst u < sat_sub height MAX_UNCLE_AGE then Err VUncleTooOld
      else if height \<le> fst u then Err VUnclesOnSameHeightOrHigher
      else check_uncle_ages height us)"

text \<open>The target difficulty of the chain is never an error, so the error type is free.\<close>

fun no_error :: "('e, 'a) outcome \<Rightarrow> ('f, 'a) outcome" where
  "no_error (Ok x) = Ok x"
| "no_error (Err e) = Panic"
| "no_error Panic = Panic"
| "no_error Diverge = Diverge"

text \<open>\<open>now\<close> and \<open>now'\<close> are the two readings of the clock.\<close>

definition future_limit :: "'l ext \<Rightarrow> epoch_time \<Rightarrow> epoch_time \<Rightarrow> epoch_time" where
  "future_limit e now now' = opt_or (epoch_checked_add e now MAX_FUTURE_BLOCK_TIME) now'"

definition block_output_root :: "'l ext \<Rightarrow> p2block \<Rightarrow> fixed_hash option" where
  "block_output_root e block =
     output_mmr_root e (map (output_hash e) (b_coinbases block) @ [b_other_output_hash block])"

definition validate_block ::
    "'l ext \<Rightarrow> epoch_time \<Rightarrow> epoch_time \<Rightarrow> 'l share_chain \<Rightarrow> p2block \<Rightarrow> (validation_error, p2block) outcome" where
  "validate_block e now now' s block =
     (if UNCLE_LIMIT < length (b_uncles block) then Err VTooManyUncles
      else if b_height block < UNCLE_START_HEIGHT \<and> b_uncles block \<noteq> [] then Err VUnclesBeforeStartHeight
      else
        bindO (check_uncle_ages (b_height block) (b_uncles block)) (\<lambda>_.
          if future_limit e now now' < b_timestamp block then Err VFutureTimestamp
          else
            bindO (ok_or VInvalidOutputs (block_output_root e block)) (\<lambda>output_hash.
              if bh_output_mr (b_original_header block) = output_hash then Err VOutputMismatch
              else
                bindO (no_error (get_target_difficulty_for_block e (sc_p2_chain s) block)) (\<lambda>r.
                  case r of
                    Some difficulty \<Rightarrow>
                      if difficulty \<noteq> b_target_difficulty block
                         \<and> \<not> has_target_difficulty_verified (sc_bypass_checks s)
                      then Err VDifficultyTarget
                      else Ok (block\<lparr>b_verified := set_target_difficulty_verified (b_verified block)\<rparr>)
                  | None \<Rightarrow> Ok block))))"

section \<open>Submission\<close>

text \<open>What the first check of a submission finds: \<open>Some\<close> is the early return.\<close>

definition already_added :: "'l share_chain \<Rightarrow> p2block \<Rightarrow> chain_add_result option sc_result" where
  "already_added s block =
     (case level_at_height (sc_p2_chain s) (b_height block) of
        Some level \<Rightarrow>
          if level_contains level (b_hash block)
          then bindO (unwrap (level_get level (ch_block_cache (sc_p2_chain s)) (b_hash block)))
                 (\<lambda>b. Ok (if is_verified (b_verified b) then Some default_add_result else None))
          else Ok None
      | None \<Rightarrow> Ok None)"

definition too_old :: "'l share_chain \<Rightarrow> p2block \<Rightarrow> bool" where
  "too_old s block =
     (case get_tip (sc_p2_chain s) of
        Some tip \<Rightarrow> b_height block < sat_sub (lv_height tip) (cf_share_window (sc_config s))
      | None \<Rightarrow> False)"

definition submit_block_with_lock ::
    "'l ext \<Rightarrow> epoch_time \<Rightarrow> epoch_time \<Rightarrow> 'l share_chain \<Rightarrow> p2block
     \<Rightarrow> block_validation_params option \<Rightarrow> bool \<Rightarrow> 'l share_chain \<times> chain_add_result sc_result" where
  "submit_block_with_lock e now now' s block params syncing =
     bindS (s, already_added s block) (\<lambda>s early.
       case early of Some r \<Rightarrow> (s, Ok r)
       | None \<Rightarrow>
           if too_old s block \<and> \<not> syncing
           then (s, Err (BlockValidation ''Block is older than share window''))
           else
             bindS (s, map_err ValidationError (validate_block e now now' s block)) (\<lambda>s block.
             bindS (s, map_err ValidationError (validate_claimed_difficulty e s block params)) (\<lambda>s _.
               let block = block\<lparr>b_verified := set_difficulty_verified (b_verified block)\<rparr> in
               (case add_block_to_chain e (sc_p2_chain s) block of
                  (chain, r) \<Rightarrow>
                    bindS (s\<lparr>sc_p2_chain := chain\<rparr>, r) (\<lambda>s new_tip.
                      (s\<lparr>sc_coinbase_extras :=
                           hm_insert (to_base58 e (b_miner_wallet_address block))
                             (get_miner_coinbase_extra e block) (sc_coinbase_extras s)\<rparr>,
                       Ok new_tip))))))"

definition submit_block ::
    "'l ext \<Rightarrow> epoch_time \<Rightarrow> epoch_time \<Rightarrow> 'l share_chain \<Rightarrow> p2block
     \<Rightarrow> 'l share_chain \<times> chain_add_result sc_result" where
  "submit_block e now now' s block =
     (if b_version block \<noteq> PROTOCOL_VERSION
      then (s, Err (BlockValidation ''Block version not supported''))
      else if b_squad block \<noteq> sc_squad s
      then (s, Err (BlockValidation ''Block squad not supported''))
      else submit_block_with_lock e now now' s block (sc_params s) False)"

text \<open>The flag tells that the outer loop is to be left.\<close>

fun add_synced_missing ::
    "fixed_hash list \<Rightarrow> (fixed_hash \<times> u64) list \<Rightarrow> chain_add_result \<Rightarrow> chain_add_result \<times> bool" where
  "add_synced_missing known [] r = (r, False)"
| "add_synced_missing known ((hash, height) # ms) r =
     (if hash \<in> set known then add_synced_missing known ms r
      else let r = add_missing hash height r in
           if MAX_MISSING_PARENTS < length (missing_blocks r) then (r, True)
           else add_synced_missing known ms r)"

definition merge_new_tip :: "chain_add_result \<Rightarrow> chain_add_result \<Rightarrow> chain_add_result" where
  "merge_new_tip add_result tip_change =
     (case (new_tip add_result, new_tip tip_change) of
        (Some current_tip, Some other_tip) \<Rightarrow>
          if snd current_tip < snd other_tip then add_result\<lparr>new_tip := Some other_tip\<rparr> else add_result
      | (None, Some t) \<Rightarrow> add_result\<lparr>new_tip := Some t\<rparr>
      | _ \<Rightarrow> add_result)"

fun synced_loop ::
    "'l ext \<Rightarrow> epoch_time \<Rightarrow> epoch_time \<Rightarrow> fixed_hash list \<Rightarrow> p2block list \<Rightarrow> chain_add_result
     \<Rightarrow> 'l share_chain \<Rightarrow> 'l share_chain \<times> chain_add_result sc_result" where
  "synced_loop e now now' known [] add_result s = (s, Ok add_result)"
| "synced_loop e now now' known (block # blocks) add_result s =
     (if b_version block \<noteq> PROTOCOL_VERSION
      then (s, Err (BlockValidation ''Block version is too low''))
      else if b_squad block \<noteq> sc_squad s
      then (s, Err (BlockValidation ''Block squad not supported''))
      else
        bindS (submit_block_with_lock e now now' s block (sc_params s) True) (\<lambda>s tip_change.
          case add_synced_missing known (missing_blocks tip_change) (merge_new_tip add_result tip_change) of
            (r, stop) \<Rightarrow> if stop then (s, Ok r) else synced_loop e now now' known blocks r s))"

text \<open>
  The log line at the start reads the first block, so with the level \<open>info\<close> enabled an
  empty list panics.
\<close>

definition add_synced_blocks ::
    "'l ext \<Rightarrow> bool \<Rightarrow> epoch_time \<Rightarrow> epoch_time \<Rightarrow> 'l share_chain \<Rightarrow> p2block list
     \<Rightarrow> 'l share_chain \<times> chain_add_result sc_result" where
  "add_synced_blocks e log_info now now' s blocks =
     (if log_info \<and> blocks = [] then (s, Panic)
      else let blocks = (if sorted (map b_height blocks) then blocks else sort_key b_height blocks)
           in synced_loop e now now' (map b_hash blocks) blocks default_add_result s)"

end
