(* ===== verification/ShareService.thy ===== *)
theory ShareService
  imports ShareChain
begin

text \<open>
  The read side of \<open>InMemoryShareChain\<close> (\<open>sharechain/in_memory.rs\<close>): the payout list
  and target difficulty for a new block, the new block itself with its uncles and time stamp,
  and the answers to peers that synchronise. The tasks that drop a read lock to take the write
  lock are modelled as one step.
\<close>

section \<open>Payout shares\<close>

definition find_coinbase_extra :: "'l ext \<Rightarrow> 'l share_chain \<Rightarrow> tari_address \<Rightarrow> bytes option" where
  "find_coinbase_extra e s addr = hm_get (sc_coinbase_extras s) (to_base58 e addr)"

definition calculate_and_cache_hashmap_shares ::
    "'l ext \<Rightarrow> 'l p2chain \<Rightarrow> u64 \<Rightarrow> fixed_hash \<Rightarrow> 'l p2chain \<times> share_map sc_result" where
  "calculate_and_cache_hashmap_shares e c calculating_height block_hash =
     (case get_tip c of
        None \<Rightarrow> (c, Ok [])
      | Some tip \<Rightarrow>
          bindS (c, get_calculate_and_cache_hashmap_of_shares e c calculating_height block_hash) (\<lambda>c shares.
            (if lv_chain_block tip = block_hash
             then c\<lparr>ch_cached_shares := Some \<lparr>cs_at_hash = lv_chain_block tip, cs_shares = shares\<rparr>\<rparr>
             else c, Ok shares)))"

record new_block_coinbase =
  nc_address :: string
  nc_value :: u64
  nc_stealth_payment :: bool
  nc_revealed_value_proof :: bool
  nc_coinbase_extra :: bytes

definition coinbase_of_share :: "'l ext \<Rightarrow> miner_share \<Rightarrow> new_block_coinbase" where
  "coinbase_of_share e ms =
     \<lparr>nc_address = to_base58 e (ms_miner ms), nc_value = ms_share_count ms,
      nc_stealth_payment = False, nc_revealed_value_proof = True,
      nc_coinbase_extra = ms_coinbase_extra ms\<rparr>"

text \<open>The shares before the new block, from the cache if it is for the block's parent.\<close>

definition shares_before ::
    "'l ext \<Rightarrow> 'l p2chain \<Rightarrow> p2block \<Rightarrow> 'l p2chain \<times> share_map sc_result" where
  "shares_before e c new_tip_block =
     (let (c, miners_to_shares) =
        (case ch_cached_shares c of
           Some cached \<Rightarrow>
             if b_prev_hash new_tip_block = cs_at_hash cached then (c, cs_shares cached)
             else (c\<lparr>ch_cached_shares := None\<rparr>, [])
         | None \<Rightarrow> (c, []))
      in if miners_to_shares = []
         then calculate_and_cache_hashmap_shares e c (sat_sub (b_height new_tip_block) 1) (b_prev_hash new_tip_block)
         else (c, Ok miners_to_shares))"

definition generate_shares_and_get_target_difficulty ::
    "'l ext \<Rightarrow> 'l share_chain \<Rightarrow> p2block \<Rightarrow> bool
     \<Rightarrow> 'l share_chain \<times> (new_block_coinbase list \<times> difficulty) sc_result" where
  "generate_shares_and_get_target_difficulty e s new_tip_block solo_mine =
     (case (if solo_mine then (sc_p2_chain s, Ok []) else shares_before e (sc_p2_chain s) new_tip_block) of
        (c, r) \<Rightarrow>
          bindS (s\<lparr>sc_p2_chain := c\<rparr>, r) (\<lambda>s miners_to_shares.
            let shares = insert_share e (b_miner_wallet_address new_tip_block) MAIN_REWARD_SHARE
                           (b_miner_coinbase_extra new_tip_block) miners_to_shares in
            bindS (s, if solo_mine then Ok shares
                      else ok_or UncleBlockNotFound
                             (insert_uncle_shares e (sc_p2_chain s) (b_uncles new_tip_block) shares))
              (\<lambda>s shares.
                 let res = map (coinbase_of_share e) (hm_values shares) in
                 bindS (s, unwrap (difficulty_from_u64 e
                             (case sc_pow_algo s of
                                RandomX \<Rightarrow> sc_minimum_randomx_target_difficulty s
                              | Sha3x \<Rightarrow> sc_minimum_sha3_target_difficulty s))) (\<lambda>s mn.
                 bindS (s, no_error (get_target_difficulty_for_block e (sc_p2_chain s) new_tip_block))
                   (\<lambda>s d. (s, Ok (res, opt_or d mn)))))))"

section \<open>A new block for a miner\<close>

text \<open>The candidates for uncles and the hashes that must not be uncles, by height.\<close>

definition gather_uncles ::
    "'l p2chain \<Rightarrow> u64 \<Rightarrow> fixed_hash list \<times> p2block list \<Rightarrow> (fixed_hash list \<times> p2block list) sc_result" where
  "gather_uncles c height = (\<lambda>(excluded, uncles).
     (case level_at_height c height of
        None \<Rightarrow> Ok (excluded, uncles)
      | Some older_level \<Rightarrow>
          bindO (ok_or BlockNotFound (block_header_in_main_chain older_level)) (\<lambda>chain_block.
            Ok (excluded @ [hd_hash chain_block] @ map snd (hd_uncles chain_block),
                uncles @ level_all_blocks older_level (ch_block_cache c)))))"

fun exclude_unlinked :: "'l p2chain \<Rightarrow> p2block list \<Rightarrow> fixed_hash list \<Rightarrow> fixed_hash list sc_result" where
  "exclude_unlinked c [] excluded = Ok excluded"
| "exclude_unlinked c (uncle # us) excluded =
     (if level_at_height c (b_height uncle) = None
      then exclude_unlinked c us (excluded @ [b_hash uncle])
      else case get_parent_block c uncle of
             None \<Rightarrow> exclude_unlinked c us (excluded @ [b_hash uncle])
           | Some parent \<Rightarrow>
               bindO (ok_or BlockLevelNotFound (level_at_height c (b_height parent))) (\<lambda>l.
                 exclude_unlinked c us
                   (if lv_chain_block l \<noteq> b_hash parent then excluded @ [b_hash uncle] else excluded)))"

definition retain_not_excluded :: "fixed_hash list \<Rightarrow> p2block list \<Rightarrow> p2block list" where
  "retain_not_excluded excluded uncles =
     fold (\<lambda>x us. filter (\<lambda>uncle. b_hash uncle \<noteq> x) us) excluded uncles"

definition select_uncles :: "'l p2chain \<Rightarrow> u64 \<Rightarrow> p2block list sc_result" where
  "select_uncles c new_height =
     (if UNCLE_START_HEIGHT \<le> new_height
      then bindO (foldO (gather_uncles c) (u64_range (sat_sub new_height MAX_UNCLE_AGE) new_height) ([], []))
             (\<lambda>(excluded, uncles). bindO (exclude_unlinked c uncles excluded)
                (\<lambda>excluded. Ok (take UNCLE_LIMIT (retain_not_excluded excluded uncles))))
      else Ok [])"

text \<open>The loop that lifts the time stamp above the median; \<open>n\<close> counts the rounds left.\<close>

fun lift_timestamp :: "'l ext \<Rightarrow> nat \<Rightarrow> epoch_time \<Rightarrow> epoch_time \<Rightarrow> epoch_time sc_result" where
  "lift_timestamp e 0 median timestamp = Ok timestamp"
| "lift_timestamp e (Suc n) median timestamp =
     (if timestamp \<le> median
      then bindO (unwrap (epoch_checked_add e median 1)) (lift_timestamp e n median)
      else Ok timestamp)"

definition new_block_timestamp ::
    "'l ext \<Rightarrow> 'l p2chain \<Rightarrow> p2block_header option \<Rightarrow> epoch_time \<Rightarrow> epoch_time sc_result" where
  "new_block_timestamp e c prev_block timestamp =
     (case prev_block of
        None \<Rightarrow> Ok timestamp
      | Some prev_header \<Rightarrow>
          (case calculate_median_timestamp_for_block c (hd_height prev_header) (hd_prev_hash prev_header) of
             Ok median \<Rightarrow> lift_timestamp e (unat MAX_FUTURE_BLOCK_TIME) median timestamp
           | Err _ \<Rightarrow> Ok timestamp
           | Panic \<Rightarrow> Panic
           | Diverge \<Rightarrow> Diverge))"

definition generate_new_tip_block ::
    "'l ext \<Rightarrow> epoch_time \<Rightarrow> epoch_time \<Rightarrow> 'l share_chain \<Rightarrow> tari_address \<Rightarrow> bytes \<Rightarrow> p2block sc_result" where
  "generate_new_tip_block e now now' s miner_address coinbase_extra =
     (let c = sc_p2_chain s;
          prev_block = Option.bind (get_tip c) block_header_in_main_chain;
          new_height = (case prev_block of Some p \<Rightarrow> sat_add (hd_height p) 1 | None \<Rightarrow> 0) in
      bindO (select_uncles c new_height) (\<lambda>uncles.
      bindO (new_block_timestamp e c prev_block now) (\<lambda>timestamp.
      bindO (with_uncles e uncles
               (with_height new_height
                 (with_timestamp timestamp
                   (builder_new e now' (map_option (\<lambda>b. (hd_hash b, hd_total_pow b)) prev_block))))) (\<lambda>bb.
        build e
          (with_squad (sc_squad s)
            (with_miner_coinbase_extra coinbase_extra
              (with_miner_wallet_address miner_address bb)))))))"

section \<open>What a peer is sent\<close>

text \<open>
  The levels from \<open>level\<close> upwards, until more than \<open>page_size\<close> blocks have been taken or
  a level is missing. The number of levels bounds the rounds.
\<close>

definition page_blocks :: "'l p2chain \<Rightarrow> bool \<Rightarrow> p2chain_level \<Rightarrow> p2block list \<times> nat" where
  "page_blocks c main_chain_only level =
     (if main_chain_only
      then case get_block_in_main_chain level (ch_block_cache c) of
             Some block \<Rightarrow>
               (List.map_filter (\<lambda>u. get_block_at_height c (fst u) (snd u)) (b_uncles block) @ [block], 1)
           | None \<Rightarrow> ([], 0)
      else let bs = level_all_blocks level (ch_block_cache c) in (bs, length bs))"

fun page_loop ::
    "'l p2chain \<Rightarrow> nat \<Rightarrow> nat \<Rightarrow> bool \<Rightarrow> p2chain_level \<Rightarrow> nat \<Rightarrow> p2block list \<Rightarrow> p2block list sc_result" where
  "page_loop c 0 page_size main_chain_only level num_actual res = Diverge"
| "page_loop c (Suc fuel) page_size main_chain_only level num_actual res =
     (case page_blocks c main_chain_only level of
        (bs, n) \<Rightarrow>
          let res = res @ bs; num_actual = num_actual + n in
          if page_size < num_actual then Ok res
          else bindO (add_chk (lv_height level) 1) (\<lambda>h.
                 case level_at_height c h of
                   Some new_level \<Rightarrow> page_loop c fuel page_size main_chain_only new_level num_actual res
                 | None \<Rightarrow> Ok res))"

definition all_blocks_with_lock ::
    "'l p2chain \<Rightarrow> u64 option \<Rightarrow> nat \<Rightarrow> bool \<Rightarrow> p2block list sc_result" where
  "all_blocks_with_lock c start_height page_size main_chain_only =
     (let lowest_height = opt_or (lowest_chain_level_height c) 0;
          start_height = (if opt_or start_height 0 < lowest_height then Some lowest_height else start_height)
      in case level_at_height c (opt_or start_height 0) of
           None \<Rightarrow> Ok []
         | Some level \<Rightarrow> page_loop c (Suc (length (ch_levels c))) page_size main_chain_only level 0 [])"

definition all_blocks :: "'l share_chain \<Rightarrow> u64 option \<Rightarrow> nat \<Rightarrow> bool \<Rightarrow> p2block list sc_result" where
  "all_blocks s start_height page_size main_chain_only =
     all_blocks_with_lock (sc_p2_chain s) start_height page_size main_chain_only"

definition tip_height :: "'l share_chain \<Rightarrow> u64" where
  "tip_height s = get_height (sc_p2_chain s)"

definition chain_pow :: "'l ext \<Rightarrow> 'l share_chain \<Rightarrow> accumulated_difficulty" where
  "chain_pow e s = total_accumulated_tip_difficulty e (sc_p2_chain s)"

definition sc_get_tip :: "'l share_chain \<Rightarrow> (u64 \<times> fixed_hash) option" where
  "sc_get_tip s = map_option (\<lambda>l. (lv_height l, lv_chain_block l)) (get_tip (sc_p2_chain s))"

definition get_requested_block :: "'l p2chain \<Rightarrow> uncle_ref \<Rightarrow> p2block option" where
  "get_requested_block c r =
     (case level_at_height c (fst r) of
        None \<Rightarrow> None
      | Some level \<Rightarrow>
          (case level_get level (ch_block_cache c) (snd r) of
             Some b \<Rightarrow> Some b
           | None \<Rightarrow> get_block_in_main_chain level (ch_block_cache c)))"

definition get_blocks :: "'l share_chain \<Rightarrow> uncle_ref list \<Rightarrow> p2block list" where
  "get_blocks s requested = List.map_filter (get_requested_block (sc_p2_chain s)) requested"

definition do_blocks_exist :: "'l share_chain \<Rightarrow> uncle_ref list \<Rightarrow> uncle_ref list" where
  "do_blocks_exist s requested =
     filter (\<lambda>r. block_exists (sc_p2_chain s) (fst r) (snd r)) requested"

text \<open>One above the highest of the peer's blocks that is on our main chain; zero if none is.\<close>

fun find_split :: "'l p2chain \<Rightarrow> uncle_ref list \<Rightarrow> u64" where
  "find_split c [] = 0"
| "find_split c (b # bs) =
     (case level_at_height c (fst b) of
        Some level \<Rightarrow> if lv_chain_block level = snd b then sat_add (fst b) 1 else find_split c bs
      | None \<Rightarrow> find_split c bs)"

definition split_after :: "'l p2chain \<Rightarrow> uncle_ref option \<Rightarrow> u64" where
  "split_after c last_block_received =
     (case last_block_received of
        None \<Rightarrow> 0
      | Some b \<Rightarrow> (case get_block_at_height c (fst b) (snd b) of
                    Some block \<Rightarrow> sat_add (b_height block) 1 | None \<Rightarrow> 0))"

definition request_sync ::
    "'l ext \<Rightarrow> 'l share_chain \<Rightarrow> uncle_ref list \<Rightarrow> nat \<Rightarrow> uncle_ref option
     \<Rightarrow> (p2block list \<times> (u64 \<times> fixed_hash) option \<times> accumulated_difficulty) sc_result" where
  "request_sync e s their_blocks limit last_block_received =
     (let c = sc_p2_chain s;
          split_height = split_after c last_block_received;
          their_blocks = sort_key (\<lambda>b. - int (unat (fst b))) their_blocks;
          split_height2 = find_split c their_blocks in
      bindO (all_blocks_with_lock c (Some (max split_height split_height2)) limit True)
        (\<lambda>blocks. Ok (blocks, sc_get_tip s, chain_pow e s)))"

section \<open>What we tell a peer we have\<close>

fun have_blocks :: "'l p2chain \<Rightarrow> nat \<Rightarrow> u64 \<Rightarrow> uncle_ref list" where
  "have_blocks c 0 height = []"
| "have_blocks c (Suc n) height =
     (case Option.bind (level_at_height c height) block_header_in_main_chain of
        None \<Rightarrow> []
      | Some block \<Rightarrow>
          (height, hd_hash block) #
            (if height = 0 then [] else have_blocks c n (sat_sub (hd_height block) 1)))"

text \<open>
  The last entries are replaced by main chain blocks that are 4196, 2098, 1049, ... below
  the tip, as long as the distance is above a hundred. Writing past the end panics.
\<close>

function replace_older ::
    "'l p2chain \<Rightarrow> u64 \<Rightarrow> nat \<Rightarrow> nat \<Rightarrow> uncle_ref list \<Rightarrow> uncle_ref list sc_result" where
  "replace_older c tip_h count_back counter have =
     (if 100 < count_back
      then case (if unat tip_h < count_back then None
                 else Option.bind (level_at_height c (tip_h - of_nat count_back))
                        block_header_in_main_chain) of
             Some block \<Rightarrow>
               let index = length have - counter - 1 in
               if index < length have
               then replace_older c tip_h (count_back div 2) (Suc counter)
                      (have[index := (tip_h - of_nat count_back, hd_hash block)])
               else Panic
           | None \<Rightarrow> replace_older c tip_h (count_back div 2) counter have
      else Ok have)"
  by pat_completeness auto
termination
  by (relation "measure (\<lambda>(c, t, n, k, xs). n)") auto

declare replace_older.simps [simp del]

definition create_catchup_sync_blocks :: "'l share_chain \<Rightarrow> nat \<Rightarrow> uncle_ref list sc_result" where
  "create_catchup_sync_blocks s n =
     (let c = sc_p2_chain s in
      case get_tip c of
        None \<Rightarrow> Ok []
      | Some tip \<Rightarrow>
          let i_have_blocks = have_blocks c n (lv_height tip) in
          if length i_have_blocks < n then Ok i_have_blocks
          else replace_older c (lv_height tip) 4196 0 i_have_blocks)"

end
