(* ===== verification/ShareCorrect.thy ===== *)
theory ShareCorrect
  imports ShareService
begin

text \<open>
  What the share chain promises its users: submission keeps the chain well-formed and ends;
  exactly which blocks validation lets through; the payout list of a new block is the one its
  verification computes; a generated block obeys the rules for uncles; and what is sent to a
  peer comes from the main chain in order.
\<close>

section \<open>A concrete share chain\<close>

definition demo_share :: "(epoch_time \<times> difficulty) list p2chain \<Rightarrow> (epoch_time \<times> difficulty) list share_chain" where
  "demo_share c = \<lparr>sc_p2_chain = c, sc_pow_algo = Sha3x, sc_params = None, sc_coinbase_extras = [],
     sc_config = \<lparr>cf_share_window = 10, cf_block_time_rx = 20, cf_block_time_sha = 20,
       cf_minimum_randomx_target_difficulty = Some 1, cf_minimum_sha3_target_difficulty = Some 10\<rparr>,
     sc_squad = ''squad'', sc_minimum_randomx_target_difficulty = 1,
     sc_minimum_sha3_target_difficulty = 10, sc_bypass_checks = vs_new\<rparr>"

lemma demo_share_chain [simp]: "sc_p2_chain (demo_share c) = c"
  by (simp add: demo_share_def)

section \<open>Submission keeps the chain well-formed and returns\<close>

lemma submit_with_lock_chain:
  assumes "chain_wf (sc_p2_chain s)"
  shows "chain_wf (sc_p2_chain (fst (submit_block_with_lock e t t' s b p y)))"
proof -
  have "chain_wf c" if "add_block_to_chain e (sc_p2_chain s) b' = (c, r)" for b' c r
    using chain_wf_add_block [OF assms, of e b'] that by simp
  then show ?thesis
    unfolding submit_block_with_lock_def Let_def
    by (auto simp: assms intro!: bindS_preserves [of "\<lambda>s. chain_wf (sc_p2_chain s)"]
        split: option.splits prod.splits)
qed

lemma synced_loop_chain:
  "chain_wf (sc_p2_chain s) \<Longrightarrow> chain_wf (sc_p2_chain (fst (synced_loop e t t' known bs r s)))"
proof (induction e t t' known bs r s rule: synced_loop.induct)
  case (2 e t t' known b bs r s)
  then show ?case
    by (auto simp: submit_with_lock_chain
        intro!: bindS_preserves [of "\<lambda>s. chain_wf (sc_p2_chain s)"] split: prod.splits)
qed simp

lemma get_target_difficulty_not_Err: "get_target_difficulty_for_block e c b \<noteq> Err x"
proof -
  have t: "target_loop e c n h l \<noteq> Err x" for n h l
    by (induction e c n h l rule: target_loop.induct) (auto simp: Let_def split: option.splits)
  have l: "get_lwma_difficulty_for_block e c l b \<noteq> Err x" for l
    by (cases "difficulty_from_u64 e (case bh_pow_algo (b_original_header b) of
          RandomX \<Rightarrow> ch_minimum_randomx_target_difficulty c | Sha3x \<Rightarrow> ch_minimum_sha3_target_difficulty c)")
      (simp_all add: get_lwma_difficulty_for_block_def)
  show ?thesis
    using t l by (auto simp: get_target_difficulty_for_block_def Let_def bindO_eq_Err
        simp del: target_loop.simps split: option.splits)
qed

lemma validate_block_returns:
  assumes "levels_wf (sc_p2_chain s)" shows "validate_block e t t' s b \<noteq> Diverge"
proof -
  have "no_error m \<noteq> Diverge" if "m \<noteq> Diverge" for m using that by (cases m) auto
  moreover have "check_uncle_ages h us \<noteq> Diverge" for h us
    by (induction h us rule: check_uncle_ages.induct) auto
  ultimately show ?thesis
    using get_target_difficulty_returns [OF assms, of e b]
    by (auto simp: validate_block_def bindO_eq_Diverge split: option.splits)
qed

lemma validate_claimed_returns: "validate_claimed_difficulty e s b p \<noteq> Diverge"
proof -
  have "sum_to_outcome f x \<noteq> Diverge" for f x by (cases "(f, x)" rule: sum_to_outcome.cases) auto
  then show ?thesis
    by (auto simp: validate_claimed_difficulty_def header_difficulty_def bindO_eq_Diverge
        split: pow_algorithm.splits)
qed

lemma submit_with_lock_returns:
  assumes "chain_wf (sc_p2_chain s)"
  shows "snd (submit_block_with_lock e t t' s b p y) \<noteq> Diverge"
proof -
  have "already_added s b \<noteq> Diverge"
    by (auto simp: already_added_def bindO_eq_Diverge split: option.splits)
  moreover have "r \<noteq> Diverge" if "add_block_to_chain e (sc_p2_chain s) b' = (c, r)" for b' c r
    using add_block_not_Diverge [OF assms, of e b'] that by simp
  ultimately show ?thesis
    by (auto simp: submit_block_with_lock_def bindS_eq_Diverge Let_def validate_claimed_returns
        validate_block_returns chain_wf_levels [OF assms] split: option.splits prod.splits)
qed

lemma synced_loop_returns:
  "chain_wf (sc_p2_chain s) \<Longrightarrow> snd (synced_loop e t t' known bs r s) \<noteq> Diverge"
proof (induction e t t' known bs r s rule: synced_loop.induct)
  case (2 e t t' known b bs r s)
  have wf: "chain_wf (sc_p2_chain s1)" if "submit_block_with_lock e t t' s b (sc_params s) True = (s1, x)" for s1 x
    using submit_with_lock_chain [OF "2.prems", of e t t' b "sc_params s" True] that by simp
  show ?case
    using "2.IH" wf submit_with_lock_returns [OF "2.prems", of e t t' b "sc_params s" True]
    by (auto simp: bindS_eq_Diverge split: prod.splits if_split_asm)
qed simp

text \<open>Submitting a block and adding synced blocks keep the chain well-formed and always
  return.\<close>

theorem submission_total:
  assumes "chain_wf (sc_p2_chain s)"
  shows "chain_wf (sc_p2_chain (fst (submit_block e t t' s b))) \<and> snd (submit_block e t t' s b) \<noteq> Diverge
    \<and> chain_wf (sc_p2_chain (fst (add_synced_blocks e li t t' s bs)))
    \<and> snd (add_synced_blocks e li t t' s bs) \<noteq> Diverge"
  using assms
  by (simp add: submit_block_def add_synced_blocks_def Let_def submit_with_lock_chain synced_loop_chain
      submit_with_lock_returns synced_loop_returns)

theorem submission_total_witness:
  "chain_wf (sc_p2_chain (fst (submit_block demo_ext 2000 2000 (demo_share demo_one) (demo_block 1 2 1 20 0))))"
  using submission_total [of "demo_share demo_one" demo_ext 2000 2000 "demo_block 1 2 1 20 0"] chain_wf_demo_one
  by simp

section \<open>What validation accepts\<close>

lemma check_uncle_ages_Ok:
  "check_uncle_ages h us = Ok () \<longleftrightarrow> (\<forall>u \<in> set us. sat_sub h MAX_UNCLE_AGE \<le> fst u \<and> fst u < h)"
  by (induction h us rule: check_uncle_ages.induct) (auto simp: not_less)

lemma no_error_Ok [simp]: "no_error m = Ok x \<longleftrightarrow> m = Ok x"
  by (cases m) auto

lemma if_Err_Ok: "(if P then Err x else m) = Ok y \<longleftrightarrow> \<not> P \<and> m = Ok y"
  by simp



text \<open>A block whose outputs hash to the output root of its Tari header, as they should, is
  rejected: the comparison in validate_block is inverted.\<close>

theorem matching_output_root_rejected:
  assumes "block_output_root e b = Some (bh_output_mr (b_original_header b))"
  shows "\<exists>err. validate_block e t t' s b = Err err"
proof -
  have "\<exists>err. check_uncle_ages h us = Err err \<or> check_uncle_ages h us = Ok ()" for h us
    by (induction h us rule: check_uncle_ages.induct) auto
  then obtain err where "check_uncle_ages (b_height b) (b_uncles b) = Err err
      \<or> check_uncle_ages (b_height b) (b_uncles b) = Ok ()" by blast
  with assms show ?thesis by (auto simp: validate_block_def)
qed

theorem matching_output_root_rejected_witness:
  "let b = (demo_block 1 2 1 20 0)\<lparr>b_original_header := \<lparr>bh_pow_algo = Sha3x, bh_output_mr = 1000, bh_rest = []\<rparr>\<rparr>
   in block_output_root demo_ext b = Some 1000
      \<and> (\<exists>err. validate_block demo_ext 2000 2000 (demo_share demo_one) b = Err err)"
proof -
  let ?b = "(demo_block 1 2 1 20 0)\<lparr>b_original_header := \<lparr>bh_pow_algo = Sha3x, bh_output_mr = 1000, bh_rest = []\<rparr>\<rparr>"
  have r: "block_output_root demo_ext ?b = Some (bh_output_mr (b_original_header ?b))"
    by (simp add: block_output_root_def demo_ext_def demo_block_def)
  from matching_output_root_rejected [OF r] r show ?thesis by (simp add: Let_def)
qed

text \<open>Submitting a block that is stored and verified changes nothing and reports nothing.\<close>

theorem resubmission_changes_nothing:
  assumes "get_block_at_height (sc_p2_chain s) (b_height b) (b_hash b) = Some old"
    and "block_exists (sc_p2_chain s) (b_height b) (b_hash b)" "is_verified (b_verified old)"
  shows "submit_block_with_lock e t t' s b p y = (s, Ok default_add_result)"
proof -
  have "already_added s b = Ok (Some default_add_result)"
    using assms by (auto simp: already_added_def get_block_at_height_def block_exists_def split: option.splits)
  then show ?thesis by (simp add: submit_block_with_lock_def)
qed

theorem resubmission_changes_nothing_witness:
  "submit_block_with_lock demo_ext 2000 2000 (demo_share demo_one) (demo_block 0 1 0 10 0) None False
   = (demo_share demo_one, Ok default_add_result)"
  by (rule resubmission_changes_nothing [where old = "demo_block 0 1 0 10 31"])
    (simp_all add: demo_defs get_block_at_height_def level_at_height_def level_get_def cache_get_def
      block_exists_def level_contains_def hm_contains_def is_verified_iff has_defs vs_contains_bits)



section \<open>Payouts\<close>

text \<open>The shares of a chain do not depend on what is cached.\<close>

lemma cached_shares_irrelevant [simp]:
  "get_block_header_at_height (c\<lparr>ch_cached_shares := x\<rparr>) h k = get_block_header_at_height c h k"
  "get_block_at_height (c\<lparr>ch_cached_shares := x\<rparr>) h k = get_block_at_height c h k"
  "get_tip (c\<lparr>ch_cached_shares := x\<rparr>) = get_tip c"
  "uncle_header (c\<lparr>ch_cached_shares := x\<rparr>) u = uncle_header c u"
  "count_block e (c\<lparr>ch_cached_shares := x\<rparr>) b m = count_block e c b m"
  by (simp_all add: get_block_header_at_height_def get_block_at_height_def get_tip_def
      uncle_header_def count_block_def)

lemma shares_loop_cached [simp]:
  "shares_loop e (c\<lparr>ch_cached_shares := x\<rparr>) n stop cur m = shares_loop e c n stop cur m"
  by (induction n arbitrary: cur m) (simp_all cong: if_cong)

lemma get_shares_cached [simp]:
  "get_calculate_and_cache_hashmap_of_shares e (c\<lparr>ch_cached_shares := x\<rparr>) h k
   = get_calculate_and_cache_hashmap_of_shares e c h k"
  by (simp add: get_calculate_and_cache_hashmap_of_shares_def Let_def del: shares_loop.simps
      cong: option.case_cong)

lemma insert_uncle_shares_cached [simp]:
  "insert_uncle_shares e (c\<lparr>ch_cached_shares := x\<rparr>) us m = insert_uncle_shares e c us m"
  by (induction us arbitrary: m) (auto split: option.splits)

lemma calculate_and_cache_chain:
  "fst (calculate_and_cache_hashmap_shares e c h k) = c
   \<or> (\<exists>x. fst (calculate_and_cache_hashmap_shares e c h k) = c\<lparr>ch_cached_shares := x\<rparr>)"
  by (cases "get_calculate_and_cache_hashmap_of_shares e c h k")
    (auto simp: calculate_and_cache_hashmap_shares_def split: option.splits)

lemma shares_before_chain:
  "fst (shares_before e c b) = c \<or> (\<exists>x. fst (shares_before e c b) = c\<lparr>ch_cached_shares := x\<rparr>)"
  using calculate_and_cache_chain [of e c "sat_sub (b_height b) 1" "b_prev_hash b"]
    calculate_and_cache_chain [of e "c\<lparr>ch_cached_shares := None\<rparr>" "sat_sub (b_height b) 1" "b_prev_hash b"]
  by (auto simp: shares_before_def Let_def split: option.splits)



section \<open>New blocks\<close>

lemma set_u64_range: "x \<in> set (u64_range a b) \<longleftrightarrow> a \<le> x \<and> x < b"
proof
  assume "x \<in> set (u64_range a b)"
  then obtain n where n: "unat a \<le> n" "n < unat b" "x = word_of_nat n" by (auto simp: u64_range_def)
  have "unat b < 2 ^ 64" using unsigned_less [of b, where ?'a = nat] by simp
  with n have "unat x = n" by (simp add: unsigned_of_nat take_bit_nat_eq_self)
  with n show "a \<le> x \<and> x < b" by (simp add: word_le_nat_alt word_less_nat_alt)
next
  assume "a \<le> x \<and> x < b"
  then show "x \<in> set (u64_range a b)"
    by (auto simp: u64_range_def word_le_nat_alt word_less_nat_alt image_iff intro!: bexI [of _ "unat x"])
qed

lemma retain_mem: "u \<in> set (retain_not_excluded ex us) \<longleftrightarrow> u \<in> set us \<and> b_hash u \<notin> set ex"
  unfolding retain_not_excluded_def by (induction ex arbitrary: us) auto

text \<open>What is known of the hashes gathered at a height.\<close>

definition gathered :: "'l p2chain \<Rightarrow> fixed_hash list \<Rightarrow> p2block list \<Rightarrow> u64 \<Rightarrow> bool" where
  "gathered c ex us h \<longleftrightarrow> (\<forall>l. level_at_height c h = Some l \<longrightarrow>
     (\<exists>x. block_header_in_main_chain l = Some x \<and> hd_hash x \<in> set ex \<and> snd ` set (hd_uncles x) \<subseteq> set ex))"

lemma gather_uncles_Ok:
  assumes "foldO (gather_uncles c) hs (ex0, us0) = Ok (ex, us)"
  shows "set ex0 \<subseteq> set ex \<and> (\<forall>h \<in> set hs. gathered c ex us h)
    \<and> (\<forall>u \<in> set us. u \<in> set us0 \<or> (\<exists>h \<in> set hs. \<exists>l. level_at_height c h = Some l
          \<and> u \<in> set (level_all_blocks l (ch_block_cache c))))"
  using assms
proof (induction hs arbitrary: ex0 us0)
  case (Cons h hs)
  then obtain ex1 us1 where 1: "gather_uncles c h (ex0, us0) = Ok (ex1, us1)"
    and 2: "foldO (gather_uncles c) hs (ex1, us1) = Ok (ex, us)" by auto
  note IH = Cons.IH [OF 2]
  show ?case
  proof (cases "level_at_height c h")
    case None
    with 1 IH show ?thesis by (auto simp: gather_uncles_def gathered_def)
  next
    case (Some l)
    with 1 obtain x where x: "block_header_in_main_chain l = Some x"
      "ex1 = ex0 @ [hd_hash x] @ map snd (hd_uncles x)"
      "us1 = us0 @ level_all_blocks l (ch_block_cache c)"
      by (auto simp: gather_uncles_def)
    then have "set ex0 \<subseteq> set ex" "gathered c ex us h"
      using IH Some by (auto simp: gathered_def)
    with IH x Some show ?thesis by auto
  qed
qed simp

lemma exclude_unlinked_Ok:
  assumes "exclude_unlinked c us ex = Ok ex'"
  shows "set ex \<subseteq> set ex' \<and> (\<forall>u \<in> set us. b_hash u \<notin> set ex' \<longrightarrow>
    (\<exists>parent. get_parent_block c u = Some parent
        \<and> chain_block_at c (b_height parent) = Some (b_hash parent)))"
  using assms
proof (induction c us ex rule: exclude_unlinked.induct)
  case (2 c u us ex)
  show ?case
  proof (cases "level_at_height c (b_height u)")
    case None
    with 2 show ?thesis by auto
  next
    case (Some l)
    show ?thesis
    proof (cases "get_parent_block c u")
      case None
      with 2 Some show ?thesis by auto
    next
      case p: (Some parent)
      with Some "2.prems" obtain l' where l': "level_at_height c (b_height parent) = Some l'"
        "exclude_unlinked c us (if lv_chain_block l' \<noteq> b_hash parent then ex @ [b_hash u] else ex) = Ok ex'"
        by auto
      have IH: "set (if lv_chain_block l' \<noteq> b_hash parent then ex @ [b_hash u] else ex) \<subseteq> set ex' \<and>
          (\<forall>u \<in> set us. b_hash u \<notin> set ex' \<longrightarrow> (\<exists>parent. get_parent_block c u = Some parent
             \<and> chain_block_at c (b_height parent) = Some (b_hash parent)))"
        using "2.IH"(3) [of parent l'] Some p l' by simp
      then show ?thesis
        using p l' by (auto simp: chain_block_at_def split: if_splits)
    qed
  qed
qed simp

definition heights_agree :: "'l p2chain \<Rightarrow> bool" where
  "heights_agree c \<longleftrightarrow> (\<forall>(h, l) \<in> set (ch_levels c). \<forall>b \<in> set (level_all_blocks l (ch_block_cache c)). b_height b = h)"

lemma heights_agreeD:
  "heights_agree c \<Longrightarrow> level_at_height c h = Some l \<Longrightarrow> b \<in> set (level_all_blocks l (ch_block_cache c)) \<Longrightarrow> b_height b = h"
  by (auto simp: heights_agree_def level_at_height_def dest!: map_of_SomeD)

definition fit_uncle :: "'l p2chain \<Rightarrow> u64 \<Rightarrow> p2block \<Rightarrow> bool" where
  "fit_uncle c h u \<longleftrightarrow> unat h \<le> unat (b_height u) + 3 \<and> b_height u < h
     \<and> (\<exists>parent. get_parent_block c u = Some parent \<and> chain_block_at c (b_height parent) = Some (b_hash parent))
     \<and> chain_block_at c (b_height u) \<noteq> Some (b_hash u)
     \<and> (\<forall>i l x. unat h \<le> unat i + 3 \<and> i < h \<and> level_at_height c i = Some l
          \<and> block_header_in_main_chain l = Some x \<longrightarrow> b_hash u \<notin> snd ` set (hd_uncles x))"

lemma select_uncles_fit:
  assumes "levels_wf c" "heights_agree c" "select_uncles c h = Ok us"
  shows "length us \<le> UNCLE_LIMIT \<and> (us \<noteq> [] \<longrightarrow> UNCLE_START_HEIGHT \<le> h) \<and> (\<forall>u \<in> set us. fit_uncle c h u)"
proof (cases "UNCLE_START_HEIGHT \<le> h")
  case True
  let ?R = "u64_range (sat_sub h MAX_UNCLE_AGE) h"
  obtain ex us0 ex' where g: "foldO (gather_uncles c) ?R ([], []) = Ok (ex, us0)"
    and x: "exclude_unlinked c us0 ex = Ok ex'" and us: "us = take UNCLE_LIMIT (retain_not_excluded ex' us0)"
    using assms(3) True by (auto simp: select_uncles_def)
  have R: "i \<in> set ?R \<longleftrightarrow> unat h \<le> unat i + 3 \<and> i < h" for i
    by (auto simp: set_u64_range word_le_nat_alt MAX_UNCLE_AGE_def)
  note G = gather_uncles_Ok [OF g] and X = exclude_unlinked_Ok [OF x]
  have "fit_uncle c h u" if "u \<in> set us" for u
  proof -
    have u: "u \<in> set us0" "b_hash u \<notin> set ex'" using that us retain_mem in_set_takeD by fastforce+
    then have ex: "b_hash u \<notin> set ex" using X by auto
    obtain i l where i: "i \<in> set ?R" "level_at_height c i = Some l" "u \<in> set (level_all_blocks l (ch_block_cache c))"
      using G u by auto
    then have hu: "b_height u = i" using heights_agreeD [OF assms(2)] by blast
    have main: "hd_hash y \<in> set ex" "snd ` set (hd_uncles y) \<subseteq> set ex"
      if "j \<in> set ?R" "level_at_height c j = Some m" "block_header_in_main_chain m = Some y" for j m y
      using G that by (fastforce simp: gathered_def)+
    obtain y where y: "block_header_in_main_chain l = Some y"
      using G i by (fastforce simp: gathered_def)
    have "hd_hash y = lv_chain_block l"
      using levels_wfD [OF assms(1) i(2)] y level_wf_header by (auto simp: block_header_in_main_chain_def)
    with main(1) [OF i(1,2) y] ex i(2) hu have "chain_block_at c (b_height u) \<noteq> Some (b_hash u)"
      by (auto simp: chain_block_at_def)
    moreover have "b_hash u \<notin> snd ` set (hd_uncles y)"
      if "unat h \<le> unat j + 3" "j < h" "level_at_height c j = Some m" "block_header_in_main_chain m = Some y" for j m y
      using main(2) [of j m y] that R ex by blast
    ultimately show ?thesis
      using X u i(1) hu R [of i] unfolding fit_uncle_def by blast
  qed
  moreover have "length us \<le> UNCLE_LIMIT" by (simp add: us)
  ultimately show ?thesis using True by simp
next
  case False
  with assms(3) show ?thesis by (simp add: select_uncles_def)
qed

text \<open>Levels seven to nine, with a second block at height nine on the block at height eight.\<close>

definition demo_tall :: "(epoch_time \<times> difficulty) list p2chain" where
  "demo_tall = (let b7 = demo_block 7 8 7 80 31; b8 = demo_block 8 9 8 90 31; b9 = demo_block 9 10 9 100 31;
                    u9 = demo_block 9 11 9 100 31 in
     demo_chain [demo_level b7 8, demo_level b8 9,
        (9, \<lparr>lv_height = 9, lv_chain_block = 10, lv_block_headers = [(10, header_of b9), (11, header_of u9)]\<rparr>)]
        [b7, b8, b9, u9] 9)"

lemma chain_wf_demo_tall: "chain_wf demo_tall"
  by (auto simp: demo_tall_def demo_defs chain_wf_def levels_wf_def level_wf_def cache_wf_def cache_get_def
      level_at_height_def hm_ok_def level_contains_def hm_contains_def split: if_splits)

lemma demo_block_simps [simp]:
  "b_height (demo_block h k p w v) = h" "b_hash (demo_block h k p w v) = k"
  "b_prev_hash (demo_block h k p w v) = p" "b_uncles (demo_block h k p w v) = []"
  "b_target_difficulty (demo_block h k p w v) = 10" "b_total_pow (demo_block h k p w v) = w"
  by (simp_all add: demo_block_def)

lemma demo_tall_simps:
  "level_at_height demo_tall h =
    (if h = 7 then Some (snd (demo_level (demo_block 7 8 7 80 31) 8))
     else if h = 8 then Some (snd (demo_level (demo_block 8 9 8 90 31) 9))
     else if h = 9 then Some \<lparr>lv_height = 9, lv_chain_block = 10, lv_block_headers =
      [(10, header_of (demo_block 9 10 9 100 31)), (11, header_of (demo_block 9 11 9 100 31))]\<rparr> else None)"
  "ch_block_cache demo_tall = map (\<lambda>b. (b_hash b, b)) [demo_block 7 8 7 80 31, demo_block 8 9 8 90 31, demo_block 9 10 9 100 31, demo_block 9 11 9 100 31]"
  by (simp_all add: demo_tall_def demo_chain_def demo_level_def level_at_height_def Let_def)

lemma demo_tall_gather: "foldO (gather_uncles demo_tall) [7, 8, 9] ([], []) = Ok ([8, 9, 10], [demo_block 7 8 7 80 31, demo_block 8 9 8 90 31, demo_block 9 10 9 100 31, demo_block 9 11 9 100 31])"
  by (simp add: gather_uncles_def demo_tall_simps demo_level_def block_header_in_main_chain_def level_get_header_def
     level_all_blocks_def cache_get_def List.map_filter_def)

lemma demo_tall_exclude: "exclude_unlinked demo_tall [demo_block 7 8 7 80 31, demo_block 8 9 8 90 31, demo_block 9 10 9 100 31, demo_block 9 11 9 100 31] [8, 9, 10] = Ok [8,9,10,8]"
  by (simp add: demo_tall_simps demo_level_def get_parent_block_def level_get_def cache_get_def checked_sub_def)

lemma demo_tall_uncles: "select_uncles demo_tall 10 = Ok [demo_block 9 11 9 100 31]"
proof -
  have r: "u64_range (sat_sub 10 MAX_UNCLE_AGE) 10 = [7, 8, 9]"
    by (simp add: u64_range_def MAX_UNCLE_AGE_def sat_sub_def upt_rec_numeral)
  show ?thesis
    unfolding select_uncles_def r demo_tall_gather bindO.simps prod.case demo_tall_exclude
    by (simp add: retain_not_excluded_def UNCLE_START_HEIGHT_def UNCLE_LIMIT_def)
qed

lemma demo_tall_timestamp: "new_block_timestamp demo_ext demo_tall (Some (header_of (demo_block 9 10 9 100 31))) 2000 = Ok 2000"
  by (simp add: new_block_timestamp_def calculate_median_timestamp_for_block_def demo_tall_simps
      demo_level_def level_get_header_def sat_sub_def median_collect.simps MEDIAN_TIMESTAMP_WINDOW_def)

lemma demo_tall_tip: "Option.bind (get_tip demo_tall) block_header_in_main_chain = Some (header_of (demo_block 9 10 9 100 31))"
  by (simp add: get_tip_def demo_tall_simps block_header_in_main_chain_def level_get_header_def
    demo_tall_def demo_chain_def level_at_height_def demo_level_def Let_def)

lemma demo_tall_generate: "\<exists>b. generate_new_tip_block demo_ext 2000 2000 (demo_share demo_tall) [1] [] = Ok b
    \<and> b_uncles b = [(9, 11)]"
proof -
  have h: "sat_add (9 :: u64) 1 = 10" by (simp add: sat_add_def)
  show ?thesis
    unfolding generate_new_tip_block_def Let_def demo_share_chain demo_tall_tip option.case header_of_simps demo_block_simps h
      demo_tall_uncles bindO.simps demo_tall_timestamp
    by (simp add: with_uncles_def with_height_def with_timestamp_def builder_new_def default_block_def demo_ext_def
        checked_add_def with_squad_def with_miner_coinbase_extra_def with_miner_wallet_address_def build_def Let_def)
qed



section \<open>Synchronisation\<close>

lemma main_header_at:
  assumes "levels_wf c" "level_at_height c h = Some l" "block_header_in_main_chain l = Some x"
  shows "hd_height x = h \<and> chain_block_at c h = Some (hd_hash x)"
  using levels_wfD [OF assms(1,2)] level_wf_header [of l "lv_chain_block l" x] assms(2,3)
  by (auto simp: block_header_in_main_chain_def chain_block_at_def)

lemma have_blocks_main:
  assumes "levels_wf c"
  shows "length (have_blocks c n h) \<le> n \<and>
    (\<forall>(i, k) \<in> set (have_blocks c n h). chain_block_at c i = Some k \<and> i \<le> h)"
proof (induction n arbitrary: h)
  case (Suc n)
  show ?case
  proof (cases "Option.bind (level_at_height c h) block_header_in_main_chain")
    case (Some x)
    then obtain l where "level_at_height c h = Some l" "block_header_in_main_chain l = Some x"
      by (auto simp: bind_eq_Some_conv)
    from main_header_at [OF assms this] have x: "hd_height x = h" "chain_block_at c h = Some (hd_hash x)" by auto
    have "\<forall>(i, k) \<in> set (have_blocks c n (sat_sub h 1)). chain_block_at c i = Some k \<and> i \<le> h"
      using Suc.IH [of "sat_sub h 1"] order_trans [OF _ sat_sub_le [of h 1]] by blast
    with Suc.IH [of "sat_sub h 1"] x show ?thesis by (simp add: Some)
  qed simp
qed simp

lemma replace_older_main:
  assumes "levels_wf c" "xs \<noteq> []" "\<forall>(i, k) \<in> set xs. chain_block_at c i = Some k \<and> i \<le> t"
  shows "\<exists>ys. replace_older c t n k xs = Ok ys \<and> length ys = length xs
    \<and> (\<forall>(i, k) \<in> set ys. chain_block_at c i = Some k \<and> i \<le> t)"
  using assms
proof (induction c t n k xs rule: replace_older.induct)
  case (1 c t n k xs)
  let ?o = "if unat t < n then None
            else Option.bind (level_at_height c (t - of_nat n)) block_header_in_main_chain"
  show ?case
  proof (cases "100 < n")
    case False
    with "1.prems" show ?thesis by (simp add: replace_older.simps [of c t n])
  next
    case True
    show ?thesis
    proof (cases ?o)
      case None
      from "1.IH"(1) [OF True None "1.prems"] True None show ?thesis
        by (simp add: replace_older.simps [of c t n k xs])
    next
      case (Some x)
      then obtain l where l: "\<not> unat t < n" "level_at_height c (t - of_nat n) = Some l"
        "block_header_in_main_chain l = Some x"
        by (auto simp: bind_eq_Some_conv split: if_splits)
      have x: "chain_block_at c (t - of_nat n) = Some (hd_hash x)"
        using main_header_at [OF "1.prems"(1) l(2,3)] by simp
      have nt: "n < 2 ^ 64" using l(1) unsigned_less [of t, where ?'a = nat] by simp
      then have "unat (of_nat n :: u64) = n" by (simp add: unsigned_of_nat take_bit_nat_eq_self)
      then have le: "t - of_nat n \<le> t"
        using l(1) by (simp add: word_le_nat_alt unat_sub)
      let ?i = "length xs - k - 1"
      let ?xs = "xs[?i := (t - of_nat n, hd_hash x)]"
      have i: "?i < length xs" using "1.prems"(2) by (cases xs) auto
      have "\<forall>(i, k) \<in> set ?xs. chain_block_at c i = Some k \<and> i \<le> t"
        using "1.prems"(3) x le set_update_subset_insert [of xs ?i "(t - of_nat n, hd_hash x)"] by fastforce
      moreover have "?xs \<noteq> []" using "1.prems"(2) by simp
      ultimately show ?thesis
        using "1.IH"(2) [OF True Some refl i "1.prems"(1)] i True Some
        by (simp add: replace_older.simps [of c t n k xs] Let_def)
    qed
  qed
qed

text \<open>The blocks listed for a catch-up request are at most as many as asked for, all on the
  main chain and not above the tip, and building the list never fails for a positive size.\<close>

theorem catchup_blocks_on_main_chain:
  assumes "levels_wf (sc_p2_chain s)" "0 < n"
  shows "\<exists>xs. create_catchup_sync_blocks s n = Ok xs \<and> length xs \<le> n
    \<and> (\<forall>(h, k) \<in> set xs. chain_block_at (sc_p2_chain s) h = Some k \<and> h \<le> tip_height s)"
proof (cases "get_tip (sc_p2_chain s)")
  case (Some tip)
  let ?c = "sc_p2_chain s" and ?xs = "have_blocks (sc_p2_chain s) n (lv_height tip)"
  have t: "tip_height s = lv_height tip" using Some by (simp add: tip_height_def get_height_def)
  note h = have_blocks_main [OF assms(1), of n "lv_height tip"]
  show ?thesis
  proof (cases "length ?xs < n")
    case False
    then have "?xs \<noteq> []" using assms(2) by auto
    from replace_older_main [OF assms(1) this, of "lv_height tip" 4196 0] h
    show ?thesis using Some t False by (auto simp: create_catchup_sync_blocks_def Let_def)
  qed (use Some t h in \<open>auto simp: create_catchup_sync_blocks_def Let_def\<close>)
qed (simp add: create_catchup_sync_blocks_def)

theorem catchup_blocks_on_main_chain_witness:
  "\<exists>xs. create_catchup_sync_blocks (demo_share demo_fork) 5 = Ok xs \<and> length xs \<le> 5
    \<and> (\<forall>(h, k) \<in> set xs. chain_block_at demo_fork h = Some k \<and> h \<le> tip_height (demo_share demo_fork))"
  using catchup_blocks_on_main_chain [of "demo_share demo_fork" 5] chain_wf_demo_fork
  by (simp add: chain_wf_def)

text \<open>The levels a page covers.\<close>

fun consecutive :: "'l p2chain \<Rightarrow> p2chain_level list \<Rightarrow> bool" where
  "consecutive c (l # l' # ls) \<longleftrightarrow>
     level_at_height c (lv_height l + 1) = Some l' \<and> consecutive c (l' # ls)"
| "consecutive c _ \<longleftrightarrow> True"

definition page_spec :: "'l p2chain \<Rightarrow> nat \<Rightarrow> bool \<Rightarrow> nat \<Rightarrow> p2chain_level list \<Rightarrow> bool" where
  "page_spec c page_size mc n ls \<longleftrightarrow> ls \<noteq> [] \<and> consecutive c ls
     \<and> n + (\<Sum>l\<leftarrow>butlast ls. snd (page_blocks c mc l)) \<le> page_size
     \<and> (page_size < n + (\<Sum>l\<leftarrow>ls. snd (page_blocks c mc l))
        \<or> level_at_height c (lv_height (last ls) + 1) = None)"

lemma page_loop_Ok:
  assumes "page_loop c fuel page_size mc level n res = Ok r" "n \<le> page_size"
  shows "\<exists>ls. page_spec c page_size mc n (level # ls)
    \<and> r = res @ concat (map (\<lambda>l. fst (page_blocks c mc l)) (level # ls))"
  using assms
proof (induction fuel arbitrary: level n res)
  case (Suc fuel)
  obtain bs k where p: "page_blocks c mc level = (bs, k)" by (cases "page_blocks c mc level")
  show ?case
  proof (cases "page_size < n + k")
    case True
    with Suc.prems p show ?thesis
      by (intro exI [of _ "[]"]) (simp add: page_spec_def)
  next
    case False
    then obtain h where h: "add_chk (lv_height level) 1 = (Ok h :: u64 sc_result)"
      and rest: "(case level_at_height c h of Some nl \<Rightarrow> page_loop c fuel page_size mc nl (n + k) (res @ bs)
           | None \<Rightarrow> Ok (res @ bs)) = Ok r"
      using Suc.prems(1) p by (auto simp: Let_def)
    have h': "h = lv_height level + 1" using add_chk_Ok [OF h] by simp
    show ?thesis
    proof (cases "level_at_height c h")
      case None
      with rest False p h' Suc.prems(2) show ?thesis
        by (intro exI [of _ "[]"]) (simp add: page_spec_def)
    next
      case (Some nl)
      with rest have "page_loop c fuel page_size mc nl (n + k) (res @ bs) = Ok r" by simp
      from Suc.IH [OF this] False obtain ls where ls: "page_spec c page_size mc (n + k) (nl # ls)"
        "r = (res @ bs) @ concat (map (\<lambda>l. fst (page_blocks c mc l)) (nl # ls))" by auto
      have "page_spec c page_size mc n (level # nl # ls)"
        using ls(1) p Some h' unfolding page_spec_def by (auto simp: add.assoc)
      with ls(2) p show ?thesis by (intro exI [of _ "nl # ls"]) simp
    qed
  qed
qed simp

lemma finite_levels: "finite {i. level_at_height c i \<noteq> None}"
proof -
  have "{i. level_at_height c i \<noteq> None} = set (map fst (ch_levels c))"
    unfolding level_at_height_def by (simp add: map_of_eq_None_iff del: not_None_eq)
  then show ?thesis by simp
qed

lemma page_loop_returns:
  assumes "levels_wf c" "level_at_height c (lv_height level) = Some level"
    and "card {i. level_at_height c i \<noteq> None \<and> lv_height level < i} < fuel"
  shows "page_loop c fuel page_size mc level n res \<noteq> Diverge"
  using assms(2,3)
proof (induction fuel arbitrary: level n res)
  case (Suc fuel)
  obtain bs k where p: "page_blocks c mc level = (bs, k)" by (cases "page_blocks c mc level")
  have "page_loop c fuel page_size mc nl (n + k) (res @ bs) \<noteq> Diverge"
    if h: "add_chk (lv_height level) 1 = (Ok h :: u64 sc_result)" and nl: "level_at_height c h = Some nl" for h nl
  proof -
    have hn: "lv_height nl = h" using levels_wfD [OF assms(1) nl] by simp
    have lt: "lv_height level < h" using add_chk_unat [OF h] by (simp add: word_less_nat_alt)
    have fin: "finite {i. level_at_height c i \<noteq> None \<and> lv_height level < i}"
      by (rule finite_subset [OF _ finite_levels]) auto
    have "{i. level_at_height c i \<noteq> None \<and> lv_height nl < i}
        \<subset> {i. level_at_height c i \<noteq> None \<and> lv_height level < i}"
      using lt hn nl by auto
    then have "card {i. level_at_height c i \<noteq> None \<and> lv_height nl < i}
        < card {i. level_at_height c i \<noteq> None \<and> lv_height level < i}"
      by (rule psubset_card_mono [OF fin])
    with Suc.prems nl hn show ?thesis by (intro Suc.IH) simp_all
  qed
  then show ?case
    by (auto simp: p Let_def bindO_eq_Diverge split: option.splits)
qed simp

text \<open>A page of blocks is the concatenation of the blocks of consecutive levels, ending with
  the first level at which more than the page size was counted, and never an error.\<close>

theorem all_blocks_pages:
  assumes "levels_wf c"
  shows "(case all_blocks_with_lock c start page_size mc of
      Ok bs \<Rightarrow> bs = [] \<or> (\<exists>ls. page_spec c page_size mc 0 ls
        \<and> bs = concat (map (\<lambda>l. fst (page_blocks c mc l)) ls))
    | Err err \<Rightarrow> False | Panic \<Rightarrow> True | Diverge \<Rightarrow> False)"
proof -
  define h where "h = (let lowest = opt_or (lowest_chain_level_height c) 0 in
      opt_or (if opt_or start 0 < lowest then Some lowest else start) 0)"
  have eq: "all_blocks_with_lock c start page_size mc =
      (case level_at_height c h of None \<Rightarrow> Ok []
       | Some level \<Rightarrow> page_loop c (Suc (length (ch_levels c))) page_size mc level 0 [])"
    by (simp add: all_blocks_with_lock_def h_def Let_def del: page_loop.simps)
  have err: "page_loop c n page_size mc l k r \<noteq> Err x" for n l k r x
    by (induction n arbitrary: l k r) (auto simp: Let_def bindO_eq_Err split: prod.splits option.splits)
  show ?thesis
  proof (cases "level_at_height c h")
    case (Some l)
    have lh: "lv_height l = h" using levels_wfD [OF assms Some] by simp
    have "card {i. level_at_height c i \<noteq> None \<and> lv_height l < i} \<le> card {i. level_at_height c i \<noteq> None}"
      by (rule card_mono [OF finite_levels]) auto
    also have "\<dots> = length (ch_levels c)" by (rule levels_count [OF assms, symmetric])
    finally have fuel: "card {i. level_at_height c i \<noteq> None \<and> lv_height l < i} < Suc (length (ch_levels c))"
      by simp
    have "level_at_height c (lv_height l) = Some l" using Some lh by simp
    note ret = page_loop_returns [OF assms this fuel, of page_size mc 0 "[]"]
    show ?thesis
    proof (cases "page_loop c (Suc (length (ch_levels c))) page_size mc l 0 []")
      case (Ok r)
      from page_loop_Ok [OF Ok] Ok show ?thesis
        unfolding eq Some by (auto simp del: page_loop.simps)
    qed (use ret err eq Some in \<open>auto simp del: page_loop.simps\<close>)
  qed (simp add: eq)
qed

theorem all_blocks_pages_witness:
  "case all_blocks_with_lock demo_fork None 1 True of
     Ok bs \<Rightarrow> bs = [] \<or> (\<exists>ls. page_spec demo_fork 1 True 0 ls
        \<and> bs = concat (map (\<lambda>l. fst (page_blocks demo_fork True l)) ls))
   | Err err \<Rightarrow> False | Panic \<Rightarrow> True | Diverge \<Rightarrow> False"
  by (rule all_blocks_pages [OF chain_wf_levels [OF chain_wf_demo_fork]])



end
