(* ===== verification/ChainSettings.thy ===== *)
theory ChainSettings
  imports ShareCorrect
begin

text \<open>
  What a share chain is configured with: its algorithm, sizes, minimum difficulties and the
  checks it leaves out. No operation changes any of it, so what a node is started with holds
  for as long as it runs.
\<close>

definition chain_settings where
  "chain_settings c = (ch_algo c, ch_block_time c, ch_total_size c, ch_share_window c,
     ch_minimum_randomx_target_difficulty c, ch_minimum_sha3_target_difficulty c,
     ch_bypass_checks c, ch_params c)"

definition share_settings where
  "share_settings s = (chain_settings (sc_p2_chain s), sc_pow_algo s, sc_params s, sc_config s, sc_squad s,
     sc_minimum_randomx_target_difficulty s, sc_minimum_sha3_target_difficulty s, sc_bypass_checks s)"

section \<open>Operations of the chain\<close>

named_theorems settings_intros

lemma settings_update [simp]:
  "chain_settings (c\<lparr>ch_block_cache := x1\<rparr>) = chain_settings c"
  "chain_settings (c\<lparr>ch_cached_shares := x2\<rparr>) = chain_settings c"
  "chain_settings (c\<lparr>ch_current_tip := x3\<rparr>) = chain_settings c"
  "chain_settings (c\<lparr>ch_lwma := x4\<rparr>) = chain_settings c"
  "chain_settings (c\<lparr>ch_levels := x5\<rparr>) = chain_settings c"
  "chain_settings (put_level h l c) = chain_settings c"
  "chain_settings (remove_level h c) = chain_settings c"
  by (simp_all add: chain_settings_def put_level_def remove_level_def split: option.split)

definition kept :: "'l p2chain \<Rightarrow> 'l p2chain \<Rightarrow> bool" where
  "kept c c' \<longleftrightarrow> chain_settings c' = chain_settings c"

lemma kept_simps [simp]:
  "kept c c"
  "kept c (c'\<lparr>ch_block_cache := x1\<rparr>) \<longleftrightarrow> kept c c'"
  "kept c (c'\<lparr>ch_cached_shares := x2\<rparr>) \<longleftrightarrow> kept c c'"
  "kept c (c'\<lparr>ch_current_tip := x3\<rparr>) \<longleftrightarrow> kept c c'"
  "kept c (c'\<lparr>ch_lwma := x4\<rparr>) \<longleftrightarrow> kept c c'"
  "kept c (put_level h l c') \<longleftrightarrow> kept c c'"
  "kept c (remove_level h c') \<longleftrightarrow> kept c c'"
  by (simp_all add: kept_def)

lemma kept_bindS:
  "kept c (fst m) \<Longrightarrow> (\<And>s x. kept c s \<Longrightarrow> kept c (fst (f s x))) \<Longrightarrow> kept c (fst (bindS m f))"
  by (rule bindS_preserves [where P = "kept c"])

lemma kept_cleanup_loop: "kept c c' \<Longrightarrow> kept c (fst (cleanup_loop limit keys c'))"
  by (induction limit keys c' rule: cleanup_loop.induct) simp_all

lemma kept_set_new_tip: "kept c c' \<Longrightarrow> kept c (fst (set_new_tip e c' h k))"
  unfolding set_new_tip_def cleanup_chain_def Let_def
  by (intro kept_bindS kept_cleanup_loop) simp_all

lemma kept_clear_above: "kept c c' \<Longrightarrow> kept c (fst (clear_above c' h))"
proof (induction c' h rule: clear_above.induct)
  case (1 c' h)
  then show ?case
    by (cases "level_at_height c' (sat_add h 1)"; cases "add_chk h 1 :: u64 sc_result")
      (simp_all add: clear_above.simps [of c' h])
qed

lemma kept_relink: "kept c c' \<Longrightarrow> kept c (fst (relink e c' n b lwma))"
proof (induction e c' n b lwma rule: relink.induct)
  case (1 e c' n b lwma)
  show ?case
  proof (cases "level_at_height c' (sat_sub (hd_height b) 1)")
    case (Some l)
    show ?thesis
    proof (cases "add_chk n 1 :: u64 sc_result")
      case (Ok m)
      show ?thesis using 1 Some Ok
        by (cases "level_get_header l (hd_prev_hash b)")
          (auto simp: relink.simps [of e c' n b lwma] Let_def)
    qed (use 1 Some in \<open>simp_all add: relink.simps [of e c' n b lwma]\<close>)
  qed (use 1 in \<open>simp add: relink.simps [of e c' n b lwma]\<close>)
qed

lemma kept_reorg: "kept c c' \<Longrightarrow> kept c (fst (reorg e c' b))"
  unfolding reorg_def Let_def
  by (intro kept_bindS kept_clear_above kept_relink) simp_all

lemma kept_add_block_at: "kept c c' \<Longrightarrow> kept c (fst (add_block_at h b c'))"
  unfolding add_block_at_def by (intro kept_bindS) (auto split: prod.split)

lemma kept_verify_block: "kept c c' \<Longrightarrow> kept c (fst (verify_block e c' k h))"
  using verify_block_cases [of e c' k h] by (auto intro: kept_add_block_at)

lemma kept_with_next: "kept c c' \<Longrightarrow> kept c (fst (with_next c' h k r))"
  by simp

lemma kept_search: "kept c c' \<Longrightarrow> (\<And>x y. kept c (fst (f x y))) \<Longrightarrow> kept c (fst (case p of (x, y) \<Rightarrow> f x y))"
  by (cases p) simp

lemma kept_inner: "kept c c' \<Longrightarrow> kept c (fst (verify_chain_inner e c' h k))"
proof -
  have reorg: "kept c (fst (try_reorg e s h k b r))" if "kept c s" for s b r
    unfolding try_reorg_def using that
    by (intro kept_bindS kept_search kept_reorg kept_with_next) (auto intro!: kept_bindS kept_reorg)
  have extend: "kept c (fst (extend_tip e s h k b r))" if "kept c s" for s b r
    unfolding extend_tip_def using that by (intro kept_bindS kept_set_new_tip kept_with_next) simp_all
  assume c': "kept c c'"
  show ?thesis
    unfolding verify_chain_inner_def
    by (intro kept_bindS) (auto simp: c' intro!: kept_bindS kept_set_new_tip kept_verify_block reorg extend)
qed

lemma kept_loop: "kept c c' \<Longrightarrow> kept c (fst (verify_chain_loop e n c' q ps acc))"
proof (induction e n c' q ps acc rule: verify_chain_loop.induct)
  case (3 e n c' q qs ps acc)
  show ?case
    unfolding verify_chain_loop.simps
    by (rule bindS_preserves [where P = "kept c"])
      (use 3 in \<open>auto simp: Let_def kept_inner split: prod.splits\<close>)
qed simp_all

lemma kept_add_block: "kept c c' \<Longrightarrow> kept c (fst (add_block_to_chain e c' b))"
proof -
  have verify: "kept c s \<Longrightarrow> kept c (fst (verify_chain e s h k))" for s h k
    unfolding verify_chain_def by (rule kept_loop)
  assume "kept c c'"
  then show ?thesis
    by (auto simp: add_block_to_chain_def add_block_inner_def Let_def split: prod.split option.split
        intro!: verify kept_bindS kept_add_block_at)
qed

lemma kept_load: "kept c c' \<Longrightarrow> load_loop e sq d bs c' = Ok c'' \<Longrightarrow> kept c c''"
proof (induction e sq d bs c' rule: load_loop.induct)
  case (2 e sq d b bs c')
  have "kept c (fst (add_block_to_chain e c' b))" using 2 by (intro kept_add_block)
  with 2 show ?case by (auto split: if_splits prod.splits outcome.splits)
qed simp

section \<open>Operations of the service\<close>

lemma share_settings_update [simp]:
  "share_settings (s\<lparr>sc_coinbase_extras := x\<rparr>) = share_settings s"
  "share_settings (s\<lparr>sc_p2_chain := c\<rparr>) = share_settings s \<longleftrightarrow> chain_settings c = chain_settings (sc_p2_chain s)"
  by (auto simp: share_settings_def)

definition same_settings :: "'l share_chain \<Rightarrow> 'l share_chain \<Rightarrow> bool" where
  "same_settings s s' \<longleftrightarrow> share_settings s' = share_settings s"

lemma same_settings_simps [simp]:
  "same_settings s s"
  "same_settings s (s'\<lparr>sc_coinbase_extras := x\<rparr>) \<longleftrightarrow> same_settings s s'"
  by (simp_all add: same_settings_def)

lemma same_settings_chain: "same_settings s s' \<Longrightarrow> kept (sc_p2_chain s') c \<Longrightarrow> same_settings s (s'\<lparr>sc_p2_chain := c\<rparr>)"
  by (simp add: same_settings_def kept_def share_settings_def)

lemma settings_bindS:
  "same_settings s (fst m) \<Longrightarrow> (\<And>s' x. same_settings s s' \<Longrightarrow> same_settings s (fst (f s' x)))
     \<Longrightarrow> same_settings s (fst (bindS m f))"
  by (rule bindS_preserves [where P = "same_settings s"])

lemma settings_with_lock:
  assumes "same_settings s s'" shows "same_settings s (fst (submit_block_with_lock e t t' s' b p y))"
proof -
  have "same_settings s (fst (case add_block_to_chain e (sc_p2_chain u) b' of
      (c, r) \<Rightarrow> bindS (u\<lparr>sc_p2_chain := c\<rparr>, r) (\<lambda>v x. (v\<lparr>sc_coinbase_extras := g v\<rparr>, Ok x))))"
    if "same_settings s u" for u b' g
    using kept_add_block [of "sc_p2_chain u" "sc_p2_chain u" e b'] that
    by (auto split: prod.split intro!: settings_bindS same_settings_chain)
  with assms show ?thesis
    unfolding submit_block_with_lock_def Let_def
    by (auto split: option.split intro!: settings_bindS)
qed

lemma settings_synced_loop: "same_settings s s' \<Longrightarrow> same_settings s (fst (synced_loop e t t' known bs r s'))"
proof (induction e t t' known bs r s' rule: synced_loop.induct)
  case (2 e t t' known b bs r s')
  then show ?case
    by (auto intro!: bindS_preserves [where P = "same_settings s"] settings_with_lock split: prod.splits)
qed simp

lemma settings_add_synced: "share_settings (fst (add_synced_blocks e li t t' s bs)) = share_settings s"
  using settings_synced_loop [of s s] by (simp add: same_settings_def add_synced_blocks_def Let_def)

lemma settings_submit: "share_settings (fst (submit_block e t t' s b)) = share_settings s"
  using settings_with_lock [of s s] by (simp add: same_settings_def submit_block_def)

lemma settings_generate: "share_settings (fst (generate_shares_and_get_target_difficulty e s b solo)) = share_settings s"
proof -
  have "kept (sc_p2_chain s) (fst (if solo then (sc_p2_chain s, Ok []) else shares_before e (sc_p2_chain s) b))"
    using shares_before_chain [of e "sc_p2_chain s" b] by auto
  then have "same_settings s (fst (generate_shares_and_get_target_difficulty e s b solo))"
    by (auto simp: generate_shares_and_get_target_difficulty_def Let_def split: prod.splits
        intro!: settings_bindS same_settings_chain)
  then show ?thesis by (simp add: same_settings_def)
qed

section \<open>What a new chain is configured with\<close>

lemma new_empty_settings:
  "new_empty e a t w bt cache mr ms byp p = Ok c \<Longrightarrow> chain_settings c = (a, bt, t, w, mr, ms, byp, p)"
  by (auto simp: new_empty_def chain_settings_def)

lemma try_load_settings:
  "try_load e ago a t w bt blocks cache sq mr ms byp p = Ok c \<Longrightarrow> chain_settings c = (a, bt, t, w, mr, ms, byp, p)"
  using new_empty_settings kept_load by (fastforce simp: try_load_def kept_def)

lemma share_chain_new_settings:
  assumes "share_chain_new e ago fx config a p extras squad bypass = Ok s"
  shows "sc_bypass_checks s = opt_or bypass vs_new \<and> ch_bypass_checks (sc_p2_chain s) = opt_or bypass vs_new
    \<and> sc_pow_algo s = a \<and> ch_algo (sc_p2_chain s) = a \<and> sc_squad s = squad \<and> sc_config s = config"
proof -
  show ?thesis
    using assms
    by (auto simp: share_chain_new_def Let_def new_chain_def split: if_splits outcome.splits
        dest!: new_empty_settings try_load_settings simp: chain_settings_def)
qed

end
