(* ===== verification/Received.thy ===== *)
theory Received
  imports BlockTree ForkChoice ChainSettings
begin

text \<open>
  A chain that has received a set of blocks: what it has on record of them, which of them it
  has verified, and what the operations of \<open>sharechain/p2chain.rs\<close> do to that record. The
  blocks have no uncles, and the checks a running node leaves out are left out.
\<close>

section \<open>Blocks to be received\<close>

definition block_tree :: "'l ext \<Rightarrow> p2block \<Rightarrow> p2block set \<Rightarrow> bool" where
  "block_tree e g T \<longleftrightarrow> g \<in> T \<and> b_height g = 0 \<and> b_prev_hash g = zero_hash \<and> inj_on b_hash T \<and> zero_hash \<notin> b_hash ` T
     \<and> (\<forall>b\<in>T. b_uncles b = [] \<and> unat (b_height b) + 3 < 2 ^ 64
          \<and> acc_from_u128 e (ucast (b_target_difficulty b)) = Some (ucast (b_target_difficulty b))
          \<and> acc_from_u128 e (b_total_pow b) = Some (b_total_pow b))
     \<and> b_total_pow g = ucast (b_target_difficulty g)
     \<and> (\<forall>b\<in>T - {g}. 0 < b_target_difficulty b
          \<and> (\<exists>p\<in>T. is_parent p b \<and> unat (b_total_pow b) = unat (b_total_pow p) + unat (b_target_difficulty b)))"

text \<open>The checks a running node leaves out, and a chain with room for the blocks.\<close>

definition checks_off :: "verified_status \<Rightarrow> bool" where
  "checks_off s \<longleftrightarrow> has_difficulty_verified s \<and> has_target_difficulty_verified s
     \<and> has_median_timestamp s \<and> has_correct_shares s"

definition roomy :: "'l ext \<Rightarrow> p2block set \<Rightarrow> 'l p2chain \<Rightarrow> bool" where
  "roomy e T c \<longleftrightarrow> lwma_new e DIFFICULTY_ADJUSTMENT_WINDOW (ch_block_time c) \<noteq> None
     \<and> checks_off (ch_bypass_checks c) \<and> (\<exists>limit. chain_limit c = Ok limit)
     \<and> (\<forall>b\<in>T. unat (b_height b) < unat (ch_total_size c) + 2020)"

lemma roomy_settings: "chain_settings c' = chain_settings c \<Longrightarrow> roomy e T c' = roomy e T c"
  by (simp add: roomy_def chain_settings_def chain_limit_def)

lemma treeD:
  assumes "block_tree e g T"
  shows "g \<in> T" "b_height g = 0" "inj_on b_hash T" "b_total_pow g = ucast (b_target_difficulty g)"
    "b_prev_hash g = zero_hash"
    and "b \<in> T \<Longrightarrow> b_hash b \<noteq> zero_hash" "b \<in> T \<Longrightarrow> b_uncles b = []"
    and "b \<in> T \<Longrightarrow> unat (b_height b) + 3 < 2 ^ 64"
    and "b \<in> T \<Longrightarrow> acc_from_u128 e (ucast (b_target_difficulty b)) = Some (ucast (b_target_difficulty b))"
    and "b \<in> T \<Longrightarrow> acc_from_u128 e (b_total_pow b) = Some (b_total_pow b)"
    and "b \<in> T \<Longrightarrow> b \<noteq> g \<Longrightarrow> 0 < b_target_difficulty b"
    and "b \<in> T \<Longrightarrow> b \<noteq> g \<Longrightarrow>
      \<exists>p\<in>T. is_parent p b \<and> unat (b_total_pow b) = unat (b_total_pow p) + unat (b_target_difficulty b)"
  using assms unfolding block_tree_def by (blast | force)+

lemma tree_height_0:
  assumes "block_tree e g T" "b \<in> T" shows "b_height b = 0 \<longleftrightarrow> b = g"
proof
  assume h: "b_height b = 0"
  show "b = g"
  proof (rule ccontr)
    assume "b \<noteq> g"
    with treeD(12) [OF assms] h show False by (auto simp: is_parent_def)
  qed
qed (use treeD(2) [OF assms(1)] in simp)

lemma tree_parent_work:
  assumes "block_tree e g T" "b \<in> T" "p \<in> T" "is_parent p b"
  shows "unat (b_total_pow b) = unat (b_total_pow p) + unat (b_target_difficulty b)"
    and "b_total_pow p < b_total_pow b"
proof -
  have "b \<noteq> g" using assms(4) treeD(2) [OF assms(1)] by (auto simp: is_parent_def)
  with treeD(12) [OF assms(1,2)] parent_unique [OF treeD(3) [OF assms(1)] _ assms(3) _ assms(4)]
  show *: "unat (b_total_pow b) = unat (b_total_pow p) + unat (b_target_difficulty b)" by metis
  from treeD(11) [OF assms(1,2) \<open>b \<noteq> g\<close>] have "0 < unat (b_target_difficulty b)"
    by (simp add: word_less_nat_alt)
  with * show "b_total_pow p < b_total_pow b" by (simp add: word_less_nat_alt)
qed

lemma parent_height: "is_parent p b \<Longrightarrow> sat_sub (b_height b) 1 = b_height p \<and> b_height b \<noteq> 0"
  by (auto simp: is_parent_def word_unat_eq_iff)

section \<open>The record\<close>

definition record_of :: "(fixed_hash \<Rightarrow> verified_status) \<Rightarrow> p2block \<Rightarrow> p2block" where
  "record_of v b = b\<lparr>b_verified := v (b_hash b)\<rparr>"

lemma record_of_simps [simp]:
  "b_hash (record_of v b) = b_hash b" "b_height (record_of v b) = b_height b"
  "b_prev_hash (record_of v b) = b_prev_hash b" "b_uncles (record_of v b) = b_uncles b"
  "b_total_pow (record_of v b) = b_total_pow b" "b_verified (record_of v b) = v (b_hash b)"
  "b_target_difficulty (record_of v b) = b_target_difficulty b"
  "b_timestamp (record_of v b) = b_timestamp b"
  by (simp_all add: record_of_def)

text \<open>\<open>v\<close> is the status of each block, by its hash.\<close>

definition stored :: "p2block set \<Rightarrow> (fixed_hash \<Rightarrow> verified_status) \<Rightarrow> 'l p2chain \<Rightarrow> bool" where
  "stored R v c \<longleftrightarrow> chain_wf c
     \<and> (\<forall>h k x. get_block_header_at_height c h k = Some x \<longleftrightarrow>
          (\<exists>b\<in>R. b_height b = h \<and> b_hash b = k \<and> x = header_of (record_of v b)))
     \<and> (\<forall>k x. cache_get (ch_block_cache c) k = Some x \<longleftrightarrow> (\<exists>b\<in>R. b_hash b = k \<and> x = record_of v b))
     \<and> (\<forall>h. level_at_height c h \<noteq> None \<longleftrightarrow> (\<exists>b\<in>R. b_height b = h))"

lemma storedD:
  assumes "stored R v c"
  shows "chain_wf c" "levels_wf c"
    and "get_block_header_at_height c h k = Some x \<longleftrightarrow>
          (\<exists>b\<in>R. b_height b = h \<and> b_hash b = k \<and> x = header_of (record_of v b))"
    and "cache_get (ch_block_cache c) k = Some y \<longleftrightarrow> (\<exists>b\<in>R. b_hash b = k \<and> y = record_of v b)"
    and "level_at_height c h \<noteq> None \<longleftrightarrow> (\<exists>b\<in>R. b_height b = h)"
  using assms [unfolded stored_def] by (simp_all add: chain_wf_levels)

lemma stored_same:
  assumes "stored R v c" "chain_wf c'" "same_headers c c'" "ch_block_cache c' = ch_block_cache c"
  shows "stored R v c'"
proof -
  have "level_at_height c' h \<noteq> None \<longleftrightarrow> level_at_height c h \<noteq> None" for h
    using assms(3) by (simp add: same_headers_def)
  with assms show ?thesis by (simp add: stored_def same_headers_def)
qed

lemma stored_header:
  assumes "stored R v c" "b \<in> R"
  shows "get_block_header_at_height c (b_height b) (b_hash b) = Some (header_of (record_of v b))"
  using storedD(3) [OF assms(1)] assms(2) by blast

lemma stored_level:
  assumes "stored R v c" "b \<in> R"
  obtains l where "level_at_height c (b_height b) = Some l"
    "level_get_header l (b_hash b) = Some (header_of (record_of v b))" "lv_height l = b_height b" "level_wf l"
proof -
  obtain l where l: "level_at_height c (b_height b) = Some l"
    "level_get_header l (b_hash b) = Some (header_of (record_of v b))"
    using stored_header [OF assms] by (auto simp: get_block_header_at_height_def bind_eq_Some_conv)
  with levels_wfD [OF storedD(2) [OF assms(1)] l(1)] that show ?thesis by simp
qed

lemma stored_get:
  assumes "stored R v c" "b \<in> R"
  shows "cache_get (ch_block_cache c) (b_hash b) = Some (record_of v b)"
    and "get_block_at_height c (b_height b) (b_hash b) = Some (record_of v b)"
proof -
  show *: "cache_get (ch_block_cache c) (b_hash b) = Some (record_of v b)"
    using storedD(4) [OF assms(1)] assms(2) by blast
  obtain l where "level_at_height c (b_height b) = Some l" using stored_level [OF assms] by blast
  with * show "get_block_at_height c (b_height b) (b_hash b) = Some (record_of v b)"
    by (simp add: get_block_at_height_def level_get_def)
qed

lemma stored_exists:
  assumes "stored R v c"
  shows "block_exists c h k \<longleftrightarrow> (\<exists>b\<in>R. b_height b = h \<and> b_hash b = k)"
proof -
  have "block_exists c h k \<longleftrightarrow> (\<exists>x. get_block_header_at_height c h k = Some x)"
    by (auto simp: block_exists_alt get_block_header_at_height_def level_contains_iff bind_eq_Some_conv)
  with storedD(3) [OF assms] show ?thesis by auto
qed

lemma stored_parent_exists:
  assumes "stored R v c" "b_height b \<noteq> 0"
  shows "block_exists c (sat_sub (b_height b) 1) (b_prev_hash b) \<longleftrightarrow> (\<exists>p\<in>R. is_parent p b)"
proof -
  have "0 < unat (b_height b)" using assms(2) by (simp add: unat_gt_0)
  then have "b_height p = sat_sub (b_height b) 1 \<longleftrightarrow> unat (b_height b) = Suc (unat (b_height p))" for p
    by (simp add: word_unat_eq_iff) arith
  then have "(\<exists>p\<in>R. b_height p = sat_sub (b_height b) 1 \<and> b_hash p = b_prev_hash b) \<longleftrightarrow> (\<exists>p\<in>R. is_parent p b)"
    unfolding is_parent_def by metis
  then show ?thesis by (simp add: stored_exists [OF assms(1)])
qed

lemma stored_lookups:
  assumes "stored R v c" "b \<in> R" "b_uncles b = []"
  shows "get_parent_of c (b_height b) (b_hash b) = Some (b_prev_hash b)"
    and "get_uncles c (b_height b) (b_hash b) = Ok []"
proof -
  obtain l where "level_at_height c (b_height b) = Some l"
    "level_get_header l (b_hash b) = Some (header_of (record_of v b))" using stored_level [OF assms(1,2)] by blast
  with assms(3) show "get_parent_of c (b_height b) (b_hash b) = Some (b_prev_hash b)"
    "get_uncles c (b_height b) (b_hash b) = Ok []"
    by (simp_all add: get_parent_of_def level_get_prev_hash_def level_get_header_def get_uncles_def
        level_get_uncles_def)
qed

text \<open>The number of levels stays within the limit, so nothing is cleaned up.\<close>

lemma stored_no_cleanup:
  assumes "stored R v c" "R \<subseteq> T" "roomy e T c"
  shows "cleanup_chain c = (c, Ok ())"
proof -
  obtain limit where limit: "chain_limit c = Ok limit" using assms(3) by (auto simp: roomy_def)
  have ok: "hm_ok (ch_levels c)" using storedD(2) [OF assms(1)] by (simp add: levels_wf_def)
  have "unat ` fst ` set (ch_levels c) \<subseteq> {..<unat (ch_total_size c) + 2020}"
  proof -
    have "unat h < unat (ch_total_size c) + 2020" if "h \<in> fst ` set (ch_levels c)" for h
    proof -
      have "level_at_height c h \<noteq> None" using that by (simp add: level_at_height_def map_of_eq_None_iff)
      then obtain b where "b \<in> R" "b_height b = h" using storedD(5) [OF assms(1)] by auto
      with assms(2,3) show ?thesis by (auto simp: roomy_def)
    qed
    then show ?thesis by auto
  qed
  then have "card (unat ` fst ` set (ch_levels c)) \<le> unat (ch_total_size c) + 2020"
    using card_mono [of "{..<unat (ch_total_size c) + 2020}"] by (metis card_lessThan finite_lessThan)
  moreover have "card (unat ` fst ` set (ch_levels c)) = length (ch_levels c)"
  proof -
    have "card (unat ` fst ` set (ch_levels c)) = card (fst ` set (ch_levels c))"
      by (rule card_image) (simp add: inj_on_def word_unat_eq_iff)
    also have "\<dots> = length (ch_levels c)"
      using ok distinct_card [of "hm_keys (ch_levels c)"] by (simp add: hm_ok_def)
    finally show ?thesis .
  qed
  ultimately have "dropped_levels c (unat limit) = []"
    by (simp add: dropped_levels_def chain_limit_Ok [OF limit])
  with limit show ?thesis by (simp add: cleanup_chain_eq [OF storedD(2) [OF assms(1)]])
qed

end
