(* ===== verification/Arrival.thy ===== *)
theory Arrival
  imports Received
begin

text \<open>
  What the operations of \<open>sharechain/p2chain.rs\<close> do to the record of a chain: filing a
  block, verifying it, moving the tip to it, and looking for its children.
\<close>

section \<open>Filing a block\<close>

definition children :: "p2block set \<Rightarrow> p2block \<Rightarrow> p2block set" where
  "children R x = {b \<in> R. is_parent x b}"

text \<open>The parent of a block is on record, or it has none.\<close>

definition good :: "p2block \<Rightarrow> p2block set \<Rightarrow> p2block \<Rightarrow> bool" where
  "good g R b \<longleftrightarrow> b = g \<or> (\<exists>p\<in>R. is_parent p b)"

lemma rooted_good: "rooted g R b \<Longrightarrow> good g R b"
  by (auto simp: good_def dest: rooted_parent rooted_mem)

lemma record_of_upd:
  "record_of (v(k := s)) b = (if b_hash b = k then b\<lparr>b_verified := s\<rparr> else record_of v b)"
  by (simp add: record_of_def)

lemma stored_extend:
  assumes "stored R v c" "inj_on b_hash T" "R \<subseteq> T" "b \<in> T" "chain_wf c'"
    and h: "\<And>h k. get_block_header_at_height c' h k =
      (if h = b_height b \<and> k = b_hash b then Some (header_of (b\<lparr>b_verified := s\<rparr>)) else get_block_header_at_height c h k)"
    and "\<And>k. cache_get (ch_block_cache c') k = (if k = b_hash b then Some (b\<lparr>b_verified := s\<rparr>) else cache_get (ch_block_cache c) k)"
    and "\<And>h. level_at_height c' h \<noteq> None \<longleftrightarrow> h = b_height b \<or> level_at_height c h \<noteq> None"
  shows "stored (insert b R) (v(b_hash b := s)) c'"
proof -
  have same: "b_hash a = b_hash b \<longleftrightarrow> a = b" if "a \<in> R" for a
    using that assms(2-4) by (auto dest: inj_onD)
  have "get_block_header_at_height c' h k = Some x \<longleftrightarrow>
      (\<exists>a\<in>insert b R. b_height a = h \<and> b_hash a = k \<and> x = header_of (record_of (v(b_hash b := s)) a))" for h k x
    using same by (auto simp: h storedD(3) [OF assms(1)] record_of_upd split: if_splits)
  moreover have "cache_get (ch_block_cache c') k = Some x \<longleftrightarrow>
      (\<exists>a\<in>insert b R. b_hash a = k \<and> x = record_of (v(b_hash b := s)) a)" for k x
    using same by (auto simp: assms(7) storedD(4) [OF assms(1)] record_of_upd split: if_splits)
  moreover have "level_at_height c' h \<noteq> None \<longleftrightarrow> (\<exists>a\<in>insert b R. b_height a = h)" for h
    using assms(8) storedD(5) [OF assms(1)] by auto
  ultimately show ?thesis using assms(5) by (simp add: stored_def)
qed

lemma stored_add_block_at:
  assumes "stored R v c" "inj_on b_hash T" "R \<subseteq> T" "b \<in> T" "level_at_height c (b_height b) = Some l"
  shows "\<exists>c'. add_block_at (b_height b) (b\<lparr>b_verified := s\<rparr>) c = (c', Ok ()) \<and> stored (insert b R) (v(b_hash b := s)) c'"
proof -
  let ?b = "b\<lparr>b_verified := s\<rparr>"
  let ?l = "l\<lparr>lv_block_headers := hm_insert (b_hash b) (header_of ?b) (lv_block_headers l)\<rparr>"
  let ?c = "(put_level (b_height b) ?l c)\<lparr>ch_block_cache := cache_insert (b_hash b) ?b (ch_block_cache c)\<rparr>"
  have l: "lv_height l = b_height b" using levels_wfD [OF storedD(2) [OF assms(1)] assms(5)] by simp
  have eq: "add_block_at (b_height b) ?b c = (?c, Ok ())"
    using l assms(5) by (simp add: add_block_at_def level_add_block_def)
  have "chain_wf ?c" using add_block_at_wf [OF storedD(1) [OF assms(1)], of "b_height b" ?b] eq by simp
  from stored_extend [OF assms(1-4) this] assms(5)
  have "stored (insert b R) (v(b_hash b := s)) ?c"
    by (auto simp: get_block_header_at_height_def level_get_header_def)
  with eq show ?thesis by blast
qed

lemma stored_new_level:
  assumes "stored R v c" "inj_on b_hash T" "R \<subseteq> T" "b \<in> T" "level_at_height c (b_height b) = None"
    and "level_new (b\<lparr>b_verified := st\<rparr>) (ch_block_cache c) = (l, s)"
  shows "stored (insert b R) (v(b_hash b := st)) ((put_level (b_height b) l c)\<lparr>ch_block_cache := s\<rparr>)"
proof (rule stored_extend [OF assms(1-4)])
  show "chain_wf ((put_level (b_height b) l c)\<lparr>ch_block_cache := s\<rparr>)"
    using new_level_wf [OF storedD(1) [OF assms(1)] assms(6)] by simp
qed (use assms(5,6) in \<open>auto simp: get_block_header_at_height_def level_get_header_def level_new_def\<close>)

section \<open>Verifying a block\<close>

lemma stored_parent_block:
  assumes "block_tree e g T" "stored R v c" "R \<subseteq> T" "b \<in> R" "p \<in> R" "is_parent p b"
  shows "get_block_at_height c (sat_sub (b_height b) 1) (b_prev_hash b) = Some (record_of v p)"
    and "get_block_header_at_height c (sat_sub (b_height b) 1) (b_prev_hash b) = Some (header_of (record_of v p))"
proof -
  have "b_hash p = b_prev_hash b" "b_height p = sat_sub (b_height b) 1"
    using assms(6) parent_height by (auto simp: is_parent_def)
  with stored_get(2) [OF assms(2,5)] stored_header [OF assms(2,5)]
  show "get_block_at_height c (sat_sub (b_height b) 1) (b_prev_hash b) = Some (record_of v p)"
    "get_block_header_at_height c (sat_sub (b_height b) 1) (b_prev_hash b) = Some (header_of (record_of v p))"
    by simp_all
qed

lemma pow_check_passes:
  assumes "block_tree e g T" "stored R v c" "R \<subseteq> T" "b \<in> R" "good g R b"
  shows "verify_pow_and_parents e c (record_of v b) = Ok True"
proof -
  have b: "b \<in> T" using assms(3,4) by auto
  note tree = treeD [OF assms(1)]
  show ?thesis
  proof (cases "b = g")
    case True
    then show ?thesis using tree(2,4) tree(7,9) [OF b]
      by (simp add: verify_pow_and_parents_def)
  next
    case False
    then obtain p where p: "p \<in> R" "is_parent p b" using assms(5) by (auto simp: good_def)
    have pT: "p \<in> T" using p(1) assms(3) by auto
    note parent = stored_parent_block(1) [OF assms(1-4) p]
    note sum = tree_parent_work(1) [OF assms(1) b pT p(2)]
    have u: "unat (ucast (b_target_difficulty b) :: u128) = unat (b_target_difficulty b)" by simp
    have lt: "unat (ucast (b_target_difficulty b) :: u128) + unat (b_total_pow p) < 2 ^ 128"
      using sum unsigned_less [of "b_total_pow b", where ?'a = nat] u by simp
    then have add: "add_chk (ucast (b_target_difficulty b)) (b_total_pow p) = (Ok (b_total_pow b) :: u128 sc_result)"
      using sum by (simp add: add_chk_def checked_add_def word_unat_eq_iff unat_plus_small)
    show ?thesis
      using parent_height [OF p(2)] tree(7,9,10) [OF b] parent add
      by (simp add: verify_pow_and_parents_def)
  qed
qed

lemma status_verified:
  assumes "checks_off (ch_bypass_checks c)" "verify_pow_and_parents e c b = Ok True"
  shows "\<exists>s. new_status e c b = Ok s \<and> is_verified s"
proof -
  have "verify_difficulty e c b = Ok True" "verify_target_difficulty e c b = Ok True"
    "verify_median_timestamp_for_block c b = Ok True" "verify_shares_for_block e c b = Ok True"
    using assms(1) by (simp_all add: checks_off_def verify_difficulty_def verify_target_difficulty_def
        verify_median_timestamp_for_block_def verify_shares_for_block_def)
  with assms(2) show ?thesis by (simp add: new_status_def apply_check_def is_verified_iff)
qed

text \<open>A block whose parent is on record passes, and only its own status changes.\<close>

lemma verify_block_passes:
  assumes "block_tree e g T" "stored R v c" "R \<subseteq> T" "roomy e T c" "b \<in> R" "good g R b"
  shows "\<exists>c' s. verify_block e c (b_hash b) (b_height b) = (c', Ok ()) \<and> is_verified s
    \<and> stored R (v(b_hash b := s)) c'"
proof -
  obtain l where l: "level_at_height c (b_height b) = Some l"
    "level_get_header l (b_hash b) = Some (header_of (record_of v b))"
    using stored_level [OF assms(2,5)] by blast
  have "chain_is_verified c (b_hash b) (b_height b) = Ok (is_verified (v (b_hash b)))"
    using l by (simp add: chain_is_verified_def level_is_verified_def level_get_header_def)
  show ?thesis
  proof (cases "is_verified (v (b_hash b))")
    case True
    with l assms(2) show ?thesis
      by (intro exI [of _ c] exI [of _ "v (b_hash b)"])
        (simp add: verify_block_def chain_is_verified_def level_is_verified_def level_get_header_def)
  next
    case False
    have off: "checks_off (ch_bypass_checks c)" using assms(4) by (simp add: roomy_def)
    obtain s where s: "new_status e c (record_of v b) = Ok s" "is_verified s"
      using status_verified [OF off pow_check_passes [OF assms(1-3,5,6)]] by blast
    have "b \<in> T" using assms(3,5) by auto
    from stored_add_block_at [OF assms(2) treeD(3) [OF assms(1)] assms(3) this l(1), of s]
    obtain c' where c': "add_block_at (b_height b) (b\<lparr>b_verified := s\<rparr>) c = (c', Ok ())"
      "stored (insert b R) (v(b_hash b := s)) c'" by blast
    have "(record_of v b)\<lparr>b_verified := s\<rparr> = b\<lparr>b_verified := s\<rparr>" by (simp add: record_of_def)
    with c' s l False stored_get(1) [OF assms(2,5)] assms(5) show ?thesis
      by (intro exI [of _ c'] exI [of _ s])
        (simp add: verify_block_def chain_is_verified_def level_is_verified_def level_get_header_def
          level_get_def insert_absorb)
  qed
qed

section \<open>Looking for children\<close>

lemma tree_child:
  assumes "block_tree e g T" "x \<in> T" "b \<in> T" "b_prev_hash b = b_hash x"
  shows "is_parent x b"
proof -
  note tree = treeD [OF assms(1)]
  have "b \<noteq> g" using tree(5) tree(6) [OF assms(2)] assms(4) by auto
  then obtain p where p: "p \<in> T" "is_parent p b" using tree(12) [OF assms(3)] by blast
  then have "p = x" using tree(3) assms(2,4) by (auto simp: is_parent_def dest: inj_onD)
  with p show ?thesis by simp
qed

lemma stored_children:
  assumes "block_tree e g T" "stored R v c" "R \<subseteq> T" "x \<in> R"
  shows "\<exists>xs. get_all_children_and_nephews c (b_height x) (b_hash x) = Ok xs
    \<and> set xs = (\<lambda>b. (b_height b, b_hash b)) ` children R x"
proof -
  have xT: "x \<in> T" using assms(3,4) by auto
  note tree = treeD [OF assms(1)]
  have x3: "unat (b_height x) + 3 < 2 ^ 64" by (rule tree(8) [OF xT])
  have one: "unat (b_height x + 1) = unat (b_height x) + 1" "unat (b_height x + 3) = unat (b_height x) + 3"
    using x3 by (simp_all add: unat_plus_small)
  have chk: "add_chk (b_height x) 1 = (Ok (b_height x + 1) :: u64 sc_result)"
    "add_chk (b_height x) MAX_UNCLE_AGE = (Ok (b_height x + 3) :: u64 sc_result)"
    using x3 by (simp_all add: add_chk_def checked_add_def MAX_UNCLE_AGE_def)
  let ?f = "\<lambda>i. case level_at_height c i of None \<Rightarrow> [] | Some l \<Rightarrow> all_children_and_nephews_of l (b_hash x)"
  have level: "(h, k) \<in> set (?f i) \<longleftrightarrow> (\<exists>b\<in>children R x. b_height b = i \<and> h = i \<and> k = b_hash b)" for h k i
  proof -
    have "(h, k) \<in> set (?f i) \<longleftrightarrow> h = i \<and> (\<exists>y. get_block_header_at_height c i k = Some y
       \<and> (hd_prev_hash y = b_hash x \<or> b_hash x \<in> snd ` set (hd_uncles y)))"
    proof (cases "level_at_height c i")
      case (Some l)
      with levels_wfD [OF storedD(2) [OF assms(2)] Some] show ?thesis
        by (auto simp: children_and_nephews_iff get_block_header_at_height_def)
    qed (simp add: get_block_header_at_height_def)
    also have "\<dots> \<longleftrightarrow> (\<exists>b\<in>children R x. b_height b = i \<and> h = i \<and> k = b_hash b)"
    proof -
      have 1: "b_prev_hash b = b_hash x \<or> b_hash x \<in> snd ` set (b_uncles b) \<longleftrightarrow> is_parent x b" if "b \<in> R" for b
        using tree_child [OF assms(1) xT, of b] tree(7) [of b] that assms(3) by (auto simp: is_parent_def)
      have "(\<exists>y. get_block_header_at_height c i k = Some y
         \<and> (hd_prev_hash y = b_hash x \<or> b_hash x \<in> snd ` set (hd_uncles y)))
        \<longleftrightarrow> (\<exists>b\<in>R. b_height b = i \<and> b_hash b = k \<and> (b_prev_hash b = b_hash x \<or> b_hash x \<in> snd ` set (b_uncles b)))"
        unfolding storedD(3) [OF assms(2)] by (metis header_of_simps(3,8) record_of_simps(3,4))
      then show ?thesis using 1 unfolding children_def by blast
    qed
    finally show ?thesis .
  qed
  have "(\<Union>i \<in> set (u64_range (b_height x + 1) (b_height x + 3)). set (?f i))
      = (\<lambda>b. (b_height b, b_hash b)) ` children R x"
  proof (intro equalityI subsetI)
    fix p assume "p \<in> (\<lambda>b. (b_height b, b_hash b)) ` children R x"
    then obtain b where b: "b \<in> children R x" "p = (b_height b, b_hash b)" by auto
    then have "b_height b \<in> set (u64_range (b_height x + 1) (b_height x + 3))"
      using one by (simp add: set_u64_range children_def is_parent_def word_le_nat_alt word_less_nat_alt)
    with b level [of "b_height b" "b_hash b" "b_height b"]
    show "p \<in> (\<Union>i \<in> set (u64_range (b_height x + 1) (b_height x + 3)). set (?f i))" by blast
  next
    fix p assume "p \<in> (\<Union>i \<in> set (u64_range (b_height x + 1) (b_height x + 3)). set (?f i))"
    then obtain h k i where "p = (h, k)" "(h, k) \<in> set (?f i)" by (cases p) auto
    with level [of h k i] show "p \<in> (\<lambda>b. (b_height b, b_hash b)) ` children R x" by auto
  qed
  then show ?thesis
    by (intro exI [of _ "concat (map ?f (u64_range (b_height x + 1) (b_height x + 3)))"])
      (simp add: get_all_children_and_nephews_def chk)
qed

end
