(* ===== verification/ForkWork.thy ===== *)
theory ForkWork
  imports Arrival
begin

text \<open>
  Moving the tip of a chain whose record is known: the extension of the tip, the search for the
  fork of a heavier block, and the reorganisation to it.
\<close>

section \<open>The main chain consists of rooted blocks\<close>

definition main_rooted :: "p2block \<Rightarrow> p2block set \<Rightarrow> 'l p2chain \<Rightarrow> bool" where
  "main_rooted g R c \<longleftrightarrow> (\<forall>h k. chain_block_at c h = Some k \<longrightarrow>
     k = zero_hash \<or> (\<exists>b. rooted g R b \<and> b_height b = h \<and> b_hash b = k))"

lemma main_rooted_mono: "main_rooted g R c \<Longrightarrow> R \<subseteq> R' \<Longrightarrow> main_rooted g R' c"
  unfolding main_rooted_def by (meson rooted_mono)

lemma main_rooted_same: "main_rooted g R c \<Longrightarrow> (\<And>i. chain_block_at c' i = chain_block_at c i) \<Longrightarrow> main_rooted g R c'"
  by (simp add: main_rooted_def)

lemma main_rooted_put:
  "main_rooted g R c \<Longrightarrow> k = zero_hash \<or> (\<exists>b. rooted g R b \<and> b_height b = h \<and> b_hash b = k) \<Longrightarrow>
   main_rooted g R (put_level h (set_chain_block k l) c)"
  by (auto simp: main_rooted_def split: if_splits)

lemma main_rooted_update [simp]:
  "main_rooted g R (c\<lparr>ch_lwma := x\<rparr>) = main_rooted g R c"
  "main_rooted g R (c\<lparr>ch_current_tip := t\<rparr>) = main_rooted g R c"
  "main_rooted g R (c\<lparr>ch_cached_shares := s\<rparr>) = main_rooted g R c"
  by (simp_all add: main_rooted_def)

lemma stored_update [simp]:
  "stored R v (c\<lparr>ch_lwma := x\<rparr>) = stored R v c"
  "stored R v (c\<lparr>ch_current_tip := t\<rparr>) = stored R v c"
  "stored R v (c\<lparr>ch_cached_shares := s\<rparr>) = stored R v c"
  by (simp_all add: stored_def get_block_header_at_height_def)

lemma stored_put:
  assumes "stored R v c" "level_at_height c h = Some l" "k = zero_hash \<or> level_contains l k"
  shows "stored R v (put_level h (set_chain_block k l) c)"
  using assms chain_wf_set_chain_block [OF storedD(1) [OF assms(1)] assms(2,3)]
  by (intro stored_same [OF assms(1)] same_headers_put) simp_all

section \<open>The main chain is a line\<close>

definition on_line :: "p2block set \<Rightarrow> p2block \<Rightarrow> 'l p2chain \<Rightarrow> bool" where
  "on_line R a c \<longleftrightarrow> (\<forall>x\<in>R. descends R x a \<longrightarrow> chain_block_at c (b_height x) = Some (b_hash x))"

text \<open>The tip and all its ancestors are the chain blocks of their levels, and above it there are none.\<close>

definition main_line :: "p2block set \<Rightarrow> p2block \<Rightarrow> 'l p2chain \<Rightarrow> bool" where
  "main_line R t c \<longleftrightarrow> on_line R t c
     \<and> (\<forall>i. b_height t < i \<longrightarrow> chain_block_at c i = None \<or> chain_block_at c i = Some zero_hash)"

lemma on_line_start: "b_height g = 0 \<Longrightarrow> chain_block_at c (b_height g) = Some (b_hash g) \<Longrightarrow> on_line R g c"
  unfolding on_line_def by (metis descends_height not_less_zero unat_0)

lemma on_line_child:
  assumes "inj_on b_hash T" "R \<subseteq> T" "b \<in> R" "p \<in> R" "is_parent p b"
  shows "on_line R b c \<longleftrightarrow> chain_block_at c (b_height b) = Some (b_hash b) \<and> on_line R p c"
proof -
  have "descends R x b \<longleftrightarrow> x = b \<or> descends R x p" if "x \<in> R" for x
  proof
    assume "descends R x b"
    then consider "x = b" | q where "descends R x q" "is_parent q b" by (auto simp: descends_iff [of R x b])
    then show "x = b \<or> descends R x p"
    proof cases
      case (2 q)
      then have "q \<in> R" using descends_mem [OF 2(1)] that by auto
      then have "q = p" using parent_unique [OF assms(1) _ _ 2(2) assms(5)] assms(2,4) by blast
      with 2 show ?thesis by simp
    qed simp
  qed (use assms in \<open>auto intro: descends.intros\<close>)
  then show ?thesis unfolding on_line_def using assms(3) by blast
qed

lemma on_line_frame:
  assumes "on_line R a c" "\<And>i. i \<le> b_height a \<Longrightarrow> chain_block_at c' i = chain_block_at c i"
  shows "on_line R a c'"
proof -
  have "b_height x \<le> b_height a" if "descends R x a" for x
    using descends_height [OF that] by (auto simp: word_le_nat_alt)
  with assms show ?thesis by (simp add: on_line_def)
qed

lemma main_line_same: "main_line R t c \<Longrightarrow> chain_block_at c' = chain_block_at c \<Longrightarrow> main_line R t c'"
  by (simp add: main_line_def on_line_def)

lemma line_update [simp]:
  "on_line R a (c\<lparr>ch_lwma := x\<rparr>) = on_line R a c"
  "main_line R a (c\<lparr>ch_lwma := x\<rparr>) = main_line R a c"
  by (simp_all add: main_line_def on_line_def)

section \<open>Extending the tip\<close>

definition tip_at :: "p2block \<Rightarrow> 'l p2chain \<Rightarrow> bool" where
  "tip_at t c \<longleftrightarrow> ch_current_tip c = b_height t \<and> chain_block_at c (b_height t) = Some (b_hash t)"

lemma tip_atD:
  assumes "stored R v c" "t \<in> R" "b_hash t \<noteq> zero_hash" "tip_at t c"
  shows "map_option lv_chain_block (get_tip c) = Some (b_hash t)" "get_tip c \<noteq> None"
    "total_accumulated_tip_difficulty e c = b_total_pow t"
proof -
  obtain l where l: "level_at_height c (b_height t) = Some l"
    "level_get_header l (b_hash t) = Some (header_of (record_of v t))"
    using stored_level [OF assms(1,2)] by blast
  with assms(3,4) show "map_option lv_chain_block (get_tip c) = Some (b_hash t)" "get_tip c \<noteq> None"
    "total_accumulated_tip_difficulty e c = b_total_pow t"
    by (auto simp: tip_at_def chain_block_at_def get_tip_def total_accumulated_tip_difficulty_def
        block_header_in_main_chain_def)
qed

lemma set_new_tip_stored:
  assumes "stored R v c" "R \<subseteq> T" "roomy e T c" "b \<in> R" "main_rooted g R c" "rooted g R b"
  shows "\<exists>c'. set_new_tip e c (b_height b) (b_hash b) = (c', Ok ()) \<and> stored R v c'
    \<and> main_rooted g R c' \<and> tip_at b c'
    \<and> (\<forall>i. chain_block_at c' i = (if i = b_height b then Some (b_hash b) else chain_block_at c i))"
proof -
  obtain l where l: "level_at_height c (b_height b) = Some l"
    "level_get_header l (b_hash b) = Some (header_of (record_of v b))" "lv_height l = b_height b"
    using stored_level [OF assms(1,4)] by blast
  let ?c0 = "c\<lparr>ch_lwma := lwma_add_back e (b_timestamp b) (b_target_difficulty b) (ch_lwma c)\<rparr>"
  let ?c1 = "put_level (b_height b) (set_chain_block (b_hash b) l) ?c0"
  let ?c2 = "?c1\<lparr>ch_current_tip := b_height b\<rparr>"
  have s: "stored R v ?c2"
    using stored_put [of R v ?c0 "b_height b" l "b_hash b"] assms(1) l by (simp add: level_contains_iff)
  have "roomy e T ?c2" using assms(3) by (subst roomy_settings [of _ c]) simp_all
  then have "cleanup_chain ?c2 = (?c2, Ok ())" by (rule stored_no_cleanup [OF s assms(2)])
  moreover have "main_rooted g R ?c2"
    using main_rooted_put [of g R ?c0 "b_hash b" "b_height b" l] assms(5,6) by auto
  moreover have "tip_at b ?c2" by (simp add: tip_at_def chain_block_at_def)
  ultimately show ?thesis
    using s l stored_get(2) [OF assms(1,4)]
    by (intro exI [of _ ?c2]) (simp add: set_new_tip_def Let_def)
qed

section \<open>The search for the fork\<close>

lemma descends_parentD:
  assumes "inj_on b_hash T" "R \<subseteq> T" "p \<in> R" "is_parent p b" "descends R a p" "b \<in> R"
  shows "descends R a b" "a \<noteq> b"
proof -
  show "descends R a b" using assms(3-6) by (auto intro: descends_trans descends.intros)
  show "a \<noteq> b" using descends_height [OF assms(5)] assms(4) by (auto simp: is_parent_def)
qed

text \<open>Below a rooted block whose ancestors are verified the search finds nothing amiss.\<close>

lemma search_fork_rooted:
  assumes "block_tree e g T" "stored R v c" "R \<subseteq> T"
  shows "rooted g R b \<Longrightarrow> unat n + 1 < 2 ^ 64 \<Longrightarrow>
    (\<And>a. a \<in> R \<Longrightarrow> descends R a b \<Longrightarrow> a \<noteq> b \<Longrightarrow> rooted g R a \<Longrightarrow> is_verified (v (b_hash a))) \<Longrightarrow>
    search_fork c n (header_of (record_of v b)) r = Ok (True, r)"
proof (induction "unat (b_height b)" arbitrary: b n rule: less_induct)
  case less
  note tree = treeD [OF assms(1)]
  have b: "b \<in> R" "b \<in> T" using rooted_mem [OF less.prems(1)] assms(3) by auto
  show ?case
  proof (cases "b_height b = 0")
    case False
    then have "b \<noteq> g" using tree(2) by auto
    then obtain p where p: "rooted g R p" "is_parent p b" using rooted_parent [OF less.prems(1)] by blast
    have pR: "p \<in> R" by (rule rooted_mem [OF p(1)])
    note parent = stored_parent_block(2) [OF assms b(1) pR p(2)]
    have "descends R p b" "p \<noteq> b"
      using descends_parentD [OF tree(3) assms(3) pR p(2) descends_self b(1)] by simp_all
    then have v: "is_verified (v (b_hash p))" using less.prems(3) pR p(1) by blast
    have chk: "add_chk n 1 = (Ok (n + 1) :: u64 sc_result)" "unat (n + 1) = unat n + 1"
      using less.prems(2) by (simp_all add: add_chk_def checked_add_def unat_plus_small)
    obtain l where l: "level_at_height c (b_height b) = Some l" using stored_level [OF assms(2) b(1)] by blast
    have "search_fork c (n + 1) (header_of (record_of v p)) r = Ok (True, r)" if "\<not> ch_share_window c \<le> n + 1"
    proof (rule less.hyps)
      show "unat (b_height p) < unat (b_height b)" using p(2) by (simp add: is_parent_def)
      show "unat (n + 1) + 1 < 2 ^ 64"
        using that chk(2) unsigned_less [of "ch_share_window c", where ?'a = nat] by (simp add: word_le_nat_alt)
      show "is_verified (v (b_hash a))" if "a \<in> R" "descends R a p" "rooted g R a" for a
        using less.prems(3) [OF that(1) _ _ that(3)]
          descends_parentD [OF tree(3) assms(3) pR p(2) that(2) b(1)] by blast
    qed (rule p(1))
    then show ?thesis
      using False v l parent chk(1) by (auto simp: search_fork.simps [of c n])
  qed (simp add: search_fork.simps [of c n])
qed

text \<open>
  Below a block that is not rooted, and whose line breaks off within the share window, the
  search does not succeed, and what it reports missing is where the line breaks off.
\<close>

lemma add_missing_facts [simp]:
  "missing_blocks (add_missing k h r) \<noteq> []"
  "fst ` set (missing_blocks (add_missing k h r)) = insert k (fst ` set (missing_blocks r))"
  by (cases "missing_blocks r", auto simp: add_missing_def)

lemma stretch_Suc: "p \<in> R \<Longrightarrow> is_parent p b \<Longrightarrow> b \<in> R \<Longrightarrow> stretch R n p \<Longrightarrow> stretch R (Suc n) b"
  by auto

lemma stretch_le: "stretch R n b \<Longrightarrow> m \<le> n \<Longrightarrow> stretch R m b"
proof (induction n arbitrary: b m)
  case (Suc n)
  show ?case
  proof (cases m)
    case (Suc k)
    with Suc.prems Suc.IH [of _ k] show ?thesis by (cases "k = 0") auto
  qed simp
qed simp

lemma search_fork_unrooted:
  assumes "block_tree e g T" "stored R v c" "R \<subseteq> T" "g \<in> R" "main_rooted g R c"
  shows "b \<in> R \<Longrightarrow> \<not> rooted g R b \<Longrightarrow> unat n + 1 < 2 ^ 64 \<Longrightarrow>
    \<not> stretch R (unat (ch_share_window c) + 1 - unat n) b \<Longrightarrow>
    \<exists>ok r'. search_fork c n (header_of (record_of v b)) r = Ok (ok, r')
      \<and> (ok \<longrightarrow> missing_blocks r' \<noteq> [])
      \<and> fst ` set (missing_blocks r') \<subseteq> fst ` set (missing_blocks r) \<union> gaps R b"
proof (induction "unat (b_height b)" arbitrary: b n rule: less_induct)
  case less
  note tree = treeD [OF assms(1)]
  note b = less.prems(1)
  have bT: "b \<in> T" using b assms(3) by auto
  have "b \<noteq> g" using rooted_start [OF assms(4)] less.prems(2) by auto
  then have h: "b_height b \<noteq> 0" using tree_height_0 [OF assms(1) bT] by simp
  show ?case
  proof (cases "\<exists>p\<in>R. is_parent p b")
    case False
    have "get_block_header_at_height c (sat_sub (b_height b) 1) (b_prev_hash b) = None"
      using False stored_parent_exists [OF assms(2) h]
      by (cases "get_block_header_at_height c (sat_sub (b_height b) 1) (b_prev_hash b)")
        (auto dest: get_header_block_exists)
    moreover have "b_prev_hash b \<in> gaps R b"
      using False b by (auto simp: gaps_def intro!: descends_self)
    ultimately show ?thesis using h by (intro exI [of _ True]) (simp add: search_fork.simps [of c n])
  next
    case True
    then obtain p where p: "p \<in> R" "is_parent p b" by blast
    have pT: "p \<in> T" using p(1) assms(3) by auto
    have pr: "\<not> rooted g R p" using rooted_child [OF _ b p(2)] less.prems(2) by blast
    have "p \<noteq> g" using rooted_start [OF assms(4)] pr by auto
    then have hp: "b_height p \<noteq> 0" using tree_height_0 [OF assms(1) pT] by simp
    note parent = stored_parent_block(2) [OF assms(1-3) b p]
    have gp: "gaps R p \<subseteq> gaps R b"
    proof
      fix k assume "k \<in> gaps R p"
      then show "k \<in> gaps R b"
        using descends_parentD(1) [OF tree(3) assms(3) p _ b] unfolding gaps_def by blast
    qed
    show ?thesis
    proof (cases "is_verified (v (b_hash p))")
      case False
      have "b_prev_hash p \<in> gaps R p" if "\<not> (\<exists>q\<in>R. is_parent q p)"
        using that p(1) by (auto simp: gaps_def intro!: descends_self)
      with gp False parent h tree(7) [OF pT] show ?thesis
        by (auto simp: search_fork.simps [of c n] Let_def stored_parent_exists [OF assms(2) hp])
    next
      case True
      have chk: "add_chk n 1 = (Ok (n + 1) :: u64 sc_result)" "unat (n + 1) = unat n + 1"
        using less.prems(3) by (simp_all add: add_chk_def checked_add_def unat_plus_small)
      have far: "unat n + 1 < unat (ch_share_window c)"
      proof (rule ccontr)
        assume "\<not> unat n + 1 < unat (ch_share_window c)"
        then have "unat (ch_share_window c) + 1 - unat n \<le> 2" by simp
        moreover have "stretch R 2 b" using p b by (auto simp: numeral_2_eq_2)
        ultimately show False using less.prems(4) stretch_le by blast
      qed
      obtain l where l: "level_at_height c (b_height b) = Some l" using stored_level [OF assms(2) b] by blast
      have off: "lv_chain_block l \<noteq> b_hash b"
      proof
        assume "lv_chain_block l = b_hash b"
        then have "chain_block_at c (b_height b) = Some (b_hash b)" using l by (simp add: chain_block_at_def)
        then obtain a where a: "rooted g R a" "b_hash a = b_hash b"
          using assms(5) tree(6) [OF bT] by (auto simp: main_rooted_def)
        then have "a = b" using tree(3) rooted_mem [OF a(1)] assms(3) bT by (auto dest: inj_onD)
        with a less.prems(2) show False by simp
      qed
      have "\<not> stretch R (unat (ch_share_window c) + 1 - unat (n + 1)) p"
      proof
        assume "stretch R (unat (ch_share_window c) + 1 - unat (n + 1)) p"
        then have "stretch R (Suc (unat (ch_share_window c) - unat n)) b"
          unfolding chk(2) by (intro stretch_Suc [OF p b]) simp
        moreover have "Suc (unat (ch_share_window c) - unat n) = unat (ch_share_window c) + 1 - unat n"
          using far by simp
        ultimately show False using less.prems(4) by simp
      qed
      from less.hyps [OF _ p(1) pr _ this] chk(2) far unsigned_less [of "ch_share_window c", where ?'a = nat] p(2)
      obtain ok r' where "search_fork c (n + 1) (header_of (record_of v p)) r = Ok (ok, r')"
        "ok \<longrightarrow> missing_blocks r' \<noteq> []"
        "fst ` set (missing_blocks r') \<subseteq> fst ` set (missing_blocks r) \<union> gaps R p"
        by (auto simp: is_parent_def)
      then show ?thesis
        using h True l parent chk far off gp
        by (intro exI [of _ ok] exI [of _ r'])
          (auto simp: search_fork.simps [of c n] word_le_nat_alt)
    qed
  qed
qed

section \<open>Reorganisation\<close>

lemma clear_above_stored:
  assumes "block_tree e g T" "R \<subseteq> T"
  shows "stored R v c \<Longrightarrow> main_rooted g R c \<Longrightarrow>
    \<exists>c'. clear_above c h = (c', Ok ()) \<and> stored R v c' \<and> main_rooted g R c'
      \<and> (\<forall>i. chain_block_at c' i = chain_block_at c i \<or> chain_block_at c' i = Some zero_hash)"
proof (induction c h rule: clear_above.induct)
  case (1 c h)
  show ?case
  proof (cases "level_at_height c (sat_add h 1)")
    case (Some l)
    then obtain b where b: "b \<in> R" "b_height b = sat_add h 1"
      using storedD(5) [OF "1.prems"(1)] by blast
    have "b \<in> T" using b(1) assms(2) by auto
    then have "unat (sat_add h 1) + 3 < 2 ^ 64" using treeD(8) [OF assms(1)] b(2) by metis
    then have "unat h + 1 < 2 ^ 64" by (simp add: unat_sat_add)
    then have chk: "add_chk h 1 = (Ok (h + 1) :: u64 sc_result)" by (simp add: add_chk_def checked_add_def)
    have "stored R v (put_level (sat_add h 1) (set_chain_block zero_hash l) c)"
      using stored_put [OF "1.prems"(1) Some] by simp
    moreover have "main_rooted g R (put_level (sat_add h 1) (set_chain_block zero_hash l) c)"
      using "1.prems"(2) by (intro main_rooted_put) simp_all
    ultimately have "\<exists>c'. clear_above (put_level (sat_add h 1) (set_chain_block zero_hash l) c) (h + 1) = (c', Ok ())
      \<and> stored R v c' \<and> main_rooted g R c' \<and> (\<forall>i. chain_block_at c' i =
          chain_block_at (put_level (sat_add h 1) (set_chain_block zero_hash l) c) i \<or> chain_block_at c' i = Some zero_hash)"
      using "1.IH" [OF Some] chk by simp
    then show ?thesis using Some chk by (auto simp: clear_above.simps [of c h] split: if_splits)
  qed (use "1.prems" in \<open>simp add: clear_above.simps [of c h]\<close>)
qed

text \<open>What of the old main chain is below a height is a line.\<close>

definition old_line :: "p2block \<Rightarrow> p2block set \<Rightarrow> u64 \<Rightarrow> 'l p2chain \<Rightarrow> bool" where
  "old_line g R h c \<longleftrightarrow> (\<forall>a. rooted g R a \<and> b_height a < h
     \<and> chain_block_at c (b_height a) = Some (b_hash a) \<longrightarrow> on_line R a c)"

lemma old_line_frame:
  assumes "old_line g R h c" "h' \<le> h" "\<And>i. i < h' \<Longrightarrow> chain_block_at c' i = chain_block_at c i"
  shows "old_line g R h' c'"
  unfolding old_line_def
proof (intro allI impI)
  fix a assume a: "rooted g R a \<and> b_height a < h' \<and> chain_block_at c' (b_height a) = Some (b_hash a)"
  then have "b_height a < h" using assms(2) by (auto intro: less_le_trans)
  then have "on_line R a c" using a assms(1) assms(3) [of "b_height a"] by (auto simp: old_line_def)
  then show "on_line R a c'"
    by (rule on_line_frame) (use a assms(3) in \<open>blast intro: le_less_trans\<close>)
qed

text \<open>The walk needs no more steps than the share window allows.\<close>

definition in_reach :: "u64 \<Rightarrow> p2block \<Rightarrow> 'l p2chain \<Rightarrow> bool" where
  "in_reach n b c \<longleftrightarrow> unat n + unat (b_height b) \<le> unat (ch_share_window c)"

lemma relink_stored:
  assumes "block_tree e g T" "R \<subseteq> T"
  shows "rooted g R b \<Longrightarrow> b \<noteq> g \<Longrightarrow> stored R v c \<Longrightarrow> main_rooted g R c \<Longrightarrow> unat n + 1 < 2 ^ 64 \<Longrightarrow>
    \<exists>c' l'. relink e' c n (header_of (record_of v b)) lwma = (c', Ok l') \<and> stored R v c' \<and> main_rooted g R c'
      \<and> (\<forall>i. b_height b \<le> i \<longrightarrow> chain_block_at c' i = chain_block_at c i)
      \<and> (in_reach n b c \<longrightarrow> old_line g R (b_height b) c \<longrightarrow> (\<forall>p\<in>R. is_parent p b \<longrightarrow> on_line R p c'))"
proof (induction "unat (b_height b)" arbitrary: b c n lwma rule: less_induct)
  case less
  note tree = treeD [OF assms(1)]
  have b: "b \<in> R" "b \<in> T" using rooted_mem [OF less.prems(1)] assms(2) by auto
  obtain p where p: "rooted g R p" "is_parent p b" using rooted_parent [OF less.prems(1,2)] by blast
  have pR: "p \<in> R" by (rule rooted_mem [OF p(1)])
  then have pT: "p \<in> T" using assms(2) by auto
  have only: "q = p" if "q \<in> R" "is_parent q b" for q
    using parent_unique [OF tree(3) _ pT that(2) p(2)] that(1) assms(2) by auto
  have hp: "b_hash p = b_prev_hash b" "b_height p = sat_sub (b_height b) 1" "b_height p < b_height b"
    using p(2) parent_height by (auto simp: is_parent_def word_less_nat_alt)
  obtain l where l: "level_at_height c (sat_sub (b_height b) 1) = Some l"
    "level_get_header l (b_prev_hash b) = Some (header_of (record_of v p))"
    using stored_level [OF less.prems(3) pR] hp by metis
  have chk: "add_chk n 1 = (Ok (n + 1) :: u64 sc_result)" "unat (n + 1) = unat n + 1"
    using less.prems(5) by (simp_all add: add_chk_def checked_add_def unat_plus_small)
  let ?c1 = "put_level (sat_sub (b_height b) 1) (set_chain_block (b_prev_hash b) l) c"
  have c1: "stored R v ?c1" using stored_put [OF less.prems(3) l(1)] l(2) by (simp add: level_contains_iff)
  have m1: "main_rooted g R ?c1" using less.prems(4) p(1) hp by (intro main_rooted_put) auto
  let ?res = "\<lambda>c'. stored R v c' \<and> main_rooted g R c'
      \<and> (\<forall>i. b_height b \<le> i \<longrightarrow> chain_block_at c' i = chain_block_at c i)
      \<and> (in_reach n b c \<longrightarrow> old_line g R (b_height b) c \<longrightarrow> (\<forall>p\<in>R. is_parent p b \<longrightarrow> on_line R p c'))"
  have go: "\<exists>c' l'. (if b_height p = 0 \<or> ch_share_window c \<le> n + 1 then (c2, Ok lw)
      else relink e' c2 (n + 1) (header_of (record_of v p)) lw) = (c', (Ok l' :: 'b sc_result)) \<and> ?res c'"
    if c2: "stored R v c2" "main_rooted g R c2" "ch_share_window c2 = ch_share_window c"
      "chain_block_at c2 (b_height p) = Some (b_hash p)"
      "\<And>i. i \<noteq> b_height p \<Longrightarrow> chain_block_at c2 i = chain_block_at c i" for c2 lw
  proof (cases "b_height p = 0 \<or> ch_share_window c \<le> n + 1")
    case True
    have "on_line R p c2" if "in_reach n b c"
    proof -
      have "b_height p = 0"
        using True that chk(2) p(2) by (auto simp: in_reach_def is_parent_def word_le_nat_alt word_unat_eq_iff)
      then show ?thesis using c2(4) by (rule on_line_start)
    qed
    moreover have "chain_block_at c2 i = chain_block_at c i" if "b_height b \<le> i" for i
      using c2(5) [of i] that hp(3) by auto
    ultimately have "?res c2" using c2(1,2) only by blast
    with True show ?thesis by simp
  next
    case False
    have "\<exists>c' l'. relink e' c2 (n + 1) (header_of (record_of v p)) lw = (c', Ok l') \<and> stored R v c' \<and> main_rooted g R c'
      \<and> (\<forall>i. b_height p \<le> i \<longrightarrow> chain_block_at c' i = chain_block_at c2 i)
      \<and> (in_reach (n + 1) p c2 \<longrightarrow> old_line g R (b_height p) c2 \<longrightarrow> (\<forall>q\<in>R. is_parent q p \<longrightarrow> on_line R q c'))"
    proof (rule less.hyps)
      show "unat (b_height p) < unat (b_height b)" using p(2) by (simp add: is_parent_def)
      show "unat (n + 1) + 1 < 2 ^ 64"
        using False chk(2) unsigned_less [of "ch_share_window c", where ?'a = nat] by (simp add: word_le_nat_alt)
      show "p \<noteq> g" using tree(2) False by auto
    qed (use c2 p(1) in simp_all)
    then obtain c' l' where c': "relink e' c2 (n + 1) (header_of (record_of v p)) lw = (c', Ok l')"
      "stored R v c'" "main_rooted g R c'" "\<And>i. b_height p \<le> i \<Longrightarrow> chain_block_at c' i = chain_block_at c2 i"
      "in_reach (n + 1) p c2 \<Longrightarrow> old_line g R (b_height p) c2 \<Longrightarrow> (\<forall>q\<in>R. is_parent q p \<longrightarrow> on_line R q c')"
      by blast
    have "on_line R p c'" if r: "in_reach n b c" "old_line g R (b_height b) c"
    proof -
      have "in_reach (n + 1) p c2" using r(1) chk(2) p(2) c2(3) by (simp add: in_reach_def is_parent_def)
      moreover have "old_line g R (b_height p) c2"
        by (rule old_line_frame [OF r(2)]) (use hp(3) c2(5) in auto)
      moreover obtain q where q: "q \<in> R" "is_parent q p"
        using rooted_parent [OF p(1)] rooted_mem tree(2) False by metis
      ultimately have "on_line R q c'" using c'(5) by blast
      then show ?thesis
        using on_line_child [OF tree(3) assms(2) pR q, of c'] c'(4) [of "b_height p"] c2(4) by simp
    qed
    moreover have "chain_block_at c' i = chain_block_at c i" if "b_height b \<le> i" for i
      using c'(4) [of i] c2(5) [of i] that hp(3) by auto
    ultimately have "?res c'" using c'(2,3) only by blast
    with False c'(1) show ?thesis by simp
  qed
  show ?case
  proof (cases "b_prev_hash b = lv_chain_block l")
    case False
    have "\<exists>c' l'. (if b_height p = 0 \<or> ch_share_window c \<le> n + 1 then (?c1, Ok lw)
      else relink e' ?c1 (n + 1) (header_of (record_of v p)) lw) = (c', (Ok l' :: 'b sc_result)) \<and> ?res c'" for lw
      by (rule go [OF c1 m1]) (use hp in auto)
    then show ?thesis
      using False l chk(1) by (simp add: relink.simps [of e' c n] Let_def)
  next
    case True
    then have cb: "chain_block_at c (b_height p) = Some (b_hash p)" using l hp by (simp add: chain_block_at_def)
    show ?thesis
    proof (cases "lwma_is_full e' lwma")
      case False
      then show ?thesis
        using True go [OF less.prems(3,4) refl cb] l chk(1) by (simp add: relink.simps [of e' c n] Let_def)
    next
      case full: True
      have "on_line R p c" if "old_line g R (b_height b) c"
        using that p(1) hp(3) cb by (simp add: old_line_def)
      then have "?res c" using less.prems(3,4) only by blast
      with full True l chk(1) show ?thesis by (simp add: relink.simps [of e' c n])
    qed
  qed
qed

text \<open>The chain can be reorganised to any rooted block.\<close>

lemma reorg_stored:
  assumes "block_tree e g T" "stored R v c" "R \<subseteq> T" "roomy e T c" "main_rooted g R c"
    and "rooted g R b" "b \<noteq> g" "rooted g R t"
  shows "\<exists>c'. reorg e c (header_of (record_of v b)) = (c', Ok ()) \<and> stored R v c'
    \<and> main_rooted g R c' \<and> tip_at b c'
    \<and> (main_line R t c \<longrightarrow> unat (b_height b) < unat (ch_share_window c) \<longrightarrow> main_line R b c')"
proof -
  note tree = treeD [OF assms(1)]
  have b: "b \<in> R" "b \<in> T" using rooted_mem [OF assms(6)] assms(3) by auto
  obtain l where l: "level_at_height c (b_height b) = Some l"
    "level_get_header l (b_hash b) = Some (header_of (record_of v b))"
    using stored_level [OF assms(2) b(1)] by blast
  obtain lw where lw: "lwma_new e DIFFICULTY_ADJUSTMENT_WINDOW (ch_block_time c) = Some lw"
    using assms(4) by (auto simp: roomy_def)
  let ?lw = "lwma_add_front e (b_timestamp b) (b_target_difficulty b) lw"
  let ?c1 = "(put_level (b_height b) (set_chain_block (b_hash b) l) c)\<lparr>ch_cached_shares := None, ch_current_tip := b_height b\<rparr>"
  have s1: "stored R v ?c1" using stored_put [OF assms(2) l(1)] l(2) by (simp add: level_contains_iff)
  have m1: "main_rooted g R ?c1" using main_rooted_put [OF assms(5)] assms(6) by auto
  obtain c2 where c2: "clear_above ?c1 (b_height b) = (c2, Ok ())" "stored R v c2" "main_rooted g R c2"
    "\<And>i. chain_block_at c2 i = chain_block_at ?c1 i \<or> chain_block_at c2 i = Some zero_hash"
    using clear_above_stored [OF assms(1,3) s1 m1] by blast
  obtain c3 l' where c3: "relink e c2 1 (header_of (record_of v b)) ?lw = (c3, Ok l')" "stored R v c3" "main_rooted g R c3"
    "\<And>i. b_height b \<le> i \<Longrightarrow> chain_block_at c3 i = chain_block_at c2 i"
    "in_reach 1 b c2 \<Longrightarrow> old_line g R (b_height b) c2 \<Longrightarrow> (\<forall>p\<in>R. is_parent p b \<longrightarrow> on_line R p c3)"
    using relink_stored [OF assms(1,3,6,7) c2(2,3), of 1 e ?lw] by auto
  note spec = clear_above_spec [OF c2(1)]
  have tip: "ch_current_tip c3 = b_height b"
    using clear_above_tip [of ?c1 "b_height b"] relink_tip [of e c2 1 "header_of (record_of v b)" ?lw] c2 c3 by simp
  have top: "chain_block_at c3 (b_height b) = Some (b_hash b)"
    using c3(4) [of "b_height b"] spec by simp
  have "main_line R b c3" if old: "main_line R t c" "unat (b_height b) < unat (ch_share_window c)"
  proof -
    have "ch_share_window c2 = ch_share_window c" using spec by (simp add: same_headers_def)
    then have "in_reach 1 b c2" using old(2) by (simp add: in_reach_def)
    moreover have "old_line g R (b_height b) c2"
      unfolding old_line_def
    proof (intro allI impI)
      fix a assume a: "rooted g R a \<and> b_height a < b_height b \<and> chain_block_at c2 (b_height a) = Some (b_hash a)"
      have aR: "a \<in> R" "a \<in> T" using a rooted_mem assms(3) by auto
      have low: "chain_block_at c2 i = chain_block_at c i" if "i < b_height b" for i using spec that by auto
      have ca: "chain_block_at c (b_height a) = Some (b_hash a)" using a low [of "b_height a"] by auto
      have "\<not> b_height t < b_height a" using ca old(1) tree(6) [OF aR(2)] by (auto simp: main_line_def)
      then obtain x where x: "x \<in> R" "b_height x = b_height a" "descends R x t"
        using rooted_ancestor [OF tree(2), of R t "b_height a"] assms(8) by (auto simp: not_less)
      then have "b_hash x = b_hash a" using old(1) ca by (auto simp: main_line_def on_line_def)
      then have "x = a" using tree(3) x(1) assms(3) aR(2) by (auto dest: inj_onD)
      then have "on_line R a c" using old(1) x(3) by (auto simp: main_line_def on_line_def intro: descends_trans)
      then show "on_line R a c2" by (rule on_line_frame) (use a low in auto)
    qed
    moreover obtain p where p: "p \<in> R" "is_parent p b" using rooted_parent [OF assms(6,7)] rooted_mem by metis
    ultimately have "on_line R p c3" using c3(5) by blast
    then have "on_line R b c3" using on_line_child [OF tree(3) assms(3) b(1) p, of c3] top by simp
    moreover have "chain_block_at c3 i = None \<or> chain_block_at c3 i = Some zero_hash" if i: "b_height b < i" for i
    proof (cases "i \<le> b_height t")
      case True
      have "level_at_height ?c1 j \<noteq> None" if "j \<le> i" for j
        using rooted_ancestor [OF tree(2), of R t j] assms(8) order.trans [OF that True] storedD(5) [OF s1, of j] by auto
      then have "chain_block_at c2 i = Some zero_hash" using spec i by blast
      with c3(4) [of i] i show ?thesis by simp
    next
      case False
      then have "chain_block_at c i = None \<or> chain_block_at c i = Some zero_hash" using old(1) by (simp add: main_line_def)
      moreover have "i \<noteq> b_height b" "chain_block_at c3 i = chain_block_at c2 i" using c3(4) [of i] i by auto
      ultimately show ?thesis using c2(4) [of i] by auto
    qed
    ultimately show ?thesis by (simp add: main_line_def)
  qed
  moreover have "tip_at b (c3\<lparr>ch_lwma := l'\<rparr>)" using tip top by (simp add: tip_at_def)
  ultimately show ?thesis using c3 c2 l lw
    by (intro exI [of _ "c3\<lparr>ch_lwma := l'\<rparr>"]) (simp add: reorg_def Let_def)
qed

end
