(* ===== verification/Convergence.thy ===== *)
theory Convergence
  imports ForkWork
begin

text \<open>
  The order in which blocks arrive does not matter: whatever the order, \<open>add_block_to_chain\<close>
  takes in every block, and the tip ends up with the most work of all blocks whose ancestors are
  on record down to the first block. So two nodes that have the same blocks agree.
\<close>

section \<open>One block of the queue\<close>

text \<open>A block is rooted, or its line breaks off within the share window.\<close>

definition placeable :: "p2block \<Rightarrow> nat \<Rightarrow> p2block set \<Rightarrow> bool" where
  "placeable g w R \<longleftrightarrow> (\<forall>b\<in>R. rooted g R b \<or> \<not> stretch R w b)"

text \<open>
  The chain has the blocks \<open>R\<close> of \<open>T\<close> on record, and \<open>t\<close> is its tip. As long as no block
  reaches the height of the share window, the main chain is the line of ancestors of the tip.
\<close>

definition low_blocks :: "p2block set \<Rightarrow> u64 \<Rightarrow> bool" where
  "low_blocks T w \<longleftrightarrow> (\<forall>b\<in>T. b_height b < w)"

definition holds_blocks ::
    "'l ext \<Rightarrow> p2block set \<Rightarrow> p2block \<Rightarrow> p2block set \<Rightarrow> (fixed_hash \<Rightarrow> verified_status) \<Rightarrow> p2block
     \<Rightarrow> 'l p2chain \<Rightarrow> bool" where
  "holds_blocks e T g R v t c \<longleftrightarrow> block_tree e g T \<and> R \<subseteq> T \<and> g \<in> R \<and> roomy e T c \<and> stored R v c
     \<and> placeable g (unat (ch_share_window c)) R \<and> main_rooted g R c \<and> rooted g R t \<and> tip_at t c
     \<and> (low_blocks T (ch_share_window c) \<longrightarrow> main_line R t c)"

lemma holds_blocksD:
  assumes "holds_blocks e T g R v t c"
  shows "block_tree e g T" "R \<subseteq> T" "g \<in> R" "roomy e T c" "stored R v c"
    "placeable g (unat (ch_share_window c)) R" "main_rooted g R c" "rooted g R t" "tip_at t c"
    "inj_on b_hash T" "t \<in> R" "low_blocks T (ch_share_window c) \<Longrightarrow> main_line R t c"
  using assms treeD(3) by (auto simp: holds_blocks_def rooted_mem)

lemma descends_work:
  assumes "block_tree e g T" "R \<subseteq> T"
  shows "descends R a b \<Longrightarrow> a \<in> T \<Longrightarrow> b_total_pow a \<le> b_total_pow b"
proof (induction rule: descends.induct)
  case (descends_child a p b)
  have "p \<in> T" "b \<in> T" using descends_mem [OF descends_child.hyps(1)] descends_child assms(2) by auto
  from tree_parent_work(2) [OF assms(1) this(2,1) descends_child.hyps(3)] descends_child show ?case by simp
qed simp

lemma holds_blocks_tip:
  assumes "holds_blocks e T g R v t c"
  shows "map_option lv_chain_block (get_tip c) = Some (b_hash t)" "get_tip c \<noteq> None"
    "total_accumulated_tip_difficulty e' c = b_total_pow t"
proof -
  note h = holds_blocksD [OF assms]
  have "b_hash t \<noteq> zero_hash" using treeD(6) [OF h(1)] h(2,11) by auto
  from tip_atD [OF h(5,11) this h(9)] show "map_option lv_chain_block (get_tip c) = Some (b_hash t)"
    "get_tip c \<noteq> None" "total_accumulated_tip_difficulty e' c = b_total_pow t" by simp_all
qed

lemma holds_blocks_change:
  assumes "holds_blocks e T g R v t c" "chain_settings c' = chain_settings c" "stored R v' c'"
    "main_rooted g R c'" "rooted g R t'" "tip_at t' c'"
    "low_blocks T (ch_share_window c) \<Longrightarrow> main_line R t' c'"
  shows "holds_blocks e T g R v' t' c'"
proof -
  have "ch_share_window c' = ch_share_window c" using assms(2) by (simp add: chain_settings_def)
  with assms roomy_settings [OF assms(2)] show ?thesis by (simp add: holds_blocks_def)
qed

text \<open>All rooted strict ancestors of a block are verified.\<close>

definition line_verified :: "p2block \<Rightarrow> p2block set \<Rightarrow> (fixed_hash \<Rightarrow> verified_status) \<Rightarrow> p2block \<Rightarrow> bool" where
  "line_verified g R v b \<longleftrightarrow>
     (\<forall>a. a \<in> R \<and> descends R a b \<and> a \<noteq> b \<and> rooted g R a \<longrightarrow> is_verified (v (b_hash a)))"

lemma with_next_children:
  assumes "holds_blocks e T g R v t c" "b \<in> R"
  shows "\<exists>xs. with_next c (b_height b) (b_hash b) r = (c, Ok (r, xs))
    \<and> set xs = (\<lambda>b. (b_height b, b_hash b)) ` children R b"
proof -
  note h = holds_blocksD [OF assms(1)]
  from stored_children [OF h(1,5,2) assms(2)] show ?thesis by (auto simp: with_next_def)
qed

lemma find_missing_record:
  assumes "holds_blocks e T g R v t c" "b \<in> R"
  shows "good g R b \<Longrightarrow> find_missing c (b_height b) (b_hash b) (b_prev_hash b) = Ok default_add_result"
    and "\<not> good g R b \<Longrightarrow> find_missing c (b_height b) (b_hash b) (b_prev_hash b)
      = Ok (add_missing (b_prev_hash b) (sat_sub (b_height b) 1) default_add_result)"
proof -
  note h = holds_blocksD [OF assms(1)]
  have bT: "b \<in> T" using assms(2) h(2) by auto
  note us = treeD(7) [OF h(1) bT] and z = tree_height_0 [OF h(1) bT]
  have us': "get_uncles c (b_height b) (b_hash b) = Ok []" by (rule stored_lookups(2) [OF h(5) assms(2) us])
  have ex: "block_exists c (sat_sub (b_height b) 1) (b_prev_hash b) \<longleftrightarrow> (\<exists>p\<in>R. is_parent p b)" if "b \<noteq> g"
    using stored_parent_exists [OF h(5)] z that by blast
  show "good g R b \<Longrightarrow> find_missing c (b_height b) (b_hash b) (b_prev_hash b) = Ok default_add_result"
    using z us' ex by (cases "b = g") (simp_all add: good_def find_missing_def)
  show "\<not> good g R b \<Longrightarrow> find_missing c (b_height b) (b_hash b) (b_prev_hash b)
      = Ok (add_missing (b_prev_hash b) (sat_sub (b_height b) 1) default_add_result)"
    using z us' ex by (simp add: good_def find_missing_def)
qed

lemma extend_tip_step:
  assumes "holds_blocks e T g R v t c" "b \<in> R" "b_prev_hash b = b_hash t"
  shows "\<exists>c' r' xs. extend_tip e c (b_height b) (b_hash b) (header_of (record_of v b)) default_add_result = (c', Ok (r', xs))
    \<and> missing_blocks r' = [] \<and> set xs = (\<lambda>b. (b_height b, b_hash b)) ` children R b
    \<and> holds_blocks e T g R v b c' \<and> b_total_pow t < b_total_pow b"
proof -
  note h = holds_blocksD [OF assms(1)]
  have T: "b \<in> T" "t \<in> T" using assms(2) h(2,11) by auto
  have par: "is_parent t b" by (rule tree_child [OF h(1) T(2,1) assms(3)])
  have rb: "rooted g R b" by (rule rooted_child [OF h(8) assms(2) par])
  obtain c' where c': "set_new_tip e c (b_height b) (b_hash b) = (c', Ok ())" "stored R v c'"
    "main_rooted g R c'" "tip_at b c'"
    "\<And>i. chain_block_at c' i = (if i = b_height b then Some (b_hash b) else chain_block_at c i)"
    using set_new_tip_stored [OF h(5,2,4) assms(2) h(7) rb] by blast
  have line: "main_line R b c'" if "low_blocks T (ch_share_window c)"
  proof -
    have lt: "b_height t < b_height b" using par by (simp add: is_parent_def word_less_nat_alt)
    have old: "main_line R t c" by (rule h(12) [OF that])
    then have "on_line R t c" by (simp add: main_line_def)
    then have "on_line R t c'" by (rule on_line_frame) (use c'(5) lt in auto)
    with c'(5) on_line_child [OF h(10,2) assms(2) h(11) par, of c'] old lt show ?thesis
      by (auto simp: main_line_def)
  qed
  have "chain_settings c' = chain_settings c"
    using kept_set_new_tip [of c c e "b_height b" "b_hash b"] c'(1) by (simp add: kept_def)
  note h' = holds_blocks_change [OF assms(1) this c'(2,3) rb c'(4) line]
  let ?r = "result_set_new_tip (b_hash b) (b_height b) default_add_result"
  obtain xs where xs: "with_next c' (b_height b) (b_hash b) ?r = (c', Ok (?r, xs))"
    "set xs = (\<lambda>b. (b_height b, b_hash b)) ` children R b"
    using with_next_children [OF h' assms(2)] by blast
  have "missing_blocks ?r = []" by (simp add: result_set_new_tip_def default_add_result_def)
  with c' xs h' treeD(7) [OF h(1) T(1)] tree_parent_work(2) [OF h(1) T par] show ?thesis
    by (intro exI [of _ c'] exI [of _ ?r] exI [of _ xs]) (simp add: extend_tip_def)
qed

lemma try_reorg_step:
  assumes "holds_blocks e T g R v t c" "b \<in> R" "b_prev_hash b \<noteq> b_hash t"
    and v: "line_verified g R v b"
  shows "\<exists>c' r' xs t'. try_reorg e c (b_height b) (b_hash b) (header_of (record_of v b)) default_add_result = (c', Ok (r', xs))
    \<and> fst ` set (missing_blocks r') \<subseteq> gaps R b \<and> set xs = (\<lambda>b. (b_height b, b_hash b)) ` children R b
    \<and> holds_blocks e T g R v t' c' \<and> b_total_pow t \<le> b_total_pow t' \<and> (rooted g R b \<longrightarrow> b_total_pow b \<le> b_total_pow t')"
proof -
  note h = holds_blocksD [OF assms(1)]
  note work = holds_blocks_tip(3) [OF assms(1), of e]
  have nxt: "\<exists>xs. with_next c (b_height b) (b_hash b) r = (c, Ok (r, xs))
    \<and> set xs = (\<lambda>b. (b_height b, b_hash b)) ` children R b" for r
    by (rule with_next_children [OF assms(1,2)])
  show ?thesis
  proof (cases "rooted g R b")
    case False
    then have "\<not> stretch R (unat (ch_share_window c) + 1 - unat (1::u64)) b"
      using h(6) assms(2) by (auto simp: placeable_def)
    from search_fork_unrooted [OF h(1,5,2,3,7) assms(2) False _ this, of default_add_result]
    obtain ok r' where r': "search_fork c 1 (header_of (record_of v b)) default_add_result = Ok (ok, r')"
      "ok \<longrightarrow> missing_blocks r' \<noteq> []" "fst ` set (missing_blocks r') \<subseteq> gaps R b"
      by (auto simp: default_add_result_def)
    obtain xs where xs: "with_next c (b_height b) (b_hash b) r' = (c, Ok (r', xs))"
      "set xs = (\<lambda>b. (b_height b, b_hash b)) ` children R b" using nxt by blast
    with r' False assms(1) show ?thesis
      by (intro exI [of _ c] exI [of _ r'] exI [of _ xs] exI [of _ t]) (auto simp: try_reorg_def)
  next
    case True
    have s: "search_fork c 1 (header_of (record_of v b)) default_add_result = Ok (True, default_add_result)"
      using v unfolding line_verified_def by (intro search_fork_rooted [OF h(1,5,2) True]) simp_all
    show ?thesis
    proof (cases "b_total_pow t < b_total_pow b")
      case False
      obtain xs where xs: "with_next c (b_height b) (b_hash b) default_add_result = (c, Ok (default_add_result, xs))"
        "set xs = (\<lambda>b. (b_height b, b_hash b)) ` children R b" using nxt by blast
      with s False work assms(1) show ?thesis
        by (intro exI [of _ c] exI [of _ default_add_result] exI [of _ xs] exI [of _ t])
          (auto simp: try_reorg_def default_add_result_def)
    next
      case heavier: True
      have "b \<noteq> g"
        using heavier descends_work [OF h(1,2), of g t] h(8) treeD(1) [OF h(1)] by (auto simp: rooted_def)
      obtain c' where c': "reorg e c (header_of (record_of v b)) = (c', Ok ())" "stored R v c'"
        "main_rooted g R c'" "tip_at b c'"
        "main_line R t c \<longrightarrow> unat (b_height b) < unat (ch_share_window c) \<longrightarrow> main_line R b c'"
        using reorg_stored [OF h(1,5,2,4,7) True \<open>b \<noteq> g\<close> h(8)] by blast
      have line: "main_line R b c'" if "low_blocks T (ch_share_window c)"
        using c'(5) h(12) [OF that] that assms(2) h(2) by (auto simp: low_blocks_def word_less_nat_alt)
      have "chain_settings c' = chain_settings c"
        using kept_reorg [of c c e "header_of (record_of v b)"] c'(1) by (simp add: kept_def)
      note h' = holds_blocks_change [OF assms(1) this c'(2,3) True c'(4) line]
      let ?r = "result_set_new_tip (b_hash b) (b_height b) default_add_result"
      obtain xs where xs: "with_next c' (b_height b) (b_hash b) ?r = (c', Ok (?r, xs))"
        "set xs = (\<lambda>b. (b_height b, b_hash b)) ` children R b"
        using with_next_children [OF h' assms(2)] by blast
      have "missing_blocks ?r = []" by (simp add: result_set_new_tip_def default_add_result_def)
      with c' xs h' s heavier work show ?thesis
        by (intro exI [of _ c'] exI [of _ ?r] exI [of _ xs] exI [of _ b])
          (auto simp: try_reorg_def default_add_result_def)
    qed
  qed
qed

text \<open>One round: the block is verified if its parent is on record, and the tip is as heavy as it is.\<close>

lemma inner_step:
  assumes "holds_blocks e T g R v t c" "b \<in> R"
    and v: "line_verified g R v b"
  shows "\<exists>c' v' r xs t'. verify_chain_inner e c (b_height b) (b_hash b) = (c', Ok (r, xs))
    \<and> holds_blocks e T g R v' t' c' \<and> set xs = (\<lambda>b. (b_height b, b_hash b)) ` children R b
    \<and> fst ` set (missing_blocks r) \<subseteq> gaps R b
    \<and> (\<forall>k. is_verified (v k) \<longrightarrow> is_verified (v' k)) \<and> (good g R b \<longrightarrow> is_verified (v' (b_hash b)))
    \<and> b_total_pow t \<le> b_total_pow t' \<and> (rooted g R b \<longrightarrow> b_total_pow b \<le> b_total_pow t')"
proof -
  note h = holds_blocksD [OF assms(1)]
  have bT: "b \<in> T" using assms(2) h(2) by auto
  have par: "get_parent_of c (b_height b) (b_hash b) = Some (b_prev_hash b)"
    by (rule stored_lookups(1) [OF h(5) assms(2) treeD(7) [OF h(1) bT]])
  show ?thesis
  proof (cases "good g R b")
    case False
    let ?r = "add_missing (b_prev_hash b) (sat_sub (b_height b) 1) default_add_result"
    obtain xs where xs: "with_next c (b_height b) (b_hash b) ?r = (c, Ok (?r, xs))"
      "set xs = (\<lambda>b. (b_height b, b_hash b)) ` children R b"
      using with_next_children [OF assms(1,2)] by blast
    have "b_prev_hash b \<in> gaps R b"
      using False assms(2) by (auto simp: gaps_def good_def intro!: descends_self)
    with xs par find_missing_record(2) [OF assms(1,2) False] assms(1) False rooted_good show ?thesis
      by (intro exI [of _ c] exI [of _ v] exI [of _ ?r] exI [of _ xs] exI [of _ t])
        (auto simp: verify_chain_inner_def default_add_result_def)
  next
    case True
    obtain c1 s where c1: "verify_block e c (b_hash b) (b_height b) = (c1, Ok ())" "is_verified s"
      "stored R (v(b_hash b := s)) c1"
      using verify_block_passes [OF h(1,5,2,4) assms(2) True] by blast
    let ?v = "v(b_hash b := s)"
    have main: "ch_current_tip c1 = ch_current_tip c" "chain_block_at c1 = chain_block_at c"
      using main_chain_verify_block [of e c "b_hash b" "b_height b"] c1(1)
      by (simp_all add: main_chain_def chain_block_at_def fun_eq_iff)
    have "chain_settings c1 = chain_settings c"
      using kept_verify_block [of c c e "b_hash b" "b_height b"] c1(1) by (simp add: kept_def)
    then have h1: "holds_blocks e T g R ?v t c1"
      using main h(7-9,12) main_line_same [of R t c c1]
      by (intro holds_blocks_change [OF assms(1) _ c1(3)]) (simp_all add: tip_at_def main_rooted_def)
    have mono: "is_verified (?v k)" if "is_verified (v k)" for k using that c1(2) by simp
    note head = stored_header [OF c1(3) assms(2)] and tip = holds_blocks_tip [OF h1]
    have inner: "verify_chain_inner e c (b_height b) (b_hash b) =
      (if b_prev_hash b = b_hash t then extend_tip e c1 (b_height b) (b_hash b) (header_of (record_of ?v b)) default_add_result
       else try_reorg e c1 (b_height b) (b_hash b) (header_of (record_of ?v b)) default_add_result)"
      using par find_missing_record(1) [OF assms(1,2) True] c1(1,2) head tip(1,2)
      by (auto simp: verify_chain_inner_def default_add_result_def)
    show ?thesis
    proof (cases "b_prev_hash b = b_hash t")
      case ext: True
      from extend_tip_step [OF h1 assms(2) ext] obtain c' r' xs where
        "extend_tip e c1 (b_height b) (b_hash b) (header_of (record_of ?v b)) default_add_result = (c', Ok (r', xs))"
        "missing_blocks r' = []" "set xs = (\<lambda>b. (b_height b, b_hash b)) ` children R b"
        "holds_blocks e T g R ?v b c'" "b_total_pow t < b_total_pow b" by blast
      with inner ext mono c1(2) show ?thesis
        by (intro exI [of _ c'] exI [of _ ?v] exI [of _ r'] exI [of _ xs] exI [of _ b]) simp
    next
      case fork: False
      have v1: "line_verified g R ?v b" using v mono unfolding line_verified_def by blast
      obtain c' r' xs t' where
        "try_reorg e c1 (b_height b) (b_hash b) (header_of (record_of ?v b)) default_add_result = (c', Ok (r', xs))"
        "fst ` set (missing_blocks r') \<subseteq> gaps R b" "set xs = (\<lambda>b. (b_height b, b_hash b)) ` children R b"
        "holds_blocks e T g R ?v t' c'" "b_total_pow t \<le> b_total_pow t'"
        "rooted g R b \<longrightarrow> b_total_pow b \<le> b_total_pow t'"
        using try_reorg_step [OF h1 assms(2) fork v1] by (elim exE conjE) (rule that)
      note step = this
      show ?thesis
      proof (intro exI conjI)
        show "verify_chain_inner e c (b_height b) (b_hash b) = (c', Ok (r', xs))"
          using inner fork step(1) by (simp only: if_False)
        show "\<forall>k. is_verified (v k) \<longrightarrow> is_verified (?v k)" using mono by blast
        show "good g R b \<longrightarrow> is_verified (?v (b_hash b))" using c1(2) by simp
      qed (rule step)+
    qed
  qed
qed

section \<open>The queue\<close>

abbreviation block_ref :: "p2block \<Rightarrow> uncle_ref" where
  "block_ref b \<equiv> (b_height b, b_hash b)"

text \<open>
  The state of the queue after the blocks \<open>ps\<close> were processed, where \<open>x\<close> is the block
  that was added: what is not verified or heavier than the tip has not been processed yet, and
  what is to be processed descends from \<open>x\<close> by processed blocks.
\<close>

definition pending :: "p2block set \<Rightarrow> p2block \<Rightarrow> fixed_hash list \<Rightarrow> p2block \<Rightarrow> bool" where
  "pending R x ps b \<longleftrightarrow> descends R x b \<and> b_hash b \<notin> set ps"

definition reached :: "p2block set \<Rightarrow> p2block \<Rightarrow> fixed_hash list \<Rightarrow> p2block \<Rightarrow> bool" where
  "reached R x ps b \<longleftrightarrow> descends R x b \<and> (b = x \<or> (\<exists>p\<in>R. is_parent p b \<and> b_hash p \<in> set ps))"

definition working ::
    "'l ext \<Rightarrow> p2block set \<Rightarrow> p2block \<Rightarrow> p2block set \<Rightarrow> p2block \<Rightarrow> (fixed_hash \<Rightarrow> verified_status) \<Rightarrow> p2block
     \<Rightarrow> 'l p2chain \<Rightarrow> fixed_hash list \<Rightarrow> uncle_ref list \<Rightarrow> chain_add_result \<Rightarrow> bool" where
  "working e T g R x v t c ps q acc \<longleftrightarrow> holds_blocks e T g R v t c \<and> x \<in> R
     \<and> (\<forall>b\<in>R. good g R b \<longrightarrow> is_verified (v (b_hash b)) \<or> pending R x ps b)
     \<and> (\<forall>b. rooted g R b \<longrightarrow> b_total_pow b \<le> b_total_pow t \<or> pending R x ps b)
     \<and> (\<forall>b\<in>R. b_hash b \<in> set ps \<longrightarrow> reached R x ps b)
     \<and> (\<forall>u\<in>set q. \<exists>b\<in>R. u = block_ref b \<and> reached R x ps b)
     \<and> (\<forall>b\<in>R. reached R x ps b \<longrightarrow> b_hash b \<in> set ps \<or> block_ref b \<in> set q)
     \<and> fst ` set (missing_blocks acc) \<subseteq> gaps R x \<and> hm_ok (missing_blocks acc)"

lemma workingD:
  assumes "working e T g R x v t c ps q acc"
  shows "holds_blocks e T g R v t c" "x \<in> R"
    "b \<in> R \<Longrightarrow> good g R b \<Longrightarrow> is_verified (v (b_hash b)) \<or> pending R x ps b"
    "rooted g R b \<Longrightarrow> b_total_pow b \<le> b_total_pow t \<or> pending R x ps b"
    "b \<in> R \<Longrightarrow> b_hash b \<in> set ps \<Longrightarrow> reached R x ps b"
    "u \<in> set q \<Longrightarrow> \<exists>b\<in>R. u = block_ref b \<and> reached R x ps b"
    "b \<in> R \<Longrightarrow> reached R x ps b \<Longrightarrow> b_hash b \<in> set ps \<or> block_ref b \<in> set q"
    "fst ` set (missing_blocks acc) \<subseteq> gaps R x" "hm_ok (missing_blocks acc)"
  using assms unfolding working_def by simp_all

lemma set_enqueue:
  "set (enqueue cur ps items q) \<subseteq> set q \<union> set items
   \<and> set q \<subseteq> set (enqueue cur ps items q)
   \<and> (\<forall>u\<in>set items. u = cur \<or> snd u \<in> set ps \<or> u \<in> set (enqueue cur ps items q))"
proof (induction cur ps items q rule: enqueue.induct)
  case (2 cur ps item items q)
  then show ?case by (auto split: if_splits)
qed simp

lemma reached_mono: "reached R x ps b \<Longrightarrow> set ps \<subseteq> set ps' \<Longrightarrow> reached R x ps' b"
  unfolding reached_def by blast

text \<open>Between the added block and a block that was reached everything was processed.\<close>

lemma processed_line:
  assumes "working e T g R x v t c ps q acc"
  shows "descends R a p \<Longrightarrow> a \<in> R \<Longrightarrow> descends R x a \<Longrightarrow> b_hash p \<in> set ps \<Longrightarrow> b_hash a \<in> set ps"
proof (induction rule: descends.induct)
  case (descends_child a p b)
  note h = holds_blocksD [OF workingD(1) [OF assms]]
  have pR: "p \<in> R" using descends_mem [OF descends_child.hyps(1)] descends_child.prems(1) by auto
  have "descends R x p" by (rule descends_trans [OF descends_child.hyps(1) descends_child.prems(2)])
  then have "b \<noteq> x" using descends_height descends_child.hyps(3) by (fastforce simp: is_parent_def)
  then obtain p' where p': "p' \<in> R" "is_parent p' b" "b_hash p' \<in> set ps"
    using workingD(5) [OF assms descends_child.hyps(2) descends_child.prems(3)] by (auto simp: reached_def)
  have "p' = p" using parent_unique [OF h(10) _ _ p'(2) descends_child.hyps(3)] p'(1) pR h(2) by blast
  with p' descends_child show ?case by simp
qed simp

lemma working_line_verified:
  assumes "working e T g R x v t c ps q acc" "b \<in> R" "reached R x ps b"
  shows "line_verified g R v b"
proof -
  note h = holds_blocksD [OF workingD(1) [OF assms(1)]]
  have "is_verified (v (b_hash a))" if a: "a \<in> R" "descends R a b" "a \<noteq> b" "rooted g R a" for a
  proof (rule ccontr)
    assume "\<not> is_verified (v (b_hash a))"
    then have p: "descends R x a" "b_hash a \<notin> set ps"
      using workingD(3) [OF assms(1) a(1) rooted_good [OF a(4)]] by (auto simp: pending_def)
    have "b \<noteq> x" using descends_height [OF p(1)] descends_height [OF a(2)] a(3) by auto
    then obtain q where q: "q \<in> R" "is_parent q b" "b_hash q \<in> set ps"
      using assms(3) by (auto simp: reached_def)
    obtain q' where q': "descends R a q'" "is_parent q' b"
      using a(2,3) by (auto simp: descends_iff [of R a b])
    have "q' \<in> R" using descends_mem [OF q'(1)] a(1) by auto
    then have "q' = q" using parent_unique [OF h(10) _ _ q'(2) q(2)] q(1) h(2) by blast
    with processed_line [OF assms(1) _ a(1) p(1) q(3)] q'(1) p(2) show False by simp
  qed
  then show ?thesis unfolding line_verified_def by blast
qed

lemma combine_missing_ok: "hm_ok m \<Longrightarrow> hm_ok (combine_missing xs m)"
  by (induction xs m rule: combine_missing.induct) (simp_all add: hm.ok_put)

text \<open>A round keeps the state of the queue.\<close>

lemma working_step:
  assumes "working e T g R x v t c ps (u # qs) acc"
  shows "\<exists>c' v' t' r xs. verify_chain_inner e c (fst u) (snd u) = (c', Ok (r, xs))
    \<and> working e T g R x v' t' c' (snd u # ps) (enqueue u (snd u # ps) xs qs) (combine acc r)"
proof -
  note w = workingD [OF assms]
  note h = holds_blocksD [OF w(1)]
  obtain b where b: "b \<in> R" "u = block_ref b" "reached R x ps b" using w(6) [of u] by auto
  have dxb: "descends R x b" using b(3) by (simp add: reached_def)
  obtain c' v' r xs t' where inner: "verify_chain_inner e c (b_height b) (b_hash b) = (c', Ok (r, xs))"
    and hb: "holds_blocks e T g R v' t' c'" and xs: "set xs = block_ref ` children R b"
    and mr: "fst ` set (missing_blocks r) \<subseteq> gaps R b"
    and mono: "\<And>k. is_verified (v k) \<Longrightarrow> is_verified (v' k)" and vb: "good g R b \<Longrightarrow> is_verified (v' (b_hash b))"
    and work: "b_total_pow t \<le> b_total_pow t'" "rooted g R b \<Longrightarrow> b_total_pow b \<le> b_total_pow t'"
    using inner_step [OF w(1) b(1) working_line_verified [OF assms b(1,3)]]
    by (elim exE conjE) (rule that, assumption+, erule allE, erule mp, assumption, erule mp, assumption+,
      erule mp [of "rooted g R b"], assumption)
  let ?ps = "snd u # ps" and ?q = "enqueue u (snd u # ps) xs qs"
  have same: "b_hash a = b_hash b \<longleftrightarrow> a = b" if "a \<in> R" for a
    using that b(1) h(2,10) by (auto dest: inj_onD)
  have pend: "pending R x ?ps a" if "pending R x ps a" "a \<noteq> b" for a
  proof -
    have "a \<in> R" using descends_mem [of R x a] that w(2) by (auto simp: pending_def)
    with that same b(2) show ?thesis by (simp add: pending_def)
  qed
  have grow: "reached R x ps a \<Longrightarrow> reached R x ?ps a" for a by (rule reached_mono) auto
  have child: "reached R x ?ps a \<and> a \<in> R" if "a \<in> children R b" for a
    using that dxb b(1,2) by (auto simp: reached_def children_def intro: descends.descends_child)
  note enq = set_enqueue [of u ?ps xs qs]
  have "working e T g R x v' t' c' ?ps ?q (combine acc r)"
    unfolding working_def
  proof (intro conjI ballI allI impI)
    fix a assume "a \<in> R" "good g R a"
    then show "is_verified (v' (b_hash a)) \<or> pending R x ?ps a"
      using w(3) [of a] mono vb pend by blast
  next
    fix a assume "rooted g R a"
    then show "b_total_pow a \<le> b_total_pow t' \<or> pending R x ?ps a"
      using w(4) [of a] work pend [of a] by (metis order.trans)
  next
    fix a assume "a \<in> R" "b_hash a \<in> set ?ps"
    then show "reached R x ?ps a"
      using w(5) [of a] same [of a] b grow by auto
  next
    fix y assume "y \<in> set ?q"
    then consider "y \<in> set qs" | "y \<in> set xs" using enq by blast
    then show "\<exists>a\<in>R. y = block_ref a \<and> reached R x ?ps a"
    proof cases
      case 1
      with w(6) [of y] grow show ?thesis by auto
    next
      case 2
      with xs child show ?thesis by blast
    qed
  next
    fix a assume a: "a \<in> R" "reached R x ?ps a"
    show "b_hash a \<in> set ?ps \<or> block_ref a \<in> set ?q"
    proof (cases "reached R x ps a")
      case True
      with w(7) [OF a(1)] enq b(2) show ?thesis by auto
    next
      case False
      then obtain p where p: "p \<in> R" "is_parent p a" "b_hash p = b_hash b"
        using a(2) b(2) by (auto simp: reached_def)
      then have "a \<in> children R b" using same [OF p(1)] a(1) by (auto simp: children_def)
      then have "block_ref a \<in> set xs" using xs by auto
      with enq b(2) show ?thesis by fastforce
    qed
  next
    have "gaps R b \<subseteq> gaps R x" by (rule gaps_below [OF h(10,2) w(2) dxb])
    with mr w(8) have "fst ` set (missing_blocks acc) \<union> fst ` set (missing_blocks r) \<subseteq> gaps R x" by simp
    then show "fst ` set (missing_blocks (combine acc r)) \<subseteq> gaps R x"
      unfolding combine_missing_blocks by (rule order.trans [OF conjunct2 [OF combine_missing_keys]])
    show "hm_ok (missing_blocks (combine acc r))"
      using combine_missing_ok [OF w(9)] by (simp add: combine_missing_blocks)
  qed (use hb w(2) in simp_all)
  with inner b(2) show ?thesis by auto
qed

section \<open>A block is taken in\<close>

text \<open>Every block whose parent is on record is verified, and no rooted block is heavier than the tip.\<close>

definition received :: "'l ext \<Rightarrow> p2block set \<Rightarrow> p2block \<Rightarrow> p2block set \<Rightarrow> 'l p2chain \<Rightarrow> bool" where
  "received e T g R c \<longleftrightarrow> (\<exists>v t. holds_blocks e T g R v t c
     \<and> (\<forall>b\<in>R. good g R b \<longrightarrow> is_verified (v (b_hash b)))
     \<and> (\<forall>b. rooted g R b \<longrightarrow> b_total_pow b \<le> b_total_pow t))"

lemma working_done:
  assumes "working e T g R x v t c ps [] acc"
  shows "received e T g R c"
proof -
  note w = workingD [OF assms]
  have ps: "descends R y b \<Longrightarrow> y = x \<Longrightarrow> b_hash b \<in> set ps" for y b
  proof (induction rule: descends.induct)
    case (descends_self y)
    then show ?case using w(2) w(7) [of x] by (simp add: reached_def descends.descends_self)
  next
    case (descends_child y p b)
    have "p \<in> R" using descends_mem [OF descends_child.hyps(1)] descends_child.prems w(2) by auto
    then have "reached R x ps b"
      using descends.descends_child [OF descends_child.hyps] descends_child by (auto simp: reached_def)
    with w(7) [OF descends_child.hyps(2)] show ?case by simp
  qed
  have "\<not> pending R x ps b" for b using ps by (auto simp: pending_def)
  with w(1,3,4) show ?thesis unfolding received_def by blast
qed

lemma loop_takes_in:
  "working e T g R x v t c ps q acc \<Longrightarrow> snd (verify_chain_loop e n c q ps acc) \<noteq> Diverge \<Longrightarrow>
   \<exists>c' r. verify_chain_loop e n c q ps acc = (c', Ok r) \<and> received e T g R c'"
proof (induction n arbitrary: v t c ps q acc)
  case 0
  then show ?case by (cases q) (auto dest: working_done)
next
  case (Suc n)
  show ?case
  proof (cases q)
    case Nil
    with Suc.prems working_done show ?thesis by auto
  next
    case (Cons u qs)
    obtain c' v' t' r xs where step: "verify_chain_inner e c (fst u) (snd u) = (c', Ok (r, xs))"
      "working e T g R x v' t' c' (snd u # ps) (enqueue u (snd u # ps) xs qs) (combine acc r)"
      using working_step [OF Suc.prems(1) [unfolded Cons]] by blast
    note h = holds_blocksD [OF workingD(1) [OF step(2)]]
    have "length (map fst (missing_blocks (combine acc r))) \<le> 1"
      using workingD(8,9) [OF step(2)] by (intro gaps_single [OF h(10,2)]) (auto simp: hm_ok_def)
    then have "\<not> MAX_MISSING_PARENTS \<le> length (missing_blocks (combine acc r))"
      by (simp add: MAX_MISSING_PARENTS_def)
    with Suc.IH [OF step(2)] Suc.prems(2) step(1) show ?thesis
      by (simp add: Cons Let_def)
  qed
qed

text \<open>Filing a block: the main chain stays as it is.\<close>

lemma filed:
  assumes "holds_blocks e T g R v t c" "b \<in> T" "placeable g (unat (ch_share_window c)) (insert b R)"
    and c': "stored (insert b R) v' c'" "chain_settings c' = chain_settings c" "ch_current_tip c' = ch_current_tip c"
    and "\<And>i. chain_block_at c' i = chain_block_at c i \<or> (chain_block_at c i = None \<and> chain_block_at c' i = Some zero_hash)"
  shows "holds_blocks e T g (insert b R) v' t c'"
proof -
  note h = holds_blocksD [OF assms(1)]
  have w: "ch_share_window c' = ch_share_window c" using c'(2) by (simp add: chain_settings_def)
  have line: "main_line (insert b R) t c'" if "low_blocks T (ch_share_window c)"
  proof -
    have old: "main_line R t c" by (rule h(12) [OF that])
    have up: "chain_block_at c i = Some k \<Longrightarrow> chain_block_at c' i = Some k" for i k using assms(7) [of i] by auto
    have "x \<in> R \<and> descends R x t" if "x \<in> insert b R" "descends (insert b R) x t" for x
      using rooted_line [OF h(10) _ _ treeD(2) [OF h(1)], of "insert b R" R g t x] assms(2) h(2,3,8) that
      by (auto simp: rooted_def)
    then have "on_line (insert b R) t c'" using old up unfolding main_line_def on_line_def by blast
    moreover have "chain_block_at c' i = None \<or> chain_block_at c' i = Some zero_hash" if "b_height t < i" for i
      using old that assms(7) [of i] by (auto simp: main_line_def)
    ultimately show ?thesis by (simp add: main_line_def)
  qed
  have "main_rooted g (insert b R) c'"
    unfolding main_rooted_def
  proof (intro allI impI)
    fix i k assume "chain_block_at c' i = Some k"
    with assms(7) [of i] have "k = zero_hash \<or> chain_block_at c i = Some k" by auto
    with main_rooted_mono [OF h(7), of "insert b R"]
    show "k = zero_hash \<or> (\<exists>a. rooted g (insert b R) a \<and> b_height a = i \<and> b_hash a = k)"
      by (auto simp: main_rooted_def)
  qed
  moreover have "tip_at t c'" using h(9) assms(7) [of "b_height t"] c'(3) by (auto simp: tip_at_def)
  moreover have "rooted g (insert b R) t" using h(8) by (rule rooted_mono) auto
  ultimately show ?thesis
    using h assms(2,3) c' w line roomy_settings [OF c'(2)] by (simp add: holds_blocks_def)
qed

lemma filed_working:
  assumes "holds_blocks e T g R v t c" "b \<in> T"
    and "\<And>a. a \<in> R \<Longrightarrow> good g R a \<Longrightarrow> is_verified (v (b_hash a))"
    and "\<And>a. rooted g R a \<Longrightarrow> b_total_pow a \<le> b_total_pow t"
    and "holds_blocks e T g (insert b R) (v(b_hash b := s)) t c'"
  shows "working e T g (insert b R) b (v(b_hash b := s)) t c' [] [block_ref b] default_add_result"
proof -
  note h = holds_blocksD [OF assms(1)]
  let ?R = "insert b R"
  have "is_verified ((v(b_hash b := s)) (b_hash a)) \<or> pending ?R b [] a" if a: "a \<in> ?R" "good g ?R a" for a
  proof (cases "descends ?R b a")
    case True
    then show ?thesis by (simp add: pending_def)
  next
    case False
    then have ab: "a \<noteq> b" "a \<in> R" using a(1) by (auto intro: descends_self)
    have "\<not> is_parent b a" using False a(1) by (auto intro: descends.intros)
    then have "good g R a" using a(2) by (auto simp: good_def)
    moreover have "b_hash a \<noteq> b_hash b" using ab h(2,10) assms(2) by (auto dest: inj_onD)
    ultimately show ?thesis using assms(3) [OF ab(2)] by simp
  qed
  moreover have "b_total_pow a \<le> b_total_pow t \<or> pending ?R b [] a" if "rooted g ?R a" for a
    using rooted_insert [OF that] assms(4) by (auto simp: pending_def)
  ultimately show ?thesis
    using assms(5) by (auto simp: working_def reached_def default_add_result_def intro: descends_self)
qed

text \<open>Whatever status the block comes with.\<close>

lemma add_takes_in:
  assumes "received e T g R c" "b \<in> T" "placeable g (unat (ch_share_window c)) (insert b R)"
  shows "\<exists>c' r. add_block_to_chain e c (b\<lparr>b_verified := st\<rparr>) = (c', Ok r) \<and> received e T g (insert b R) c'"
proof -
  obtain v t where hb: "holds_blocks e T g R v t c"
    and good: "\<And>a. a \<in> R \<Longrightarrow> good g R a \<Longrightarrow> is_verified (v (b_hash a))"
    and max: "\<And>a. rooted g R a \<Longrightarrow> b_total_pow a \<le> b_total_pow t"
    using assms(1) unfolding received_def by blast
  note h = holds_blocksD [OF hb]
  have us: "b_uncles b = []" by (rule treeD(7) [OF h(1) assms(2)])
  let ?b = "b\<lparr>b_verified := st\<rparr>"
  have ret: "snd (add_block_to_chain e c ?b) \<noteq> Diverge" by (rule add_block_not_Diverge [OF storedD(1) [OF h(5)]])
  obtain l where g: "level_at_height c (b_height g) = Some l" using stored_level [OF h(5,3)] by blast
  then have ne: "ch_levels c \<noteq> []" by (auto simp: level_at_height_def)
  let ?v = "v(b_hash b := st)"
  have "\<exists>c1. add_block_to_chain e c ?b = verify_chain e c1 (b_height b) (b_hash b) \<and> holds_blocks e T g (insert b R) ?v t c1"
  proof (cases "level_at_height c (b_height b)")
    case (Some l)
    obtain c1 where c1: "add_block_at (b_height b) ?b c = (c1, Ok ())" "stored (insert b R) ?v c1"
      using stored_add_block_at [OF h(5,10,2) assms(2) Some, of st] by blast
    have main: "ch_current_tip c1 = ch_current_tip c" "chain_block_at c1 = chain_block_at c"
      using main_chain_add_block_at [of "b_height b" ?b c] c1(1) by (simp_all add: main_chain_def chain_block_at_def fun_eq_iff)
    have "chain_settings c1 = chain_settings c"
      using kept_add_block_at [of c c "b_height b" ?b] c1(1) by (simp add: kept_def)
    then have "holds_blocks e T g (insert b R) ?v t c1"
      using main by (intro filed [OF hb assms(2,3) c1(2)]) auto
    then show ?thesis using us ne Some c1 by (auto simp: add_block_to_chain_def add_block_inner_def Let_def)
  next
    case None
    obtain l s where new: "level_new ?b (ch_block_cache c) = (l, s)" by (cases "level_new ?b (ch_block_cache c)")
    let ?c = "(put_level (b_height b) l c)\<lparr>ch_block_cache := s\<rparr>"
    have "lv_chain_block l = zero_hash" using new by (auto simp: level_new_def)
    then have "chain_block_at ?c i = chain_block_at c i \<or> (chain_block_at c i = None \<and> chain_block_at ?c i = Some zero_hash)" for i
      using None by (auto simp: chain_block_at_def)
    then have "holds_blocks e T g (insert b R) ?v t ?c"
      by (intro filed [OF hb assms(2,3) stored_new_level [OF h(5,10,2) assms(2) None new]]) simp_all
    then show ?thesis using us ne None new by (auto simp: add_block_to_chain_def add_block_inner_def Let_def)
  qed
  then obtain c1 where c1: "add_block_to_chain e c ?b = verify_chain e c1 (b_height b) (b_hash b)"
    "holds_blocks e T g (insert b R) ?v t c1" by blast
  have add: "add_block_to_chain e c ?b = verify_chain_loop e (Suc (chain_size c1)) c1 [block_ref b] [] default_add_result"
    using c1(1) by (simp only: verify_chain_def)
  show ?thesis
    using loop_takes_in [OF filed_working [OF hb assms(2) good max c1(2)] ret [unfolded add]] unfolding add by blast
qed

text \<open>The first block, into a chain without blocks, whatever status it comes with.\<close>

lemma first_block:
  assumes "block_tree e g T" "roomy e T c" "stored {} v c"
  shows "\<exists>c' r. add_block_to_chain e c (g\<lparr>b_verified := st\<rparr>) = (c', Ok r) \<and> received e T g {g} c'"
proof -
  note tree = treeD [OF assms(1)]
  have none: "level_at_height c i = None" for i using storedD(5) [OF assms(3)] by auto
  obtain l s where new: "level_new (g\<lparr>b_verified := st\<rparr>) (ch_block_cache c) = (l, s)"
    by (cases "level_new (g\<lparr>b_verified := st\<rparr>) (ch_block_cache c)")
  let ?c = "(put_level (b_height g) l c)\<lparr>ch_block_cache := s\<rparr>"
  have s1: "stored {g} (v(b_hash g := st)) ?c" (is "stored _ ?v _")
    using stored_new_level [OF assms(3) tree(3) _ tree(1) none, of st] new by simp
  have add: "add_block_to_chain e c (g\<lparr>b_verified := st\<rparr>) = verify_chain e ?c (b_height g) (b_hash g)"
    using none tree(7) [OF tree(1)] new by (auto simp: add_block_to_chain_def add_block_inner_def Let_def)
  have r1: "roomy e T ?c" using assms(2) by (subst roomy_settings [of _ c]) simp_all
  have gT: "{g} \<subseteq> T" using tree(1) by simp
  obtain c1 y where c1: "verify_block e ?c (b_hash g) (b_height g) = (c1, Ok ())" "is_verified y"
    "stored {g} (?v(b_hash g := y)) c1"
    using verify_block_passes [OF assms(1) s1 gT r1, of g] by (auto simp: good_def)
  have "chain_settings c1 = chain_settings ?c"
    using kept_verify_block [of ?c ?c e "b_hash g" "b_height g"] c1(1) by (simp add: kept_def)
  then have r2: "roomy e T c1" and set1: "chain_settings c1 = chain_settings c"
    using r1 roomy_settings by (blast, simp)
  have zero: "chain_block_at c1 i = (if i = b_height g then Some zero_hash else None)" for i
    using main_chain_verify_block [of e ?c "b_hash g" "b_height g"] c1(1) none new
    by (auto simp: main_chain_def chain_block_at_def fun_eq_iff level_new_def)
  then have tip: "get_tip c1 = None"
    using zero [of "ch_current_tip c1"] unfolding get_tip_def chain_block_at_def
    by (cases "level_at_height c1 (ch_current_tip c1)") (simp_all split: if_splits)
  have "main_rooted g {g} c1" using zero by (simp add: main_rooted_def)
  from set_new_tip_stored [OF c1(3) gT r2 _ this rooted_start] obtain c2 where
    c2: "set_new_tip e c1 (b_height g) (b_hash g) = (c2, Ok ())" "stored {g} (?v(b_hash g := y)) c2"
    "main_rooted g {g} c2" "tip_at g c2"
    "\<And>i. chain_block_at c2 i = (if i = b_height g then Some (b_hash g) else chain_block_at c1 i)" by auto
  have line: "main_line {g} g c2"
    using on_line_start [OF tree(2), of c2 "{g}"] c2(5) zero by (auto simp: main_line_def)
  have set2: "chain_settings c2 = chain_settings c"
    using kept_set_new_tip [of c1 c1 e "b_height g" "b_hash g"] c2(1) set1 by (simp add: kept_def)
  have par: "get_parent_of ?c (b_height g) (b_hash g) = Some (b_prev_hash g)"
    using stored_lookups(1) [OF s1, of g] tree(7) [OF tree(1)] by simp
  let ?r = "result_set_new_tip (b_hash g) (b_height g) default_add_result"
  have "verify_chain_inner e ?c (b_height g) (b_hash g) = (c2, Ok (?r, []))"
    using par c1 c2 tip tree(2) stored_header [OF c1(3), of g]
    by (simp add: verify_chain_inner_def find_missing_def default_add_result_def)
  moreover have "missing_blocks (combine default_add_result ?r) = []"
    by (simp add: combine_missing_blocks result_set_new_tip_def default_add_result_def)
  ultimately have added: "add_block_to_chain e c (g\<lparr>b_verified := st\<rparr>) = (c2, Ok (combine default_add_result ?r))"
    by (simp add: add verify_chain_def Let_def MAX_MISSING_PARENTS_def)
  have "holds_blocks e T g {g} (?v(b_hash g := y)) g c2"
    using assms(1) gT roomy_settings [OF set2] assms(2) c2 line
    by (simp add: holds_blocks_def placeable_def rooted_start)
  moreover have "rooted g {g} b \<Longrightarrow> b = g" for b using rooted_mem by fastforce
  ultimately have "received e T g {g} c2" using c1(2) unfolding received_def by fastforce
  with added show ?thesis by blast
qed

section \<open>Any order\<close>

definition heaviest :: "p2block \<Rightarrow> p2block set \<Rightarrow> p2block \<Rightarrow> bool" where
  "heaviest g R t \<longleftrightarrow> rooted g R t \<and> (\<forall>b. rooted g R b \<longrightarrow> b_total_pow b \<le> b_total_pow t)"

lemma heaviest_work: "heaviest g R t \<Longrightarrow> heaviest g R t' \<Longrightarrow> b_total_pow t = b_total_pow t'"
  unfolding heaviest_def by (blast intro: antisym)

lemma received_view:
  assumes "received e T g R c"
  shows "\<exists>t. heaviest g R t \<and> tip_hash c = Some (b_hash t) \<and> total_accumulated_tip_difficulty e' c = b_total_pow t"
proof -
  obtain v t where hb: "holds_blocks e T g R v t c" and max: "\<forall>b. rooted g R b \<longrightarrow> b_total_pow b \<le> b_total_pow t"
    using assms unfolding received_def by blast
  from holds_blocks_tip(1,3) [OF hb] holds_blocksD(8) [OF hb] max show ?thesis
    by (auto simp: tip_hash_def heaviest_def)
qed

text \<open>As long as the blocks stay below the share window, the main chain is known at every height.\<close>

lemma received_chain:
  assumes "received e T g R c" "low_blocks T (ch_share_window c)"
  shows "\<exists>t. heaviest g R t \<and> ch_current_tip c = b_height t \<and> tip_hash c = Some (b_hash t) \<and> on_line R t c
    \<and> (\<forall>i. b_height t < i \<longrightarrow> chain_block_at c i = (if \<exists>b\<in>R. b_height b = i then Some zero_hash else None))"
proof -
  obtain v t where hb: "holds_blocks e T g R v t c" and max: "\<forall>b. rooted g R b \<longrightarrow> b_total_pow b \<le> b_total_pow t"
    using assms unfolding received_def by blast
  note h = holds_blocksD [OF hb]
  have "chain_block_at c i = None \<longleftrightarrow> \<not> (\<exists>b\<in>R. b_height b = i)" for i
    using storedD(5) [OF h(5), of i] by (cases "level_at_height c i") (auto simp: chain_block_at_def)
  then have "\<forall>i. b_height t < i \<longrightarrow> chain_block_at c i = (if \<exists>b\<in>R. b_height b = i then Some zero_hash else None)"
    using h(12) [OF assms(2)] by (auto simp: main_line_def)
  moreover have "heaviest g R t \<and> ch_current_tip c = b_height t \<and> tip_hash c = Some (b_hash t) \<and> on_line R t c"
    using h(8,9) h(12) [OF assms(2)] max holds_blocks_tip(1) [OF hb]
    by (simp add: tip_at_def main_line_def heaviest_def tip_hash_def)
  ultimately show ?thesis by blast
qed

definition takes_in :: "'l ext \<Rightarrow> p2block set \<Rightarrow> p2block \<Rightarrow> nat \<Rightarrow> p2block set \<Rightarrow> 'l p2chain \<Rightarrow> bool" where
  "takes_in e T g w R c \<longleftrightarrow> received e T g R c \<and> unat (ch_share_window c) = w"

interpretation arrivals: convergent "add_block_to_chain e" "\<lambda>R. R \<subseteq> T \<and> placeable g w R"
  "takes_in e T g w" "total_accumulated_tip_difficulty e" for e :: "'l ext" and T g w
proof unfold_locales
  fix R and s :: "'l p2chain" and b
  assume a: "takes_in e T g w R s" "insert b R \<subseteq> T \<and> placeable g w (insert b R)"
  then obtain s' r where s': "add_block_to_chain e s b = (s', Ok r)" "received e T g (insert b R) s'"
    using add_takes_in [of e T g R s b "b_verified b"] by (auto simp: takes_in_def)
  have "chain_settings s' = chain_settings s"
    using kept_add_block [of s s e b] s'(1) by (simp add: kept_def)
  then have "ch_share_window s' = ch_share_window s" by (simp add: chain_settings_def)
  with a s' show "\<exists>s' r. add_block_to_chain e s b = (s', Ok r) \<and> takes_in e T g w (insert b R) s'"
    by (auto simp: takes_in_def)
next
  fix R and s s' :: "'l p2chain"
  assume "takes_in e T g w R s" "takes_in e T g w R s'"
  then have "received e T g R s" "received e T g R s'" by (simp_all add: takes_in_def)
  from received_view [OF this(1), of e] received_view [OF this(2), of e]
  show "total_accumulated_tip_difficulty e s = total_accumulated_tip_difficulty e s'"
    using heaviest_work by metis
qed

end
