(* ===== verification/ConvergeCorrect.thy ===== *)
theory ConvergeCorrect
  imports Convergence
begin

text \<open>
  What follows for nodes: two of them that are given the same blocks, each in an order of its
  own, agree on the work of the tip, and a restart from the block cache loses none of it.
\<close>

section \<open>Orders in which blocks may arrive\<close>

definition in_window :: "p2block \<Rightarrow> nat \<Rightarrow> p2block list \<Rightarrow> bool" where
  "in_window g w bs \<longleftrightarrow> (\<forall>i\<le>length bs. placeable g w (insert g (set (take i bs))))"

lemma stretch_start:
  assumes "block_tree e g T" "R \<subseteq> T"
  shows "stretch R n b \<Longrightarrow> 0 < n \<Longrightarrow> \<exists>a\<in>R. descends R a b \<and> unat (b_height a) + n = unat (b_height b) + 1"
proof (induction n arbitrary: b)
  case (Suc n)
  show ?case
  proof (cases "n = 0")
    case True
    with Suc.prems show ?thesis by (auto intro: descends_self)
  next
    case False
    then obtain p where p: "p \<in> R" "is_parent p b" "stretch R n p" "b \<in> R" using Suc.prems by auto
    from Suc.IH [OF p(3)] False obtain a where "a \<in> R" "descends R a p" "unat (b_height a) + n = unat (b_height p) + 1" by auto
    with p show ?thesis by (auto simp: is_parent_def intro!: bexI [of _ a] intro: descends.intros)
  qed
qed simp

text \<open>Below the height of the share window every order will do.\<close>

lemma placeable_low:
  assumes "block_tree e g T" "R \<subseteq> T" "g \<in> R" "\<And>b. b \<in> R \<Longrightarrow> unat (b_height b) < w"
  shows "placeable g w R"
  unfolding placeable_def
proof (intro ballI)
  fix b assume b: "b \<in> R"
  show "rooted g R b \<or> \<not> stretch R w b"
  proof (cases "stretch R w b")
    case True
    have "0 < w" using assms(4) [OF b] by simp
    from stretch_start [OF assms(1,2) True this] obtain a where a: "a \<in> R" "descends R a b"
      "unat (b_height a) + w = unat (b_height b) + 1" by blast
    have "b_height a = 0" using a(3) assms(4) [OF b] by (simp add: word_unat_eq_iff)
    then have "a = g" using tree_height_0 [OF assms(1)] a(1) assms(2) by auto
    with a assms(3) show ?thesis by (simp add: rooted_def)
  qed simp
qed

lemma in_window_low:
  assumes "block_tree e g T" "set bs \<subseteq> T" "\<And>b. b \<in> T \<Longrightarrow> unat (b_height b) < w"
  shows "in_window g w bs"
  unfolding in_window_def
proof (intro allI impI)
  fix i
  have "insert g (set (take i bs)) \<subseteq> T" using assms(2) treeD(1) [OF assms(1)] by (auto dest: in_set_takeD)
  then show "placeable g w (insert g (set (take i bs)))"
    by (rule placeable_low [OF assms(1)]) (use assms(3) \<open>insert g (set (take i bs)) \<subseteq> T\<close> in auto)
qed

section \<open>New chains\<close>

lemma settings_add_all: "chain_settings (fst (add_all (add_block_to_chain e) bs c)) = chain_settings c"
proof -
  have "kept c x \<Longrightarrow> kept c (fst (add_all (add_block_to_chain e) bs x))" for x
  proof (induction bs arbitrary: x)
    case (Cons b bs)
    then show ?case by (auto intro!: kept_bindS kept_add_block)
  qed simp
  then show ?thesis by (simp add: kept_def)
qed

lemma stored_new_empty:
  assumes "new_empty e algo n w bt [] mr ms byp p = Ok c"
  shows "stored {} v c"
proof -
  have "chain_wf c" using chain_wf_new_empty [OF assms] by (simp add: cache_wf_def cache_get_def)
  moreover have "level_at_height c h = None" "cache_get (ch_block_cache c) k = None" for h k
    using assms by (auto simp: new_empty_def level_at_height_def cache_get_def)
  ultimately show ?thesis by (simp add: stored_def get_block_header_at_height_def)
qed

text \<open>The chain leaves out the checks a running node leaves out, and has room for the blocks.\<close>

definition room_for :: "p2block set \<Rightarrow> u64 \<Rightarrow> verified_status \<Rightarrow> bool" where
  "room_for T n byp \<longleftrightarrow> checks_off byp \<and> unat n + 2020 < 2 ^ 64
     \<and> (\<forall>b\<in>T. unat (b_height b) < unat n + 2020)"

lemma roomy_new_empty:
  assumes "new_empty e algo n w bt cache mr ms byp p = Ok c" "room_for T n byp"
  shows "roomy e T c"
proof -
  have "add_chk n SAFETY_MARGIN = (Ok (n + 20) :: u64 sc_result)" "unat (n + 20) = unat n + 20"
    using assms(2) by (simp_all add: room_for_def add_chk_def checked_add_def SAFETY_MARGIN_def unat_plus_small)
  then have "add_chk n SAFETY_MARGIN = (Ok (n + 20) :: u64 sc_result)"
    "add_chk (n + 20) MAX_EXTRA_SYNC = (Ok (n + 20 + 2000) :: u64 sc_result)"
    using assms(2) by (simp_all add: room_for_def add_chk_def checked_add_def MAX_EXTRA_SYNC_def)
  with assms show ?thesis
    by (auto simp: roomy_def new_empty_def chain_limit_def room_for_def)
qed

text \<open>The chain with its first block, and the sets of blocks that come up in an order.\<close>

lemma starts:
  assumes "block_tree e g T" "new_empty e algo n w bt [] mr ms byp p = Ok c" "room_for T n byp"
  shows "\<exists>c1 r. add_block_to_chain e c g = (c1, Ok r) \<and> takes_in e T g (unat w) {g} c1"
proof -
  obtain c1 r where c1: "add_block_to_chain e c g = (c1, Ok r)" "received e T g {g} c1"
    using first_block [OF assms(1) roomy_new_empty [OF assms(2,3)] stored_new_empty [OF assms(2)], of "b_verified g"] by auto
  have "chain_settings c1 = chain_settings c" using kept_add_block [of c c e g] c1(1) by (simp add: kept_def)
  then have "ch_share_window c1 = w" using new_empty_settings [OF assms(2)] by (simp add: chain_settings_def)
  with c1 show ?thesis by (simp add: takes_in_def)
qed

lemma prefixes:
  assumes "block_tree e g T" "set bs \<subseteq> T" "in_window g w bs" "i \<le> length bs"
  shows "{g} \<union> set (take i bs) \<subseteq> T \<and> placeable g w ({g} \<union> set (take i bs))"
  using assms treeD(1) [OF assms(1)] by (auto simp: in_window_def dest: in_set_takeD)

lemma arrives:
  assumes "block_tree e g T" "new_empty e algo n w bt [] mr ms byp p = Ok c" "room_for T n byp"
    and "set bs \<subseteq> T" "in_window g (unat w) bs"
  shows "\<exists>d. add_all (add_block_to_chain e) (g # bs) c = (d, Ok ()) \<and> takes_in e T g (unat w) (insert g (set bs)) d"
proof -
  obtain c1 r where c1: "add_block_to_chain e c g = (c1, Ok r)" "takes_in e T g (unat w) {g} c1"
    using starts [OF assms(1-3)] by blast
  from arrivals.all_added [OF c1(2) prefixes [OF assms(1,4,5)]] c1(1) show ?thesis by simp
qed

section \<open>Agreement\<close>

text \<open>Three blocks on a line, and a fork of the first that is heavier than the second.\<close>

abbreviation "tree_0 \<equiv> demo_block 0 1 0 10 0"
abbreviation "tree_1 \<equiv> demo_block 1 2 1 20 0"
abbreviation "tree_2 \<equiv> demo_block 2 3 2 30 0"
abbreviation "tree_fork \<equiv> (demo_block 1 4 1 25 0)\<lparr>b_target_difficulty := 15\<rparr>"

definition demo_tree :: "p2block set" where
  "demo_tree = {tree_0, tree_1, tree_2, tree_fork}"

lemma converge_block_simps [simp]:
  "b_hash (demo_block h k q w v) = k" "b_height (demo_block h k q w v) = h"
  "b_prev_hash (demo_block h k q w v) = q" "b_total_pow (demo_block h k q w v) = w"
  "b_uncles (demo_block h k q w v) = []" "b_target_difficulty (demo_block h k q w v) = 10"
  "b_version (demo_block h k q w v) = PROTOCOL_VERSION" "b_squad (demo_block h k q w v) = ''squad''"
  "b_timestamp (demo_block h k q w v) = 1000 + h"
  by (simp_all add: demo_block_def)

lemma block_tree_demo: "block_tree demo_ext tree_0 demo_tree"
proof -
  have "is_parent tree_0 tree_1" "is_parent tree_1 tree_2" "is_parent tree_0 tree_fork"
    by (simp_all add: is_parent_def)
  moreover have "tree_0 \<noteq> tree_1" "tree_0 \<noteq> tree_2" "tree_0 \<noteq> tree_fork"
    by (auto dest: arg_cong [where f = b_hash])
  moreover have "inj_on b_hash demo_tree" by (auto simp: demo_tree_def inj_on_def)
  ultimately show ?thesis
    by (auto simp: block_tree_def demo_tree_def demo_ext_def)
qed

lemma room_for_demo: "room_for demo_tree 100 30"
  by (simp add: room_for_def demo_tree_def checks_off_def has_defs vs_contains_def vs_flag_defs)

text \<open>The same chain, and what it is after the second block and then the first.\<close>

definition demo_running :: "(epoch_time \<times> difficulty) list p2chain" where
  "demo_running = demo_empty\<lparr>ch_bypass_checks := 30\<rparr>"

definition demo_late :: "(epoch_time \<times> difficulty) list p2chain" where
  "demo_late = (demo_chain
     [(1, \<lparr>lv_height = 1, lv_chain_block = 0, lv_block_headers = [(2, header_of tree_1)]\<rparr>),
      (0, \<lparr>lv_height = 0, lv_chain_block = 1, lv_block_headers = [(1, header_of (demo_block 0 1 0 10 31))]\<rparr>)]
     [tree_1, demo_block 0 1 0 10 31] 0)\<lparr>ch_lwma := [(1000, 10)], ch_bypass_checks := 30\<rparr>"

lemma demo_running_new: "new_empty demo_ext Sha3x 100 10 20 [] 1 10 30 None = Ok demo_running"
  by (simp add: new_empty_def demo_ext_def demo_defs demo_running_def)

lemma demo_window: "set bs \<subseteq> demo_tree \<Longrightarrow> in_window tree_0 (unat (10::u64)) bs"
  by (rule in_window_low [OF block_tree_demo]) (auto simp: demo_tree_def)

text \<open>C4: Two nodes that add the first block and then the same blocks without uncles, each in an
  order of its own and any of them repeatedly (an order in which the line of ancestors of a
  block that does not reach the first block yet breaks off within the share window), take in
  every block without an error, and the tip of each is a heaviest block of all that reach the
  first block, so they agree on the accumulated work of the tip.\<close>

theorem order_of_arrival_is_immaterial:
  assumes "block_tree e g T" "new_empty e algo n w bt [] mr ms byp p = Ok c" "room_for T n byp"
    and "set bs \<subseteq> T" "set bs' = set bs" "in_window g (unat w) bs" "in_window g (unat w) bs'"
  shows "\<exists>d d' t t'. add_all (add_block_to_chain e) (g # bs) c = (d, Ok ())
    \<and> add_all (add_block_to_chain e) (g # bs') c = (d', Ok ())
    \<and> tip_hash d = Some (b_hash t) \<and> heaviest g (insert g (set bs)) t
    \<and> tip_hash d' = Some (b_hash t') \<and> heaviest g (insert g (set bs)) t'
    \<and> total_accumulated_tip_difficulty e d = b_total_pow t
    \<and> total_accumulated_tip_difficulty e d' = total_accumulated_tip_difficulty e d"
proof -
  obtain c1 r where c1: "add_block_to_chain e c g = (c1, Ok r)" "takes_in e T g (unat w) {g} c1"
    using starts [OF assms(1-3)] by blast
  have bs': "set bs' \<subseteq> T" using assms(4,5) by simp
  obtain d d' where d: "add_all (add_block_to_chain e) bs c1 = (d, Ok ())" "add_all (add_block_to_chain e) bs' c1 = (d', Ok ())"
    "takes_in e T g (unat w) ({g} \<union> set bs) d" "takes_in e T g (unat w) ({g} \<union> set bs) d'"
    "total_accumulated_tip_difficulty e d = total_accumulated_tip_difficulty e d'"
    using arrivals.converges [OF c1(2,2) assms(5) [symmetric] prefixes [OF assms(1,4,6)] prefixes [OF assms(1) bs' assms(7)]]
    by blast
  then have r: "received e T g (insert g (set bs)) d" "received e T g (insert g (set bs)) d'"
    by (simp_all add: takes_in_def)
  from received_view [OF r(1), of e] received_view [OF r(2), of e] d(1,2,5) c1(1) show ?thesis
    by (simp only: add_all.simps bindS.simps) metis
qed

theorem order_of_arrival_is_immaterial_witness:
  "\<exists>d d'. add_all (add_block_to_chain demo_ext) [tree_0, tree_2, tree_fork, tree_1] demo_running = (d, Ok ())
    \<and> add_all (add_block_to_chain demo_ext) [tree_0, tree_1, tree_fork, tree_2, tree_1] demo_running = (d', Ok ())
    \<and> total_accumulated_tip_difficulty demo_ext d' = total_accumulated_tip_difficulty demo_ext d"
proof -
  have T: "set [tree_2, tree_fork, tree_1] \<subseteq> demo_tree" "set [tree_1, tree_fork, tree_2, tree_1] \<subseteq> demo_tree"
    "set [tree_1, tree_fork, tree_2, tree_1] = set [tree_2, tree_fork, tree_1]"
    by (auto simp: demo_tree_def)
  from order_of_arrival_is_immaterial [OF block_tree_demo demo_running_new room_for_demo T(1,3)
      demo_window [OF T(1)] demo_window [OF T(2)]]
  show ?thesis by blast
qed

lemma demo_late_adds: "add_all (add_block_to_chain demo_ext) [tree_1, tree_0] demo_running = (demo_late, Ok ())"
  by code_simp

text \<open>The third block is filed and verified, but its parent is not verified.\<close>

definition demo_stuck :: "verified_status \<Rightarrow> (epoch_time \<times> difficulty) list p2chain" where
  "demo_stuck s = (demo_chain
     [(1, \<lparr>lv_height = 1, lv_chain_block = 0, lv_block_headers = [(2, header_of tree_1)]\<rparr>),
      (0, \<lparr>lv_height = 0, lv_chain_block = 1, lv_block_headers = [(1, header_of (demo_block 0 1 0 10 31))]\<rparr>),
      (2, \<lparr>lv_height = 2, lv_chain_block = 0, lv_block_headers = [(3, header_of (demo_block 2 3 2 30 s))]\<rparr>)]
     [tree_1, demo_block 0 1 0 10 31, demo_block 2 3 2 30 s] 0)\<lparr>ch_lwma := [(1000, 10)], ch_bypass_checks := 30\<rparr>"

lemma demo_stuck_filed: "add_block_to_chain demo_ext demo_late tree_2 = verify_chain demo_ext (demo_stuck 0) 2 3"
  by (simp add: add_block_to_chain_def add_block_inner_def Let_def demo_stuck_def level_new_def demo_late_def
      demo_chain_def level_at_height_def demo_block_def cache_insert_def put_level_def)

lemma demo_stuck_status: "new_status demo_ext (demo_stuck 0) tree_2 = Ok 31"
  by code_simp

lemma demo_stuck_verified: "verify_block demo_ext (demo_stuck 0) 3 2 = (demo_stuck 31, Ok ())"
proof -
  have "chain_is_verified (demo_stuck 0) 3 2 = Ok False" by code_simp
  moreover have "level_at_height (demo_stuck 0) 2 =
      Some \<lparr>lv_height = 2, lv_chain_block = 0, lv_block_headers = [(3, header_of tree_2)]\<rparr>"
    "cache_get (ch_block_cache (demo_stuck 0)) 3 = Some tree_2"
    by (simp_all add: demo_stuck_def demo_chain_def level_at_height_def demo_block_def cache_get_def)
  moreover have "add_block_at 2 (tree_2\<lparr>b_verified := 31\<rparr>) (demo_stuck 0) = (demo_stuck 31, Ok ())"
    by (simp add: add_block_at_def level_add_block_def demo_stuck_def demo_chain_def level_at_height_def
        demo_block_def cache_insert_def put_level_def)
  ultimately show ?thesis using demo_stuck_status by (simp add: verify_block_def level_get_def)
qed

lemma demo_stuck_lookups:
  "find_missing (demo_stuck 0) 2 3 2 = Ok default_add_result" "get_parent_of (demo_stuck 0) 2 3 = Some 2"
  "get_block_header_at_height (demo_stuck 31) 2 3 = Some (header_of (demo_block 2 3 2 30 31))"
  "map_option lv_chain_block (get_tip (demo_stuck 31)) = Some 1"
  by code_simp+

lemma demo_stuck_fork:
  "try_reorg demo_ext (demo_stuck 31) 2 3 (header_of (demo_block 2 3 2 30 31)) default_add_result
     = (demo_stuck 31, Ok (default_add_result, []))"
  by code_simp

lemma demo_late_stays:
  "add_block_to_chain demo_ext demo_late tree_2 = (demo_stuck 31, Ok default_add_result)"
  "tip_hash (demo_stuck 31) = Some 1"
proof -
  have "verify_chain_inner demo_ext (demo_stuck 0) 2 3 = (demo_stuck 31, Ok (default_add_result, []))"
    using demo_stuck_lookups demo_stuck_verified demo_stuck_fork
    by (auto simp: verify_chain_inner_def default_add_result_def is_verified_def vs_contains_def vs_flag_defs)
  moreover have "combine default_add_result default_add_result = default_add_result"
    by (simp add: combine_def default_add_result_def)
  ultimately show "add_block_to_chain demo_ext demo_late tree_2 = (demo_stuck 31, Ok default_add_result)"
    by (simp add: demo_stuck_filed verify_chain_def Let_def MAX_MISSING_PARENTS_def default_add_result_def)
  show "tip_hash (demo_stuck 31) = Some 1" using demo_stuck_lookups(4) by (simp add: tip_hash_def)
qed

lemma add_all_append: "add_all f (xs @ ys) s = bindS (add_all f xs s) (\<lambda>s _. add_all f ys s)"
proof (induction xs arbitrary: s)
  case (Cons x xs)
  then show ?case by (cases "f s x"; cases "snd (f s x)") simp_all
qed simp

lemma demo_in_order:
  "\<exists>d. add_all (add_block_to_chain demo_ext) [tree_0, tree_1, tree_2] demo_running = (d, Ok ())
    \<and> tip_hash d = Some (b_hash tree_2)"
proof -
  have T: "set [tree_1, tree_2] \<subseteq> demo_tree" by (auto simp: demo_tree_def)
  obtain d where d: "add_all (add_block_to_chain demo_ext) [tree_0, tree_1, tree_2] demo_running = (d, Ok ())"
    "takes_in demo_ext demo_tree tree_0 (unat (10::u64)) {tree_0, tree_1, tree_2} d"
    using arrives [OF block_tree_demo demo_running_new room_for_demo T demo_window [OF T]] by auto
  let ?R = "{tree_0, tree_1, tree_2}"
  have r: "rooted tree_0 ?R tree_2"
    by (rule rooted_child [OF rooted_child [OF rooted_start, of _ _ tree_1]]) (simp_all add: is_parent_def)
  obtain t where t: "rooted tree_0 ?R t" "tip_hash d = Some (b_hash t)" "b_total_pow tree_2 \<le> b_total_pow t"
    using received_view [of demo_ext demo_tree tree_0 ?R d demo_ext] d(2) r unfolding takes_in_def heaviest_def by blast
  have "t = tree_2" using rooted_mem [OF t(1)] t(3) by auto
  with d(1) t(2) show ?thesis by blast
qed


text \<open>C5: As long as the blocks stay below the height of the share window and the heaviest one is
  unique, two nodes that add the same blocks in different orders end with the same main chain
  at every height: the line of ancestors of the heaviest block, and no chain block above it.\<close>

theorem same_blocks_same_chain:
  assumes "block_tree e g T" "new_empty e algo n w bt [] mr ms byp p = Ok c" "room_for T n byp"
    and "set bs \<subseteq> T" "set bs' = set bs" "low_blocks T w"
    and "heaviest g (insert g (set bs)) t" "\<forall>t'. heaviest g (insert g (set bs)) t' \<longrightarrow> t' = t"
  shows "\<exists>d d'. add_all (add_block_to_chain e) (g # bs) c = (d, Ok ())
    \<and> add_all (add_block_to_chain e) (g # bs') c = (d', Ok ())
    \<and> main_chain d = main_chain d' \<and> tip_hash d = Some (b_hash t) \<and> on_line (insert g (set bs)) t d"
proof -
  let ?R = "insert g (set bs)"
  have low: "in_window g (unat w) xs" if "set xs \<subseteq> T" for xs
    using assms(6) by (intro in_window_low [OF assms(1) that]) (simp add: low_blocks_def word_less_nat_alt)
  obtain d where d: "add_all (add_block_to_chain e) (g # bs) c = (d, Ok ())" "takes_in e T g (unat w) ?R d"
    using arrives [OF assms(1-4) low [OF assms(4)]] by blast
  have bs': "set bs' \<subseteq> T" using assms(4,5) by simp
  obtain d' where d': "add_all (add_block_to_chain e) (g # bs') c = (d', Ok ())" "takes_in e T g (unat w) ?R d'"
    using arrives [OF assms(1-3) bs' low [OF bs']] assms(5) by auto
  have known: "ch_current_tip x = b_height t \<and> tip_hash x = Some (b_hash t) \<and> on_line ?R t x
    \<and> (\<forall>i. b_height t < i \<longrightarrow> chain_block_at x i = (if \<exists>b\<in>?R. b_height b = i then Some zero_hash else None))"
    if x: "takes_in e T g (unat w) ?R x" for x
  proof -
    have "ch_share_window x = w" using x by (simp add: takes_in_def word_unat_eq_iff)
    then have "received e T g ?R x" "low_blocks T (ch_share_window x)"
      using x assms(6) by (simp_all add: takes_in_def)
    from received_chain [OF this] assms(8) show ?thesis by metis
  qed
  note k = known [OF d(2)] and k' = known [OF d'(2)]
  have "chain_block_at d i = chain_block_at d' i" for i
  proof (cases "b_height t < i")
    case False
    then obtain x where "x \<in> ?R" "b_height x = i" "descends ?R x t"
      using rooted_ancestor [OF treeD(2) [OF assms(1)], of ?R t i] assms(7) by (auto simp: heaviest_def not_less)
    with k k' show ?thesis unfolding on_line_def by metis
  qed (use k k' in simp)
  then have "main_chain d = main_chain d'"
    using k k' by (simp add: main_chain_def chain_block_at_def fun_eq_iff)
  with d(1) d'(1) k show ?thesis by blast
qed

theorem same_blocks_same_chain_witness:
  "\<exists>d d'. add_all (add_block_to_chain demo_ext) [tree_0, tree_2, tree_fork, tree_1] demo_running = (d, Ok ())
    \<and> add_all (add_block_to_chain demo_ext) [tree_0, tree_1, tree_fork, tree_2, tree_1] demo_running = (d', Ok ())
    \<and> main_chain d = main_chain d' \<and> tip_hash d = Some (b_hash tree_2)"
proof -
  have T: "set [tree_2, tree_fork, tree_1] \<subseteq> demo_tree"
    "set [tree_1, tree_fork, tree_2, tree_1] = set [tree_2, tree_fork, tree_1]"
    "insert tree_0 (set [tree_2, tree_fork, tree_1]) = demo_tree"
    by (auto simp: demo_tree_def)
  have low: "low_blocks demo_tree 10" by (auto simp: low_blocks_def demo_tree_def)
  have "rooted tree_0 demo_tree tree_2"
    by (rule rooted_child [OF rooted_child [OF rooted_start, of _ _ tree_1]]) (simp_all add: is_parent_def demo_tree_def)
  then have top: "heaviest tree_0 (insert tree_0 (set [tree_2, tree_fork, tree_1])) tree_2"
    unfolding T(3) by (auto simp: heaviest_def demo_tree_def dest!: rooted_mem)
  have "\<forall>t'. heaviest tree_0 (insert tree_0 (set [tree_2, tree_fork, tree_1])) t' \<longrightarrow> t' = tree_2"
  proof (intro allI impI)
    fix t' assume t': "heaviest tree_0 (insert tree_0 (set [tree_2, tree_fork, tree_1])) t'"
    have "t' \<in> demo_tree" using t' rooted_mem unfolding heaviest_def T(3) by blast
    with heaviest_work [OF t' top] show "t' = tree_2" by (auto simp: demo_tree_def)
  qed
  from same_blocks_same_chain [OF block_tree_demo demo_running_new room_for_demo T(1,2) low top this]
  show ?thesis by blast
qed

section \<open>Restart\<close>

text \<open>The blocks of the cache are the received ones with the status they got.\<close>

lemma is_parent_record [simp]: "is_parent (record_of v p) (record_of w b) = is_parent p b"
  by (simp add: is_parent_def)

lemma block_tree_record:
  assumes "block_tree e g T" shows "block_tree e (record_of v g) (record_of v ` T)"
proof -
  note tree = treeD [OF assms]
  have "inj_on b_hash (record_of v ` T)"
    using tree(3) by (auto simp: inj_on_def)
  moreover have "\<exists>p\<in>record_of v ` T. is_parent p (record_of v b)
      \<and> unat (b_total_pow b) = unat (b_total_pow p) + unat (b_target_difficulty b)"
    if "b \<in> T" "record_of v b \<noteq> record_of v g" for b
    using tree(12) [OF that(1)] that(2) by (metis imageI is_parent_record record_of_simps(5))
  moreover have "0 < b_target_difficulty b" if "b \<in> T" "record_of v b \<noteq> record_of v g" for b
    using tree(11) [OF that(1)] that(2) by blast
  moreover have "b_hash ` record_of v ` T = b_hash ` T" by (simp add: image_image)
  ultimately show ?thesis
    using assms unfolding block_tree_def by auto
qed

lemma record_inj: "inj_on b_hash T \<Longrightarrow> a \<in> T \<Longrightarrow> b \<in> T \<Longrightarrow> record_of v a = record_of v b \<Longrightarrow> a = b"
  by (metis inj_onD record_of_simps(1))

lemma descends_record: "descends S a b \<Longrightarrow> descends (record_of v ` S) (record_of v a) (record_of v b)"
  by (induction rule: descends.induct) (auto intro: descends.intros)

lemma descends_record_back:
  assumes "inj_on b_hash T" "S \<subseteq> T"
  shows "descends (record_of v ` S) x y \<Longrightarrow> x = record_of v a \<Longrightarrow> a \<in> S \<Longrightarrow>
    \<exists>b\<in>S. y = record_of v b \<and> descends S a b"
proof (induction rule: descends.induct)
  case (descends_child x p y)
  then obtain b b' where "b \<in> S" "p = record_of v b" "descends S a b" "b' \<in> S" "y = record_of v b'" by blast
  with descends_child.hyps(3) show ?case
    by (intro bexI [of _ b']) (auto intro: descends.descends_child [of S a b])
qed (auto intro: descends.intros)

lemma rooted_record:
  assumes "inj_on b_hash T" "S \<subseteq> T" "g \<in> S" "b \<in> T"
  shows "rooted (record_of v g) (record_of v ` S) (record_of v b) \<longleftrightarrow> rooted g S b"
proof
  assume "rooted (record_of v g) (record_of v ` S) (record_of v b)"
  then obtain b' where "b' \<in> S" "record_of v b = record_of v b'" "descends S g b'"
    using descends_record_back [OF assms(1,2) _ refl assms(3)] by (auto simp: rooted_def)
  with record_inj [OF assms(1,4)] assms(2,3) show "rooted g S b" by (auto simp: rooted_def)
qed (auto simp: rooted_def intro: descends_record)

lemma stretch_record:
  assumes "inj_on b_hash T" "S \<subseteq> T"
  shows "b \<in> T \<Longrightarrow> stretch (record_of v ` S) n (record_of v b) \<Longrightarrow> stretch S n b"
proof (induction n arbitrary: b)
  case (Suc n)
  then obtain b' where "b' \<in> S" "record_of v b = record_of v b'" by auto
  then have "b \<in> S" using record_inj [OF assms(1) Suc.prems(1)] assms(2) by auto
  with Suc assms(2) show ?case by (auto 4 4)
qed simp

lemma placeable_record:
  assumes "inj_on b_hash T" "S \<subseteq> T" "g \<in> S" "placeable g w S"
  shows "placeable (record_of v g) w (record_of v ` S)"
  unfolding placeable_def
proof (intro ballI)
  fix y assume "y \<in> record_of v ` S"
  then obtain b where b: "b \<in> S" "y = record_of v b" by auto
  then have "b \<in> T" using assms(2) by auto
  with assms(4) b rooted_record [OF assms(1-3)] stretch_record [OF assms(1,2)]
  show "rooted (record_of v g) (record_of v ` S) y \<or> \<not> stretch (record_of v ` S) w y"
    by (auto simp: placeable_def)
qed

text \<open>Loading skips what the filters reject and adds the rest in order.\<close>

lemma load_loop_filter:
  "load_loop e sq dt bs c = load_loop e sq dt (filter (\<lambda>b. \<not> skip_on_load sq dt b) bs) c"
  by (induction e sq dt bs c rule: load_loop.induct) (auto split: prod.splits outcome.splits)

lemma load_loop_adds:
  "(\<And>b. b \<in> set bs \<Longrightarrow> \<not> skip_on_load sq dt b) \<Longrightarrow> add_all (add_block_to_chain e) bs c = (d, Ok ()) \<Longrightarrow>
   load_loop e sq dt bs c = Ok d"
proof (induction bs arbitrary: c)
  case (Cons b bs)
  then show ?case by (cases "add_block_to_chain e c b"; cases "snd (add_block_to_chain e c b)") auto
qed simp

text \<open>The part of a set of blocks that holds every rooted block and all that is below a block of it.\<close>

lemma placeable_part:
  assumes "placeable g w R" "P \<subseteq> R" "g \<in> P"
    and "\<And>a b. rooted g R a \<Longrightarrow> b \<in> P \<Longrightarrow> unat (b_height a) < unat (b_height b) \<Longrightarrow> a \<in> P"
  shows "placeable g w P"
  unfolding placeable_def
proof (intro ballI)
  fix b assume b: "b \<in> P"
  have "descends R y a \<Longrightarrow> y = g \<Longrightarrow> a \<in> P \<Longrightarrow> rooted g P a" for y a
  proof (induction rule: descends.induct)
    case (descends_child y p a)
    have p: "rooted g R p" using descends_child.hyps(1) descends_child.prems(1) assms(2,3) by (auto simp: rooted_def)
    have "unat (b_height p) < unat (b_height a)" using descends_child.hyps(3) by (simp add: is_parent_def)
    then have "p \<in> P" using assms(4) [OF p descends_child.prems(2)] by simp
    with descends_child show ?case by (intro rooted_child [OF _ descends_child.prems(2) descends_child.hyps(3)]) auto
  qed (simp add: assms(3) rooted_start)
  then have "rooted g R b \<longrightarrow> rooted g P b" using b by (auto simp: rooted_def)
  with assms(1,2) b stretch_mono [of P w b R] show "rooted g P b \<or> \<not> stretch P w b"
    by (auto simp: placeable_def)
qed

lemma rooted_part:
  assumes "P \<subseteq> R" "\<And>a. rooted g R a \<Longrightarrow> a \<in> P"
  shows "rooted g R b \<Longrightarrow> rooted g P b"
proof -
  have g: "rooted g R b \<Longrightarrow> g \<in> P" for b using assms(2) [of g] by (auto simp: rooted_def descends_self)
  have "descends R y a \<Longrightarrow> y = g \<Longrightarrow> g \<in> R \<Longrightarrow> rooted g P a" for y a
  proof (induction rule: descends.induct)
    case (descends_child y p a)
    have "rooted g R a" using descends.descends_child [OF descends_child.hyps] descends_child.prems by (simp add: rooted_def)
    with descends_child assms(2) show ?case by (intro rooted_child [OF _ _ descends_child.hyps(3)]) auto
  qed (use g in \<open>auto simp: rooted_start rooted_def intro: descends_self\<close>)
  then show "rooted g R b \<Longrightarrow> rooted g P b" by (auto simp: rooted_def)
qed

text \<open>A sorted list of the statuses' blocks: its prefixes hold all that is below a block of theirs.\<close>

lemma sorted_prefix:
  assumes "sorted (map f xs)" "x \<in> set xs" "y \<in> set (take i xs)" "f x < f y"
  shows "x \<in> set (take i xs)"
proof -
  obtain j k where j: "j < length xs" "xs ! j = x" and k: "k < i" "k < length xs" "xs ! k = y"
    using assms(2,3) by (auto simp: in_set_conv_nth)
  have "j < i"
  proof (rule ccontr)
    assume "\<not> j < i"
    then have "f (xs ! k) \<le> f (xs ! j)"
      using sorted_nth_mono [OF assms(1), of k j] j k by simp
    with j k assms(4) show False by simp
  qed
  with j show ?thesis by (auto simp: in_set_conv_nth)
qed

lemma loads_received:
  assumes "received e T g R c" "new_empty e algo n w bt [] mr ms byp p = Ok c0" "room_for T n byp"
    and "w = ch_share_window c"
    and filters: "\<And>b. b \<in> T \<Longrightarrow> b_version b = PROTOCOL_VERSION \<and> b_squad b = sq \<and> dt \<le> b_timestamp b"
  shows "\<exists>c'. load_loop e sq dt (cache_all_blocks (ch_block_cache c)) c0 = Ok c'
    \<and> total_accumulated_tip_difficulty e c' = total_accumulated_tip_difficulty e c"
proof -
  obtain v t where hb: "holds_blocks e T g R v t c"
    and good: "\<And>b. b \<in> R \<Longrightarrow> good g R b \<Longrightarrow> is_verified (v (b_hash b))"
    and max: "\<And>b. rooted g R b \<Longrightarrow> b_total_pow b \<le> b_total_pow t"
    using assms(1) unfolding received_def by blast
  note h = holds_blocksD [OF hb]
  let ?f = "record_of v" and ?bs = "cache_all_blocks (ch_block_cache c)"
  let ?keep = "\<lambda>b. \<not> skip_on_load sq dt b"
  define K where "K = {b \<in> R. has_target_difficulty_verified (v (b_hash b))}"
  have "hm_ok (ch_block_cache c)" using storedD(1) [OF h(5)] by (simp add: chain_wf_def cache_wf_def)
  then have "set ?bs = {y. \<exists>k. cache_get (ch_block_cache c) k = Some y}" by (rule bc.all_blocks_set)
  then have all: "set ?bs = ?f ` R" using storedD(4) [OF h(5)] by auto
  have keep: "?keep (?f b) \<longleftrightarrow> b \<in> K" if "b \<in> R" for b
    using filters [OF subsetD [OF h(2) that]] that by (auto simp: skip_on_load_def K_def record_of_def)
  have kept: "set (filter ?keep ?bs) = ?f ` K"
    using all keep by (auto simp: K_def)
  have sorted: "sorted (map b_height (filter ?keep ?bs))"
    by (intro sorted_filter) (simp add: cache_all_blocks_def)
  have KR: "K \<subseteq> R" "K \<subseteq> T" using h(2) by (auto simp: K_def)
  have rK: "a \<in> K" if "rooted g R a" for a
    using good [OF rooted_mem [OF that] rooted_good [OF that]] rooted_mem [OF that] by (simp add: K_def is_verified_iff)
  have gK: "g \<in> K" by (rule rK [OF rooted_start [OF h(3)]])
  obtain y ys where ys: "filter ?keep ?bs = y # ys"
    using kept gK by (cases "filter ?keep ?bs") auto
  have "set (y # ys) = ?f ` K" using kept unfolding ys .
  then have yK: "y \<in> ?f ` K" "?f g \<in> set (y # ys)" using gK by auto
  have "y = ?f g"
  proof -
    have "b_height y \<le> b_height (?f g)" using sorted yK(2) unfolding ys by auto
    then have "b_height y = 0" using treeD(2) [OF h(1)] by simp
    moreover obtain b where "b \<in> K" "y = ?f b" using yK(1) by auto
    ultimately show ?thesis using tree_height_0 [OF h(1), of b] KR by auto
  qed
  then have list: "filter ?keep ?bs = ?f g # ys" using ys by simp
  have set_ys: "set ys \<subseteq> ?f ` K" using kept unfolding list by auto
  have full: "insert (?f g) (set ys) = ?f ` K" using kept unfolding list by simp
  have window: "in_window (?f g) (unat w) ys"
    unfolding in_window_def
  proof (intro allI impI)
    fix i
    define P where "P = {b \<in> K. b = g \<or> ?f b \<in> set (take i ys)}"
    have PK: "P \<subseteq> R" "P \<subseteq> T" "g \<in> P" using KR gK by (auto simp: P_def)
    have image: "insert (?f g) (set (take i ys)) = ?f ` P"
    proof -
      have "set (take i ys) \<subseteq> ?f ` K" using set_ys set_take_subset by fast
      then show ?thesis unfolding P_def using gK by blast
    qed
    have "a \<in> P" if a: "rooted g R a" "b \<in> P" "unat (b_height a) < unat (b_height b)" for a b
    proof (cases "a = g \<or> b = g")
      case True
      then show ?thesis using PK(3) a(3) treeD(2) [OF h(1)] by auto
    next
      case False
      have "?f a \<noteq> ?f g" using record_inj [OF h(10)] False rK [OF a(1)] gK KR by blast
      then have "?f a \<in> set ys" using full rK [OF a(1)] by auto
      moreover have "?f b \<in> set (take i ys)" using a(2) False by (simp add: P_def)
      moreover have "sorted (map b_height ys)" using sorted unfolding list by simp
      ultimately have "?f a \<in> set (take i ys)"
        using sorted_prefix [of b_height ys "?f a" "?f b" i] a(3) by (simp add: word_less_nat_alt)
      with rK [OF a(1)] show ?thesis by (simp add: P_def)
    qed
    then have "placeable g (unat w) P"
      using placeable_part [OF h(6) PK(1,3)] assms(4) by simp
    from placeable_record [OF h(10) PK(2,3) this]
    show "placeable (?f g) (unat w) (insert (?f g) (set (take i ys)))" by (simp add: image)
  qed
  have room: "room_for (?f ` T) n byp" using assms(3) by (simp add: room_for_def)
  have ysT: "set ys \<subseteq> ?f ` T" using set_ys KR(2) by blast
  obtain d where d: "add_all (add_block_to_chain e) (?f g # ys) c0 = (d, Ok ())"
    "takes_in e (?f ` T) (?f g) (unat w) (?f ` K) d"
    using arrives [OF block_tree_record [OF h(1)] assms(2) room ysT window] unfolding full by blast
  have "load_loop e sq dt (filter ?keep ?bs) c0 = Ok d"
    by (rule load_loop_adds) (simp, use d(1) in \<open>simp only: list\<close>)
  then have load: "load_loop e sq dt ?bs c0 = Ok d" using load_loop_filter [of e sq dt ?bs c0] by simp
  obtain u where u: "rooted (?f g) (?f ` K) u" "total_accumulated_tip_difficulty e d = b_total_pow u"
    "\<forall>b. rooted (?f g) (?f ` K) b \<longrightarrow> b_total_pow b \<le> b_total_pow u"
    using received_view [of e "?f ` T" "?f g" "?f ` K" d e] d(2) unfolding takes_in_def heaviest_def by blast
  obtain b where b: "b \<in> K" "u = ?f b" using rooted_mem [OF u(1)] by auto
  have "rooted g K b" using u(1) b rooted_record [OF h(10) KR(2) gK] KR by auto
  then have "b_total_pow u \<le> b_total_pow t" using max rooted_mono [OF _ KR(1)] b(2) by simp
  moreover have "rooted (?f g) (?f ` K) (?f t)"
    using rooted_part [OF KR(1) rK h(8)] rooted_record [OF h(10) KR(2) gK, of t] h(2,11) by auto
  ultimately have "b_total_pow u = b_total_pow t" using u(3) by fastforce
  with load u(2) holds_blocks_tip(3) [OF hb, of e] show ?thesis by auto
qed

text \<open>C14: A node that took in blocks in any such order and is started again, with its block cache
  as the old blocks, loads them without an error and ends with a tip of the same accumulated
  work, if the blocks are of its squad and version and not too old for the loading.\<close>

theorem restart_keeps_work:
  assumes "block_tree e g T" "new_empty e algo n w bt [] mr ms byp p = Ok c" "room_for T n byp"
    and "set bs \<subseteq> T" "in_window g (unat w) bs" "add_all (add_block_to_chain e) (g # bs) c = (d, Ok ())"
    and "earliest_load_date ago n bt = Ok dt"
    and "\<forall>b\<in>T. b_version b = PROTOCOL_VERSION \<and> b_squad b = sq \<and> dt \<le> b_timestamp b"
  shows "\<exists>d'. try_load e ago algo n w bt (Ok (cache_all_blocks (ch_block_cache d))) [] sq mr ms byp p = Ok d'
    \<and> total_accumulated_tip_difficulty e d' = total_accumulated_tip_difficulty e d"
proof -
  have "takes_in e T g (unat w) (insert g (set bs)) d"
    using arrives [OF assms(1-5)] assms(6) by auto
  then have "received e T g (insert g (set bs)) d" "w = ch_share_window d"
    by (simp_all add: takes_in_def word_unat_eq_iff)
  from loads_received [OF this(1) assms(2,3) this(2), of sq dt] assms(2,7,8) show ?thesis
    by (auto simp: try_load_def)
qed

theorem restart_keeps_work_witness:
  "\<exists>c d d'. new_empty demo_ext Sha3x 100 10 20 [] 1 10 30 None = Ok c
    \<and> add_all (add_block_to_chain demo_ext) [tree_0, tree_2, tree_fork, tree_1] c = (d, Ok ())
    \<and> try_load demo_ext (\<lambda>secs. Some 0) Sha3x 100 10 20 (Ok (cache_all_blocks (ch_block_cache d))) [] ''squad'' 1 10 30 None = Ok d'
    \<and> total_accumulated_tip_difficulty demo_ext d' = total_accumulated_tip_difficulty demo_ext d"
proof -
  obtain c where c: "new_empty demo_ext Sha3x 100 10 20 [] 1 10 30 None = Ok c" using demo_running_new by blast
  have T: "set [tree_2, tree_fork, tree_1] \<subseteq> demo_tree" by (auto simp: demo_tree_def)
  obtain d where d: "add_all (add_block_to_chain demo_ext) [tree_0, tree_2, tree_fork, tree_1] c = (d, Ok ())"
    using arrives [OF block_tree_demo c room_for_demo T demo_window [OF T]] by blast
  have "earliest_load_date (\<lambda>secs. Some 0) 100 20 = Ok 0" by code_simp
  from restart_keeps_work [OF block_tree_demo c room_for_demo T demo_window [OF T] d this, of "''squad''"] c d
  show ?thesis by (auto simp: demo_tree_def)
qed

end
