(* ===== verification/SyncedBlocks.thy ===== *)
theory SyncedBlocks
  imports ConvergeCorrect
begin

text \<open>
  A share chain that is fed by \<open>add_synced_blocks\<close> (\<open>sharechain/in_memory.rs\<close>), seen as the
  set of blocks it has: it takes in a block of the tree whether or not it has it already, a new
  node starting with the first block. So it interprets \<open>any_order\<close>.
\<close>

section \<open>A block from the peer\<close>

text \<open>
  The node leaves out the checks of the difficulties, and the blocks pass the rest of
  \<open>validate_block\<close> whatever is on record.
\<close>

definition sync_ready ::
    "'l ext \<Rightarrow> epoch_time \<Rightarrow> epoch_time \<Rightarrow> p2block set \<Rightarrow> 'l share_chain \<Rightarrow> bool" where
  "sync_ready e now now' T s \<longleftrightarrow>
     has_difficulty_verified (sc_bypass_checks s) \<and> has_target_difficulty_verified (sc_bypass_checks s)
     \<and> difficulty_from_u64 e (ch_minimum_randomx_target_difficulty (sc_p2_chain s)) \<noteq> None
     \<and> difficulty_from_u64 e (ch_minimum_sha3_target_difficulty (sc_p2_chain s)) \<noteq> None
     \<and> (\<forall>b\<in>T. b_version b = PROTOCOL_VERSION \<and> b_squad b = sc_squad s
          \<and> b_timestamp b \<le> future_limit e now now'
          \<and> (\<exists>r. block_output_root e b = Some r \<and> bh_output_mr (b_original_header b) \<noteq> r)
          \<and> bh_pow_algo (b_original_header b) = sc_pow_algo s
          \<and> (\<exists>d. header_difficulty e (sc_params s) (b_original_header b) = Ok d))"

lemma sync_readyD:
  assumes "sync_ready e t t' T s"
  shows "has_difficulty_verified (sc_bypass_checks s)" "has_target_difficulty_verified (sc_bypass_checks s)"
    "difficulty_from_u64 e (ch_minimum_randomx_target_difficulty (sc_p2_chain s)) \<noteq> None"
    "difficulty_from_u64 e (ch_minimum_sha3_target_difficulty (sc_p2_chain s)) \<noteq> None"
    and "b \<in> T \<Longrightarrow> b_version b = PROTOCOL_VERSION" "b \<in> T \<Longrightarrow> b_squad b = sc_squad s"
    and "b \<in> T \<Longrightarrow> b_timestamp b \<le> future_limit e t t'"
    and "b \<in> T \<Longrightarrow> \<exists>r. block_output_root e b = Some r \<and> bh_output_mr (b_original_header b) \<noteq> r"
    and "b \<in> T \<Longrightarrow> bh_pow_algo (b_original_header b) = sc_pow_algo s"
    and "b \<in> T \<Longrightarrow> \<exists>d. header_difficulty e (sc_params s) (b_original_header b) = Ok d"
  using assms unfolding sync_ready_def by blast+

lemma sync_ready_settings: "share_settings s' = share_settings s \<Longrightarrow> sync_ready e t t' T s' = sync_ready e t t' T s"
  by (simp add: sync_ready_def share_settings_def chain_settings_def)

lemma target_difficulty_Ok:
  assumes "levels_wf c" "lwma_new e DIFFICULTY_ADJUSTMENT_WINDOW (ch_block_time c) \<noteq> None"
    and "difficulty_from_u64 e (ch_minimum_randomx_target_difficulty c) \<noteq> None"
    and "difficulty_from_u64 e (ch_minimum_sha3_target_difficulty c) \<noteq> None"
  shows "\<exists>r. get_target_difficulty_for_block e c b = Ok r"
proof -
  have t: "target_loop e c n h l \<noteq> Panic" for n h l
    by (induction e c n h l rule: target_loop.induct) (auto simp: Let_def split: option.splits)
  have "get_lwma_difficulty_for_block e c l b \<noteq> Panic" for l
    using assms(3,4) by (auto simp: get_lwma_difficulty_for_block_def split: pow_algorithm.split)
  then have "get_target_difficulty_for_block e c b \<noteq> Panic"
    using t assms(2) by (auto simp: get_target_difficulty_for_block_def Let_def bindO_eq_Panic
        simp del: target_loop.simps split: option.splits)
  with get_target_difficulty_not_Err get_target_difficulty_returns [OF assms(1)]
  show ?thesis by (cases "get_target_difficulty_for_block e c b") auto
qed

text \<open>A block that is not verified yet reaches \<open>add_block_to_chain\<close>, one that is changes nothing.\<close>

lemma synced_block:
  assumes "sync_ready e t t' T s" "b \<in> T" "b_uncles b = []" "levels_wf (sc_p2_chain s)"
    and "lwma_new e DIFFICULTY_ADJUSTMENT_WINDOW (ch_block_time (sc_p2_chain s)) \<noteq> None"
    and "already_added s (b\<lparr>b_verified := st\<rparr>) = Ok None"
    and add: "\<And>x. \<exists>c r. add_block_to_chain e (sc_p2_chain s) (b\<lparr>b_verified := x\<rparr>) = (c, Ok r) \<and> P c"
  shows "\<exists>s' r. submit_block_with_lock e t t' s (b\<lparr>b_verified := st\<rparr>) (sc_params s) True = (s', Ok r) \<and> P (sc_p2_chain s')"
proof -
  let ?b = "b\<lparr>b_verified := st\<rparr>"
  note ready = sync_readyD [OF assms(1)]
  have root: "block_output_root e ?b = block_output_root e b" by (simp add: block_output_root_def)
  obtain r where "get_target_difficulty_for_block e (sc_p2_chain s) ?b = Ok r"
    using target_difficulty_Ok [OF assms(4,5) ready(3,4)] by blast
  moreover obtain k where "block_output_root e b = Some k" "bh_output_mr (b_original_header b) \<noteq> k"
    using ready(8) [OF assms(2)] by blast
  ultimately have "validate_block e t t' s ?b = Ok (case r of None \<Rightarrow> ?b
      | Some d \<Rightarrow> ?b\<lparr>b_verified := set_target_difficulty_verified (b_verified ?b)\<rparr>)"
    using ready(2) ready(7) [OF assms(2)] assms(3)
    by (cases r) (simp_all add: validate_block_def root not_less [symmetric])
  then have "\<exists>x. validate_block e t t' s ?b = Ok (b\<lparr>b_verified := x\<rparr>)"
    by (cases r) auto
  then obtain x where x: "validate_block e t t' s ?b = Ok (b\<lparr>b_verified := x\<rparr>)" by blast
  obtain d where "header_difficulty e (sc_params s) (b_original_header b) = Ok d"
    using ready(10) [OF assms(2)] by blast
  then obtain d where "validate_claimed_difficulty e s (b\<lparr>b_verified := x\<rparr>) (sc_params s) = Ok d"
    using ready(1) ready(9) [OF assms(2)] by (simp add: validate_claimed_difficulty_def)
  moreover obtain c r where "add_block_to_chain e (sc_p2_chain s)
      (b\<lparr>b_verified := set_difficulty_verified x\<rparr>) = (c, Ok r)" "P c" using add by blast
  ultimately show ?thesis
    using x assms(6) by (simp add: submit_block_with_lock_def Let_def)
qed


section \<open>What a node has\<close>

text \<open>A new node has no blocks at all.\<close>

definition follows ::
    "'l ext \<Rightarrow> epoch_time \<Rightarrow> epoch_time \<Rightarrow> p2block set \<Rightarrow> p2block \<Rightarrow> nat \<Rightarrow> p2block set \<Rightarrow> 'l share_chain \<Rightarrow> bool" where
  "follows e now now' T g w R s \<longleftrightarrow> block_tree e g T \<and> (\<forall>b\<in>T. unat (b_height b) < w) \<and> sync_ready e now now' T s
     \<and> (if R = {} then (\<exists>v. stored {} v (sc_p2_chain s)) \<and> roomy e T (sc_p2_chain s)
          \<and> unat (ch_share_window (sc_p2_chain s)) = w
        else takes_in e T g w R (sc_p2_chain s))"

lemma followsD:
  assumes "follows e t t' T g w R s"
  shows "block_tree e g T" "b \<in> T \<Longrightarrow> unat (b_height b) < w" "sync_ready e t t' T s"
    "chain_wf (sc_p2_chain s)" "roomy e T (sc_p2_chain s)" "unat (ch_share_window (sc_p2_chain s)) = w"
    "R \<subseteq> T" "R \<noteq> {} \<Longrightarrow> takes_in e T g w R (sc_p2_chain s)" "R \<noteq> {} \<Longrightarrow> g \<in> R"
    "\<exists>v. stored R v (sc_p2_chain s)"
proof -
  show "block_tree e g T" "b \<in> T \<Longrightarrow> unat (b_height b) < w" "sync_ready e t t' T s"
    "R \<noteq> {} \<Longrightarrow> takes_in e T g w R (sc_p2_chain s)"
    using assms by (auto simp: follows_def)
  show "unat (ch_share_window (sc_p2_chain s)) = w"
    using assms by (auto simp: follows_def takes_in_def split: if_splits)
  have "roomy e T (sc_p2_chain s) \<and> R \<subseteq> T \<and> (R \<noteq> {} \<longrightarrow> g \<in> R) \<and> (\<exists>v. stored R v (sc_p2_chain s))"
  proof (cases "R = {}")
    case False
    then obtain v t where "holds_blocks e T g R v t (sc_p2_chain s)"
      using assms by (auto simp: follows_def takes_in_def received_def)
    from holds_blocksD [OF this] show ?thesis by blast
  qed (use assms in \<open>auto simp: follows_def\<close>)
  then show "roomy e T (sc_p2_chain s)" "R \<subseteq> T" "R \<noteq> {} \<Longrightarrow> g \<in> R" "\<exists>v. stored R v (sc_p2_chain s)" by simp_all
  then show "chain_wf (sc_p2_chain s)" using storedD(1) by blast
qed

text \<open>Adding a block to what the node has.\<close>

lemma follows_add:
  assumes "follows e t t' T g w R s" "b \<in> T" "R = {} \<longrightarrow> b = g"
  shows "\<exists>c r. add_block_to_chain e (sc_p2_chain s) (b\<lparr>b_verified := x\<rparr>) = (c, Ok r) \<and> received e T g (insert b R) c"
proof (cases "R = {}")
  case True
  with followsD(10) [OF assms(1)] obtain v where "stored {} v (sc_p2_chain s)" by blast
  from first_block [OF followsD(1,5) [OF assms(1)] this, of x] True assms(3) show ?thesis by simp
next
  case False
  note f = followsD [OF assms(1)]
  have "placeable g w (insert b R)"
    by (rule placeable_low [OF f(1)]) (use f(2,7) f(9) [OF False] assms(2) in auto)
  moreover have "received e T g R (sc_p2_chain s)" using f(8) [OF False] by (simp add: takes_in_def)
  ultimately show ?thesis using add_takes_in [of e T g R "sc_p2_chain s" b x] f(6) assms(2) by auto
qed

lemma follows_synced:
  assumes "follows e t t' T g w R s" "b \<in> T" "R = {} \<longrightarrow> b = g"
  shows "\<exists>s' r. add_synced_blocks e li t t' s [b\<lparr>b_verified := st\<rparr>] = (s', Ok r) \<and> follows e t t' T g w (insert b R) s'"
proof -
  note f = followsD [OF assms(1)]
  let ?b = "b\<lparr>b_verified := st\<rparr>" and ?c = "sc_p2_chain s"
  obtain v where v: "stored R v ?c" using f(10) by blast
  have settings: "follows e t t' T g w (insert b R) s'"
    if "share_settings s' = share_settings s" "received e T g (insert b R) (sc_p2_chain s')" for s'
  proof -
    have "ch_share_window (sc_p2_chain s') = ch_share_window ?c"
      using that(1) by (simp add: share_settings_def chain_settings_def)
    with f(6) that(2) have "takes_in e T g w (insert b R) (sc_p2_chain s')" by (simp add: takes_in_def)
    with f(1,2,3) sync_ready_settings [OF that(1)] show ?thesis by (simp add: follows_def)
  qed
  have already: "already_added s ?b = Ok None \<or> (already_added s ?b = Ok (Some default_add_result) \<and> b \<in> R)"
  proof (cases "block_exists ?c (b_height b) (b_hash b)")
    case True
    then obtain b' where "b' \<in> R" "b_hash b' = b_hash b" using stored_exists [OF v] by blast
    with inj_onD [OF treeD(3) [OF f(1)]] f(7) assms(2) have b: "b \<in> R" by blast
    obtain l where "level_at_height ?c (b_height b) = Some l" using stored_level [OF v b] by blast
    with stored_get(1) [OF v b] True b show ?thesis
      by (auto simp: already_added_def level_get_def)
  next
    case False
    then show ?thesis
      by (cases "level_at_height ?c (b_height b)") (simp_all add: already_added_def block_exists_alt)
  qed
  have "\<exists>s' r. submit_block_with_lock e t t' s ?b (sc_params s) True = (s', Ok r) \<and> received e T g (insert b R) (sc_p2_chain s')"
  proof (cases "already_added s ?b = Ok None")
    case True
    show ?thesis
      by (rule synced_block [OF f(3) assms(2) treeD(7) [OF f(1) assms(2)] chain_wf_levels [OF f(4)] _ True follows_add [OF assms]])
        (use f(5) in \<open>simp add: roomy_def\<close>)
  next
    case False
    with already have a: "already_added s ?b = Ok (Some default_add_result)" "b \<in> R" by simp_all
    then have "received e T g (insert b R) ?c" using f(8) by (auto simp: takes_in_def insert_absorb)
    with a show ?thesis by (simp add: submit_block_with_lock_def)
  qed
  then obtain s' r where s': "submit_block_with_lock e t t' s ?b (sc_params s) True = (s', Ok r)"
    "received e T g (insert b R) (sc_p2_chain s')" by blast
  have "share_settings s' = share_settings s"
    using settings_with_lock [of s s e t t' ?b "sc_params s" True] s'(1) by (simp add: same_settings_def)
  moreover have "\<exists>r'. add_synced_blocks e li t t' s [?b] = (s', Ok r')"
    using s'(1) sync_readyD(5,6) [OF f(3) assms(2)] by (auto simp: add_synced_blocks_def split: prod.split)
  ultimately show ?thesis using settings s'(2) by blast
qed

interpretation synced: any_order "\<lambda>s b. add_synced_blocks e li t t' s [b\<lparr>b_verified := vs_new\<rparr>]"
  "\<lambda>R. R \<subseteq> T \<and> (R = {} \<or> g \<in> R)" "follows e t t' T g w" for e :: "'l ext" and li t t' T g w
proof unfold_locales
  fix R and s :: "'l share_chain" and b
  assume "follows e t t' T g w R s" "insert b R \<subseteq> T \<and> (insert b R = {} \<or> g \<in> insert b R)"
  then show "\<exists>s' r. add_synced_blocks e li t t' s [b\<lparr>b_verified := vs_new\<rparr>] = (s', Ok r)
      \<and> follows e t t' T g w (insert b R) s'"
    by (intro follows_synced) auto
qed

end
