(* ===== verification/PeerPage.thy ===== *)
theory PeerPage
  imports ConvergeCorrect
begin

text \<open>
  What a peer answers to a request for blocks (\<open>request_sync\<close>, \<open>all_blocks_with_lock\<close> in
  \<open>sharechain/in_memory.rs\<close>): the blocks of its main chain from a height on, when its chain is
  specified by the blocks it has received and nothing is cleaned up.
\<close>

section \<open>The line of ancestors of a tip\<close>

text \<open>\<open>m i\<close> is the ancestor of height \<open>i\<close> of the peer's tip \<open>t\<close>.\<close>

definition line_of :: "p2block \<Rightarrow> p2block set \<Rightarrow> p2block \<Rightarrow> (nat \<Rightarrow> p2block) \<Rightarrow> bool" where
  "line_of g T t m \<longleftrightarrow> m (unat (b_height t)) = t \<and> m 0 = g
     \<and> (\<forall>i\<le>unat (b_height t). m i \<in> T \<and> unat (b_height (m i)) = i \<and> descends T (m i) t)"

lemma same_height_ancestor:
  assumes "block_tree e g T" "a \<in> T" "b \<in> T" "descends T a t" "descends T b t" "unat (b_height a) = unat (b_height b)"
  shows "a = b"
  using descends_linear [OF treeD(3) [OF assms(1)] order_refl assms(3,4,2,5)] descends_height [of T a b]
    descends_height [of T b a] assms(6) by auto

lemma line_ofD:
  assumes "line_of g T t m" "i \<le> unat (b_height t)"
  shows "m i \<in> T" "unat (b_height (m i)) = i" "descends T (m i) t"
  using assms by (auto simp: line_of_def)

lemma line_of_eq:
  assumes "block_tree e g T" "line_of g T t m" "a \<in> T" "descends T a t"
  shows "m (unat (b_height a)) = a"
proof -
  have le: "unat (b_height a) \<le> unat (b_height t)" using descends_height [OF assms(4)] by auto
  from line_ofD [OF assms(2) le] show ?thesis
    by (intro same_height_ancestor [OF assms(1) _ assms(3) _ assms(4)]) auto
qed

lemma ancestor_at:
  assumes "block_tree e g T" "rooted g R t" "i \<le> unat (b_height t)"
  shows "\<exists>x\<in>R. unat (b_height x) = i \<and> descends R x t"
proof -
  have "i < 2 ^ 64" using assms(3) unsigned_less [of "b_height t", where ?'a = nat] by simp
  then have i: "unat (of_nat i :: u64) = i" by (simp add: unsigned_of_nat take_bit_nat_eq_self)
  then have "(of_nat i :: u64) \<le> b_height t" using assms(3) by (simp add: word_le_nat_alt)
  then obtain x where "x \<in> R" "b_height x = of_nat i" "descends R x t"
    using rooted_ancestor [OF treeD(2) [OF assms(1)] assms(2)] by blast
  with i show ?thesis by metis
qed

lemma line_of_exists:
  assumes "block_tree e g T" "rooted g R t" "R \<subseteq> T"
  shows "\<exists>m. line_of g T t m \<and> (\<forall>i\<le>unat (b_height t). m i \<in> R \<and> descends R (m i) t)"
proof -
  note g = treeD(2) [OF assms(1)]
  from ancestor_at [OF assms(1,2)]
  have "\<forall>i. \<exists>x. i \<le> unat (b_height t) \<longrightarrow> x \<in> R \<and> unat (b_height x) = i \<and> descends R x t" by blast
  then obtain m where m: "\<And>i. i \<le> unat (b_height t) \<Longrightarrow> m i \<in> R \<and> unat (b_height (m i)) = i \<and> descends R (m i) t"
    by metis
  have T: "descends T (m i) t" "m i \<in> T" if "i \<le> unat (b_height t)" for i
    using m [OF that] assms(3) by (auto intro: descends_mono)
  have "t \<in> T" "g \<in> T" "descends T g t" using assms rooted_mem by (auto simp: rooted_def intro: descends_mono)
  then have "m (unat (b_height t)) = t" "m 0 = g"
    using m [of 0] m [of "unat (b_height t)"] T g
      same_height_ancestor [OF assms(1), of "m (unat (b_height t))" t t]
      same_height_ancestor [OF assms(1), of "m 0" g t]
    by (simp_all add: descends_self)
  with m T show ?thesis by (auto simp: line_of_def)
qed

lemma line_of_parent:
  assumes "block_tree e g T" "line_of g T t m" "Suc i \<le> unat (b_height t)"
  shows "is_parent (m i) (m (Suc i))"
proof -
  note s = line_ofD [OF assms(2,3)]
  have "m (Suc i) \<noteq> g" using s(2) treeD(2) [OF assms(1)] by auto
  with treeD(12) [OF assms(1) s(1)] obtain p where p: "p \<in> T" "is_parent p (m (Suc i))" by blast
  have "descends T p t"
    by (rule descends_trans [OF s(3)]) (use p s(1) in \<open>auto intro: descends.intros\<close>)
  from line_of_eq [OF assms(1,2) p(1) this] have "m (unat (b_height p)) = p" .
  moreover have "unat (b_height p) = i" using p(2) s(2) by (simp add: is_parent_def)
  ultimately show ?thesis using p(2) by simp
qed

lemma line_rooted:
  assumes "block_tree e g T" "line_of g T t m" "\<And>j. j \<le> i \<Longrightarrow> m j \<in> R" "i \<le> unat (b_height t)"
  shows "rooted g R (m i)"
  using assms(3,4)
proof (induction i)
  case 0
  then show ?case using assms(2) rooted_start [of g R] by (auto simp: line_of_def)
next
  case (Suc i)
  then have "rooted g R (m i)" by simp
  from rooted_child [OF this _ line_of_parent [OF assms(1,2) Suc.prems(2)]] Suc.prems(1) show ?case by simp
qed

lemma below_rooted:
  assumes "block_tree e g T" "line_of g T t m" "rooted g R (m i)" "R \<subseteq> T" "i \<le> unat (b_height t)" "j \<le> i"
  shows "m j \<in> R"
proof -
  note li = line_ofD [OF assms(2,5)]
  obtain a where a: "a \<in> R" "unat (b_height a) = j" "descends R a (m i)"
    using ancestor_at [OF assms(1,3)] li(2) assms(6) by auto
  have "descends T a t" by (rule descends_trans [OF li(3) descends_mono [OF a(3) assms(4)]])
  with line_of_eq [OF assms(1,2), of a] a assms(4) show ?thesis by auto
qed

section \<open>A page\<close>

text \<open>A page from a height on the main chain upwards.\<close>

lemma page_on_line:
  assumes "levels_wf c" "\<And>i. i \<le> h \<Longrightarrow> unat (b_height (m i)) = i \<and> b_uncles (m i) = []
      \<and> chain_block_at c (b_height (m i)) = Some (b_hash (m i))
      \<and> cache_get (ch_block_cache c) (b_hash (m i)) = Some (r i) \<and> b_uncles (r i) = []"
    and above: "\<And>j. h < unat j \<Longrightarrow> chain_block_at c j = None \<or> chain_block_at c j = Some zero_hash"
    and "cache_get (ch_block_cache c) zero_hash = None"
    and room: "\<And>j. level_at_height c j \<noteq> None \<Longrightarrow> unat j + 1 < 2 ^ 64"
  shows "level_at_height c j = Some l \<Longrightarrow> unat j = i \<Longrightarrow> n \<le> k \<Longrightarrow>
    page_loop c fuel k True l n res \<noteq> Diverge \<Longrightarrow>
    page_loop c fuel k True l n res = Ok (res @ map r [i..<min (Suc h) (i + (Suc k - n))])"
proof (induction fuel arbitrary: j l i n res)
  case (Suc fuel)
  have lj: "lv_height l = j" using levels_wfD [OF assms(1) Suc.prems(1)] by simp
  have cb: "chain_block_at c j = Some (lv_chain_block l)" using Suc.prems(1) by (simp add: chain_block_at_def)
  define x where "x = (if i \<le> h then [r i] else [])"
  have p: "page_blocks c True l = (x, length x)"
  proof (cases "i \<le> h")
    case True
    have "b_height (m i) = j" using assms(2) [OF True] Suc.prems(2) by (simp add: word_unat_eq_iff)
    with assms(2) [OF True] cb True show ?thesis
      by (auto simp: page_blocks_def get_block_in_main_chain_def level_get_def x_def List.map_filter_def)
  next
    case False
    with above [of j] Suc.prems(2) cb assms(4) show ?thesis
      by (auto simp: page_blocks_def get_block_in_main_chain_def level_get_def x_def)
  qed
  show ?case
  proof (cases "k < n + length x")
    case True
    then have "n = k" "x = [r i]" "i \<le> h" using Suc.prems(3) by (auto simp: x_def split: if_splits)
    with p show ?thesis by simp
  next
    case False
    have "add_chk (lv_height l) 1 = (Ok (j + 1) :: u64 sc_result)" "unat (j + 1) = Suc i"
      using room [of j] Suc.prems(1,2) lj by (simp_all add: add_chk_def checked_add_def unat_plus_small)
    note h = this
    show ?thesis
    proof (cases "level_at_height c (j + 1)")
      case None
      have "h < Suc i"
      proof (rule ccontr)
        assume "\<not> h < Suc i"
        then have m: "unat (b_height (m (Suc i))) = Suc i" "chain_block_at c (b_height (m (Suc i))) \<noteq> None"
          using assms(2) [of "Suc i"] by auto
        then have "b_height (m (Suc i)) = j + 1" using h(2) by (simp add: word_unat_eq_iff)
        with m(2) None show False by (simp add: chain_block_at_def)
      qed
      then have x: "map r [i..<min (Suc h) (i + (Suc k - n))] = x" using False Suc.prems(3)
        by (cases "i = h") (auto simp: x_def min_def)
      show ?thesis unfolding x using False p h None by simp
    next
      case (Some l')
      have "page_loop c fuel k True l' (n + length x) (res @ x) \<noteq> Diverge"
        using Suc.prems(4) False p h Some by simp
      from Suc.IH [OF Some h(2) _ this] False
      have "page_loop c (Suc fuel) k True l n res
        = Ok (res @ x @ map r [Suc i..<min (Suc h) (Suc i + (Suc k - (n + length x)))])"
        using p h Some by simp
      moreover have "x @ map r [Suc i..<min (Suc h) (Suc i + (Suc k - (n + length x)))]
        = map r [i..<min (Suc h) (i + (Suc k - n))]"
      proof (cases "i \<le> h")
        case True
        then have "Suc i + (Suc k - (n + length x)) = i + (Suc k - n)" "i < min (Suc h) (i + (Suc k - n))"
          using False by (simp_all add: x_def)
        with True show ?thesis by (simp only: upt_conv_Cons [of i]) (simp add: x_def)
      qed (simp add: x_def)
      ultimately show ?thesis by simp
    qed
  qed
qed simp

text \<open>All that is known of a peer that took in the blocks \<open>R\<close>.\<close>

definition provides ::
    "'l ext \<Rightarrow> p2block set \<Rightarrow> p2block \<Rightarrow> p2block set \<Rightarrow> (fixed_hash \<Rightarrow> verified_status) \<Rightarrow> p2block
     \<Rightarrow> (nat \<Rightarrow> p2block) \<Rightarrow> 'l share_chain \<Rightarrow> bool" where
  "provides e T g R v t m a \<longleftrightarrow> block_tree e g T \<and> R \<subseteq> T \<and> heaviest g R t \<and> line_of g T t m
     \<and> sc_get_tip a = Some (block_ref t) \<and> chain_pow e a = b_total_pow t \<and> tip_height a = b_height t
     \<and> (\<forall>i\<le>unat (b_height t). m i \<in> R
          \<and> chain_block_at (sc_p2_chain a) (b_height (m i)) = Some (b_hash (m i))
          \<and> get_block_at_height (sc_p2_chain a) (b_height (m i)) (b_hash (m i)) = Some (record_of v (m i)))
     \<and> (\<forall>j. unat (b_height t) < unat j \<longrightarrow>
          chain_block_at (sc_p2_chain a) j = None \<or> chain_block_at (sc_p2_chain a) j = Some zero_hash)
     \<and> (\<forall>s k. all_blocks_with_lock (sc_p2_chain a) (Some s) k True
          = Ok (map (record_of v \<circ> m) [unat s..<min (Suc (unat (b_height t))) (unat s + Suc k)]))"

lemma lowest_level_0:
  assumes "unat (ch_current_tip c) \<le> unat (ch_total_size c)"
  shows "opt_or (lowest_chain_level_height c) 0 = 0"
proof -
  have "sat_sub (ch_current_tip c) (ch_total_size c) = 0" using assms by (simp add: word_unat_eq_iff)
  then show ?thesis by (simp add: lowest_chain_level_height_def Let_def opt_or_def)
qed

lemma provides_exists:
  assumes "block_tree e g T" "takes_in e T g w R (sc_p2_chain a)" "\<And>b. b \<in> T \<Longrightarrow> unat (b_height b) < w"
    and "ch_share_window (sc_p2_chain a) \<le> ch_total_size (sc_p2_chain a)"
  shows "\<exists>v t m. provides e T g R v t m a"
proof -
  let ?c = "sc_p2_chain a"
  have rec: "received e T g R ?c" "unat (ch_share_window ?c) = w" using assms(2) by (simp_all add: takes_in_def)
  have low: "low_blocks T (ch_share_window ?c)" using assms(3) rec(2) by (auto simp: low_blocks_def word_less_nat_alt)
  obtain v t where hb: "holds_blocks e T g R v t ?c" and max: "\<forall>b. rooted g R b \<longrightarrow> b_total_pow b \<le> b_total_pow t"
    using rec(1) unfolding received_def by blast
  note h = holds_blocksD [OF hb]
  have tT: "t \<in> T" using h(2,11) by auto
  obtain m where m: "line_of g T t m" "\<And>i. i \<le> unat (b_height t) \<Longrightarrow> m i \<in> R \<and> descends R (m i) t"
    using line_of_exists [OF assms(1) h(8,2)] by blast
  have line: "on_line R t ?c" "\<And>j. b_height t < j \<Longrightarrow> chain_block_at ?c j = None \<or> chain_block_at ?c j = Some zero_hash"
    using h(12) [OF low] by (auto simp: main_line_def)
  obtain l where l: "get_tip ?c = Some l" "lv_chain_block l = b_hash t"
    using holds_blocks_tip(1) [OF hb] by auto
  have tip: "ch_current_tip ?c = b_height t" using h(9) by (simp add: tip_at_def)
  then have lh: "lv_height l = b_height t"
    using l(1) levels_wfD [OF storedD(2) [OF h(5)], of "b_height t" l]
    by (auto simp: get_tip_def Let_def split: option.splits if_splits)
  have zero: "cache_get (ch_block_cache ?c) zero_hash = None"
  proof (cases "cache_get (ch_block_cache ?c) zero_hash")
    case (Some y)
    with storedD(4) [OF h(5)] obtain b where "b \<in> R" "b_hash b = zero_hash" by auto
    with treeD(6) [OF h(1)] h(2) show ?thesis by auto
  qed
  have page: "all_blocks_with_lock ?c (Some s) k True
      = Ok (map (record_of v \<circ> m) [unat s..<min (Suc (unat (b_height t))) (unat s + Suc k)])" for s k
  proof -
    have "opt_or (lowest_chain_level_height ?c) 0 = 0"
      using assms(3) [OF tT] rec(2) assms(4) tip by (intro lowest_level_0) (simp add: word_le_nat_alt)
    then have eq: "all_blocks_with_lock ?c (Some s) k True = (case level_at_height ?c s of None \<Rightarrow> Ok []
        | Some level \<Rightarrow> page_loop ?c (Suc (length (ch_levels ?c))) k True level 0 [])"
      by (simp add: all_blocks_with_lock_def Let_def opt_or_def [of "Some s"] del: page_loop.simps)
    have on: "chain_block_at ?c (b_height (m i)) = Some (b_hash (m i))" if "i \<le> unat (b_height t)" for i
      using line(1) m(2) [OF that] by (simp add: on_line_def)
    show ?thesis
    proof (cases "level_at_height ?c s")
      case None
      have "\<not> unat s \<le> unat (b_height t)"
      proof
        assume s: "unat s \<le> unat (b_height t)"
        have "b_height (m (unat s)) = s" using line_ofD(2) [OF m(1) s] by (simp add: word_unat_eq_iff)
        with on [OF s] None show False by (simp add: chain_block_at_def)
      qed
      then show ?thesis by (simp add: eq None)
    next
      case (Some l)
      have lv: "lv_height l = s" using levels_wfD [OF storedD(2) [OF h(5)] Some] by simp
      have "card {i. level_at_height ?c i \<noteq> None \<and> lv_height l < i} \<le> card {i. level_at_height ?c i \<noteq> None}"
        by (rule card_mono [OF finite_levels]) auto
      also have "\<dots> = length (ch_levels ?c)" by (rule levels_count [OF storedD(2) [OF h(5)], symmetric])
      finally have "page_loop ?c (Suc (length (ch_levels ?c))) k True l 0 [] \<noteq> Diverge"
        using Some lv by (intro page_loop_returns [OF storedD(2) [OF h(5)]]) simp_all
      then have "page_loop ?c (Suc (length (ch_levels ?c))) k True l 0 []
          = Ok ([] @ map (record_of v \<circ> m) [unat s..<min (Suc (unat (b_height t))) (unat s + (Suc k - 0))])"
      proof (rule page_on_line [OF storedD(2) [OF h(5)] _ _ zero _ Some refl le0, rotated -1])
        fix i assume i: "i \<le> unat (b_height t)"
        have "m i \<in> R" using m(2) [OF i] by simp
        with on [OF i] line_ofD(2) [OF m(1) i] treeD(7) [OF h(1)] h(2) stored_get(1) [OF h(5)]
        show "unat (b_height (m i)) = i \<and> b_uncles (m i) = []
          \<and> chain_block_at ?c (b_height (m i)) = Some (b_hash (m i))
          \<and> cache_get (ch_block_cache ?c) (b_hash (m i)) = Some ((record_of v \<circ> m) i)
          \<and> b_uncles ((record_of v \<circ> m) i) = []" by auto
      next
        fix j assume "level_at_height ?c j \<noteq> None"
        then obtain b where "b \<in> R" "b_height b = j" using storedD(5) [OF h(5)] by auto
        with treeD(8) [OF h(1), of b] h(2) show "unat j + 1 < 2 ^ 64" by auto
      qed (use line(2) in \<open>simp add: word_less_nat_alt\<close>)
      with eq Some show ?thesis by simp
    qed
  qed
  have "m i \<in> R \<and> chain_block_at ?c (b_height (m i)) = Some (b_hash (m i))
      \<and> get_block_at_height ?c (b_height (m i)) (b_hash (m i)) = Some (record_of v (m i))" if "i \<le> unat (b_height t)" for i
    using m(2) [OF that] line(1) stored_get(2) [OF h(5)] by (simp add: on_line_def)
  moreover have "sc_get_tip a = Some (block_ref t)" "tip_height a = b_height t" "chain_pow e a = b_total_pow t"
    using l lh holds_blocks_tip(3) [OF hb] by (simp_all add: sc_get_tip_def tip_height_def get_height_def chain_pow_def)
  ultimately show ?thesis
    using assms(1) h(2,8) max m(1) line(2) page
    unfolding provides_def heaviest_def by (auto simp: word_less_nat_alt)
qed

lemma providesD:
  assumes "provides e T g R v t m a"
  shows "block_tree e g T" "R \<subseteq> T" "heaviest g R t" "line_of g T t m" "sc_get_tip a = Some (block_ref t)"
    "chain_pow e a = b_total_pow t" "tip_height a = b_height t"
    and "i \<le> unat (b_height t) \<Longrightarrow> m i \<in> R"
    and "i \<le> unat (b_height t) \<Longrightarrow> chain_block_at (sc_p2_chain a) (b_height (m i)) = Some (b_hash (m i))"
    and "i \<le> unat (b_height t) \<Longrightarrow>
      get_block_at_height (sc_p2_chain a) (b_height (m i)) (b_hash (m i)) = Some (record_of v (m i))"
    and "unat (b_height t) < unat j \<Longrightarrow>
      chain_block_at (sc_p2_chain a) j = None \<or> chain_block_at (sc_p2_chain a) j = Some zero_hash"
    and "all_blocks_with_lock (sc_p2_chain a) (Some s) k True
      = Ok (map (record_of v \<circ> m) [unat s..<min (Suc (unat (b_height t))) (unat s + Suc k)])"
  using assms unfolding provides_def by blast+

section \<open>Where the page starts\<close>

text \<open>A reference to a block of the peer's main chain is one the node can name: it has it and all below.\<close>

definition known_ref :: "p2block \<Rightarrow> p2block set \<Rightarrow> 'l share_chain \<Rightarrow> uncle_ref \<Rightarrow> bool" where
  "known_ref g S a r \<longleftrightarrow> (chain_block_at (sc_p2_chain a) (fst r) = Some (snd r) \<longrightarrow> (\<exists>x. rooted g S x \<and> r = block_ref x))"

lemma known_ref_mono: "known_ref g S a r \<Longrightarrow> S \<subseteq> S' \<Longrightarrow> known_ref g S' a r"
  unfolding known_ref_def using rooted_mono by blast

lemma known_on_line:
  assumes "provides e T g R v t m a" "S \<subseteq> T" "known_ref g S a r" "chain_block_at (sc_p2_chain a) (fst r) = Some (snd r)"
  shows "\<exists>i\<le>unat (b_height t). r = block_ref (m i) \<and> unat (fst r) = i \<and> (\<forall>j\<le>i. m j \<in> S)
    \<and> unat (sat_add (fst r) 1) = Suc i"
proof -
  note p = providesD [OF assms(1)]
  obtain x where x: "rooted g S x" "r = block_ref x" using assms(3,4) by (auto simp: known_ref_def)
  have xT: "x \<in> T" using rooted_mem [OF x(1)] assms(2) by auto
  let ?i = "unat (b_height x)"
  have i: "?i \<le> unat (b_height t)"
  proof (rule ccontr)
    assume "\<not> ?i \<le> unat (b_height t)"
    with p(11) [of "b_height x"] assms(4) x(2) treeD(6) [OF p(1) xT] show False by auto
  qed
  note mi = line_ofD [OF p(4) i]
  have "b_height (m ?i) = b_height x" using mi(2) by (simp add: word_unat_eq_iff)
  then have "b_hash (m ?i) = b_hash x" using p(9) [OF i] assms(4) x(2) by simp
  then have "m ?i = x" using inj_onD [OF treeD(3) [OF p(1)]] mi(1) xT by blast
  moreover from this x(1) have "rooted g S (m ?i)" by simp
  then have "\<forall>j\<le>?i. m j \<in> S" using below_rooted [OF p(1,4) _ assms(2) i] by blast
  moreover have "unat (sat_add (b_height x) 1) = Suc ?i"
    using treeD(8) [OF p(1) xT] by (simp add: unat_sat_add)
  ultimately show ?thesis using i x(2) by (intro exI [of _ ?i]) simp
qed

lemma find_split_cases:
  "find_split c bs = 0 \<or> (\<exists>b\<in>set bs. chain_block_at c (fst b) = Some (snd b) \<and> find_split c bs = sat_add (fst b) 1)"
proof (induction bs)
  case (Cons b bs)
  then show ?case by (cases "level_at_height c (fst b)") (auto simp: chain_block_at_def)
qed simp

text \<open>The page that is sent starts at a height below which the node has everything.\<close>

lemma requested_page:
  assumes "provides e T g R v t m a" "S \<subseteq> T" "\<forall>r\<in>set theirs. known_ref g S a r"
    and "\<forall>r. l = Some r \<longrightarrow> known_ref g S a r \<and> chain_block_at (sc_p2_chain a) (fst r) = Some (snd r)"
  shows "\<exists>s. request_sync e a theirs k l
      = Ok (map (record_of v \<circ> m) [s..<min (Suc (unat (b_height t))) (s + Suc k)], Some (block_ref t), b_total_pow t)
    \<and> (\<forall>i. i < s \<longrightarrow> i \<le> unat (b_height t) \<longrightarrow> m i \<in> S) \<and> (\<forall>r. l = Some r \<longrightarrow> unat (fst r) < s)"
proof -
  note p = providesD [OF assms(1)]
  let ?c = "sc_p2_chain a"
  let ?theirs = "sort_key (\<lambda>b. - int (unat (fst b))) theirs"
  define s1 where "s1 = split_after ?c l"
  define s2 where "s2 = find_split ?c ?theirs"
  have 1: "\<forall>i<unat s1. m i \<in> S" "\<forall>r. l = Some r \<longrightarrow> unat (fst r) < unat s1"
  proof -
    have "(\<forall>i<unat s1. m i \<in> S) \<and> (\<forall>r. l = Some r \<longrightarrow> unat (fst r) < unat s1)"
    proof (cases l)
      case (Some r)
      then obtain i where i: "i \<le> unat (b_height t)" "r = block_ref (m i)" "unat (fst r) = i" "\<forall>j\<le>i. m j \<in> S"
        "unat (sat_add (fst r) 1) = Suc i"
        using known_on_line [OF assms(1,2), of r] assms(4) by blast
      with p(10) [OF i(1)] have "s1 = sat_add (fst r) 1" by (simp add: s1_def split_after_def Some)
      with i Some show ?thesis by (simp add: less_Suc_eq_le)
    qed (simp add: s1_def split_after_def)
    then show "\<forall>i<unat s1. m i \<in> S" "\<forall>r. l = Some r \<longrightarrow> unat (fst r) < unat s1" by simp_all
  qed
  have 2: "\<forall>i<unat s2. m i \<in> S"
  proof (cases "s2 = 0")
    case False
    then obtain b where b: "b \<in> set theirs" "chain_block_at ?c (fst b) = Some (snd b)" "s2 = sat_add (fst b) 1"
      using find_split_cases [of ?c ?theirs] by (auto simp: s2_def)
    from known_on_line [OF assms(1,2) _ b(2)] assms(3) b(1,3) show ?thesis
      by (auto simp: less_Suc_eq_le)
  qed simp
  have "request_sync e a theirs k l
      = Ok (map (record_of v \<circ> m) [unat (max s1 s2)..<min (Suc (unat (b_height t))) (unat (max s1 s2) + Suc k)],
          Some (block_ref t), b_total_pow t)"
    using p(12) [of "max s1 s2" k] p(5,6) by (simp add: request_sync_def Let_def s1_def s2_def)
  moreover have "unat s1 \<le> unat (max s1 s2)" "max s1 s2 = s1 \<or> max s1 s2 = s2"
    by (auto simp: max_def word_le_nat_alt)
  then have "\<forall>i<unat (max s1 s2). m i \<in> S" "\<forall>r. l = Some r \<longrightarrow> unat (fst r) < unat (max s1 s2)"
    using 1 2 by (auto dest: less_le_trans)
  ultimately show ?thesis by (intro exI [of _ "unat (max s1 s2)"]) simp
qed

text \<open>
  For the last block the asking node received it does not matter whether it is on the main
  chain: all that is not above it is left out, also what the node may not have.
\<close>

lemma page_above_last_block:
  assumes "provides e T g R v t m a" "get_block_at_height (sc_p2_chain a) (fst r) (snd r) = Some x"
  shows "\<exists>s. request_sync e a theirs k (Some r)
      = Ok (map (record_of v \<circ> m) [s..<min (Suc (unat (b_height t))) (s + Suc k)], Some (block_ref t), b_total_pow t)
    \<and> unat (sat_add (b_height x) 1) \<le> s"
proof -
  note p = providesD [OF assms(1)]
  let ?s2 = "find_split (sc_p2_chain a) (sort_key (\<lambda>b. - int (unat (fst b))) theirs)"
  have "split_after (sc_p2_chain a) (Some r) = sat_add (b_height x) 1" using assms(2) by (simp add: split_after_def)
  then have "request_sync e a theirs k (Some r) = Ok (map (record_of v \<circ> m)
      [unat (max (sat_add (b_height x) 1) ?s2)..<min (Suc (unat (b_height t))) (unat (max (sat_add (b_height x) 1) ?s2) + Suc k)],
      Some (block_ref t), b_total_pow t)"
    using p(5,6) p(12) [of "max (sat_add (b_height x) 1) ?s2" k] by (simp add: request_sync_def Let_def)
  moreover have "unat (sat_add (b_height x) 1) \<le> unat (max (sat_add (b_height x) 1) ?s2)"
    by (auto simp: max_def word_le_nat_alt)
  ultimately show ?thesis by blast
qed

end
