(* ===== verification/Messages.thy ===== *)
theory Messages
  imports P2Block
begin

text \<open>
  The messages of the peer-to-peer protocol, \<open>server/p2p/messages.rs\<close>: one record per
  message, its constructor and its accessors. The CBOR encoding is the crate
  \<open>serde_cbor\<close>'s and the \<open>Display\<close> instances only write log lines; neither is modelled.
  A peer identity and an address are the bytes and the string libp2p prints them as; the
  functions of libp2p and of the proof-of-work enum that the pool calls are the fields of
  \<open>net_ext\<close>.
\<close>

section \<open>Values of libp2p\<close>

type_synonym peer_id = bytes
type_synonym multiaddr = string

record net_ext =
  peer_to_base58 :: "peer_id \<Rightarrow> string"
  peer_from_str :: "string \<Rightarrow> peer_id option"
  multiaddr_parse :: "string \<Rightarrow> multiaddr option"
  multiaddr_to_string :: "multiaddr \<Rightarrow> string"
  algo_as_u64 :: "pow_algorithm \<Rightarrow> u64"
  algo_try_from :: "u64 \<Rightarrow> pow_algorithm option"

text \<open>Documented contracts: printing then parsing gives the value back.\<close>

definition algo_conv :: "net_ext \<Rightarrow> bool" where
  "algo_conv n \<longleftrightarrow> (\<forall>a. algo_try_from n (algo_as_u64 n a) = Some a)"

definition base58_conv :: "net_ext \<Rightarrow> bool" where
  "base58_conv n \<longleftrightarrow> (\<forall>p. peer_from_str n (peer_to_base58 n p) = Some p)"

definition multiaddr_conv :: "net_ext \<Rightarrow> bool" where
  "multiaddr_conv n \<longleftrightarrow> (\<forall>a. multiaddr_parse n (multiaddr_to_string n a) = Some a)"

lemma base58_inj: "base58_conv n \<Longrightarrow> peer_to_base58 n p = peer_to_base58 n q \<Longrightarrow> p = q"
  unfolding base58_conv_def by (metis option.inject)

definition demo_net :: net_ext where
  "demo_net = \<lparr>
     peer_to_base58 = map (\<lambda>b. char_of (unat b)),
     peer_from_str = (\<lambda>s. Some (map (\<lambda>c. of_nat (of_char c)) s)),
     multiaddr_parse = Some, multiaddr_to_string = (\<lambda>a. a),
     algo_as_u64 = (\<lambda>a. case a of RandomX \<Rightarrow> 0 | Sha3x \<Rightarrow> 1),
     algo_try_from = (\<lambda>v. if v = 0 then Some RandomX else if v = 1 then Some Sha3x else None)\<rparr>"

lemma u8_char_roundtrip: "of_nat (of_char (char_of (unat b) :: char)) = b" for b :: u8
proof -
  have "unat b < 2 ^ 8" using unsigned_less [of b] by simp
  then show ?thesis by simp
qed

lemma base58_demo: "base58_conv demo_net"
  unfolding base58_conv_def
proof
  show "peer_from_str demo_net (peer_to_base58 demo_net p) = Some p" for p
    by (simp del: of_char_of add: demo_net_def u8_char_roundtrip comp_def)
qed

lemma algo_demo: "algo_conv demo_net"
  unfolding algo_conv_def
proof
  show "algo_try_from demo_net (algo_as_u64 demo_net a) = Some a" for a
    by (cases a) (simp_all add: demo_net_def)
qed

text \<open>The fallback the accessors of every message with an algorithm number share.\<close>

definition algo_or_default :: "net_ext \<Rightarrow> u64 \<Rightarrow> pow_algorithm" where
  "algo_or_default n v = (case algo_try_from n v of None \<Rightarrow> RandomX | Some a \<Rightarrow> a)"

lemma algo_or_default_roundtrip: "algo_conv n \<Longrightarrow> algo_or_default n (algo_as_u64 n a) = a"
  by (simp add: algo_or_default_def algo_conv_def)

section \<open>PeerInfo\<close>

definition cargo_pkg_version :: string where "cargo_pkg_version = ''1.0.3''"

record peer_info =
  pi_version :: u64
  pi_peer_id :: "peer_id option"
  pi_current_sha3x_height :: u64
  pi_current_random_x_height :: u64
  pi_current_sha3x_pow :: u128
  pi_current_random_x_pow :: u128
  pi_squad :: string
  pi_timestamp :: u64
  pi_user_agent :: "string option"
  pi_user_agent_version :: "string option"
  pi_public_addresses :: "string list"

definition peer_info_new ::
  "net_ext \<Rightarrow> epoch_time \<Rightarrow> peer_id \<Rightarrow> u64 \<Rightarrow> u64 \<Rightarrow> u128 \<Rightarrow> u128 \<Rightarrow> string \<Rightarrow> multiaddr list
     \<Rightarrow> string option \<Rightarrow> peer_info" where
  "peer_info_new n now p sha3x_height rx_height sha3x_pow rx_pow squad addresses agent =
     \<lparr>pi_version = PROTOCOL_VERSION, pi_peer_id = Some p,
      pi_current_sha3x_height = sha3x_height, pi_current_random_x_height = rx_height,
      pi_current_sha3x_pow = sha3x_pow, pi_current_random_x_pow = rx_pow, pi_squad = squad,
      pi_timestamp = now, pi_user_agent = agent,
      pi_user_agent_version = Some cargo_pkg_version,
      pi_public_addresses = map (multiaddr_to_string n) addresses\<rparr>"

definition public_addresses :: "net_ext \<Rightarrow> peer_info \<Rightarrow> multiaddr list" where
  "public_addresses n i = List.map_filter (multiaddr_parse n) (pi_public_addresses i)"

section \<open>Requests\<close>

record sync_missing_blocks_request =
  smr_algo :: u64
  smr_missing_blocks :: "(u64 \<times> fixed_hash) list"

definition sync_missing_blocks_request_new ::
  "net_ext \<Rightarrow> pow_algorithm \<Rightarrow> (u64 \<times> fixed_hash) list \<Rightarrow> sync_missing_blocks_request" where
  "sync_missing_blocks_request_new n a bs = \<lparr>smr_algo = algo_as_u64 n a, smr_missing_blocks = bs\<rparr>"

definition sync_missing_blocks_request_algo ::
  "net_ext \<Rightarrow> sync_missing_blocks_request \<Rightarrow> pow_algorithm" where
  "sync_missing_blocks_request_algo n r = algo_or_default n (smr_algo r)"

record catch_up_sync_request =
  cur_algo :: u64
  cur_i_have :: "(u64 \<times> fixed_hash) list"
  cur_last_block_received :: "(u64 \<times> fixed_hash) option"

definition catch_up_sync_request_new ::
  "net_ext \<Rightarrow> pow_algorithm \<Rightarrow> (u64 \<times> fixed_hash) list \<Rightarrow> (u64 \<times> fixed_hash) option
     \<Rightarrow> catch_up_sync_request" where
  "catch_up_sync_request_new n a have_blocks received =
     \<lparr>cur_algo = algo_as_u64 n a, cur_i_have = have_blocks, cur_last_block_received = received\<rparr>"

definition catch_up_sync_request_algo :: "net_ext \<Rightarrow> catch_up_sync_request \<Rightarrow> pow_algorithm" where
  "catch_up_sync_request_algo n r = algo_or_default n (cur_algo r)"

section \<open>Responses\<close>

text \<open>
  What both responses do with the blocks of another node: the status of their checks is
  serialized with a block, so it is reset before the blocks are used.
\<close>

definition reset_verified :: "p2block list \<Rightarrow> p2block list" where
  "reset_verified bs = map (\<lambda>b. b\<lparr>b_verified := vs_new\<rparr>) bs"

record catch_up_sync_response =
  csr_version :: u64
  csr_peer_id :: peer_id
  csr_algo :: u64
  csr_blocks :: "p2block list"
  csr_tip :: "u64 \<times> fixed_hash"
  csr_achieved_pow :: "u128 option"

definition catch_up_sync_response_new ::
  "net_ext \<Rightarrow> pow_algorithm \<Rightarrow> peer_id \<Rightarrow> p2block list \<Rightarrow> u64 \<times> fixed_hash \<Rightarrow> u128
     \<Rightarrow> catch_up_sync_response" where
  "catch_up_sync_response_new n a p bs tip pow =
     \<lparr>csr_version = PROTOCOL_VERSION, csr_peer_id = p, csr_algo = algo_as_u64 n a,
      csr_blocks = bs, csr_tip = tip, csr_achieved_pow = Some pow\<rparr>"

definition achieved_pow :: "catch_up_sync_response \<Rightarrow> u128" where
  "achieved_pow r = (case csr_achieved_pow r of None \<Rightarrow> 0 | Some p \<Rightarrow> p)"

definition catch_up_sync_response_algo :: "net_ext \<Rightarrow> catch_up_sync_response \<Rightarrow> pow_algorithm" where
  "catch_up_sync_response_algo n r = algo_or_default n (csr_algo r)"

definition response_tip_hash :: "catch_up_sync_response \<Rightarrow> fixed_hash" where
  "response_tip_hash r = snd (csr_tip r)"

definition response_tip_height :: "catch_up_sync_response \<Rightarrow> u64" where
  "response_tip_height r = fst (csr_tip r)"

definition catch_up_into_blocks :: "catch_up_sync_response \<Rightarrow> p2block list" where
  "catch_up_into_blocks r = reset_verified (csr_blocks r)"

record sync_missing_blocks_response =
  sbr_version :: u64
  sbr_peer_id :: peer_id
  sbr_algo :: u64
  sbr_blocks :: "p2block list"

definition sync_missing_blocks_response_new ::
  "net_ext \<Rightarrow> peer_id \<Rightarrow> pow_algorithm \<Rightarrow> p2block list \<Rightarrow> sync_missing_blocks_response" where
  "sync_missing_blocks_response_new n p a bs =
     \<lparr>sbr_version = PROTOCOL_VERSION, sbr_peer_id = p, sbr_algo = algo_as_u64 n a,
      sbr_blocks = bs\<rparr>"

definition sync_missing_blocks_response_algo ::
  "net_ext \<Rightarrow> sync_missing_blocks_response \<Rightarrow> pow_algorithm" where
  "sync_missing_blocks_response_algo n r = algo_or_default n (sbr_algo r)"

definition sync_missing_into_blocks :: "sync_missing_blocks_response \<Rightarrow> p2block list" where
  "sync_missing_into_blocks r = reset_verified (sbr_blocks r)"

lemma into_blocks_unverified:
  "b \<in> set (reset_verified bs) \<Longrightarrow> b_verified b = vs_new"
  "map b_hash (reset_verified bs) = map b_hash bs"
  by (auto simp: reset_verified_def)

section \<open>NotifyNewTipBlock\<close>

record notify_new_tip_block =
  nt_version :: u64
  nt_peer_id :: peer_id
  nt_new_blocks :: "p2block list"
  nt_timestamp :: u64

definition notify_new_tip_block_new ::
  "epoch_time \<Rightarrow> peer_id \<Rightarrow> p2block list \<Rightarrow> notify_new_tip_block" where
  "notify_new_tip_block_new now p bs =
     \<lparr>nt_version = PROTOCOL_VERSION, nt_peer_id = p, nt_new_blocks = bs, nt_timestamp = now\<rparr>"

text \<open>\<open>Iterator::max_by_key\<close>: the last of the elements with the greatest key.\<close>

fun max_by_key :: "('a \<Rightarrow> 'k::linorder) \<Rightarrow> 'a list \<Rightarrow> 'a option" where
  "max_by_key f [] = None"
| "max_by_key f (x # xs) =
     (case max_by_key f xs of None \<Rightarrow> Some x | Some y \<Rightarrow> Some (if f x \<le> f y then y else x))"

lemma max_by_key_Some:
  "max_by_key f xs = Some y \<Longrightarrow> y \<in> set xs \<and> (\<forall>x\<in>set xs. f x \<le> f y)"
proof (induction xs arbitrary: y)
  case (Cons x xs)
  show ?case
  proof (cases "max_by_key f xs")
    case None
    then have "xs = []" by (cases xs) (auto split: option.splits)
    then show ?thesis using Cons.prems by simp
  next
    case (Some z)
    then show ?thesis using Cons.IH [of z] Cons.prems by (auto split: if_splits)
  qed
qed simp

lemma max_by_key_None [simp]: "max_by_key f xs = None \<longleftrightarrow> xs = []"
  by (cases xs) (auto split: option.splits)

definition total_proof_of_work :: "'l ext \<Rightarrow> notify_new_tip_block \<Rightarrow> accumulated_difficulty" where
  "total_proof_of_work e m =
     (case max_by_key b_height (nt_new_blocks m) of
        Some block \<Rightarrow> b_total_pow block
      | None \<Rightarrow> acc_min e)"

definition notify_algo :: "notify_new_tip_block \<Rightarrow> pow_algorithm" where
  "notify_algo m = (case nt_new_blocks m of [] \<Rightarrow> RandomX | b # _ \<Rightarrow> bh_pow_algo (b_original_header b))"

section \<open>What the receiver of a message sees\<close>

text \<open>What the receiver of a sync response reads is what the sender put in (algorithm, tip,
  work, blocks in order), except that no received block counts as verified.\<close>

theorem synced_blocks_unverified:
  fixes n a p bs tip pow
  assumes "algo_conv n"
  defines "r \<equiv> catch_up_sync_response_new n a p bs tip pow"
    and "m \<equiv> sync_missing_blocks_response_new n p a bs"
  shows "catch_up_sync_response_algo n r = a \<and> sync_missing_blocks_response_algo n m = a
    \<and> achieved_pow r = pow \<and> (response_tip_height r, response_tip_hash r) = tip
    \<and> catch_up_into_blocks r = sync_missing_into_blocks m
    \<and> map (\<lambda>b. (b_hash b, b_height b, b_prev_hash b, b_total_pow b)) (catch_up_into_blocks r)
        = map (\<lambda>b. (b_hash b, b_height b, b_prev_hash b, b_total_pow b)) bs
    \<and> (\<forall>b \<in> set (catch_up_into_blocks r). \<not> is_verified (b_verified b))"
  using algo_or_default_roundtrip [OF assms(1)]
  by (auto simp: r_def m_def catch_up_sync_response_new_def sync_missing_blocks_response_new_def
      catch_up_sync_response_algo_def sync_missing_blocks_response_algo_def achieved_pow_def
      response_tip_height_def response_tip_hash_def catch_up_into_blocks_def sync_missing_into_blocks_def
      reset_verified_def)

theorem synced_blocks_unverified_witness:
  "catch_up_sync_response_algo demo_net
     (catch_up_sync_response_new demo_net Sha3x [1] [default_block demo_ext 5] (0, 0) 7) = Sha3x"
  using synced_blocks_unverified [OF algo_demo, of Sha3x "[1]" "[default_block demo_ext 5]" "(0, 0)" 7]
  by blast

text \<open>The work claimed by a new tip message is that of a block of greatest height in it, or
  the minimum when it has none.\<close>

theorem notify_pow_of_highest:
  "if nt_new_blocks m = [] then total_proof_of_work e m = acc_min e \<and> notify_algo m = RandomX
   else (\<exists>b \<in> set (nt_new_blocks m). total_proof_of_work e m = b_total_pow b
           \<and> (\<forall>c \<in> set (nt_new_blocks m). b_height c \<le> b_height b))
      \<and> notify_algo m = block_algo (nt_new_blocks m ! 0)"
proof (cases "nt_new_blocks m")
  case (Cons b bs)
  then obtain h where h: "max_by_key b_height (nt_new_blocks m) = Some h"
    using max_by_key_None [of b_height "nt_new_blocks m"] by (cases "max_by_key b_height (nt_new_blocks m)") auto
  then show ?thesis
    using max_by_key_Some [OF h] Cons
    by (auto simp: total_proof_of_work_def notify_algo_def block_algo_def simp del: max_by_key.simps)
qed (simp add: total_proof_of_work_def notify_algo_def)

theorem notify_pow_of_highest_witness:
  "total_proof_of_work demo_ext (notify_new_tip_block_new 9 [1] [(default_block demo_ext 5)\<lparr>b_total_pow := 8\<rparr>]) = 8"
  using notify_pow_of_highest [of "notify_new_tip_block_new 9 [1] [(default_block demo_ext 5)\<lparr>b_total_pow := 8\<rparr>]" demo_ext]
  by (simp add: notify_new_tip_block_new_def)

section \<open>Peer exchange\<close>

record direct_peer_info_request =
  dpr_peer_id :: string
  dpr_my_info :: peer_info
  dpr_best_peers :: "peer_info list"
  dpr_known_peer_ids :: "peer_id list"

record direct_peer_info_response =
  dps_peer_id :: string
  dps_info :: peer_info
  dps_best_peers :: "peer_info list"

record meta_data_request =
  mdr_peer_id :: string
  mdr_my_info :: peer_info

record meta_data_response =
  mds_peer_id :: string
  mds_info :: peer_info

end
