(* ===== verification/RelayStore.thy ===== *)
theory RelayStore
  imports Messages
begin

text \<open>
  The relays a node behind a NAT may use, \<open>server/p2p/relay_store.rs\<close>. A \<open>HashSet\<close> is a
  list without duplicates, an \<open>Instant\<close> the nanoseconds since an arbitrary origin of the
  monotonic clock; \<open>Instant::now()\<close> is an argument.
\<close>

type_synonym instant = nat
type_synonym duration = nat

record reservation =
  rs_address :: multiaddr
  rs_expires_at :: "instant option"
  rs_pending :: bool

record relay_store =
  possible_relays :: "(peer_id, multiaddr list) hmap"
  active_reservations :: "(peer_id, reservation) hmap"

definition relay_store_default :: relay_store where
  "relay_store_default = \<lparr>possible_relays = [], active_reservations = []\<rparr>"

definition add_possible_relay :: "peer_id \<Rightarrow> multiaddr \<Rightarrow> relay_store \<Rightarrow> relay_store \<times> bool" where
  "add_possible_relay p a s =
     (let as = (case hm_get (possible_relays s) p of None \<Rightarrow> [] | Some as \<Rightarrow> as)
      in (s\<lparr>possible_relays := hm_insert p (List.insert a as) (possible_relays s)\<rparr>, a \<notin> set as))"

definition confirm_reservation :: "peer_id \<Rightarrow> instant \<Rightarrow> relay_store \<Rightarrow> relay_store" where
  "confirm_reservation p expires s =
     (case hm_get (active_reservations s) p of
        Some r \<Rightarrow>
          s\<lparr>active_reservations :=
              hm_insert p (r\<lparr>rs_pending := False, rs_expires_at := Some expires\<rparr>) (active_reservations s)\<rparr>
      | None \<Rightarrow> s)"

definition add_pending_reservation :: "peer_id \<Rightarrow> multiaddr \<Rightarrow> relay_store \<Rightarrow> relay_store" where
  "add_pending_reservation p a s =
     (case hm_get (active_reservations s) p of
        Some r \<Rightarrow>
          s\<lparr>active_reservations :=
              hm_insert p (r\<lparr>rs_pending := True, rs_address := a\<rparr>) (active_reservations s)\<rparr>
      | None \<Rightarrow>
          s\<lparr>active_reservations :=
              hm_insert p \<lparr>rs_address = a, rs_expires_at = None, rs_pending = True\<rparr> (active_reservations s)\<rparr>)"

definition get_potential_relays :: "relay_store \<Rightarrow> (peer_id \<times> multiaddr) list" where
  "get_potential_relays s = concat (map (\<lambda>(p, as). map (\<lambda>a. (p, a)) as) (possible_relays s))"

definition get_expiring_reservations ::
  "instant \<Rightarrow> duration \<Rightarrow> relay_store \<Rightarrow> (peer_id \<times> multiaddr) list" where
  "get_expiring_reservations now within s =
     List.map_filter
       (\<lambda>(p, r). case rs_expires_at r of
                   Some expires_at \<Rightarrow>
                     if expires_at < now + within then Some (p, rs_address r) else None
                 | None \<Rightarrow> None)
       (active_reservations s)"

definition get_relay_peer_ids :: "instant \<Rightarrow> relay_store \<Rightarrow> peer_id list" where
  "get_relay_peer_ids now s =
     List.map_filter
       (\<lambda>(p, r). case rs_expires_at r of
                   Some expires \<Rightarrow> if now < expires then Some p else None
                 | None \<Rightarrow> None)
       (active_reservations s)"

definition is_relay :: "relay_store \<Rightarrow> peer_id \<Rightarrow> bool" where
  "is_relay s p \<longleftrightarrow> hm_contains (possible_relays s) p"

section \<open>Well-formed stores\<close>

definition relay_ok :: "relay_store \<Rightarrow> bool" where
  "relay_ok s \<longleftrightarrow> hm_ok (possible_relays s) \<and> hm_ok (active_reservations s)
     \<and> (\<forall>p as. hm_get (possible_relays s) p = Some as \<longrightarrow> distinct as \<and> as \<noteq> [])"

lemma relay_ok_default [simp]: "relay_ok relay_store_default"
  by (simp add: relay_ok_def relay_store_default_def)

lemma relay_ok_add [wf_intros]: "relay_ok s \<Longrightarrow> relay_ok (fst (add_possible_relay p a s))"
  by (auto simp: relay_ok_def add_possible_relay_def Let_def hm.ok_put List.insert_def
      split: option.splits if_splits)

lemma relay_ok_confirm [wf_intros]: "relay_ok s \<Longrightarrow> relay_ok (confirm_reservation p t s)"
  by (auto simp: relay_ok_def confirm_reservation_def hm.ok_put split: option.splits)

lemma relay_ok_pending [wf_intros]: "relay_ok s \<Longrightarrow> relay_ok (add_pending_reservation p a s)"
  by (auto simp: relay_ok_def add_pending_reservation_def hm.ok_put split: option.splits)

lemma potential_relays_iff:
  assumes "relay_ok s"
  shows "(p, a) \<in> set (get_potential_relays s)
    \<longleftrightarrow> (\<exists>as. hm_get (possible_relays s) p = Some as \<and> a \<in> set as)"
  using assms by (fastforce simp: get_potential_relays_def relay_ok_def hm_ok_get)

lemma relay_peer_ids_iff:
  assumes "relay_ok s"
  shows "p \<in> set (get_relay_peer_ids now s)
    \<longleftrightarrow> (\<exists>r t. hm_get (active_reservations s) p = Some r \<and> rs_expires_at r = Some t \<and> now < t)"
  using assms
  by (simp add: get_relay_peer_ids_def relay_ok_def hm_ok_get set_map_filter)
    (force split: option.splits if_splits)

lemma expiring_iff:
  assumes "relay_ok s"
  shows "(p, a) \<in> set (get_expiring_reservations now within s)
    \<longleftrightarrow> (\<exists>r t. hm_get (active_reservations s) p = Some r \<and> rs_expires_at r = Some t
          \<and> t < now + within \<and> rs_address r = a)"
  using assms
  by (simp add: get_expiring_reservations_def relay_ok_def hm_ok_get set_map_filter)
    (force split: option.splits if_splits)

text \<open>A reservation that was requested and confirmed makes its peer a relay until it expires
  and is listed for renewal in the given period before that; other peers are not affected, and
  confirming an unknown reservation does nothing.\<close>

theorem relay_reservation_lifecycle:
  fixes p a t
  assumes "relay_ok s"
  defines "s' \<equiv> confirm_reservation p t (add_pending_reservation p a s)"
  shows "relay_ok s'
    \<and> (p \<in> set (get_relay_peer_ids now s') \<longleftrightarrow> now < t)
    \<and> ((p, b) \<in> set (get_expiring_reservations now within s') \<longleftrightarrow> b = a \<and> t < now + within)
    \<and> (q \<noteq> p \<longrightarrow> (q \<in> set (get_relay_peer_ids now s') \<longleftrightarrow> q \<in> set (get_relay_peer_ids now s)))
    \<and> (hm_get (active_reservations s) p = None \<longrightarrow>
         confirm_reservation p t s = s
       \<and> p \<notin> set (get_relay_peer_ids now (add_pending_reservation p a s)))"
proof -
  have ok1: "relay_ok (add_pending_reservation p a s)" by (rule relay_ok_pending [OF assms(1)])
  have ok: "relay_ok s'" unfolding s'_def by (rule relay_ok_confirm [OF ok1])
  have get: "hm_get (active_reservations s') q =
      (if q = p then Some \<lparr>rs_address = a, rs_expires_at = Some t, rs_pending = False\<rparr>
       else hm_get (active_reservations s) q)" for q
    by (auto simp: s'_def confirm_reservation_def add_pending_reservation_def split: option.splits)
  show ?thesis
    unfolding relay_peer_ids_iff [OF ok] relay_peer_ids_iff [OF ok1] relay_peer_ids_iff [OF assms(1)]
      expiring_iff [OF ok]
    using ok by (auto simp: get confirm_reservation_def add_pending_reservation_def)
qed

theorem relay_reservation_lifecycle_witness:
  "[1] \<in> set (get_relay_peer_ids 5 (confirm_reservation [1] 9 (add_pending_reservation [1] ''relay'' relay_store_default)))"
  using relay_reservation_lifecycle [OF relay_ok_default, of "[1]" 9 "''relay''" 5] by simp

end
