(* ===== verification/PeerStore.thy ===== *)
theory PeerStore
  imports RelayStore "HOL-Library.Sorting_Algorithms"
begin

text \<open>
  The peers a node knows, \<open>server/p2p/peer_store.rs\<close>: four hash maps keyed by the printed
  peer identity (white, grey and black listed peers of the own squad, and peers of other
  squads), the seed peers and the own squad's name. The statistics client is the log of
  the counts that were sent to it. The clocks \<open>Instant::now()\<close> and \<open>EpochTime::now()\<close> and
  the shuffle of the random number generator are arguments.
\<close>

section \<open>Records\<close>

definition MAX_GREY_LISTINGS :: u64 where "MAX_GREY_LISTINGS = 5"

record peer_store_record =
  pr_peer_id :: peer_id
  pr_peer_info :: peer_info
  pr_created :: instant
  pr_last_rx_sync_attempt :: "instant option"
  pr_last_sha3x_sync_attempt :: "instant option"
  pr_num_grey_listings :: u64
  pr_last_grey_list_reason :: "string option"
  pr_catch_up_attempts :: u64
  pr_last_ping :: "epoch_time option"
  pr_last_dial_attempt :: "instant option"

definition peer_store_record_new :: "instant \<Rightarrow> peer_id \<Rightarrow> peer_info \<Rightarrow> peer_store_record" where
  "peer_store_record_new now p i =
     \<lparr>pr_peer_id = p, pr_peer_info = i, pr_created = now, pr_last_rx_sync_attempt = None,
      pr_last_sha3x_sync_attempt = None, pr_num_grey_listings = 0,
      pr_last_grey_list_reason = None, pr_catch_up_attempts = 0, pr_last_ping = None,
      pr_last_dial_attempt = None\<rparr>"

definition last_seen :: "peer_store_record \<Rightarrow> epoch_time" where
  "last_seen r = (case pr_last_ping r of Some t \<Rightarrow> t | None \<Rightarrow> pi_timestamp (pr_peer_info r))"

datatype add_peer_status = NewPeer | Existing | Blacklisted | Greylisted | NonSquad

type_synonym peer_map = "(string, peer_store_record) hmap"

record peer_store =
  whitelist_peers :: peer_map
  greylist_peers :: peer_map
  blacklist_peers :: peer_map
  non_squad_peers :: peer_map
  stats_sent :: "(u64 \<times> u64 \<times> u64 \<times> u64) list"
  seed_peers :: "peer_id list"
  my_squad :: string

definition peer_store_new :: "string \<Rightarrow> peer_store" where
  "peer_store_new squad =
     \<lparr>whitelist_peers = [], greylist_peers = [], blacklist_peers = [], non_squad_peers = [],
      stats_sent = [], seed_peers = [], my_squad = squad\<rparr>"

definition update_peer_stats :: "peer_store \<Rightarrow> peer_store" where
  "update_peer_stats s =
     s\<lparr>stats_sent := stats_sent s @
         [(of_nat (length (whitelist_peers s)), of_nat (length (greylist_peers s)),
           of_nat (length (blacklist_peers s)), of_nat (length (non_squad_peers s)))]\<rparr>"

section \<open>Lookups\<close>

definition peer_get :: "net_ext \<Rightarrow> peer_store \<Rightarrow> peer_id \<Rightarrow> peer_store_record option" where
  "peer_get n s p =
     (let k = peer_to_base58 n p in
      case hm_get (whitelist_peers s) k of
        Some r \<Rightarrow> Some r
      | None \<Rightarrow>
          (case hm_get (greylist_peers s) k of
             Some r \<Rightarrow> Some r
           | None \<Rightarrow> hm_get (blacklist_peers s) k))"

definition is_seed_peer :: "peer_store \<Rightarrow> peer_id \<Rightarrow> bool" where
  "is_seed_peer s p \<longleftrightarrow> p \<in> set (seed_peers s)"

definition add_seed_peers :: "peer_id list \<Rightarrow> peer_store \<Rightarrow> peer_store" where
  "add_seed_peers ps s = s\<lparr>seed_peers := seed_peers s @ ps\<rparr>"

definition num_catch_ups :: "net_ext \<Rightarrow> peer_store \<Rightarrow> peer_id \<Rightarrow> u64 option" where
  "num_catch_ups n s p = map_option pr_catch_up_attempts (hm_get (whitelist_peers s) (peer_to_base58 n p))"

definition is_blacklisted :: "net_ext \<Rightarrow> peer_store \<Rightarrow> peer_id \<Rightarrow> bool" where
  "is_blacklisted n s p \<longleftrightarrow> hm_contains (blacklist_peers s) (peer_to_base58 n p)"

definition peer_type :: "net_ext \<Rightarrow> peer_store \<Rightarrow> peer_id \<Rightarrow> add_peer_status option" where
  "peer_type n s p =
     (let k = peer_to_base58 n p in
      if hm_contains (whitelist_peers s) k then Some Existing
      else if hm_contains (greylist_peers s) k then Some Greylisted
      else if hm_contains (blacklist_peers s) k then Some Blacklisted
      else if hm_contains (non_squad_peers s) k then Some NonSquad
      else None)"

definition get_known_peers :: "net_ext \<Rightarrow> peer_store \<Rightarrow> peer_id set" where
  "get_known_peers n s =
     set (List.map_filter (peer_from_str n)
            (hm_keys (whitelist_peers s) @ hm_keys (greylist_peers s)
             @ hm_keys (blacklist_peers s) @ hm_keys (non_squad_peers s)))"

definition get_known_same_squad_peer_records :: "peer_store \<Rightarrow> peer_store_record list" where
  "get_known_same_squad_peer_records s =
     hm_values (whitelist_peers s) @ hm_values (greylist_peers s) @ hm_values (blacklist_peers s)"

text \<open>
  The loop of \<open>max_known_network_height\<close> with its running maxima; \<open>now - 60\<close> panics for a
  clock before the first minute of the epoch, and is computed only when a peer is looked at
  (for the ping only when there was one).
\<close>

fun max_height_loop ::
  "pow_algorithm \<Rightarrow> epoch_time \<Rightarrow> peer_store_record list \<Rightarrow> u64 \<times> u128 \<times> peer_id option
     \<Rightarrow> (unit, u64 \<times> u128 \<times> peer_id option) outcome" where
  "max_height_loop algo now [] best = Ok best"
| "max_height_loop algo now (r # rs) best =
     bindO (case pr_last_ping r of
              Some t \<Rightarrow> bindO (sub_chk now 60) (\<lambda>bound. Ok (t < bound))
            | None \<Rightarrow> Ok True)
       (\<lambda>old. if old then max_height_loop algo now rs best
         else bindO (sub_chk now 60) (\<lambda>bound.
           if pi_timestamp (pr_peer_info r) < bound then max_height_loop algo now rs best
           else
             (let i = pr_peer_info r;
                  (achieved, height) =
                    (case algo of
                       RandomX \<Rightarrow> (pi_current_random_x_pow i, pi_current_random_x_height i)
                     | Sha3x \<Rightarrow> (pi_current_sha3x_pow i, pi_current_sha3x_height i))
              in max_height_loop algo now rs
                   (if fst (snd best) < achieved then (height, achieved, Some (pr_peer_id r)) else best))))"

definition max_known_network_height ::
  "peer_store \<Rightarrow> pow_algorithm \<Rightarrow> epoch_time \<Rightarrow> (unit, u64 \<times> u128 \<times> peer_id option) outcome" where
  "max_known_network_height s algo now =
     max_height_loop algo now (hm_values (whitelist_peers s)) (0, 0, None)"

section \<open>Choosing peers\<close>

text \<open>\<open>Ordering::then\<close> on comparators: the second decides where the first finds no order.\<close>

definition then_by :: "'a comparator \<Rightarrow> 'a comparator \<Rightarrow> 'a comparator" where
  "then_by c d = key (\<lambda>x. (x, x)) (prod_lex c d)"

definition squad_rank :: "string \<Rightarrow> peer_store_record \<Rightarrow> nat" where
  "squad_rank squad r = (if pi_squad (pr_peer_info r) = squad then 0 else 1)"

definition share_order :: "string \<Rightarrow> peer_store_record comparator" where
  "share_order squad =
     then_by (key (squad_rank squad) default) (key last_seen (reversed default))"

definition best_peers_to_share ::
  "net_ext \<Rightarrow> peer_store \<Rightarrow> nat \<Rightarrow> string \<Rightarrow> peer_id list \<Rightarrow> peer_store_record list" where
  "best_peers_to_share n s limit squad others =
     (let peers = hm_values (whitelist_peers s) @ hm_values (non_squad_peers s);
          peers = filter (\<lambda>r. public_addresses n (pr_peer_info r) \<noteq> [] \<and> pr_last_ping r \<noteq> None) peers;
          peers = Sorting_Algorithms.sort (share_order squad) peers;
          peers = filter (\<lambda>r. pr_peer_id r \<notin> set others) peers
      in take limit peers)"

text \<open>
  A peer may be dialled when it has an address and was not dialled in the last 120 seconds
  (\<open>elapsed().as_secs() > 120\<close>; the elapsed time of an instant in the future is zero).
\<close>

definition elapsed_secs :: "instant \<Rightarrow> instant \<Rightarrow> nat" where
  "elapsed_secs now t = (now - t) div 1000000000"

definition dialable :: "net_ext \<Rightarrow> instant \<Rightarrow> peer_store_record \<Rightarrow> bool" where
  "dialable n now r \<longleftrightarrow> public_addresses n (pr_peer_info r) \<noteq> []
     \<and> (case pr_last_dial_attempt r of None \<Rightarrow> True | Some t \<Rightarrow> 120 < elapsed_secs now t)"

definition dial_order :: "bool \<Rightarrow> bool \<Rightarrow> peer_store_record comparator" where
  "dial_order include_randomx include_sha3 =
     (let builder = key pr_num_grey_listings default;
          builder = (if include_randomx
                     then then_by builder
                            (key (\<lambda>r. pi_current_random_x_pow (pr_peer_info r)) (reversed default))
                     else builder)
      in if include_sha3
         then then_by builder
                (key (\<lambda>r. pi_current_sha3x_pow (pr_peer_info r)) (reversed default))
         else builder)"

definition best_squad_peers_to_dial ::
  "net_ext \<Rightarrow> instant \<Rightarrow> peer_store \<Rightarrow> nat \<Rightarrow> bool \<Rightarrow> bool \<Rightarrow> peer_store_record list" where
  "best_squad_peers_to_dial n now s limit include_randomx include_sha3 =
     take limit (Sorting_Algorithms.sort (dial_order include_randomx include_sha3)
                   (filter (dialable n now) (hm_values (whitelist_peers s))))"

definition random_non_squad_peers_to_dial ::
  "net_ext \<Rightarrow> instant \<Rightarrow> (peer_store_record list \<Rightarrow> peer_store_record list) \<Rightarrow> peer_store \<Rightarrow> nat
     \<Rightarrow> peer_store_record list" where
  "random_non_squad_peers_to_dial n now shuffle s limit =
     take limit (shuffle (filter (dialable n now) (hm_values (non_squad_peers s))))"

section \<open>Updating records in place\<close>

text \<open>\<open>if let Some(entry) = map.get_mut(k) { *entry = f(entry) }\<close>\<close>

definition hm_modify :: "'k \<Rightarrow> ('v \<Rightarrow> 'v) \<Rightarrow> ('k, 'v) hmap \<Rightarrow> ('k, 'v) hmap" where
  "hm_modify k f m = (case hm_get m k of Some v \<Rightarrow> hm_insert k (f v) m | None \<Rightarrow> m)"

definition set_last_ping :: "net_ext \<Rightarrow> peer_id \<Rightarrow> epoch_time \<Rightarrow> peer_store \<Rightarrow> peer_store" where
  "set_last_ping n p t s =
     (let k = peer_to_base58 n p;
          ping = (\<lambda>r. r\<lparr>pr_last_ping := Some t\<rparr>);
          s = s\<lparr>whitelist_peers := hm_modify k ping (whitelist_peers s)\<rparr>;
          s = (case hm_get (greylist_peers s) k of
                 Some entry \<Rightarrow>
                   (let s = s\<lparr>greylist_peers := hm_remove k (greylist_peers s)\<rparr>;
                        record = (ping entry)\<lparr>pr_num_grey_listings := 0\<rparr>
                    in update_peer_stats
                         (s\<lparr>whitelist_peers := hm_insert k record (whitelist_peers s)\<rparr>))
               | None \<Rightarrow> s)
      in s\<lparr>blacklist_peers := hm_modify k ping (blacklist_peers s)\<rparr>)"

text \<open>The increment panics on overflow (\<open>+= 1\<close>).\<close>

definition add_catch_up_attempt :: "net_ext \<Rightarrow> peer_id \<Rightarrow> peer_store \<Rightarrow> (unit, peer_store) outcome" where
  "add_catch_up_attempt n p s =
     (let k = peer_to_base58 n p in
      case hm_get (whitelist_peers s) k of
        Some r \<Rightarrow>
          bindO (add_chk (pr_catch_up_attempts r) 1) (\<lambda>c.
            Ok (s\<lparr>whitelist_peers := hm_insert k (r\<lparr>pr_catch_up_attempts := c\<rparr>) (whitelist_peers s)\<rparr>))
      | None \<Rightarrow> Ok s)"

definition reset_catch_up_attempts :: "net_ext \<Rightarrow> peer_id \<Rightarrow> peer_store \<Rightarrow> peer_store" where
  "reset_catch_up_attempts n p s =
     s\<lparr>whitelist_peers :=
         hm_modify (peer_to_base58 n p) (\<lambda>r. r\<lparr>pr_catch_up_attempts := 0\<rparr>) (whitelist_peers s)\<rparr>"

definition update_last_dial_attempt :: "net_ext \<Rightarrow> instant \<Rightarrow> peer_id \<Rightarrow> peer_store \<Rightarrow> peer_store" where
  "update_last_dial_attempt n now p s =
     (let k = peer_to_base58 n p; dial = (\<lambda>r. r\<lparr>pr_last_dial_attempt := Some now\<rparr>)
      in s\<lparr>whitelist_peers := hm_modify k dial (whitelist_peers s),
           greylist_peers := hm_modify k dial (greylist_peers s),
           non_squad_peers := hm_modify k dial (non_squad_peers s)\<rparr>)"

definition update_last_sync_attempt ::
  "net_ext \<Rightarrow> instant \<Rightarrow> peer_id \<Rightarrow> pow_algorithm \<Rightarrow> peer_store \<Rightarrow> peer_store" where
  "update_last_sync_attempt n now p algo s =
     (let k = peer_to_base58 n p;
          sync = (\<lambda>r. case algo of
                        RandomX \<Rightarrow> r\<lparr>pr_last_rx_sync_attempt := Some now\<rparr>
                      | Sha3x \<Rightarrow> r\<lparr>pr_last_sha3x_sync_attempt := Some now\<rparr>)
      in s\<lparr>whitelist_peers := hm_modify k sync (whitelist_peers s),
           greylist_peers := hm_modify k sync (greylist_peers s)\<rparr>)"

section \<open>Adding a peer and moving it between the lists\<close>

definition peer_add ::
  "net_ext \<Rightarrow> instant \<Rightarrow> peer_id \<Rightarrow> peer_info \<Rightarrow> peer_store \<Rightarrow> peer_store \<times> add_peer_status" where
  "peer_add n now p i s =
     (let k = peer_to_base58 n p in
      if pi_squad i \<noteq> my_squad s then
        (let return_type = (if hm_contains (non_squad_peers s) k then Existing else NonSquad);
             s = s\<lparr>non_squad_peers := hm_insert k (peer_store_record_new now p i) (non_squad_peers s)\<rparr>
         in (update_peer_stats s, return_type))
      else if p \<in> set (seed_peers s) then
        (let r = (peer_store_record_new now p i)\<lparr>pr_last_grey_list_reason := Some ''Seed peer''\<rparr>;
             s = s\<lparr>greylist_peers := hm_insert k r (greylist_peers s)\<rparr>
         in (update_peer_stats s, Greylisted))
      else if hm_contains (blacklist_peers s) k then (s, Blacklisted)
      else if hm_contains (greylist_peers s) k then (s, Greylisted)
      else
        (case hm_get (whitelist_peers s) k of
           Some prev \<Rightarrow>
             (let r = (peer_store_record_new now p i)
                        \<lparr>pr_catch_up_attempts := pr_catch_up_attempts prev,
                         pr_last_rx_sync_attempt := pr_last_rx_sync_attempt prev,
                         pr_last_sha3x_sync_attempt := pr_last_sha3x_sync_attempt prev,
                         pr_created := pr_created prev,
                         pr_last_ping := pr_last_ping prev,
                         pr_num_grey_listings := pr_num_grey_listings prev,
                         pr_last_grey_list_reason := pr_last_grey_list_reason prev\<rparr>
              in (s\<lparr>whitelist_peers := hm_insert k r (whitelist_peers s)\<rparr>, Existing))
         | None \<Rightarrow>
             (update_peer_stats
                (s\<lparr>whitelist_peers := hm_insert k (peer_store_record_new now p i) (whitelist_peers s)\<rparr>),
              NewPeer)))"

definition clear_grey_step :: "string \<times> peer_store_record \<Rightarrow> peer_store \<Rightarrow> peer_store" where
  "clear_grey_step = (\<lambda>(k, r) s.
     if MAX_GREY_LISTINGS \<le> pr_num_grey_listings r
     then s\<lparr>blacklist_peers := hm_insert k r (blacklist_peers s)\<rparr>
     else if pr_peer_id r \<in> set (seed_peers s) then s
     else s\<lparr>whitelist_peers := hm_insert k r (whitelist_peers s)\<rparr>)"

definition clear_grey_list :: "peer_store \<Rightarrow> peer_store" where
  "clear_grey_list s =
     update_peer_stats (fold clear_grey_step (greylist_peers s) (s\<lparr>greylist_peers := []\<rparr>))"

definition pardon :: "peer_store_record \<Rightarrow> peer_store_record" where
  "pardon r = r\<lparr>pr_catch_up_attempts := 0, pr_last_grey_list_reason := None, pr_num_grey_listings := 0\<rparr>"

definition clear_black_list :: "peer_store \<Rightarrow> peer_store" where
  "clear_black_list s =
     update_peer_stats
       (fold (\<lambda>(k, r) s. s\<lparr>whitelist_peers := hm_insert k (pardon r) (whitelist_peers s)\<rparr>)
          (blacklist_peers s) (s\<lparr>blacklist_peers := []\<rparr>))"

text \<open>
  The record has left the white list when the increment panics.
\<close>

definition move_to_grey_list ::
  "net_ext \<Rightarrow> peer_id \<Rightarrow> string \<Rightarrow> peer_store \<Rightarrow> peer_store \<times> (unit, unit) outcome" where
  "move_to_grey_list n p reason s =
     (let k = peer_to_base58 n p in
      case hm_get (whitelist_peers s) k of
        None \<Rightarrow> (s, Ok ())
      | Some r \<Rightarrow>
          (let s = s\<lparr>whitelist_peers := hm_remove k (whitelist_peers s)\<rparr> in
           bindS (s, add_chk (pr_num_grey_listings r) 1) (\<lambda>s c.
             (update_peer_stats
                (s\<lparr>greylist_peers :=
                     hm_insert k (r\<lparr>pr_last_grey_list_reason := Some reason, pr_num_grey_listings := c\<rparr>)
                       (greylist_peers s)\<rparr>), Ok ()))))"

definition move_to_blacklist :: "net_ext \<Rightarrow> peer_id \<Rightarrow> string \<Rightarrow> peer_store \<Rightarrow> peer_store" where
  "move_to_blacklist n p reason s =
     (let k = peer_to_base58 n p;
          white = hm_get (whitelist_peers s) k;
          grey = hm_get (greylist_peers s) k;
          s = (if white \<noteq> None then s\<lparr>whitelist_peers := hm_remove k (whitelist_peers s)\<rparr> else s);
          s = (if grey \<noteq> None then s\<lparr>greylist_peers := hm_remove k (greylist_peers s)\<rparr> else s)
      in case (if grey \<noteq> None then grey else white) of
           Some r \<Rightarrow> update_peer_stats (s\<lparr>blacklist_peers := hm_insert k r (blacklist_peers s)\<rparr>)
         | None \<Rightarrow> s)"

end
