(* ===== verification/NetTypes.thy ===== *)
theory NetTypes
  imports ShareService PeerStore
begin

text \<open>
  The peer-to-peer service, \<open>server/p2p/network.rs\<close>: its constants, configuration and
  state, what it asks of libp2p, and the messages it publishes.

  The fields the code has twice, once for each proof-of-work algorithm
  (\<open>share_chain_random_x\<close> and \<open>share_chain_sha3x\<close>, \<open>randomx_sync_semaphore\<close> and
  \<open>sha3x_sync_semaphore\<close>, ...), are functions of the algorithm. A semaphore is the
  number of its permits that are free, and a permit names the semaphore it goes back to when it
  is dropped. The swarm of libp2p is its identity, the external addresses and the connected
  peers it reports, a counter for the request identities of each protocol, and the list of what
  the service asked it to do. A panic of a handler is the outcome \<open>Panic\<close>.
\<close>

section \<open>Constants and configuration\<close>

definition PEER_INFO_TOPIC :: string where "PEER_INFO_TOPIC = ''peer_info''"
definition BLOCK_NOTIFY_TOPIC :: string where "BLOCK_NOTIFY_TOPIC = ''block_notify''"
definition BLOCK_NOTIFY_RX_TOPIC :: string where "BLOCK_NOTIFY_RX_TOPIC = ''block_notify_rx''"
definition BLOCK_NOTIFY_SHA3X_TOPIC :: string where
  "BLOCK_NOTIFY_SHA3X_TOPIC = ''block_notify_sha3x''"
definition CATCH_UP_SYNC_REQUEST_RESPONSE_PROTOCOL :: string where
  "CATCH_UP_SYNC_REQUEST_RESPONSE_PROTOCOL = ''/catch_up_sync/5''"
definition CATCH_UP_SYNC_BLOCKS_IN_I_HAVE :: nat where "CATCH_UP_SYNC_BLOCKS_IN_I_HAVE = 100"
definition MAX_CATCH_UP_ATTEMPTS :: u64 where "MAX_CATCH_UP_ATTEMPTS = 500"
definition MAX_CATCH_UP_BLOCKS_TO_RETURN :: nat where "MAX_CATCH_UP_BLOCKS_TO_RETURN = 5"
definition NUM_PEERS_TO_SYNC_PER_ALGO :: nat where "NUM_PEERS_TO_SYNC_PER_ALGO = 32"
definition NUM_PEERS_INITIAL_SYNC :: nat where "NUM_PEERS_INITIAL_SYNC = 100"
definition NUM_PEERS_TO_META_DATA_EXCHANGE :: nat where "NUM_PEERS_TO_META_DATA_EXCHANGE = 8"
definition NUM_PEERS_TO_PEER_INFO_EXCHANGE :: nat where "NUM_PEERS_TO_PEER_INFO_EXCHANGE = 8"
definition MAX_OUTBOUND_SQUAD_PEERS :: nat where "MAX_OUTBOUND_SQUAD_PEERS = 8"
definition MAX_OUTBOUND_NON_SQUAD_PEERS :: nat where "MAX_OUTBOUND_NON_SQUAD_PEERS = 2"

text \<open>A \<open>Duration\<close> in nanoseconds.\<close>

definition from_secs :: "nat \<Rightarrow> duration" where "from_secs n = n * 1000000000"

record p2p_config =
  external_addr :: "string option"
  cfg_seed_peers :: "string list"
  peer_info_publish_interval :: duration
  stable_peer :: bool
  private_key_folder :: string
  private_key :: "bytes option"
  mdns_enabled :: bool
  relay_server_disabled :: bool
  squad_override :: "string option"
  squad_prefix :: string
  num_squads :: nat
  user_agent :: string
  grey_list_clear_interval :: duration
  black_list_clear_interval :: duration
  meta_data_exchange_interval :: duration
  peer_exchange_interval :: duration
  cfg_is_seed_peer :: bool
  debug_print_chain :: bool
  sync_job_enabled :: bool
  sha3x_enabled :: bool
  randomx_enabled :: bool
  num_concurrent_syncs :: nat
  num_sync_tips_to_keep :: nat
  max_missing_blocks_sync_depth :: nat
  diagnostic_mode :: bool
  diagnostic_mode_file_path :: "string option"

definition p2p_config_default :: p2p_config where
  "p2p_config_default = \<lparr>
     external_addr = None,
     cfg_seed_peers = [],
     peer_info_publish_interval = from_secs (60 * 15),
     stable_peer = True,
     private_key_folder = ''.'',
     private_key = None,
     mdns_enabled = False,
     relay_server_disabled = False,
     squad_override = None,
     squad_prefix = ''default'',
     num_squads = 1,
     user_agent = ''tari-p2pool'',
     grey_list_clear_interval = from_secs (60 * 15),
     black_list_clear_interval = from_secs (60 * 60),
     meta_data_exchange_interval = from_secs 5,
     peer_exchange_interval = from_secs (60 * 60),
     cfg_is_seed_peer = False,
     debug_print_chain = False,
     sync_job_enabled = True,
     sha3x_enabled = True,
     randomx_enabled = True,
     num_concurrent_syncs = 1,
     num_sync_tips_to_keep = 10,
     max_missing_blocks_sync_depth = 8,
     diagnostic_mode = False,
     diagnostic_mode_file_path = None\<rparr>"

definition algo_enabled :: "p2p_config \<Rightarrow> pow_algorithm \<Rightarrow> bool" where
  "algo_enabled c a = (case a of RandomX \<Rightarrow> randomx_enabled c | Sha3x \<Rightarrow> sha3x_enabled c)"

section \<open>What the service uses of libp2p and of the clock\<close>

text \<open>The parts of an address, as far as the service looks at them.\<close>

datatype protocol = Ip4 u8 u8 u8 u8 | Ip6 u128 | P2p | P2pCircuit | OtherProtocol

text \<open>
  The functions of other crates: the parts of an address and the relayed form of it, the
  name of the Tari network, the decoding of the payload of a gossip message, the name of the
  relay protocol, whether the swarm can listen on an address, and whether the log prints the
  level info. An \<open>Instant\<close> and two readings of the epoch clock come with
  every call.
\<close>

record 'l world =
  w_ext :: "'l ext"
  w_net :: net_ext
  multiaddr_protocols :: "multiaddr \<Rightarrow> protocol list"
  with_p2p_circuit :: "multiaddr \<Rightarrow> multiaddr"
  network_key_str :: string
  current_chain_id :: string
  decimal :: "u64 \<Rightarrow> string"
  decode_peer_info :: "bytes \<Rightarrow> string + peer_info"
  hop_protocol_name :: string
  listen_on_succeeds :: "multiaddr \<Rightarrow> bool"
  decode_notify :: "bytes \<Rightarrow> string + notify_new_tip_block"
  show_error :: "share_chain_error \<Rightarrow> string"
  log_info :: bool

record clock =
  c_now :: epoch_time
  c_now' :: epoch_time
  c_instant :: instant

text \<open>\<open>Ipv4Addr::is_private\<close>, \<open>is_loopback\<close> and \<open>Ipv6Addr::is_loopback\<close>.\<close>

fun is_local_part :: "protocol \<Rightarrow> bool" where
  "is_local_part (Ip4 a b c d) \<longleftrightarrow>
     a = 127 \<or> a = 10 \<or> (a = 172 \<and> 16 \<le> b \<and> b \<le> 31) \<or> (a = 192 \<and> b = 168)"
| "is_local_part (Ip6 a) \<longleftrightarrow> a = 1"
| "is_local_part P2p \<longleftrightarrow> False"
| "is_local_part P2pCircuit \<longleftrightarrow> False"
| "is_local_part OtherProtocol \<longleftrightarrow> False"

definition is_localhost_or_private :: "'l world \<Rightarrow> multiaddr \<Rightarrow> bool" where
  "is_localhost_or_private w addr \<longleftrightarrow> list_ex is_local_part (multiaddr_protocols w addr)"

definition is_p2p_address_without_circuit :: "'l world \<Rightarrow> multiaddr \<Rightarrow> bool" where
  "is_p2p_address_without_circuit w addr \<longleftrightarrow>
     P2p \<in> set (multiaddr_protocols w addr) \<and> P2pCircuit \<notin> set (multiaddr_protocols w addr)"

section \<open>State\<close>

datatype permit = Permit pow_algorithm

record sync_missing =
  sm_algo :: pow_algorithm
  sm_peer :: peer_id
  sm_missing_parents :: "uncle_ref list"
  sm_is_from_new_block_notify :: bool
  sm_depth :: nat

record catch_up =
  cu_algo :: pow_algorithm
  cu_peer :: peer_id
  cu_last_block_from_them :: "uncle_ref option"
  cu_their_height :: u64
  cu_permit :: "permit option"

datatype inner_request =
    DoSyncMissingBlocks sync_missing
  | PerformCatchUpSync catch_up
  | AddSyncedBlock pow_algorithm p2block peer_id nat

datatype gossip_payload = PeerInfoPayload peer_info | NotifyPayload notify_new_tip_block

datatype acceptance = Accept | Reject | Ignore

text \<open>A response channel is the identity of the request it answers.\<close>

type_synonym channel = nat
type_synonym request_id = nat

record conn_counters =
  pending_incoming :: nat
  pending_outgoing :: nat
  established_incoming :: nat
  established_outgoing :: nat

record connection_info =
  ci_listener_addresses :: "multiaddr list"
  ci_connected_peers :: nat
  ci_num_peers :: nat
  ci_counters :: conn_counters

record connected_peer_info =
  cp_peer_id :: string
  cp_peer_info :: "peer_info option"
  cp_last_grey_list_reason :: "string option"
  cp_last_ping :: "epoch_time option"

datatype action =
    Subscribe string
  | Publish string gossip_payload
  | ReportValidation nat peer_id acceptance
  | SendDirectPeerExchange peer_id direct_peer_info_request
  | SendMetaDataExchange peer_id meta_data_request
  | SendShareChainSync request_id peer_id sync_missing_blocks_request
  | SendCatchUpSync request_id peer_id catch_up_sync_request
  | RespondDirectPeerExchange channel "string + direct_peer_info_response"
  | RespondMetaDataExchange channel "string + meta_data_response"
  | RespondShareChainSync channel "string + sync_missing_blocks_response"
  | RespondCatchUpSync channel "string + catch_up_sync_response"
  | AddPeerAddress peer_id multiaddr
  | RemoveExplicitPeer peer_id
  | DisconnectPeer peer_id
  | DialPeer peer_id "multiaddr list"
  | ListenOn multiaddr
  | SendLibp2pStats conn_counters
  | ReplyConnectionInfo connection_info
  | ReplyPeers "connected_peer_info list" "connected_peer_info list"
  | ReplyConnections "connected_peer_info list"
  | ReplyChain "p2block list"

record swarm =
  sw_local_peer_id :: peer_id
  sw_external_addresses :: "multiaddr list"
  sw_connected_peers :: "peer_id list"
  sw_num_peers :: nat
  sw_counters :: conn_counters
  sw_next_sync_id :: request_id
  sw_next_catch_up_id :: request_id
  sw_actions :: "action list"

text \<open>
  The task that a catch-up response starts runs beside the service. Its stages are the pieces
  between its \<open>await\<close> points.
\<close>

datatype task_stage =
    FeedBlocks
  | RememberTip "uncle_ref option" bool
  | CompareWork "uncle_ref option" bool
  | Decide "uncle_ref option" bool

record catch_up_task =
  ct_algo :: pow_algorithm
  ct_peer :: peer_id
  ct_blocks :: "p2block list"
  ct_their_tip_hash :: fixed_hash
  ct_their_height :: u64
  ct_their_pow :: u128
  ct_permit :: "permit option"
  ct_stage :: task_stage

text \<open>The cache of recent tips has the most recently used entry first.\<close>

type_synonym tips_lru = "(peer_id \<times> uncle_ref) list"

record 'l service =
  sv_squad :: string
  sv_swarm :: swarm
  sv_share_chain :: "pow_algorithm \<Rightarrow> 'l share_chain"
  sv_peer_store :: peer_store
  sv_config :: p2p_config
  sv_inner_requests :: "inner_request list"
  sv_relay_store :: relay_store
  sv_synced :: "pow_algorithm \<Rightarrow> bool"
  sv_available_permits :: "pow_algorithm \<Rightarrow> nat"
  sv_last_sync_requested_block :: "pow_algorithm \<Rightarrow> uncle_ref option"
  sv_in_progress_syncs :: "pow_algorithm \<Rightarrow> (peer_id, request_id \<times> permit) hmap"
  sv_last_failed_peer :: "pow_algorithm \<Rightarrow> peer_id option"
  sv_recent_synced_tips :: "pow_algorithm \<Rightarrow> tips_lru"
  sv_missing_blocks_sync_request_depth :: "(request_id, nat) hmap"
  sv_share_window :: u64
  sv_dialed_seed_peers :: "peer_id list"
  sv_is_private_nat :: bool
  sv_tasks :: "catch_up_task list"

text \<open>The size of the cache must not be zero.\<close>

definition service_new ::
    "p2p_config \<Rightarrow> (pow_algorithm \<Rightarrow> 'l share_chain) \<Rightarrow> (pow_algorithm \<Rightarrow> bool) \<Rightarrow> u64 \<Rightarrow> swarm \<Rightarrow> string
     \<Rightarrow> (unit, 'l service) outcome" where
  "service_new config share_chains synced share_window swarm squad =
     (if num_sync_tips_to_keep config = 0 then Panic
      else Ok \<lparr>sv_squad = squad, sv_swarm = swarm, sv_share_chain = share_chains,
              sv_peer_store = peer_store_new squad, sv_config = config, sv_inner_requests = [],
              sv_relay_store = relay_store_default, sv_synced = synced,
              sv_available_permits = (\<lambda>_. num_concurrent_syncs config),
              sv_last_sync_requested_block = (\<lambda>_. None), sv_in_progress_syncs = (\<lambda>_. []),
              sv_last_failed_peer = (\<lambda>_. None), sv_recent_synced_tips = (\<lambda>_. []),
              sv_missing_blocks_sync_request_depth = [], sv_share_window = share_window,
              sv_dialed_seed_peers = [], sv_is_private_nat = False, sv_tasks = []\<rparr>)"

section \<open>Small steps all handlers use\<close>

definition act :: "action \<Rightarrow> 'l service \<Rightarrow> 'l service" where
  "act a s = s\<lparr>sv_swarm := (sv_swarm s)\<lparr>sw_actions := sw_actions (sv_swarm s) @ [a]\<rparr>\<rparr>"

abbreviation local_peer_id :: "'l service \<Rightarrow> peer_id" where
  "local_peer_id s \<equiv> sw_local_peer_id (sv_swarm s)"

abbreviation external_addresses :: "'l service \<Rightarrow> multiaddr list" where
  "external_addresses s \<equiv> sw_external_addresses (sv_swarm s)"

abbreviation connected_peers :: "'l service \<Rightarrow> peer_id list" where
  "connected_peers s \<equiv> sw_connected_peers (sv_swarm s)"

definition on_peers :: "(peer_store \<Rightarrow> peer_store) \<Rightarrow> 'l service \<Rightarrow> 'l service" where
  "on_peers f s = s\<lparr>sv_peer_store := f (sv_peer_store s)\<rparr>"

text \<open>\<open>inner_request_tx.send\<close>: the channel is unbounded and its receiver lives as long as the service.\<close>

definition send_inner :: "inner_request \<Rightarrow> 'l service \<Rightarrow> 'l service" where
  "send_inner r s = s\<lparr>sv_inner_requests := sv_inner_requests s @ [r]\<rparr>"

definition drop_permit :: "permit option \<Rightarrow> 'l service \<Rightarrow> 'l service" where
  "drop_permit p s =
     (case p of
        None \<Rightarrow> s
      | Some (Permit a) \<Rightarrow>
          s\<lparr>sv_available_permits := (sv_available_permits s)(a := Suc (sv_available_permits s a))\<rparr>)"

text \<open>\<open>Semaphore::try_acquire_owned\<close>\<close>

definition try_acquire :: "pow_algorithm \<Rightarrow> 'l service \<Rightarrow> 'l service \<times> permit option" where
  "try_acquire a s =
     (case sv_available_permits s a of
        0 \<Rightarrow> (s, None)
      | Suc n \<Rightarrow> (s\<lparr>sv_available_permits := (sv_available_permits s)(a := n)\<rparr>, Some (Permit a)))"

definition grey_list_peer ::
    "'l world \<Rightarrow> peer_id \<Rightarrow> string \<Rightarrow> 'l service \<Rightarrow> 'l service \<times> (unit, unit) outcome" where
  "grey_list_peer w p reason s =
     (case move_to_grey_list (w_net w) p reason (sv_peer_store s) of
        (ps, r) \<Rightarrow> (s\<lparr>sv_peer_store := ps\<rparr>, r))"

definition sv_add_synced_blocks ::
    "'l world \<Rightarrow> clock \<Rightarrow> pow_algorithm \<Rightarrow> p2block list \<Rightarrow> 'l service
     \<Rightarrow> 'l service \<times> chain_add_result sc_result" where
  "sv_add_synced_blocks w t a bs s =
     (case add_synced_blocks (w_ext w) (log_info w) (c_now t) (c_now' t) (sv_share_chain s a) bs of
        (c, r) \<Rightarrow> (s\<lparr>sv_share_chain := (sv_share_chain s)(a := c)\<rparr>, r))"

text \<open>\<open>LruCache::put\<close>\<close>

definition lru_put :: "nat \<Rightarrow> peer_id \<Rightarrow> uncle_ref \<Rightarrow> tips_lru \<Rightarrow> tips_lru" where
  "lru_put cap k v m = take cap ((k, v) # hm_remove k m)"

lemma lru_put_length: "length (lru_put cap k v m) \<le> cap"
  by (simp add: lru_put_def)

section \<open>Publishing\<close>

definition network_topic :: "'l world \<Rightarrow> string \<Rightarrow> string" where
  "network_topic w topic =
     network_key_str w @ ''_'' @ current_chain_id w @ ''_'' @ topic @ ''_'' @ decimal w PROTOCOL_VERSION"

definition squad_topic :: "'l world \<Rightarrow> 'l service \<Rightarrow> string \<Rightarrow> string" where
  "squad_topic w s topic =
     network_key_str w @ ''_'' @ current_chain_id w @ ''_'' @ sv_squad s @ ''_'' @ topic @ ''_''
       @ decimal w PROTOCOL_VERSION"

definition subscribe :: "'l world \<Rightarrow> string \<Rightarrow> bool \<Rightarrow> 'l service \<Rightarrow> 'l service" where
  "subscribe w topic squad s =
     act (Subscribe (if squad then squad_topic w s topic else network_topic w topic)) s"

definition subscribe_to_topics :: "'l world \<Rightarrow> 'l service \<Rightarrow> 'l service" where
  "subscribe_to_topics w s =
     (let s = subscribe w PEER_INFO_TOPIC False s in
      if \<not> diagnostic_mode (sv_config s) then
        (let s = subscribe w BLOCK_NOTIFY_TOPIC True s;
             s = (if randomx_enabled (sv_config s) then subscribe w BLOCK_NOTIFY_RX_TOPIC True s else s)
         in if sha3x_enabled (sv_config s) then subscribe w BLOCK_NOTIFY_SHA3X_TOPIC True s else s)
      else s)"

definition create_peer_info :: "'l world \<Rightarrow> clock \<Rightarrow> multiaddr list \<Rightarrow> 'l service \<Rightarrow> peer_info" where
  "create_peer_info w t addresses s =
     peer_info_new (w_net w) (c_now t) (local_peer_id s)
       (tip_height (sv_share_chain s Sha3x)) (tip_height (sv_share_chain s RandomX))
       (chain_pow (w_ext w) (sv_share_chain s Sha3x)) (chain_pow (w_ext w) (sv_share_chain s RandomX))
       (sv_squad s) addresses (Some (user_agent (sv_config s)))"

definition broadcast_peer_info :: "'l world \<Rightarrow> clock \<Rightarrow> 'l service \<Rightarrow> 'l service" where
  "broadcast_peer_info w t s =
     (let public_addresses = external_addresses s in
      if public_addresses = [] then s
      else act (Publish (network_topic w PEER_INFO_TOPIC)
                  (PeerInfoPayload (create_peer_info w t public_addresses s))) s)"

definition broadcast_block :: "'l world \<Rightarrow> clock \<Rightarrow> p2block \<Rightarrow> 'l service \<Rightarrow> 'l service" where
  "broadcast_block w t block s =
     (let topic =
        (if b_version block \<le> 35 then squad_topic w s BLOCK_NOTIFY_TOPIC
         else case block_algo block of
                RandomX \<Rightarrow> squad_topic w s BLOCK_NOTIFY_RX_TOPIC
              | Sha3x \<Rightarrow> squad_topic w s BLOCK_NOTIFY_SHA3X_TOPIC)
      in act (Publish topic (NotifyPayload (notify_new_tip_block_new (c_now t) (local_peer_id s) [block]))) s)"

end
