(* ===== verification/NetPeers.thy ===== *)
theory NetPeers
  imports NetTypes
begin

text \<open>
  How the service (\<open>server/p2p/network.rs\<close>) learns about peers and keeps its connections:
  the exchange of peer lists and of chain heights, identification, relays, the jobs that
  close and open connections, and the queries of the other parts of the node.
\<close>

section \<open>Adding a peer\<close>

definition add_peer :: "'l world \<Rightarrow> clock \<Rightarrow> peer_info \<Rightarrow> peer_id \<Rightarrow> 'l service \<Rightarrow> 'l service \<times> bool" where
  "add_peer w t payload peer s =
     (if peer = local_peer_id s then (s, False)
      else if pi_version payload \<noteq> PROTOCOL_VERSION then (s, False)
      else
        (case peer_add (w_net w) (c_instant t) peer payload (sv_peer_store s) of
           (ps, status) \<Rightarrow>
             (let s = s\<lparr>sv_peer_store := ps\<rparr> in
              case status of
                NewPeer \<Rightarrow>
                  (fold (\<lambda>addr. act (AddPeerAddress peer addr)) (public_addresses (w_net w) payload) s, True)
              | Existing \<Rightarrow> (s, True)
              | Greylisted \<Rightarrow> (s, True)
              | NonSquad \<Rightarrow> (s, True)
              | Blacklisted \<Rightarrow> (s, False))))"

text \<open>The peers of a received list, each with the time stamp reset; the number that counted as added.\<close>

definition add_received_peer ::
    "'l world \<Rightarrow> clock \<Rightarrow> peer_info \<Rightarrow> 'l service \<times> nat \<Rightarrow> 'l service \<times> nat" where
  "add_received_peer w t peer = (\<lambda>(s, added).
     case pi_peer_id peer of
       None \<Rightarrow> (s, added)
     | Some p \<Rightarrow>
         (case add_peer w t (peer\<lparr>pi_timestamp := c_now t\<rparr>) p s of
            (s, True) \<Rightarrow> (s, Suc added)
          | (s, False) \<Rightarrow> (s, added)))"

definition add_received_peers :: "'l world \<Rightarrow> clock \<Rightarrow> peer_info list \<Rightarrow> 'l service \<Rightarrow> 'l service \<times> nat" where
  "add_received_peers w t peers s = fold (add_received_peer w t) peers (s, 0)"

section \<open>Exchange of peers\<close>

text \<open>The hash set of \<open>get_known_peers\<close> in the order of the lists.\<close>

definition known_peer_ids :: "'l world \<Rightarrow> peer_store \<Rightarrow> peer_id list" where
  "known_peer_ids w ps =
     remdups (List.map_filter (peer_from_str (w_net w))
       (hm_keys (whitelist_peers ps) @ hm_keys (greylist_peers ps)
        @ hm_keys (blacklist_peers ps) @ hm_keys (non_squad_peers ps)))"

definition my_peer_info :: "'l world \<Rightarrow> clock \<Rightarrow> 'l service \<Rightarrow> peer_info" where
  "my_peer_info w t s = create_peer_info w t (external_addresses s) s"

definition initiate_direct_peer_exchange :: "'l world \<Rightarrow> clock \<Rightarrow> peer_id \<Rightarrow> 'l service \<Rightarrow> 'l service" where
  "initiate_direct_peer_exchange w t peer s =
     (if peer = local_peer_id s then s
      else act (SendDirectPeerExchange peer
                  \<lparr>dpr_peer_id = peer_to_base58 (w_net w) (local_peer_id s), dpr_my_info = my_peer_info w t s,
                   dpr_best_peers = [], dpr_known_peer_ids = known_peer_ids w (sv_peer_store s)\<rparr>) s)"

definition initiate_meta_data_exchange :: "'l world \<Rightarrow> clock \<Rightarrow> peer_id \<Rightarrow> 'l service \<Rightarrow> 'l service" where
  "initiate_meta_data_exchange w t peer s =
     (if peer = local_peer_id s then s
      else act (SendMetaDataExchange peer
                  \<lparr>mdr_peer_id = peer_to_base58 (w_net w) (local_peer_id s),
                   mdr_my_info = my_peer_info w t s\<rparr>) s)"

definition handle_direct_peer_exchange_request ::
    "'l world \<Rightarrow> clock \<Rightarrow> channel \<Rightarrow> direct_peer_info_request \<Rightarrow> 'l service \<Rightarrow> 'l service" where
  "handle_direct_peer_exchange_request w t channel request s =
     (if pi_version (dpr_my_info request) \<noteq> PROTOCOL_VERSION
      then act (RespondDirectPeerExchange channel (Inl ''Peer has an outdated version'')) s
      else
        let num_peers = (if dpr_best_peers request = [] then NUM_PEERS_INITIAL_SYNC
                         else NUM_PEERS_TO_SYNC_PER_ALGO);
            my_best_peers = best_peers_to_share (w_net w) (sv_peer_store s) num_peers
                              (pi_squad (dpr_my_info request)) (dpr_known_peer_ids request);
            s = act (RespondDirectPeerExchange channel (Inr
                  \<lparr>dps_peer_id = peer_to_base58 (w_net w) (local_peer_id s), dps_info = my_peer_info w t s,
                   dps_best_peers = map pr_peer_info my_best_peers\<rparr>)) s
        in case peer_from_str (w_net w) (dpr_peer_id request) of
             None \<Rightarrow> s
           | Some peer_id \<Rightarrow>
               fst (add_received_peers w t (dpr_best_peers request)
                      (fst (add_peer w t (dpr_my_info request) peer_id s))))"

definition handle_direct_peer_exchange_response ::
    "'l world \<Rightarrow> clock \<Rightarrow> direct_peer_info_response \<Rightarrow> 'l service \<Rightarrow> 'l service" where
  "handle_direct_peer_exchange_response w t response s =
     (case peer_from_str (w_net w) (dps_peer_id response) of
        None \<Rightarrow> s
      | Some peer_id \<Rightarrow>
          if pi_version (dps_info response) \<noteq> PROTOCOL_VERSION then act (DisconnectPeer peer_id) s
          else
            (case add_received_peers w t (dps_best_peers response) s of
               (s, num_peers_added) \<Rightarrow>
                 if cfg_is_seed_peer (sv_config s) then s
                 else
                   let s = (if 0 < num_peers_added then initiate_direct_peer_exchange w t peer_id s else s)
                   in if peer_id \<in> set (sv_dialed_seed_peers s)
                      then act (DisconnectPeer peer_id)
                             (s\<lparr>sv_dialed_seed_peers := removeAll peer_id (sv_dialed_seed_peers s)\<rparr>)
                      else s))"

section \<open>Exchange of chain heights\<close>

definition handle_meta_data_exchange_request ::
    "'l world \<Rightarrow> clock \<Rightarrow> channel \<Rightarrow> meta_data_request \<Rightarrow> 'l service \<Rightarrow> 'l service" where
  "handle_meta_data_exchange_request w t channel request s =
     (if pi_version (mdr_my_info request) \<noteq> PROTOCOL_VERSION
      then act (RespondMetaDataExchange channel (Inl ''Peer has an outdated version'')) s
      else
        let s = act (RespondMetaDataExchange channel (Inr
                  \<lparr>mds_peer_id = peer_to_base58 (w_net w) (local_peer_id s), mds_info = my_peer_info w t s\<rparr>)) s
        in case peer_from_str (w_net w) (mdr_peer_id request) of
             None \<Rightarrow> s
           | Some peer_id \<Rightarrow> fst (add_peer w t (mdr_my_info request) peer_id s))"

text \<open>A peer that claims more work than our chain of an algorithm is asked to catch us up.\<close>

definition claimed :: "pow_algorithm \<Rightarrow> peer_info \<Rightarrow> u128 \<times> u64" where
  "claimed a i = (case a of RandomX \<Rightarrow> (pi_current_random_x_pow i, pi_current_random_x_height i)
                          | Sha3x \<Rightarrow> (pi_current_sha3x_pow i, pi_current_sha3x_height i))"

definition queue_catch_up ::
    "'l world \<Rightarrow> pow_algorithm \<Rightarrow> peer_id \<Rightarrow> peer_info \<Rightarrow> 'l service \<Rightarrow> 'l service" where
  "queue_catch_up w a peer info s =
     (if algo_enabled (sv_config s) a \<and> chain_pow (w_ext w) (sv_share_chain s a) < fst (claimed a info)
      then send_inner (PerformCatchUpSync
             \<lparr>cu_algo = a, cu_peer = peer, cu_last_block_from_them = None,
              cu_their_height = snd (claimed a info), cu_permit = None\<rparr>) s
      else s)"

definition handle_meta_data_exchange_response ::
    "'l world \<Rightarrow> clock \<Rightarrow> meta_data_response \<Rightarrow> 'l service \<Rightarrow> 'l service" where
  "handle_meta_data_exchange_response w t response s =
     (case peer_from_str (w_net w) (mds_peer_id response) of
        None \<Rightarrow> s
      | Some peer_id \<Rightarrow>
          if pi_version (mds_info response) \<noteq> PROTOCOL_VERSION then act (DisconnectPeer peer_id) s
          else
            let s = fst (add_peer w t (mds_info response) peer_id s) in
            if is_seed_peer (sv_peer_store s) peer_id then s
            else if pi_squad (mds_info response) \<noteq> sv_squad s then s
            else if cfg_is_seed_peer (sv_config s) then s
            else queue_catch_up w RandomX peer_id (mds_info response)
                   (queue_catch_up w Sha3x peer_id (mds_info response) s))"

section \<open>Kinds of peers\<close>

datatype peer_type_enum = SeedPeer | RelayPeer | PrivatePeer | NonSquadPeer | Unknown

definition service_peer_type :: "'l world \<Rightarrow> peer_id \<Rightarrow> 'l service \<Rightarrow> peer_type_enum" where
  "service_peer_type w peer s =
     (let ps = sv_peer_store s in
      if is_seed_peer ps peer then SeedPeer
      else if peer_get (w_net w) ps peer \<noteq> None
      then (if is_relay (sv_relay_store s) peer then RelayPeer else PrivatePeer)
      else if hm_contains (non_squad_peers ps) (peer_to_base58 (w_net w) peer) then NonSquadPeer
      else Unknown)"

definition get_same_squad_peer_records ::
    "clock \<Rightarrow> peer_id list \<Rightarrow> bool \<Rightarrow> 'l service \<Rightarrow> peer_store_record list" where
  "get_same_squad_peer_records t filter_peers relay s =
     (let known_relays = get_relay_peer_ids (c_instant t) (sv_relay_store s) in
      filter (\<lambda>r. pr_peer_id r \<notin> set (filter_peers @ [local_peer_id s])
                  \<and> (relay \<longleftrightarrow> pr_peer_id r \<in> set known_relays))
        (get_known_same_squad_peer_records (sv_peer_store s)))"

section \<open>Identification, relays and the address translation\<close>

definition handle_peer_identified ::
    "'l world \<Rightarrow> peer_id \<Rightarrow> string list \<Rightarrow> multiaddr list \<Rightarrow> 'l service \<Rightarrow> 'l service" where
  "handle_peer_identified w peer protocols listen_addrs s =
     (if local_peer_id s = peer then s
      else if cfg_is_seed_peer (sv_config s) then s
      else
        let is_relay = hop_protocol_name w \<in> set protocols;
            s = (if CATCH_UP_SYNC_REQUEST_RESPONSE_PROTOCOL \<notin> set protocols
                 then act (DisconnectPeer peer) s else s);
            is_seed = is_seed_peer (sv_peer_store s) peer;
            addrs = filter (\<lambda>addr. is_p2p_address_without_circuit w addr \<and> is_relay \<and> \<not> is_seed) listen_addrs
        in s\<lparr>sv_relay_store := fold (\<lambda>addr rs. fst (add_possible_relay peer addr rs)) addrs (sv_relay_store s)\<rparr>)"

datatype nat_status = PublicNat multiaddr | PrivateNat | UnknownNat

definition handle_autonat_event :: "nat_status option \<Rightarrow> 'l service \<Rightarrow> 'l service" where
  "handle_autonat_event status_changed s =
     (case status_changed of
        Some (PublicNat _) \<Rightarrow> s\<lparr>sv_is_private_nat := False\<rparr>
      | Some PrivateNat \<Rightarrow> s\<lparr>sv_is_private_nat := True\<rparr>
      | _ \<Rightarrow> s)"

fun attempt_relay_reservation :: "'l world \<Rightarrow> peer_id \<Rightarrow> multiaddr list \<Rightarrow> 'l service \<Rightarrow> 'l service" where
  "attempt_relay_reservation w peer [] s = s"
| "attempt_relay_reservation w peer (addr # addrs) s =
     (if \<not> is_p2p_address_without_circuit w addr then attempt_relay_reservation w peer addrs s
      else
        let s = s\<lparr>sv_relay_store := add_pending_reservation peer addr (sv_relay_store s)\<rparr>;
            listen_addr = with_p2p_circuit w addr;
            s = act (ListenOn listen_addr) s
        in if listen_on_succeeds w listen_addr then s else attempt_relay_reservation w peer addrs s)"

definition reserve_each :: "'l world \<Rightarrow> (peer_id \<times> multiaddr) list \<Rightarrow> 'l service \<Rightarrow> 'l service" where
  "reserve_each w ps s = fold (\<lambda>(p, a). attempt_relay_reservation w p [a]) ps s"

definition relay_job :: "'l world \<Rightarrow> clock \<Rightarrow> 'l service \<Rightarrow> 'l service" where
  "relay_job w t s =
     (let s = reserve_each w (get_expiring_reservations (c_instant t) (from_secs 60) (sv_relay_store s)) s
      in if external_addresses s = [] \<and> sv_is_private_nat s
         then reserve_each w (take 3 (get_potential_relays (sv_relay_store s))) s
         else s)"

section \<open>Closing connections\<close>

text \<open>
  Each round drops the peer with the least Sha3x work, then the one with the least RandomX
  work of the rest; the sorts are stable.
\<close>

definition worst_last :: "(peer_info \<Rightarrow> u128) \<Rightarrow> peer_store_record list \<Rightarrow> peer_store_record list" where
  "worst_last pow = Sorting_Algorithms.sort (key (\<lambda>r. pow (pr_peer_info r)) (reversed default))"

lemma length_worst_last [simp]: "length (worst_last pow rs) = length rs"
  by (simp add: worst_last_def)

function churn_squad ::
    "peer_store_record list \<Rightarrow> 'l service \<Rightarrow> peer_store_record list \<times> 'l service" where
  "churn_squad squad_peers s =
     (if MAX_OUTBOUND_SQUAD_PEERS - 2 < length squad_peers then
        (let by_sha = worst_last pi_current_sha3x_pow squad_peers;
             s = act (DisconnectPeer (pr_peer_id (List.last by_sha))) s;
             by_rx = worst_last pi_current_random_x_pow (butlast by_sha);
             s = act (DisconnectPeer (pr_peer_id (List.last by_rx))) s
         in churn_squad (butlast by_rx) s)
      else (squad_peers, s))"
  by pat_completeness auto
termination
  by (relation "measure (\<lambda>(rs, s). length rs)") (auto simp: MAX_OUTBOUND_SQUAD_PEERS_def)

declare churn_squad.simps [simp del]

fun churn_non_squad :: "peer_id list \<Rightarrow> peer_id list \<Rightarrow> nat \<Rightarrow> 'l service \<Rightarrow> 'l service" where
  "churn_non_squad relays [] num s = s"
| "churn_non_squad relays (p # ps) num s =
     churn_non_squad relays ps (Suc num)
       (if p \<in> set relays then s
        else if 1 < Suc num then act (DisconnectPeer p) s else s)"

text \<open>The connected peers the churn treats as squad peers, with their records, and the others.\<close>

definition churn_split :: "'l world \<Rightarrow> 'l service \<Rightarrow> peer_store_record list \<times> peer_id list" where
  "churn_split w s =
     (let ps = sv_peer_store s;
          squad = (\<lambda>p. peer_type (w_net w) ps p \<in> {Some Greylisted, Some NewPeer, Some Existing})
      in (List.map_filter (peer_get (w_net w) ps) (filter squad (connected_peers s)),
          filter (\<lambda>p. \<not> squad p) (connected_peers s)))"

definition connection_churn :: "'l world \<Rightarrow> clock \<Rightarrow> 'l service \<Rightarrow> 'l service" where
  "connection_churn w t s =
     (if cfg_is_seed_peer (sv_config s) then s
      else case churn_split w s of (squad, others) \<Rightarrow>
             (let relays = get_relay_peer_ids (c_instant t) (sv_relay_store s)
              in snd (churn_squad squad (churn_non_squad relays others 0 s))))"

section \<open>Opening connections\<close>

text \<open>\<open>stop\<close> is the test after a dial, on the number of dials so far.\<close>

fun dial_records ::
    "'l world \<Rightarrow> clock \<Rightarrow> (nat \<Rightarrow> bool) \<Rightarrow> peer_store_record list \<Rightarrow> nat \<Rightarrow> 'l service \<Rightarrow> 'l service" where
  "dial_records w t stop [] num_dialed s = s"
| "dial_records w t stop (r # rs) num_dialed s =
     (if pr_peer_id r \<notin> set (connected_peers s) \<and> \<not> is_seed_peer (sv_peer_store s) (pr_peer_id r) then
        (let s = on_peers (update_last_dial_attempt (w_net w) (c_instant t) (pr_peer_id r)) s;
             addresses = filter (\<lambda>a. \<not> is_localhost_or_private w a) (public_addresses (w_net w) (pr_peer_info r));
             s = act (DialPeer (pr_peer_id r) addresses) s
         in if stop (Suc num_dialed) then s else dial_records w t stop rs (Suc num_dialed) s)
      else dial_records w t stop rs num_dialed s)"

definition seek_split :: "'l world \<Rightarrow> 'l service \<Rightarrow> peer_store_record list \<times> peer_id list" where
  "seek_split w s =
     (let ps = sv_peer_store s in
      (List.map_filter (peer_get (w_net w) ps)
         (filter (\<lambda>p. peer_type (w_net w) ps p \<notin> {None, Some NonSquad}) (connected_peers s)),
       filter (\<lambda>p. peer_type (w_net w) ps p = Some NonSquad) (connected_peers s)))"

definition seek_connections ::
    "'l world \<Rightarrow> clock \<Rightarrow> (peer_store_record list \<Rightarrow> peer_store_record list) \<Rightarrow> 'l service \<Rightarrow> 'l service" where
  "seek_connections w t shuffle s =
     (if cfg_is_seed_peer (sv_config s) then s
      else case seek_split w s of (squad, others) \<Rightarrow>
        (let s = (if length others < MAX_OUTBOUND_NON_SQUAD_PEERS
                  then dial_records w t (\<lambda>n. MAX_OUTBOUND_NON_SQUAD_PEERS \<le> n)
                         (random_non_squad_peers_to_dial (w_net w) (c_instant t) shuffle (sv_peer_store s) 20) 0 s
                  else s)
         in if length squad < MAX_OUTBOUND_SQUAD_PEERS
            then dial_records w t (\<lambda>n. MAX_OUTBOUND_SQUAD_PEERS - length squad < n)
                   (best_squad_peers_to_dial (w_net w) (c_instant t) (sv_peer_store s) 100
                      (randomx_enabled (sv_config s)) (sha3x_enabled (sv_config s))) 0 s
            else s))"

section \<open>Periodic exchanges\<close>

definition exchange_with_some ::
    "(peer_id \<Rightarrow> 'l service \<Rightarrow> 'l service) \<Rightarrow> nat \<Rightarrow> (peer_id list \<Rightarrow> peer_id list) \<Rightarrow> 'l service \<Rightarrow> 'l service" where
  "exchange_with_some initiate limit shuffle s =
     (if \<not> cfg_is_seed_peer (sv_config s) \<and> sync_job_enabled (sv_config s)
      then fold initiate (take limit (shuffle (connected_peers s))) s
      else s)"

definition meta_data_exchange_job ::
    "'l world \<Rightarrow> clock \<Rightarrow> (peer_id list \<Rightarrow> peer_id list) \<Rightarrow> 'l service \<Rightarrow> 'l service" where
  "meta_data_exchange_job w t = exchange_with_some (initiate_meta_data_exchange w t) NUM_PEERS_TO_META_DATA_EXCHANGE"

definition peer_exchange_job ::
    "'l world \<Rightarrow> clock \<Rightarrow> (peer_id list \<Rightarrow> peer_id list) \<Rightarrow> 'l service \<Rightarrow> 'l service" where
  "peer_exchange_job w t = exchange_with_some (initiate_direct_peer_exchange w t) NUM_PEERS_TO_PEER_INFO_EXCHANGE"

section \<open>Queries\<close>

datatype p2p_service_query =
    QConnectionInfo
  | QGetPeers
  | QGetConnections
  | QGetChain pow_algorithm u64 nat

definition get_libp2p_connection_info :: "'l service \<Rightarrow> connection_info" where
  "get_libp2p_connection_info s =
     \<lparr>ci_listener_addresses = external_addresses s, ci_connected_peers = length (connected_peers s),
      ci_num_peers = sw_num_peers (sv_swarm s), ci_counters = sw_counters (sv_swarm s)\<rparr>"

definition listed_peer :: "string \<Rightarrow> peer_store_record \<Rightarrow> connected_peer_info" where
  "listed_peer k r =
     \<lparr>cp_peer_id = k, cp_peer_info = Some (pr_peer_info r),
      cp_last_grey_list_reason = pr_last_grey_list_reason r, cp_last_ping = pr_last_ping r\<rparr>"

definition connection_of :: "'l world \<Rightarrow> peer_store \<Rightarrow> peer_id \<Rightarrow> connected_peer_info" where
  "connection_of w ps p =
     (case peer_get (w_net w) ps p of
        Some r \<Rightarrow> listed_peer (peer_to_base58 (w_net w) p) r
      | None \<Rightarrow> \<lparr>cp_peer_id = peer_to_base58 (w_net w) p, cp_peer_info = None,
                 cp_last_grey_list_reason = None, cp_last_ping = None\<rparr>)"

definition handle_query :: "'l world \<Rightarrow> p2p_service_query \<Rightarrow> 'l service \<Rightarrow> 'l service \<times> (unit, unit) outcome" where
  "handle_query w q s =
     (case q of
        QConnectionInfo \<Rightarrow> (act (ReplyConnectionInfo (get_libp2p_connection_info s)) s, Ok ())
      | QGetPeers \<Rightarrow>
          (act (ReplyPeers (map (\<lambda>(k, r). listed_peer k r) (whitelist_peers (sv_peer_store s)))
                  (map (\<lambda>(k, r). listed_peer k r) (greylist_peers (sv_peer_store s)))) s, Ok ())
      | QGetConnections \<Rightarrow>
          (act (ReplyConnections (map (connection_of w (sv_peer_store s)) (connected_peers s))) s, Ok ())
      | QGetChain algo height n \<Rightarrow>
          (case all_blocks (sv_share_chain s algo) (Some height) n True of
             Ok blocks \<Rightarrow> (act (ReplyChain blocks) s, Ok ())
           | Err _ \<Rightarrow> (act (ReplyChain []) s, Ok ())
           | Panic \<Rightarrow> (s, Panic)
           | Diverge \<Rightarrow> (s, Diverge)))"

end
