(* ===== verification/NetSync.thy ===== *)
theory NetSync
  imports NetPeers
begin

text \<open>
  How the service (\<open>server/p2p/network.rs\<close>) keeps the chains in step with the network: new
  blocks from gossip, requests for missing blocks with their depth, and the catch-up with a
  peer that has more work, limited by the permits of a semaphore for each algorithm.
\<close>

section \<open>Gossip\<close>

record gossip_message =
  gm_source :: "peer_id option"
  gm_topic :: string
  gm_data :: bytes

definition max_block_height :: "p2block list \<Rightarrow> u64" where
  "max_block_height bs = fold max (map b_height bs) 0"

definition gossip_peer_info ::
    "'l world \<Rightarrow> clock \<Rightarrow> peer_id \<Rightarrow> string + peer_info \<Rightarrow> 'l service \<Rightarrow> 'l service \<times> acceptance" where
  "gossip_peer_info w t source_peer decoded s =
     (case decoded of
        Inl _ \<Rightarrow> (s, Reject)
      | Inr payload \<Rightarrow>
          if pi_version payload \<noteq> PROTOCOL_VERSION then (s, Reject)
          else if pi_timestamp payload < sat_sub (c_now t) 60 then (s, Ignore)
          else (fst (add_peer w t payload source_peer s), Accept))"

text \<open>What is done with the blocks once they are known to be recent and near our tip.\<close>

definition gossip_new_blocks ::
    "'l world \<Rightarrow> clock \<Rightarrow> peer_id \<Rightarrow> notify_new_tip_block \<Rightarrow> 'l service
     \<Rightarrow> 'l service \<times> (unit, acceptance) outcome" where
  "gossip_new_blocks w t propagation_source payload s =
     (let algo = notify_algo payload;
          our_tip = tip_height (sv_share_chain s algo);
          max_payload_height = max_block_height (nt_new_blocks payload)
      in case sv_add_synced_blocks w t algo (reset_verified (nt_new_blocks payload)) s of
           (s, Ok tip_change) \<Rightarrow>
             (let missing_parents = into_missing_parents_vec tip_change in
              if missing_parents = [] then (s, Ok Accept)
              else if 5 < length missing_parents then (s, Ok Ignore)
              else if our_tip < sat_sub max_payload_height 10 \<or> sat_add max_payload_height 5 < our_tip
              then (s, Ok Accept)
              else (send_inner (DoSyncMissingBlocks
                      \<lparr>sm_algo = algo, sm_peer = propagation_source, sm_missing_parents = missing_parents,
                       sm_is_from_new_block_notify = True, sm_depth = 0\<rparr>) s, Ok Accept))
         | (s, Err error) \<Rightarrow>
             bindS (grey_list_peer w (nt_peer_id payload)
                      (''Block failed validation: '' @ show_error w error) s)
               (\<lambda>s _. (s, Ok Ignore))
         | (s, Panic) \<Rightarrow> (s, Panic)
         | (s, Diverge) \<Rightarrow> (s, Diverge))"

definition not_better :: "'l world \<Rightarrow> notify_new_tip_block \<Rightarrow> 'l service \<Rightarrow> bool" where
  "not_better w payload s \<longleftrightarrow>
     (let c = sv_share_chain s (notify_algo payload) in
      total_proof_of_work (w_ext w) payload < chain_pow (w_ext w) c
      \<and> max_block_height (nt_new_blocks payload) \<le> sat_sub (tip_height c) 4)"

definition gossip_block ::
    "'l world \<Rightarrow> clock \<Rightarrow> peer_id \<Rightarrow> notify_new_tip_block \<Rightarrow> 'l service
     \<Rightarrow> 'l service \<times> (unit, acceptance) outcome" where
  "gossip_block w t propagation_source payload s =
     (if nt_version payload \<noteq> PROTOCOL_VERSION then (s, Ok Reject)
      else if nt_timestamp payload < sat_sub (c_now t) 60 then (s, Ok Ignore)
      else if \<not> algo_enabled (sv_config s) (notify_algo payload) then (s, Ok Ignore)
      else if nt_new_blocks payload = [] then (s, Ok Reject)
      else if not_better w payload s then (s, Ok Ignore)
      else if sat_add (tip_height (sv_share_chain s (notify_algo payload))) 10
                < max_block_height (nt_new_blocks payload)
      then (s, Ok Accept)
      else gossip_new_blocks w t propagation_source payload s)"

definition handle_new_gossipsub_message ::
    "'l world \<Rightarrow> clock \<Rightarrow> gossip_message \<Rightarrow> peer_id \<Rightarrow> 'l service
     \<Rightarrow> 'l service \<times> (unit, acceptance) outcome" where
  "handle_new_gossipsub_message w t message propagation_source s =
     (case gm_source message of
        None \<Rightarrow> (s, Ok Reject)
      | Some source_peer \<Rightarrow>
          if gm_topic message = network_topic w PEER_INFO_TOPIC
          then (case gossip_peer_info w t source_peer (decode_peer_info w (gm_data message)) s of
                  (s, a) \<Rightarrow> (s, Ok a))
          else if gm_topic message \<in> set (map (squad_topic w s)
                    [BLOCK_NOTIFY_TOPIC, BLOCK_NOTIFY_RX_TOPIC, BLOCK_NOTIFY_SHA3X_TOPIC])
          then (case decode_notify w (gm_data message) of
                  Inr payload \<Rightarrow> gossip_block w t propagation_source payload s
                | Inl error \<Rightarrow>
                    bindS (grey_list_peer w source_peer
                             (''Node sent a block that could not be deserialized: '' @ error) s)
                      (\<lambda>s _. (s, Ok Reject)))
          else (s, Ok Reject))"

section \<open>Missing blocks\<close>

definition handle_sync_missing_blocks_request ::
    "'l world \<Rightarrow> channel \<Rightarrow> sync_missing_blocks_request \<Rightarrow> 'l service \<Rightarrow> 'l service" where
  "handle_sync_missing_blocks_request w channel request s =
     (let algo = sync_missing_blocks_request_algo (w_net w) request;
          blocks = get_blocks (sv_share_chain s algo) (smr_missing_blocks request)
      in if blocks = [] then act (RespondShareChainSync channel (Inl ''No blocks found'')) s
         else act (RespondShareChainSync channel
                     (Inr (sync_missing_blocks_response_new (w_net w) (local_peer_id s) algo blocks))) s)"

definition handle_sync_missing_blocks_response ::
    "'l world \<Rightarrow> sync_missing_blocks_response \<Rightarrow> nat \<Rightarrow> 'l service \<Rightarrow> 'l service" where
  "handle_sync_missing_blocks_response w response depth s =
     (if sbr_version response \<noteq> PROTOCOL_VERSION then s
      else if sbr_blocks response = [] then s
      else fold (\<lambda>block. send_inner (AddSyncedBlock (sync_missing_blocks_response_algo (w_net w) response)
                            block (sbr_peer_id response) depth))
             (sync_missing_into_blocks response) s)"

definition known_height :: "'l world \<Rightarrow> pow_algorithm \<Rightarrow> peer_id \<Rightarrow> peer_store \<Rightarrow> u64 option" where
  "known_height w a p ps = map_option (\<lambda>r. snd (claimed a (pr_peer_info r))) (peer_get (w_net w) ps p)"

text \<open>A request goes out with a new identity, under which its depth is remembered.\<close>

definition send_sync_request ::
    "'l world \<Rightarrow> pow_algorithm \<Rightarrow> uncle_ref list \<Rightarrow> nat \<Rightarrow> peer_id \<Rightarrow> 'l service \<Rightarrow> 'l service" where
  "send_sync_request w algo missing_parents depth peer s =
     (let id = sw_next_sync_id (sv_swarm s);
          s = act (SendShareChainSync id peer (sync_missing_blocks_request_new (w_net w) algo missing_parents)) s
      in s\<lparr>sv_swarm := (sv_swarm s)\<lparr>sw_next_sync_id := Suc id\<rparr>,
           sv_missing_blocks_sync_request_depth :=
             hm_insert id depth (sv_missing_blocks_sync_request_depth s)\<rparr>)"

text \<open>A peer whose claimed height is more than twenty below the lowest block is not asked.\<close>

definition high_enough :: "'l world \<Rightarrow> pow_algorithm \<Rightarrow> peer_store \<Rightarrow> u64 \<Rightarrow> peer_id \<Rightarrow> bool" where
  "high_enough w algo ps min_height p =
     (case known_height w algo p ps of
        Some h \<Rightarrow> min_height \<le> sat_add h 20
      | None \<Rightarrow> True)"

definition min_missing_height :: "uncle_ref list \<Rightarrow> u64" where
  "min_missing_height ms = (case map fst ms of [] \<Rightarrow> 0 | h # hs \<Rightarrow> fold min hs h)"

text \<open>
  The doubling of the share window panics on overflow; it is computed for each missing block.
\<close>

definition sync_missing_blocks ::
    "'l world \<Rightarrow> sync_missing \<Rightarrow> 'l service \<Rightarrow> 'l service \<times> (unit, unit) outcome" where
  "sync_missing_blocks w r s =
     (let algo = sm_algo r;
          height = opt_or (known_height w algo (sm_peer r) (sv_peer_store s)) 0 in
      if sm_missing_parents r \<noteq> [] \<and> \<not> unat (sv_share_window s) * 2 < 2 ^ 64 then (s, Panic)
      else
        let lowest = sat_sub (sat_sub height 10) (sv_share_window s * 2);
            missing_parents = filter (\<lambda>m. lowest \<le> fst m) (sm_missing_parents r) in
        if max_missing_blocks_sync_depth (sv_config s) < sm_depth r + 1 then (s, Ok ())
        else if missing_parents = [] then (s, Ok ())
        else
          let blocks_already_received = do_blocks_exist (sv_share_chain s algo) missing_parents;
              missing_parents = filter (\<lambda>m. m \<notin> set blocks_already_received) missing_parents in
          if missing_parents = [] then (s, Ok ())
          else if \<not> sm_is_from_new_block_notify r
          then (send_sync_request w algo missing_parents (sm_depth r + 1) (sm_peer r) s, Ok ())
          else
            (fold (send_sync_request w algo missing_parents (sm_depth r + 1))
               (filter (high_enough w algo (sv_peer_store s) (min_missing_height missing_parents))
                  (connected_peers s)) s, Ok ()))"

section \<open>Catching up with a peer\<close>

definition handle_catch_up_sync_request ::
    "'l world \<Rightarrow> channel \<Rightarrow> catch_up_sync_request \<Rightarrow> 'l service \<Rightarrow> 'l service \<times> (unit, unit) outcome" where
  "handle_catch_up_sync_request w channel request s =
     (let algo = catch_up_sync_request_algo (w_net w) request in
      case request_sync (w_ext w) (sv_share_chain s algo) (cur_i_have request) MAX_CATCH_UP_BLOCKS_TO_RETURN
             (cur_last_block_received request) of
        Ok (blocks, our_tip, our_achieved_pow) \<Rightarrow>
          (act (RespondCatchUpSync channel (Inr
             (catch_up_sync_response_new (w_net w) algo (local_peer_id s) blocks (opt_or our_tip (0, zero_hash))
                our_achieved_pow))) s, Ok ())
      | Err _ \<Rightarrow>
          (act (RespondCatchUpSync channel
             (Inl ''Failed to get blocks, tip and pow from share chain'')) s, Ok ())
      | Panic \<Rightarrow> (s, Panic)
      | Diverge \<Rightarrow> (s, Diverge))"

text \<open>
  The permit under which a request was sent; the RandomX syncs are searched first. The keys
  of the map are distinct, so the first peer found is removed and ends the search.
\<close>

definition release_from ::
    "pow_algorithm \<Rightarrow> request_id \<Rightarrow> 'l service \<Rightarrow> ('l service \<times> permit) option" where
  "release_from a req s =
     (case List.find (\<lambda>(p, i, permit). i = req) (sv_in_progress_syncs s a) of
        None \<Rightarrow> None
      | Some (p, i, permit) \<Rightarrow>
          Some (s\<lparr>sv_last_failed_peer := (sv_last_failed_peer s)(a := None),
                  sv_in_progress_syncs := (sv_in_progress_syncs s)(a := hm_remove p (sv_in_progress_syncs s a))\<rparr>,
                permit))"

definition release_catchup_sync_permit :: "request_id \<Rightarrow> 'l service \<Rightarrow> 'l service \<times> permit option" where
  "release_catchup_sync_permit req s =
     (case release_from RandomX req s of
        Some (s, permit) \<Rightarrow> (s, Some permit)
      | None \<Rightarrow>
          (case release_from Sha3x req s of
             Some (s, permit) \<Rightarrow> (s, Some permit)
           | None \<Rightarrow> (s, None)))"

definition blacklist_peer :: "'l world \<Rightarrow> peer_id \<Rightarrow> string \<Rightarrow> 'l service \<Rightarrow> 'l service" where
  "blacklist_peer w p reason s = on_peers (move_to_blacklist (w_net w) p reason) (act (DisconnectPeer p) s)"

definition handle_catch_up_sync_response ::
    "'l world \<Rightarrow> catch_up_sync_response \<Rightarrow> permit option \<Rightarrow> 'l service \<Rightarrow> 'l service" where
  "handle_catch_up_sync_response w response permit s =
     (if csr_version response \<noteq> PROTOCOL_VERSION then drop_permit permit s
      else
        let peer = csr_peer_id response;
            algo = catch_up_sync_response_algo (w_net w) response;
            s = s\<lparr>sv_last_sync_requested_block := (sv_last_sync_requested_block s)(algo := None)\<rparr>;
            blocks = catch_up_into_blocks response in
        if blocks = []
        then drop_permit permit (blacklist_peer w peer ''Peer sent 0 blocks for catch up sync'' s)
        else s\<lparr>sv_tasks := sv_tasks s @
                 [\<lparr>ct_algo = algo, ct_peer = peer, ct_blocks = blocks,
                   ct_their_tip_hash = response_tip_hash response,
                   ct_their_height = response_tip_height response, ct_their_pow = achieved_pow response,
                   ct_permit = permit, ct_stage = FeedBlocks\<rparr>]\<rparr>)"

text \<open>
  One stage of the task. The result is the task with its next stage, or nothing when it has
  ended; a panic ends only the task and drops its permit.
\<close>

definition feed_blocks :: "catch_up_task \<Rightarrow> 'l service \<Rightarrow> 'l service \<times> catch_up_task option" where
  "feed_blocks k s =
     (let must_continue_sync = (ct_their_tip_hash k \<notin> b_hash ` set (ct_blocks k));
          blocks = sort_key b_height (ct_blocks k);
          last_block_from_them =
            (if blocks = [] then None else Some (b_height (List.last blocks), b_hash (List.last blocks)))
      in (fold (\<lambda>b. send_inner (AddSyncedBlock (ct_algo k) b (ct_peer k) 0)) blocks s,
          Some (k\<lparr>ct_stage := RememberTip last_block_from_them must_continue_sync\<rparr>)))"

definition decide_catch_up ::
    "'l world \<Rightarrow> uncle_ref option \<Rightarrow> bool \<Rightarrow> catch_up_task \<Rightarrow> 'l service \<Rightarrow> 'l service" where
  "decide_catch_up w last_block_from_them must_continue_sync k s =
     (let num_catchups = num_catch_ups (w_net w) (sv_peer_store s) (ct_peer k) in
      if must_continue_sync \<and> (case num_catchups of Some n \<Rightarrow> n < MAX_CATCH_UP_ATTEMPTS | None \<Rightarrow> True)
      then (case add_catch_up_attempt (w_net w) (ct_peer k) (sv_peer_store s) of
              Ok ps \<Rightarrow>
                (let s = s\<lparr>sv_peer_store := ps, sv_synced := (sv_synced s)(ct_algo k := False)\<rparr>
                 in send_inner (PerformCatchUpSync
                      \<lparr>cu_algo = ct_algo k, cu_peer = ct_peer k, cu_last_block_from_them = last_block_from_them,
                       cu_their_height = ct_their_height k, cu_permit = ct_permit k\<rparr>) s)
            | _ \<Rightarrow> drop_permit (ct_permit k) s)
      else drop_permit (ct_permit k)
             (on_peers (reset_catch_up_attempts (w_net w) (ct_peer k)) s))"

definition run_task :: "'l world \<Rightarrow> catch_up_task \<Rightarrow> 'l service \<Rightarrow> 'l service \<times> catch_up_task option" where
  "run_task w k s =
     (case ct_stage k of
        FeedBlocks \<Rightarrow> feed_blocks k s
      | RememberTip l must \<Rightarrow>
          (case l of
             None \<Rightarrow> s
           | Some b \<Rightarrow>
               s\<lparr>sv_recent_synced_tips := (sv_recent_synced_tips s)
                   (ct_algo k := lru_put (num_sync_tips_to_keep (sv_config s)) (ct_peer k) b
                                   (sv_recent_synced_tips s (ct_algo k)))\<rparr>,
           Some (k\<lparr>ct_stage := CompareWork l must\<rparr>))
      | CompareWork l must \<Rightarrow>
          (s, Some (k\<lparr>ct_stage :=
             Decide l (must \<and> chain_pow (w_ext w) (sv_share_chain s (ct_algo k)) < ct_their_pow k)\<rparr>))
      | Decide l must \<Rightarrow> (decide_catch_up w l must k s, None))"

text \<open>What we tell the peer: blocks we have, and the last block of it we got.\<close>

definition catch_up_state ::
    "uncle_ref option \<Rightarrow> uncle_ref option \<Rightarrow> 'l share_chain \<Rightarrow> (uncle_ref list \<times> uncle_ref option) sc_result" where
  "catch_up_state last_block_from_them last_progress c =
     (case last_block_from_them of
        None \<Rightarrow>
          bindO (create_catchup_sync_blocks c CATCH_UP_SYNC_BLOCKS_IN_I_HAVE) (\<lambda>i_have. Ok (i_have, last_progress))
      | Some b \<Rightarrow> Ok ([], Some b))"

definition send_catch_up ::
    "'l world \<Rightarrow> clock \<Rightarrow> catch_up \<Rightarrow> permit \<Rightarrow> uncle_ref list \<Rightarrow> uncle_ref option \<Rightarrow> 'l service
     \<Rightarrow> 'l service" where
  "send_catch_up w t r permit i_have_blocks last_block_from_them s =
     (let algo = cu_algo r; peer = cu_peer r;
          i_have_blocks = rev (map snd (sv_recent_synced_tips s algo)) @ i_have_blocks;
          s = s\<lparr>sv_last_sync_requested_block := (sv_last_sync_requested_block s)(algo := last_block_from_them)\<rparr>;
          our_tip = opt_or (sc_get_tip (sv_share_chain s algo)) (0, zero_hash);
          s = (if fst our_tip < sat_sub (cu_their_height r) 10
               then s\<lparr>sv_synced := (sv_synced s)(algo := False)\<rparr> else s);
          id = sw_next_catch_up_id (sv_swarm s);
          s = act (SendCatchUpSync id peer
                     (catch_up_sync_request_new (w_net w) algo i_have_blocks last_block_from_them)) s
      in s\<lparr>sv_swarm := (sv_swarm s)\<lparr>sw_next_catch_up_id := Suc id\<rparr>,
           sv_in_progress_syncs := (sv_in_progress_syncs s)
             (algo := hm_insert peer (id, permit) (sv_in_progress_syncs s algo)),
           sv_peer_store := update_last_sync_attempt (w_net w) (c_instant t) peer algo (sv_peer_store s)\<rparr>)"

definition perform_catch_up_sync ::
    "'l world \<Rightarrow> clock \<Rightarrow> catch_up \<Rightarrow> 'l service \<Rightarrow> 'l service \<times> (unit, unit) outcome" where
  "perform_catch_up_sync w t r s =
     (let algo = cu_algo r; peer = cu_peer r in
      if is_blacklisted (w_net w) (sv_peer_store s) peer then (drop_permit (cu_permit r) s, Ok ())
      else if sv_last_failed_peer s algo = Some peer
      then (drop_permit (cu_permit r) (s\<lparr>sv_last_failed_peer := (sv_last_failed_peer s)(algo := None)\<rparr>), Ok ())
      else
        let last_progress = sv_last_sync_requested_block s algo;
            s = s\<lparr>sv_last_sync_requested_block := (sv_last_sync_requested_block s)(algo := None)\<rparr> in
        if hm_contains (sv_in_progress_syncs s algo) peer then (drop_permit (cu_permit r) s, Ok ())
        else
          (case (case cu_permit r of None \<Rightarrow> try_acquire algo s | Some p \<Rightarrow> (s, Some p)) of
             (s, None) \<Rightarrow> (s, Ok ())
           | (s, Some permit) \<Rightarrow>
               (case catch_up_state (cu_last_block_from_them r) last_progress (sv_share_chain s algo) of
                  Ok (i_have, l) \<Rightarrow> (send_catch_up w t r permit i_have l s, Ok ())
                | Err _ \<Rightarrow> (drop_permit (Some permit) s, Ok ())
                | Panic \<Rightarrow> (drop_permit (Some permit) s, Panic)
                | Diverge \<Rightarrow> (drop_permit (Some permit) s, Diverge))))"

section \<open>Inner requests\<close>

text \<open>After a block was added: ask for its missing parents, and set the flag when no known peer has more work.\<close>

definition after_synced_block ::
    "'l world \<Rightarrow> clock \<Rightarrow> pow_algorithm \<Rightarrow> peer_id \<Rightarrow> nat \<Rightarrow> chain_add_result \<Rightarrow> 'l service
     \<Rightarrow> 'l service \<times> (unit, unit) outcome" where
  "after_synced_block w t algo source_peer depth result s =
     (let missing_parents = into_missing_parents_vec result;
          s = (if missing_parents \<noteq> [] \<and> depth < max_missing_blocks_sync_depth (sv_config s)
               then send_inner (DoSyncMissingBlocks
                      \<lparr>sm_algo = algo, sm_peer = source_peer, sm_missing_parents = missing_parents,
                       sm_is_from_new_block_notify = False, sm_depth = depth + 1\<rparr>) s
               else s);
          our_pow = chain_pow (w_ext w) (sv_share_chain s algo)
      in bindS (s, max_known_network_height (sv_peer_store s) algo (c_now t))
           (\<lambda>s (max_known_network_height, max_known_network_pow, peer_with_best).
             (if max_known_network_pow \<le> our_pow then s\<lparr>sv_synced := (sv_synced s)(algo := True)\<rparr> else s,
              Ok ())))"

definition add_synced_block ::
    "'l world \<Rightarrow> clock \<Rightarrow> pow_algorithm \<Rightarrow> p2block \<Rightarrow> peer_id \<Rightarrow> nat \<Rightarrow> 'l service
     \<Rightarrow> 'l service \<times> (unit, unit) outcome" where
  "add_synced_block w t algo block source_peer depth s =
     (if is_blacklisted (w_net w) (sv_peer_store s) source_peer then (s, Ok ())
      else case sv_add_synced_blocks w t algo [block] s of
             (s, Ok result) \<Rightarrow> after_synced_block w t algo source_peer depth result s
           | (s, Err error) \<Rightarrow>
               (blacklist_peer w source_peer (''Block failed validation: '' @ show_error w error) s, Ok ())
           | (s, Panic) \<Rightarrow> (s, Panic)
           | (s, Diverge) \<Rightarrow> (s, Diverge))"

fun handle_inner_request ::
    "'l world \<Rightarrow> clock \<Rightarrow> inner_request \<Rightarrow> 'l service \<Rightarrow> 'l service \<times> (unit, unit) outcome" where
  "handle_inner_request w t (DoSyncMissingBlocks r) s = sync_missing_blocks w r s"
| "handle_inner_request w t (PerformCatchUpSync r) s = perform_catch_up_sync w t r s"
| "handle_inner_request w t (AddSyncedBlock algo block source_peer depth) s =
     add_synced_block w t algo block source_peer depth s"

end
