(* ===== verification/NetLoop.thy ===== *)
theory NetLoop
  imports NetSync
begin

text \<open>
  The event handler and the main loop of the service (\<open>server/p2p/network.rs\<close>), and the
  steps of the whole service: one round of the loop, one stage of a spawned task, or a change
  made by something else (libp2p reports other connections or addresses, the gRPC server
  submits a block or has the shares of a template computed, the network silence ends). The branches that only write log lines are \<open>OtherEvent\<close>; the
  printing of the debug graph is left out.
\<close>

section \<open>Events of the swarm\<close>

datatype outbound_failure = DialFailure | FailTimeout | ConnectionClosed | UnsupportedProtocols | FailIo string

datatype swarm_event =
    ConnectionEstablished peer_id bool
  | NewListenAddr multiaddr
  | OutgoingConnectionError peer_id bool string
  | MdnsDiscovered "(peer_id \<times> multiaddr) list"
  | MdnsExpired "(peer_id \<times> multiaddr) list"
  | GossipMessage gossip_message nat peer_id
  | GossipSubscribed peer_id
  | MetaDataRequestReceived channel meta_data_request
  | MetaDataResponseReceived "string + meta_data_response"
  | DirectPeerRequestReceived channel direct_peer_info_request
  | DirectPeerResponseReceived "string + direct_peer_info_response"
  | SyncRequestReceived channel sync_missing_blocks_request
  | SyncResponseReceived peer_id request_id "string + sync_missing_blocks_response"
  | SyncOutboundFailure peer_id outbound_failure request_id
  | CatchUpRequestReceived channel catch_up_sync_request
  | CatchUpResponseReceived peer_id request_id "string + catch_up_sync_response"
  | CatchUpOutboundFailure peer_id outbound_failure request_id
  | PeerIdentified peer_id "string list" "multiaddr list"
  | ReservationReqAccepted peer_id "duration option option"
  | AutonatEvent "nat_status option"
  | PingEvent peer_id
  | OtherEvent

text \<open>\<open>Display\<close> of the failure is a function of the crate.\<close>

definition grey_list_unless_closed ::
    "'l world \<Rightarrow> (outbound_failure \<Rightarrow> string) \<Rightarrow> string \<Rightarrow> peer_id \<Rightarrow> outbound_failure \<Rightarrow> 'l service
     \<Rightarrow> 'l service \<times> (unit, unit) outcome" where
  "grey_list_unless_closed w show_failure text peer error s =
     (if error = ConnectionClosed then (s, Ok ())
      else grey_list_peer w peer (text @ show_failure error) s)"

text \<open>The request of this peer failed: its sync ends and the permit is dropped.\<close>

definition fail_sync :: "pow_algorithm \<Rightarrow> peer_id \<Rightarrow> request_id \<Rightarrow> 'l service \<Rightarrow> 'l service" where
  "fail_sync a peer request_id s =
     (case hm_get (sv_in_progress_syncs s a) peer of
        Some (i, permit) \<Rightarrow>
          if i = request_id
          then drop_permit (Some permit)
                 (s\<lparr>sv_in_progress_syncs := (sv_in_progress_syncs s)(a := hm_remove peer (sv_in_progress_syncs s a)),
                    sv_last_failed_peer := (sv_last_failed_peer s)(a := Some peer)\<rparr>)
          else s
      | None \<Rightarrow> s)"

definition connection_established ::
    "'l world \<Rightarrow> clock \<Rightarrow> peer_id \<Rightarrow> bool \<Rightarrow> 'l service \<Rightarrow> 'l service" where
  "connection_established w t peer is_dialer s =
     (if is_blacklisted (w_net w) (sv_peer_store s) peer then act (DisconnectPeer peer) s
      else
        let s = (if is_dialer \<and> is_seed_peer (sv_peer_store s) peer
                 then s\<lparr>sv_dialed_seed_peers := List.insert peer (sv_dialed_seed_peers s)\<rparr> else s)
        in initiate_direct_peer_exchange w t peer s)"

definition sync_response_received ::
    "'l world \<Rightarrow> request_id \<Rightarrow> string + sync_missing_blocks_response \<Rightarrow> 'l service \<Rightarrow> 'l service" where
  "sync_response_received w request_id response s =
     (let current_depth = hm_get (sv_missing_blocks_sync_request_depth s) request_id;
          s = s\<lparr>sv_missing_blocks_sync_request_depth :=
                  hm_remove request_id (sv_missing_blocks_sync_request_depth s)\<rparr>
      in case (current_depth, response) of
           (Some depth, Inr r) \<Rightarrow> handle_sync_missing_blocks_response w r depth s
         | _ \<Rightarrow> s)"

definition catch_up_response_received ::
    "'l world \<Rightarrow> request_id \<Rightarrow> string + catch_up_sync_response \<Rightarrow> 'l service \<Rightarrow> 'l service" where
  "catch_up_response_received w request_id response s =
     (case release_catchup_sync_permit request_id s of
        (s, permit) \<Rightarrow>
          (case response of
             Inr r \<Rightarrow> handle_catch_up_sync_response w r permit s
           | Inl _ \<Rightarrow> drop_permit permit s))"

definition reservation_accepted :: "clock \<Rightarrow> peer_id \<Rightarrow> duration option option \<Rightarrow> 'l service \<Rightarrow> 'l service" where
  "reservation_accepted t relay_peer limit s =
     (case limit of
        Some duration \<Rightarrow>
          s\<lparr>sv_relay_store := confirm_reservation relay_peer
              (c_instant t + opt_or duration (from_secs 60)) (sv_relay_store s)\<rparr>
      | None \<Rightarrow> s)"

definition handle_event ::
    "'l world \<Rightarrow> (outbound_failure \<Rightarrow> string) \<Rightarrow> clock \<Rightarrow> swarm_event \<Rightarrow> 'l service
     \<Rightarrow> 'l service \<times> (unit, unit) outcome" where
  "handle_event w show_failure t event s =
     (case event of
        ConnectionEstablished peer is_dialer \<Rightarrow> (connection_established w t peer is_dialer s, Ok ())
      | NewListenAddr addr \<Rightarrow>
          (if \<not> is_localhost_or_private w addr then broadcast_peer_info w t s else s, Ok ())
      | OutgoingConnectionError peer is_transport error \<Rightarrow>
          if is_transport then (s, Ok ())
          else grey_list_peer w peer (''Outgoing connection error: '' @ error) s
      | MdnsDiscovered peers \<Rightarrow> (fold (\<lambda>(p, addr). act (AddPeerAddress p addr)) peers s, Ok ())
      | MdnsExpired peers \<Rightarrow> (fold (\<lambda>(p, addr). act (RemoveExplicitPeer p)) peers s, Ok ())
      | GossipMessage message message_id propagation_source \<Rightarrow>
          bindS (handle_new_gossipsub_message w t message propagation_source s)
            (\<lambda>s res. (act (ReportValidation message_id propagation_source res) s, Ok ()))
      | GossipSubscribed peer \<Rightarrow> (initiate_direct_peer_exchange w t peer s, Ok ())
      | MetaDataRequestReceived channel request \<Rightarrow>
          (handle_meta_data_exchange_request w t channel request s, Ok ())
      | MetaDataResponseReceived response \<Rightarrow>
          (case response of Inr r \<Rightarrow> handle_meta_data_exchange_response w t r s | Inl _ \<Rightarrow> s, Ok ())
      | DirectPeerRequestReceived channel request \<Rightarrow>
          (handle_direct_peer_exchange_request w t channel request s, Ok ())
      | DirectPeerResponseReceived response \<Rightarrow>
          (case response of Inr r \<Rightarrow> handle_direct_peer_exchange_response w t r s | Inl _ \<Rightarrow> s, Ok ())
      | SyncRequestReceived channel request \<Rightarrow>
          (handle_sync_missing_blocks_request w channel request s, Ok ())
      | SyncResponseReceived peer request_id response \<Rightarrow>
          (sync_response_received w request_id response s, Ok ())
      | SyncOutboundFailure peer error request_id \<Rightarrow>
          grey_list_unless_closed w show_failure ''ShareChainError during share chain sync:'' peer error
            (s\<lparr>sv_missing_blocks_sync_request_depth :=
                 hm_remove request_id (sv_missing_blocks_sync_request_depth s)\<rparr>)
      | CatchUpRequestReceived channel request \<Rightarrow> handle_catch_up_sync_request w channel request s
      | CatchUpResponseReceived peer request_id response \<Rightarrow>
          (catch_up_response_received w request_id response s, Ok ())
      | CatchUpOutboundFailure peer error request_id \<Rightarrow>
          grey_list_unless_closed w show_failure ''ShareChainError during catch up sync:'' peer error
            (fail_sync Sha3x peer request_id (fail_sync RandomX peer request_id s))
      | PeerIdentified peer protocols listen_addrs \<Rightarrow>
          (handle_peer_identified w peer protocols listen_addrs s, Ok ())
      | ReservationReqAccepted relay_peer limit \<Rightarrow> (reservation_accepted t relay_peer limit s, Ok ())
      | AutonatEvent status \<Rightarrow> (handle_autonat_event status s, Ok ())
      | PingEvent peer \<Rightarrow> (on_peers (set_last_ping (w_net w) peer (c_now t)) s, Ok ())
      | OtherEvent \<Rightarrow> (s, Ok ()))"

section \<open>The main loop\<close>

text \<open>
  What one round of the loop selects. The shuffles are those of the random number generator.
\<close>

datatype loop_input =
    Query p2p_service_query
  | RelayTick
  | ChurnTick
  | SeekTick "peer_store_record list \<Rightarrow> peer_store_record list"
  | InnerRequest
  | ClientBroadcast p2block
  | SwarmEvent swarm_event
  | PublishPeerInfoTick
  | MetaDataTick "peer_id list \<Rightarrow> peer_id list"
  | PeerExchangeTick "peer_id list \<Rightarrow> peer_id list"
  | ClearGreyListTick
  | ClearBlackListTick
  | ConnectionStatsTick

definition receive_inner ::
    "'l world \<Rightarrow> clock \<Rightarrow> 'l service \<Rightarrow> 'l service \<times> (unit, unit) outcome" where
  "receive_inner w t s =
     (case sv_inner_requests s of
        [] \<Rightarrow> (s, Ok ())
      | r # rs \<Rightarrow> handle_inner_request w t r (s\<lparr>sv_inner_requests := rs\<rparr>))"

definition main_loop_round ::
    "'l world \<Rightarrow> (outbound_failure \<Rightarrow> string) \<Rightarrow> clock \<Rightarrow> loop_input \<Rightarrow> 'l service
     \<Rightarrow> 'l service \<times> (unit, unit) outcome" where
  "main_loop_round w show_failure t inp s =
     (case inp of
        Query q \<Rightarrow> handle_query w q s
      | RelayTick \<Rightarrow> (relay_job w t s, Ok ())
      | ChurnTick \<Rightarrow> (connection_churn w t s, Ok ())
      | SeekTick shuffle \<Rightarrow> (seek_connections w t shuffle s, Ok ())
      | InnerRequest \<Rightarrow> receive_inner w t s
      | ClientBroadcast block \<Rightarrow> (broadcast_block w t block s, Ok ())
      | SwarmEvent event \<Rightarrow> handle_event w show_failure t event s
      | PublishPeerInfoTick \<Rightarrow> (broadcast_peer_info w t s, Ok ())
      | MetaDataTick shuffle \<Rightarrow> (meta_data_exchange_job w t shuffle s, Ok ())
      | PeerExchangeTick shuffle \<Rightarrow> (peer_exchange_job w t shuffle s, Ok ())
      | ClearGreyListTick \<Rightarrow> (on_peers clear_grey_list s, Ok ())
      | ClearBlackListTick \<Rightarrow> (on_peers clear_black_list s, Ok ())
      | ConnectionStatsTick \<Rightarrow>
          (act (SendLibp2pStats (ci_counters (get_libp2p_connection_info s))) s, Ok ()))"

section \<open>Steps of the service\<close>

text \<open>One stage of the task at position \<open>i\<close>; a finished task is removed.\<close>

definition task_step :: "'l world \<Rightarrow> nat \<Rightarrow> 'l service \<Rightarrow> 'l service" where
  "task_step w i s =
     (case run_task w (sv_tasks s ! i) s of
        (s', Some k) \<Rightarrow> s'\<lparr>sv_tasks := (sv_tasks s')[i := k]\<rparr>
      | (s', None) \<Rightarrow> s'\<lparr>sv_tasks := take i (sv_tasks s') @ drop (Suc i) (sv_tasks s')\<rparr>)"

text \<open>
  A peer may send anything at any time, so every event and every answer is a step. A round that
  panics ends the service.
\<close>

inductive net_step :: "'l world \<Rightarrow> (outbound_failure \<Rightarrow> string) \<Rightarrow> 'l service \<Rightarrow> 'l service \<Rightarrow> bool"
  for w show_failure where
  round: "main_loop_round w show_failure t inp s = (s', Ok ()) \<Longrightarrow> net_step w show_failure s s'"
| task: "i < length (sv_tasks s) \<Longrightarrow> net_step w show_failure s (task_step w i s)"
| swarm_changes:
    "net_step w show_failure s
       (s\<lparr>sv_swarm := (sv_swarm s)\<lparr>sw_external_addresses := ext, sw_connected_peers := conn,
            sw_num_peers := num, sw_counters := counters\<rparr>\<rparr>)"
| block_submitted:
    "net_step w show_failure s
       (s\<lparr>sv_share_chain := (sv_share_chain s)
          (a := fst (submit_block (w_ext w) now now' (sv_share_chain s a) block))\<rparr>)"
| shares_generated:
    "net_step w show_failure s
       (s\<lparr>sv_share_chain := (sv_share_chain s)
          (a := fst (generate_shares_and_get_target_difficulty (w_ext w) (sv_share_chain s a) block solo))\<rparr>)"
| silence_over: "net_step w show_failure s (s\<lparr>sv_synced := (\<lambda>_. True)\<rparr>)"

end
