(* ===== verification/PeerCorrect.thy ===== *)
theory PeerCorrect
  imports PeerStore
begin

text \<open>
  The peer store as a state machine: \<open>peer_step\<close> has one rule per operation that changes
  it, \<open>peer_reachable\<close> are the stores a sequence of operations leads to. The invariant
  \<open>peers_ok\<close> says that a record stands under its own peer's key, that the squad of a record
  fits the list it is in, and that a peer that is no seed peer is on one list only.
\<close>

section \<open>Events\<close>

inductive peer_step :: "net_ext \<Rightarrow> peer_store \<Rightarrow> peer_store \<Rightarrow> bool" for n where
  add: "peer_step n s (fst (peer_add n now p i s))"
| ping: "peer_step n s (set_last_ping n p t s)"
| seeds: "peer_step n s (add_seed_peers ps s)"
| catch_up: "add_catch_up_attempt n p s = Ok s' \<Longrightarrow> peer_step n s s'"
| reset: "peer_step n s (reset_catch_up_attempts n p s)"
| dial: "peer_step n s (update_last_dial_attempt n now p s)"
| sync: "peer_step n s (update_last_sync_attempt n now p algo s)"
| grey: "peer_step n s (fst (move_to_grey_list n p reason s))"
| black: "peer_step n s (move_to_blacklist n p reason s)"
| clear_grey: "peer_step n s (clear_grey_list s)"
| clear_black: "peer_step n s (clear_black_list s)"

inductive peer_reachable :: "net_ext \<Rightarrow> string \<Rightarrow> peer_store \<Rightarrow> bool" for n squad where
  start: "peer_reachable n squad (peer_store_new squad)"
| step: "peer_reachable n squad s \<Longrightarrow> peer_step n s s' \<Longrightarrow> peer_reachable n squad s'"

section \<open>The invariant\<close>

definition seed_key :: "net_ext \<Rightarrow> peer_store \<Rightarrow> string \<Rightarrow> bool" where
  "seed_key n s k \<longleftrightarrow> (\<exists>p \<in> set (seed_peers s). peer_to_base58 n p = k)"

definition records_ok :: "net_ext \<Rightarrow> (string \<Rightarrow> bool) \<Rightarrow> peer_map \<Rightarrow> bool" where
  "records_ok n sq m \<longleftrightarrow> hm_ok m
     \<and> (\<forall>k r. hm_get m k = Some r \<longrightarrow> peer_to_base58 n (pr_peer_id r) = k \<and> sq (pi_squad (pr_peer_info r)))"

definition lists_disjoint :: "net_ext \<Rightarrow> peer_store \<Rightarrow> bool" where
  "lists_disjoint n s \<longleftrightarrow>
     (\<forall>k. \<not> seed_key n s k \<longrightarrow>
        (hm_get (whitelist_peers s) k = None \<or> hm_get (greylist_peers s) k = None)
      \<and> (hm_get (whitelist_peers s) k = None \<or> hm_get (blacklist_peers s) k = None)
      \<and> (hm_get (greylist_peers s) k = None \<or> hm_get (blacklist_peers s) k = None))"

definition peers_ok :: "net_ext \<Rightarrow> peer_store \<Rightarrow> bool" where
  "peers_ok n s \<longleftrightarrow>
     records_ok n (\<lambda>q. q = my_squad s) (whitelist_peers s)
   \<and> records_ok n (\<lambda>q. q = my_squad s) (greylist_peers s)
   \<and> records_ok n (\<lambda>q. q = my_squad s) (blacklist_peers s)
   \<and> records_ok n (\<lambda>q. q \<noteq> my_squad s) (non_squad_peers s)
   \<and> lists_disjoint n s"

lemma records_ok_Nil: "records_ok n sq []"
  by (simp add: records_ok_def)

lemma records_ok_insert:
  "records_ok n sq m \<Longrightarrow> peer_to_base58 n (pr_peer_id r) = k \<Longrightarrow> sq (pi_squad (pr_peer_info r))
     \<Longrightarrow> records_ok n sq (hm_insert k r m)"
  by (auto simp: records_ok_def hm.ok_put)

lemma records_ok_remove: "records_ok n sq m \<Longrightarrow> records_ok n sq (hm_remove k m)"
  by (auto simp: records_ok_def hm.ok_del)

lemma records_ok_modify:
  "records_ok n sq m \<Longrightarrow> (\<And>r. pr_peer_id (f r) = pr_peer_id r \<and> pr_peer_info (f r) = pr_peer_info r)
     \<Longrightarrow> records_ok n sq (hm_modify k f m)"
  by (auto simp: records_ok_def hm_modify_def hm.ok_put split: option.splits)

lemma records_okD:
  "records_ok n sq m \<Longrightarrow> hm_get m k = Some r \<Longrightarrow> peer_to_base58 n (pr_peer_id r) = k"
  "records_ok n sq m \<Longrightarrow> hm_get m k = Some r \<Longrightarrow> sq (pi_squad (pr_peer_info r))"
  "records_ok n sq m \<Longrightarrow> hm_ok m"
  by (auto simp: records_ok_def)

lemma records_ok_entry:
  "records_ok n sq m \<Longrightarrow> (k, r) \<in> set m \<Longrightarrow>
     peer_to_base58 n (pr_peer_id r) = k \<and> sq (pi_squad (pr_peer_info r))"
  by (auto simp: records_ok_def hm_ok_get)

lemma hm_get_modify [simp]:
  "hm_get (hm_modify k f m) k' = (if k' = k then map_option f (hm_get m k) else hm_get m k')"
  by (auto simp: hm_modify_def split: option.splits)

lemma stats_simps [simp]:
  "whitelist_peers (update_peer_stats s) = whitelist_peers s"
  "greylist_peers (update_peer_stats s) = greylist_peers s"
  "blacklist_peers (update_peer_stats s) = blacklist_peers s"
  "non_squad_peers (update_peer_stats s) = non_squad_peers s"
  "seed_peers (update_peer_stats s) = seed_peers s"
  "my_squad (update_peer_stats s) = my_squad s"
  by (simp_all add: update_peer_stats_def)

lemma new_record_simps [simp]:
  "pr_peer_id (peer_store_record_new now p i) = p"
  "pr_peer_info (peer_store_record_new now p i) = i"
  "pr_num_grey_listings (peer_store_record_new now p i) = 0"
  by (simp_all add: peer_store_record_new_def)

lemma peers_okI:
  assumes "records_ok n (\<lambda>q. q = my_squad s) (whitelist_peers s)"
    and "records_ok n (\<lambda>q. q = my_squad s) (greylist_peers s)"
    and "records_ok n (\<lambda>q. q = my_squad s) (blacklist_peers s)"
    and "records_ok n (\<lambda>q. q \<noteq> my_squad s) (non_squad_peers s)"
    and "lists_disjoint n s"
  shows "peers_ok n s"
  using assms by (simp add: peers_ok_def)

lemma peers_ok_new: "peers_ok n (peer_store_new squad)"
  by (simp add: peers_ok_def peer_store_new_def records_ok_Nil lists_disjoint_def)

section \<open>What clearing a list does\<close>

lemma fold_clear_grey:
  assumes "hm_ok g"
  shows "let s' = fold clear_grey_step g s in
      (\<forall>k. hm_get (blacklist_peers s') k =
         (case hm_get g k of
            Some r \<Rightarrow> if MAX_GREY_LISTINGS \<le> pr_num_grey_listings r then Some r else hm_get (blacklist_peers s) k
          | None \<Rightarrow> hm_get (blacklist_peers s) k))
    \<and> (\<forall>k. hm_get (whitelist_peers s') k =
         (case hm_get g k of
            Some r \<Rightarrow> if pr_num_grey_listings r < MAX_GREY_LISTINGS \<and> pr_peer_id r \<notin> set (seed_peers s)
                      then Some r else hm_get (whitelist_peers s) k
          | None \<Rightarrow> hm_get (whitelist_peers s) k))
    \<and> greylist_peers s' = greylist_peers s \<and> non_squad_peers s' = non_squad_peers s
    \<and> seed_peers s' = seed_peers s \<and> my_squad s' = my_squad s"
  using assms
proof (induction g arbitrary: s)
  case (Cons x g)
  obtain k0 r0 where x: "x = (k0, r0)" by (cases x)
  from Cons.prems x have g: "hm_ok g" and k0: "hm_get g k0 = None"
    by (auto simp: hm_ok_def map_of_eq_None_iff)
  let ?t = "clear_grey_step (k0, r0) s"
  have t: "hm_get (blacklist_peers ?t) k =
        (if k = k0 \<and> MAX_GREY_LISTINGS \<le> pr_num_grey_listings r0 then Some r0 else hm_get (blacklist_peers s) k)"
      "hm_get (whitelist_peers ?t) k =
        (if k = k0 \<and> pr_num_grey_listings r0 < MAX_GREY_LISTINGS \<and> pr_peer_id r0 \<notin> set (seed_peers s)
         then Some r0 else hm_get (whitelist_peers s) k)"
      "greylist_peers ?t = greylist_peers s" "non_squad_peers ?t = non_squad_peers s"
      "seed_peers ?t = seed_peers s" "my_squad ?t = my_squad s" for k
    by (auto simp: clear_grey_step_def not_le)
  show ?case
    using Cons.IH [OF g, of ?t] k0
    by (auto simp: x t Let_def split: option.splits)
qed simp

lemmas fold_clear_greyD = fold_clear_grey [unfolded Let_def]

lemma clear_grey_list_lookup:
  assumes "hm_ok (greylist_peers s)"
  shows "hm_get (blacklist_peers (clear_grey_list s)) k =
         (case hm_get (greylist_peers s) k of
            Some r \<Rightarrow> if MAX_GREY_LISTINGS \<le> pr_num_grey_listings r then Some r else hm_get (blacklist_peers s) k
          | None \<Rightarrow> hm_get (blacklist_peers s) k)"
    and "hm_get (whitelist_peers (clear_grey_list s)) k =
         (case hm_get (greylist_peers s) k of
            Some r \<Rightarrow> if pr_num_grey_listings r < MAX_GREY_LISTINGS \<and> pr_peer_id r \<notin> set (seed_peers s)
                      then Some r else hm_get (whitelist_peers s) k
          | None \<Rightarrow> hm_get (whitelist_peers s) k)"
    and "greylist_peers (clear_grey_list s) = []"
    and "non_squad_peers (clear_grey_list s) = non_squad_peers s"
    and "seed_peers (clear_grey_list s) = seed_peers s"
    and "my_squad (clear_grey_list s) = my_squad s"
  using fold_clear_greyD [OF assms, of "s\<lparr>greylist_peers := []\<rparr>"]
  by (simp_all add: clear_grey_list_def cong: option.case_cong if_cong)

lemma fold_hm_ok:
  assumes "\<And>x s. x \<in> set xs \<Longrightarrow> hm_ok (f s) \<Longrightarrow> hm_ok (f (g x s))" and "hm_ok (f s)"
  shows "hm_ok (f (fold g xs s))"
  using assms by (induction xs arbitrary: s) auto

lemma clear_grey_list_ok:
  "hm_ok (whitelist_peers s) \<Longrightarrow> hm_ok (whitelist_peers (clear_grey_list s))"
  "hm_ok (blacklist_peers s) \<Longrightarrow> hm_ok (blacklist_peers (clear_grey_list s))"
  unfolding clear_grey_list_def stats_simps
  by (rule fold_hm_ok; auto simp: clear_grey_step_def hm.ok_put)+

lemma fold_clear_black:
  assumes "hm_ok b"
  shows "let s' = fold (\<lambda>(k, r) s. s\<lparr>whitelist_peers := hm_insert k (pardon r) (whitelist_peers s)\<rparr>) b s in
      (\<forall>k. hm_get (whitelist_peers s') k =
         (case hm_get b k of Some r \<Rightarrow> Some (pardon r) | None \<Rightarrow> hm_get (whitelist_peers s) k))
    \<and> greylist_peers s' = greylist_peers s \<and> blacklist_peers s' = blacklist_peers s
    \<and> non_squad_peers s' = non_squad_peers s \<and> seed_peers s' = seed_peers s \<and> my_squad s' = my_squad s
    \<and> (hm_ok (whitelist_peers s) \<longrightarrow> hm_ok (whitelist_peers s'))"
  using assms
proof (induction b arbitrary: s)
  case (Cons x b)
  obtain k0 r0 where x: "x = (k0, r0)" by (cases x)
  from Cons.prems x have b: "hm_ok b" and k0: "hm_get b k0 = None"
    by (auto simp: hm_ok_def map_of_eq_None_iff)
  show ?case
    using Cons.IH [OF b, of "s\<lparr>whitelist_peers := hm_insert k0 (pardon r0) (whitelist_peers s)\<rparr>"] k0
    by (auto simp: x Let_def hm.ok_put split: option.splits)
qed simp

lemmas fold_clear_blackD = fold_clear_black [unfolded Let_def]

lemma clear_black_list_lookup:
  assumes "hm_ok (blacklist_peers s)"
  shows "hm_get (whitelist_peers (clear_black_list s)) k =
         (case hm_get (blacklist_peers s) k of Some r \<Rightarrow> Some (pardon r) | None \<Rightarrow> hm_get (whitelist_peers s) k)"
    and "greylist_peers (clear_black_list s) = greylist_peers s"
    and "blacklist_peers (clear_black_list s) = []"
    and "non_squad_peers (clear_black_list s) = non_squad_peers s"
    and "seed_peers (clear_black_list s) = seed_peers s"
    and "my_squad (clear_black_list s) = my_squad s"
    and "hm_ok (whitelist_peers s) \<Longrightarrow> hm_ok (whitelist_peers (clear_black_list s))"
  using fold_clear_blackD [OF assms, of "s\<lparr>blacklist_peers := []\<rparr>"]
  by (simp_all add: clear_black_list_def cong: option.case_cong if_cong)


section \<open>Every operation keeps the invariant\<close>

lemma peers_okD:
  assumes "peers_ok n s"
  shows "records_ok n (\<lambda>q. q = my_squad s) (whitelist_peers s)"
    and "records_ok n (\<lambda>q. q = my_squad s) (greylist_peers s)"
    and "records_ok n (\<lambda>q. q = my_squad s) (blacklist_peers s)"
    and "records_ok n (\<lambda>q. q \<noteq> my_squad s) (non_squad_peers s)"
    and "lists_disjoint n s"
  using assms by (simp_all add: peers_ok_def)

lemma peers_ok_get:
  assumes "peers_ok n s"
  shows "hm_get (whitelist_peers s) k = Some r \<Longrightarrow>
      peer_to_base58 n (pr_peer_id r) = k \<and> pi_squad (pr_peer_info r) = my_squad s"
    and "hm_get (greylist_peers s) k = Some r \<Longrightarrow>
      peer_to_base58 n (pr_peer_id r) = k \<and> pi_squad (pr_peer_info r) = my_squad s"
    and "hm_get (blacklist_peers s) k = Some r \<Longrightarrow>
      peer_to_base58 n (pr_peer_id r) = k \<and> pi_squad (pr_peer_info r) = my_squad s"
  using peers_okD [OF assms] by (auto simp: records_ok_def)

lemma lists_disjointI:
  assumes "\<And>k. \<not> seed_key n s k \<Longrightarrow>
        (hm_get (whitelist_peers s) k = None \<or> hm_get (greylist_peers s) k = None)
      \<and> (hm_get (whitelist_peers s) k = None \<or> hm_get (blacklist_peers s) k = None)
      \<and> (hm_get (greylist_peers s) k = None \<or> hm_get (blacklist_peers s) k = None)"
  shows "lists_disjoint n s"
  using assms by (simp add: lists_disjoint_def)

lemma peers_ok_add: "peers_ok n s \<Longrightarrow> peers_ok n (fst (peer_add n now p i s))"
proof (rule peers_okI)
  assume ok: "peers_ok n s"
  note d = peers_okD [OF ok]
  show "records_ok n (\<lambda>q. q = my_squad (fst (peer_add n now p i s))) (whitelist_peers (fst (peer_add n now p i s)))"
    using d(1) by (auto simp: peer_add_def Let_def intro!: records_ok_insert split: option.splits)
  show "records_ok n (\<lambda>q. q = my_squad (fst (peer_add n now p i s))) (greylist_peers (fst (peer_add n now p i s)))"
    using d(2) by (auto simp: peer_add_def Let_def intro!: records_ok_insert split: option.splits)
  show "records_ok n (\<lambda>q. q = my_squad (fst (peer_add n now p i s))) (blacklist_peers (fst (peer_add n now p i s)))"
    using d(3) by (auto simp: peer_add_def Let_def split: option.splits)
  show "records_ok n (\<lambda>q. q \<noteq> my_squad (fst (peer_add n now p i s))) (non_squad_peers (fst (peer_add n now p i s)))"
    using d(4) by (auto simp: peer_add_def Let_def intro!: records_ok_insert split: option.splits)
  show "lists_disjoint n (fst (peer_add n now p i s))"
    using d(5)
    by (auto simp: lists_disjoint_def peer_add_def Let_def seed_key_def hm_contains_def split: option.splits)
qed

lemma peers_ok_ping: "peers_ok n s \<Longrightarrow> peers_ok n (set_last_ping n p t s)"
proof (rule peers_okI)
  assume ok: "peers_ok n s"
  note d = peers_okD [OF ok]
  note g = peers_ok_get [OF ok]
  let ?s = "set_last_ping n p t s"
  show "records_ok n (\<lambda>q. q = my_squad ?s) (whitelist_peers ?s)"
    using d(1) by (auto simp: set_last_ping_def Let_def g intro!: records_ok_insert records_ok_modify split: option.splits)
  show "records_ok n (\<lambda>q. q = my_squad ?s) (greylist_peers ?s)"
    using d(2) by (auto simp: set_last_ping_def Let_def intro!: records_ok_remove split: option.splits)
  show "records_ok n (\<lambda>q. q = my_squad ?s) (blacklist_peers ?s)"
    using d(3) by (auto simp: set_last_ping_def Let_def intro!: records_ok_modify split: option.splits)
  show "records_ok n (\<lambda>q. q \<noteq> my_squad ?s) (non_squad_peers ?s)"
    using d(4) by (auto simp: set_last_ping_def Let_def split: option.splits)
  show "lists_disjoint n ?s"
    using d(5)
    by (fastforce simp: lists_disjoint_def set_last_ping_def Let_def seed_key_def split: option.splits)
qed

lemma add_catch_up_modify:
  assumes "add_catch_up_attempt n p s = Ok s'"
  obtains c where "s' = s\<lparr>whitelist_peers :=
      hm_modify (peer_to_base58 n p) (\<lambda>r. r\<lparr>pr_catch_up_attempts := c\<rparr>) (whitelist_peers s)\<rparr>"
  using assms by (auto simp: add_catch_up_attempt_def hm_modify_def Let_def split: option.splits)

lemma peers_ok_white:
  assumes "peers_ok n s"
    and "\<And>r. pr_peer_id (f r) = pr_peer_id r \<and> pr_peer_info (f r) = pr_peer_info r"
  shows "peers_ok n (s\<lparr>whitelist_peers := hm_modify k f (whitelist_peers s)\<rparr>)"
  using assms by (auto simp: peers_ok_def lists_disjoint_def seed_key_def intro!: records_ok_modify)

lemma peers_ok_catch_up: "peers_ok n s \<Longrightarrow> add_catch_up_attempt n p s = Ok s' \<Longrightarrow> peers_ok n s'"
  by (erule add_catch_up_modify) (simp add: peers_ok_white)

lemma peers_ok_reset: "peers_ok n s \<Longrightarrow> peers_ok n (reset_catch_up_attempts n p s)"
  by (simp add: reset_catch_up_attempts_def peers_ok_white)

lemma peers_ok_dial: "peers_ok n s \<Longrightarrow> peers_ok n (update_last_dial_attempt n now p s)"
  by (auto simp: peers_ok_def update_last_dial_attempt_def Let_def lists_disjoint_def seed_key_def
      intro!: records_ok_modify)

lemma peers_ok_sync: "peers_ok n s \<Longrightarrow> peers_ok n (update_last_sync_attempt n now p algo s)"
  by (auto simp: peers_ok_def update_last_sync_attempt_def Let_def lists_disjoint_def seed_key_def
      intro!: records_ok_modify split: pow_algorithm.splits)

lemma peers_ok_seeds: "peers_ok n s \<Longrightarrow> peers_ok n (add_seed_peers ps s)"
  by (auto simp: peers_ok_def add_seed_peers_def lists_disjoint_def seed_key_def)

lemma peers_ok_grey: "peers_ok n s \<Longrightarrow> peers_ok n (fst (move_to_grey_list n p reason s))"
proof (rule peers_okI)
  assume ok: "peers_ok n s"
  note d = peers_okD [OF ok]
  note g = peers_ok_get [OF ok]
  let ?s = "fst (move_to_grey_list n p reason s)"
  have split: "move_to_grey_list n p reason s =
    (case hm_get (whitelist_peers s) (peer_to_base58 n p) of
        None \<Rightarrow> (s, Ok ())
      | Some r \<Rightarrow> (case checked_add (pr_num_grey_listings r) 1 of
           None \<Rightarrow> (s\<lparr>whitelist_peers := hm_remove (peer_to_base58 n p) (whitelist_peers s)\<rparr>, Panic)
         | Some c \<Rightarrow> (update_peer_stats (s\<lparr>whitelist_peers := hm_remove (peer_to_base58 n p) (whitelist_peers s),
               greylist_peers := hm_insert (peer_to_base58 n p)
                 (r\<lparr>pr_last_grey_list_reason := Some reason, pr_num_grey_listings := c\<rparr>) (greylist_peers s)\<rparr>), Ok ())))"
    by (auto simp: move_to_grey_list_def add_chk_def Let_def split: option.splits)
  show "records_ok n (\<lambda>q. q = my_squad ?s) (whitelist_peers ?s)"
    using d(1) by (auto simp: split intro!: records_ok_remove split: option.splits)
  show "records_ok n (\<lambda>q. q = my_squad ?s) (greylist_peers ?s)"
    using d(2) by (auto simp: split g intro!: records_ok_insert split: option.splits)
  show "records_ok n (\<lambda>q. q = my_squad ?s) (blacklist_peers ?s)"
    using d(3) by (auto simp: split split: option.splits)
  show "records_ok n (\<lambda>q. q \<noteq> my_squad ?s) (non_squad_peers ?s)"
    using d(4) by (auto simp: split split: option.splits)
  show "lists_disjoint n ?s"
    using d(5) by (fastforce simp: lists_disjoint_def split seed_key_def split: option.splits)
qed

lemma peers_ok_black: "peers_ok n s \<Longrightarrow> peers_ok n (move_to_blacklist n p reason s)"
proof (rule peers_okI)
  assume ok: "peers_ok n s"
  note d = peers_okD [OF ok]
  note g = peers_ok_get [OF ok]
  let ?s = "move_to_blacklist n p reason s"
  show "records_ok n (\<lambda>q. q = my_squad ?s) (whitelist_peers ?s)"
    using d(1) by (auto simp: move_to_blacklist_def Let_def intro!: records_ok_remove split: option.splits)
  show "records_ok n (\<lambda>q. q = my_squad ?s) (greylist_peers ?s)"
    using d(2) by (auto simp: move_to_blacklist_def Let_def intro!: records_ok_remove split: option.splits)
  show "records_ok n (\<lambda>q. q = my_squad ?s) (blacklist_peers ?s)"
    using d(3) by (auto simp: move_to_blacklist_def Let_def g intro!: records_ok_insert split: option.splits)
  show "records_ok n (\<lambda>q. q \<noteq> my_squad ?s) (non_squad_peers ?s)"
    using d(4) by (auto simp: move_to_blacklist_def Let_def split: option.splits)
  show "lists_disjoint n ?s"
    using d(5) by (fastforce simp: lists_disjoint_def move_to_blacklist_def Let_def seed_key_def split: option.splits)
qed

lemma seed_key_entry:
  "peers_ok n s \<Longrightarrow> hm_get (greylist_peers s) k = Some r \<Longrightarrow> pr_peer_id r \<in> set (seed_peers s) \<Longrightarrow> seed_key n s k"
  using peers_ok_get(2) by (fastforce simp: seed_key_def)

lemma peers_ok_clear_grey: "peers_ok n s \<Longrightarrow> peers_ok n (clear_grey_list s)"
proof (rule peers_okI)
  assume ok: "peers_ok n s"
  note d = peers_okD [OF ok]
  note g = peers_ok_get [OF ok]
  note L = clear_grey_list_lookup [OF records_okD(3) [OF d(2)]]
  let ?s = "clear_grey_list s"
  show "records_ok n (\<lambda>q. q = my_squad ?s) (whitelist_peers ?s)"
    using g clear_grey_list_ok(1) [OF records_okD(3) [OF d(1)]]
    by (auto simp: records_ok_def L split: option.splits if_splits)
  show "records_ok n (\<lambda>q. q = my_squad ?s) (greylist_peers ?s)"
    by (simp add: L records_ok_Nil)
  show "records_ok n (\<lambda>q. q = my_squad ?s) (blacklist_peers ?s)"
    using g clear_grey_list_ok(2) [OF records_okD(3) [OF d(3)]]
    by (auto simp: records_ok_def L split: option.splits if_splits)
  show "records_ok n (\<lambda>q. q \<noteq> my_squad ?s) (non_squad_peers ?s)"
    using d(4) by (simp add: L)
  show "lists_disjoint n ?s"
    using d(5) by (auto simp: lists_disjoint_def L seed_key_def split: option.splits)
qed

lemma peers_ok_clear_black: "peers_ok n s \<Longrightarrow> peers_ok n (clear_black_list s)"
proof (rule peers_okI)
  assume ok: "peers_ok n s"
  note d = peers_okD [OF ok]
  note g = peers_ok_get [OF ok]
  note L = clear_black_list_lookup [OF records_okD(3) [OF d(3)]]
  let ?s = "clear_black_list s"
  show "records_ok n (\<lambda>q. q = my_squad ?s) (whitelist_peers ?s)"
    using g L(7) [OF records_okD(3) [OF d(1)]]
    by (auto simp: records_ok_def L pardon_def split: option.splits)
  show "records_ok n (\<lambda>q. q = my_squad ?s) (greylist_peers ?s)"
    using d(2) by (simp add: L)
  show "records_ok n (\<lambda>q. q = my_squad ?s) (blacklist_peers ?s)"
    by (simp add: L records_ok_Nil)
  show "records_ok n (\<lambda>q. q \<noteq> my_squad ?s) (non_squad_peers ?s)"
    using d(4) by (simp add: L)
  show "lists_disjoint n ?s"
    using d(5) by (auto simp: lists_disjoint_def L seed_key_def split: option.splits)
qed

lemmas peer_steps_ok =
  peers_ok_add peers_ok_ping peers_ok_seeds peers_ok_catch_up peers_ok_reset peers_ok_dial
  peers_ok_sync peers_ok_grey peers_ok_black peers_ok_clear_grey peers_ok_clear_black

lemma peers_ok_step: "peer_step n s s' \<Longrightarrow> peers_ok n s \<Longrightarrow> peers_ok n s'"
  by (induction rule: peer_step.induct) (auto intro: peer_steps_ok)

lemma peers_ok_reachable: "peer_reachable n squad s \<Longrightarrow> peers_ok n s"
  by (induction rule: peer_reachable.induct) (auto intro: peers_ok_new peers_ok_step)

section \<open>Lists of a peer\<close>

lemma my_squad_step: "peer_step n s s' \<Longrightarrow> peers_ok n s \<Longrightarrow> my_squad s' = my_squad s"
proof (induction rule: peer_step.induct)
  case (catch_up p s s')
  from catch_up.hyps show ?case by (rule add_catch_up_modify) simp
next
  case (clear_grey s)
  then show ?case by (simp add: clear_grey_list_lookup records_okD(3) [OF peers_okD(2)])
next
  case (clear_black s)
  then show ?case by (simp add: clear_black_list_lookup records_okD(3) [OF peers_okD(3)])
qed (auto simp: peer_add_def set_last_ping_def add_seed_peers_def reset_catch_up_attempts_def
    update_last_dial_attempt_def update_last_sync_attempt_def move_to_grey_list_def add_chk_def
    move_to_blacklist_def Let_def unwrap_def split: option.splits)

lemma my_squad_reachable: "peer_reachable n squad s \<Longrightarrow> my_squad s = squad"
proof (induction rule: peer_reachable.induct)
  case start
  then show ?case by (simp add: peer_store_new_def)
next
  case (step s s')
  then show ?case using my_squad_step peers_ok_reachable by metis
qed

lemma base58_seed: "base58_conv n \<Longrightarrow> seed_key n s (peer_to_base58 n p) \<longleftrightarrow> is_seed_peer s p"
  by (auto simp: seed_key_def is_seed_peer_def dest: base58_inj)

text \<open>C38: In every reachable peer store a peer that is no seed peer is on at most one of the
  white, grey and black list, and a record found for a peer is that peer's own and of the
  node's squad.\<close>

theorem peer_on_one_list:
  assumes "base58_conv n" and "peer_reachable n squad s" and "\<not> is_seed_peer s p"
  shows "length (filter (\<lambda>m. hm_contains m (peer_to_base58 n p))
      [whitelist_peers s, greylist_peers s, blacklist_peers s]) \<le> 1
    \<and> (\<forall>r. peer_get n s p = Some r \<longrightarrow> pr_peer_id r = p \<and> pi_squad (pr_peer_info r) = squad)"
proof (intro conjI allI impI)
  have ok: "peers_ok n s" using assms(2) by (rule peers_ok_reachable)
  show "length (filter (\<lambda>m. hm_contains m (peer_to_base58 n p))
      [whitelist_peers s, greylist_peers s, blacklist_peers s]) \<le> 1"
    using ok assms(3) base58_seed [OF assms(1), of s p]
    by (auto simp: peers_ok_def lists_disjoint_def hm_contains_def)
  fix r assume "peer_get n s p = Some r"
  then have id: "peer_to_base58 n (pr_peer_id r) = peer_to_base58 n p \<and> pi_squad (pr_peer_info r) = my_squad s"
    using peers_ok_get [OF ok] by (auto simp: peer_get_def Let_def split: option.splits)
  show "pr_peer_id r = p"
    using id base58_inj [OF assms(1)] by blast
  show "pi_squad (pr_peer_info r) = squad"
    using id my_squad_reachable [OF assms(2)] by simp
qed

section \<open>The black list\<close>

lemma blacklisted_iff: "is_blacklisted n s p \<longleftrightarrow> hm_get (blacklist_peers s) (peer_to_base58 n p) \<noteq> None"
  by (simp add: is_blacklisted_def hm_contains_def)

text \<open>No operation but clearing the black list takes a peer off the black list.\<close>

theorem blacklist_is_sticky:
  assumes "peer_reachable n squad s" and "peer_step n s s'" and "is_blacklisted n s p"
  shows "is_blacklisted n s' p \<or> s' = clear_black_list s"
  using assms(2)
proof cases
  case (catch_up p)
  from catch_up(1) assms(3) show ?thesis
    by (elim add_catch_up_modify) (simp add: blacklisted_iff)
next
  case clear_grey
  have "hm_ok (greylist_peers s)"
    using peers_ok_reachable [OF assms(1)] peers_okD(2) records_okD(3) by blast
  then show ?thesis using clear_grey assms(3)
    by (auto simp: blacklisted_iff clear_grey_list_lookup split: option.splits)
qed (use assms(3) in \<open>auto simp: blacklisted_iff peer_add_def set_last_ping_def add_seed_peers_def
    reset_catch_up_attempts_def update_last_dial_attempt_def update_last_sync_attempt_def
    move_to_grey_list_def add_chk_def move_to_blacklist_def Let_def unwrap_def split: option.splits\<close>)

text \<open>One offence: the peer is greylisted for a reason, and the grey list is cleared later.\<close>

definition offend :: "net_ext \<Rightarrow> peer_id \<Rightarrow> string \<Rightarrow> peer_store \<Rightarrow> peer_store" where
  "offend n p reason s = clear_grey_list (fst (move_to_grey_list n p reason s))"

lemma offend_white:
  fixes reason :: string
  assumes ok: "peers_ok n s" and conv: "base58_conv n" and seed: "p \<notin> set (seed_peers s)"
    and r: "hm_get (whitelist_peers s) (peer_to_base58 n p) = Some r"
    and c: "pr_num_grey_listings r < MAX_GREY_LISTINGS"
  defines "r' \<equiv> r\<lparr>pr_last_grey_list_reason := Some reason, pr_num_grey_listings := pr_num_grey_listings r + 1\<rparr>"
  shows "pr_num_grey_listings r + 1 < MAX_GREY_LISTINGS \<Longrightarrow>
      hm_get (whitelist_peers (offend n p reason s)) (peer_to_base58 n p) = Some r'"
    and "\<not> pr_num_grey_listings r + 1 < MAX_GREY_LISTINGS \<Longrightarrow> is_blacklisted n (offend n p reason s) p"
    and "seed_peers (offend n p reason s) = seed_peers s"
proof -
  let ?k = "peer_to_base58 n p" and ?g = "fst (move_to_grey_list n p reason s)"
  have "unat (pr_num_grey_listings r) < 5"
    using c by (simp add: MAX_GREY_LISTINGS_def word_less_nat_alt)
  then have "add_chk (pr_num_grey_listings r) 1 = (Ok (pr_num_grey_listings r + 1) :: (unit, u64) outcome)"
    by (simp add: add_chk_def checked_add_def)
  then have g: "?g = update_peer_stats (s\<lparr>whitelist_peers := hm_remove ?k (whitelist_peers s),
      greylist_peers := hm_insert ?k r' (greylist_peers s)\<rparr>)"
    using r by (simp add: move_to_grey_list_def Let_def r'_def)
  have id: "pr_peer_id r = p"
    using peers_ok_get(1) [OF ok r] base58_inj [OF conv] by simp
  have okg: "hm_ok (greylist_peers ?g)"
    using peers_ok_grey [OF ok] peers_okD(2) records_okD(3) by blast
  note L = clear_grey_list_lookup [OF okg]
  have sr: "seed_peers ?g = seed_peers s" and gr: "hm_get (greylist_peers ?g) ?k = Some r'"
    by (simp_all add: g)
  have r'n: "pr_num_grey_listings r' = pr_num_grey_listings r + 1" "pr_peer_id r' = p"
    by (simp_all add: r'_def id)
  show "seed_peers (offend n p reason s) = seed_peers s"
    by (simp add: offend_def L sr)
  show "hm_get (whitelist_peers (offend n p reason s)) ?k = Some r'"
    if "pr_num_grey_listings r + 1 < MAX_GREY_LISTINGS"
    using that seed by (simp add: offend_def L gr sr r'n)
  show "is_blacklisted n (offend n p reason s) p" if "\<not> pr_num_grey_listings r + 1 < MAX_GREY_LISTINGS"
    using that by (simp add: offend_def L gr r'n blacklisted_iff not_less)
qed

lemma peers_ok_offend: "peers_ok n s \<Longrightarrow> peers_ok n (offend n p reason s)"
  by (simp add: offend_def peers_ok_clear_grey peers_ok_grey)

lemma seed_peers_offend: "peers_ok n s \<Longrightarrow> seed_peers (offend n p reason s) = seed_peers s"
proof -
  assume ok: "peers_ok n s"
  have okg: "hm_ok (greylist_peers (fst (move_to_grey_list n p reason s)))"
    using peers_ok_grey [OF ok] peers_okD(2) records_okD(3) by blast
  show ?thesis
    unfolding offend_def clear_grey_list_lookup(5) [OF okg]
    by (auto simp: move_to_grey_list_def add_chk_def unwrap_def Let_def split: option.splits)
qed

lemma offends_ok:
  "peers_ok n s \<Longrightarrow> peers_ok n (fold (offend n p) reasons s)
     \<and> seed_peers (fold (offend n p) reasons s) = seed_peers s"
  by (induction reasons arbitrary: s) (simp_all add: peers_ok_offend seed_peers_offend)

lemma offend_blacklisted:
  assumes ok: "peers_ok n s" and b: "is_blacklisted n s p"
  shows "is_blacklisted n (offend n p reason s) p"
proof -
  have okg: "hm_ok (greylist_peers (fst (move_to_grey_list n p reason s)))"
    using peers_ok_grey [OF ok] peers_okD(2) records_okD(3) by blast
  have "blacklist_peers (fst (move_to_grey_list n p reason s)) = blacklist_peers s"
    by (auto simp: move_to_grey_list_def add_chk_def unwrap_def Let_def split: option.splits)
  then show ?thesis
    using b by (auto simp: offend_def blacklisted_iff clear_grey_list_lookup [OF okg] split: option.splits)
qed

lemma offends_blacklisted:
  "peers_ok n s \<Longrightarrow> is_blacklisted n s p \<Longrightarrow> is_blacklisted n (fold (offend n p) reasons s) p"
  by (induction reasons arbitrary: s) (auto intro: peers_ok_offend offend_blacklisted)

lemma offends_count:
  assumes "peers_ok n s" and conv: "base58_conv n" and "p \<notin> set (seed_peers s)"
    and "hm_get (whitelist_peers s) (peer_to_base58 n p) = Some r"
    and "unat (pr_num_grey_listings r) < 5"
  shows "if unat (pr_num_grey_listings r) + length reasons < 5
     then (\<exists>r'. hm_get (whitelist_peers (fold (offend n p) reasons s)) (peer_to_base58 n p) = Some r'
                \<and> unat (pr_num_grey_listings r') = unat (pr_num_grey_listings r) + length reasons)
     else is_blacklisted n (fold (offend n p) reasons s) p"
  using assms(1,3-5)
proof (induction reasons arbitrary: s r)
  case Nil
  then show ?case by auto
next
  case (Cons a reasons)
  let ?s = "offend n p a s" and ?c = "pr_num_grey_listings r"
  have c: "?c < MAX_GREY_LISTINGS"
    using Cons.prems(4) by (simp add: MAX_GREY_LISTINGS_def word_less_nat_alt)
  have c1: "unat (?c + 1) = unat ?c + 1"
    using Cons.prems(4) by (simp add: unat_word_ariths)
  then have lt: "?c + 1 < MAX_GREY_LISTINGS \<longleftrightarrow> unat ?c + 1 < 5"
    by (simp add: MAX_GREY_LISTINGS_def word_less_nat_alt)
  note W = offend_white [OF Cons.prems(1) conv Cons.prems(2,3) c, of a]
  have ok: "peers_ok n ?s" using Cons.prems(1) by (rule peers_ok_offend)
  show ?case
  proof (cases "unat ?c + 1 < 5")
    case True
    let ?r = "r\<lparr>pr_last_grey_list_reason := Some a, pr_num_grey_listings := ?c + 1\<rparr>"
    have "hm_get (whitelist_peers ?s) (peer_to_base58 n p) = Some ?r" using W(1) True lt by simp
    then show ?thesis
      using Cons.IH [OF ok, of ?r] W(3) Cons.prems(2) True c1 by (simp split: if_splits)
  next
    case False
    then have "is_blacklisted n ?s p" using W(2) lt by simp
    then show ?thesis using False offends_blacklisted [OF ok] by auto
  qed
qed

text \<open>A whitelisted peer without earlier greylistings is blacklisted after a sequence of
  greylistings, each followed by clearing the grey list, exactly when the sequence has at
  least five of them.\<close>

theorem five_greylistings_blacklist:
  assumes "peer_reachable n squad s" and "base58_conv n" and "\<not> is_seed_peer s p"
    and "hm_get (whitelist_peers s) (peer_to_base58 n p) = Some r"
    and "pr_num_grey_listings r = 0"
  shows "is_blacklisted n (fold (offend n p) reasons s) p \<longleftrightarrow> 5 \<le> length reasons"
proof -
  have ok: "peers_ok n s" using assms(1) by (rule peers_ok_reachable)
  let ?t = "fold (offend n p) reasons s"
  have t: "peers_ok n ?t \<and> seed_peers ?t = seed_peers s"
    using ok by (rule offends_ok)
  have "\<not> is_blacklisted n ?t p" if "hm_get (whitelist_peers ?t) (peer_to_base58 n p) \<noteq> None"
    using that t assms(3) base58_seed [OF assms(2), of ?t p]
    by (auto simp: blacklisted_iff peers_ok_def lists_disjoint_def is_seed_peer_def)
  then show ?thesis
    using offends_count [OF ok assms(2) _ assms(4), of reasons] assms(3,5)
    by (auto simp: is_seed_peer_def split: if_splits)
qed


section \<open>Witnesses\<close>

text \<open>A small store for the witnesses: one peer of the own squad was added.\<close>

definition demo_peer_info :: peer_info where
  "demo_peer_info = peer_info_new demo_net 1000 [7] 5 6 50 60 ''squad'' [''addr''] None"

definition demo_store :: peer_store where
  "demo_store = set_last_ping demo_net [7] 1000
     (fst (peer_add demo_net 0 [7] demo_peer_info (peer_store_new ''squad'')))"

lemma demo_store_reachable: "peer_reachable demo_net ''squad'' demo_store"
  unfolding demo_store_def
  by (rule peer_reachable.step [OF peer_reachable.step [OF peer_reachable.start peer_step.add] peer_step.ping])

lemma demo_store_eq: "demo_store =
   \<lparr>whitelist_peers = [(peer_to_base58 demo_net [7],
       (peer_store_record_new 0 [7] demo_peer_info)\<lparr>pr_last_ping := Some 1000\<rparr>)],
    greylist_peers = [], blacklist_peers = [], non_squad_peers = [], stats_sent = [(1, 0, 0, 0)],
    seed_peers = [], my_squad = ''squad''\<rparr>"
  by (simp add: demo_store_def peer_add_def peer_store_new_def set_last_ping_def hm_modify_def
      update_peer_stats_def Let_def hm_contains_def demo_peer_info_def peer_info_new_def)

theorem peer_on_one_list_witness:
  "\<not> is_seed_peer demo_store [7] \<and>
   length (filter (\<lambda>m. hm_contains m (peer_to_base58 demo_net [7]))
      [whitelist_peers demo_store, greylist_peers demo_store, blacklist_peers demo_store]) \<le> 1"
proof -
  have seed: "\<not> is_seed_peer demo_store [7]" by (simp add: demo_store_eq is_seed_peer_def)
  show ?thesis using peer_on_one_list [OF base58_demo demo_store_reachable seed] seed by blast
qed

theorem blacklist_is_sticky_witness:
  "is_blacklisted demo_net
     (fst (peer_add demo_net 9 [7] demo_peer_info (move_to_blacklist demo_net [7] ''bad'' demo_store))) [7]"
proof -
  let ?s = "move_to_blacklist demo_net [7] ''bad'' demo_store"
  have r: "peer_reachable demo_net ''squad'' ?s"
    by (rule peer_reachable.step [OF demo_store_reachable peer_step.black])
  have b: "is_blacklisted demo_net ?s [7]"
    by (simp add: move_to_blacklist_def demo_store_eq Let_def blacklisted_iff)
  have ne: "fst (peer_add demo_net 9 [7] demo_peer_info ?s) \<noteq> clear_black_list ?s"
  proof
    assume "fst (peer_add demo_net 9 [7] demo_peer_info ?s) = clear_black_list ?s"
    then have "blacklist_peers (fst (peer_add demo_net 9 [7] demo_peer_info ?s)) = []"
      using clear_black_list_lookup(3) [OF records_okD(3) [OF peers_okD(3) [OF peers_ok_reachable [OF r]]]]
      by simp
    then show False
      using b by (auto simp: peer_add_def Let_def blacklisted_iff split: option.splits if_splits)
  qed
  show ?thesis
    using blacklist_is_sticky [OF r peer_step.add b, of 9 "[7]" demo_peer_info] ne by blast
qed

theorem five_greylistings_blacklist_witness:
  "is_blacklisted demo_net (fold (offend demo_net [7]) [''a'', ''b'', ''c'', ''d'', ''e''] demo_store) [7]
   \<and> \<not> is_blacklisted demo_net (fold (offend demo_net [7]) [''a'', ''b'', ''c'', ''d''] demo_store) [7]"
proof -
  have seed: "\<not> is_seed_peer demo_store [7]" by (simp add: demo_store_eq is_seed_peer_def)
  let ?r = "(peer_store_record_new 0 [7] demo_peer_info)\<lparr>pr_last_ping := Some 1000\<rparr>"
  have w: "hm_get (whitelist_peers demo_store) (peer_to_base58 demo_net [7]) = Some ?r"
    by (simp add: demo_store_eq)
  have c: "pr_num_grey_listings ?r = 0" by simp
  note F = five_greylistings_blacklist [OF demo_store_reachable base58_demo seed w c]
  show ?thesis
    using F [of "[''a'', ''b'', ''c'', ''d'', ''e'']"] F [of "[''a'', ''b'', ''c'', ''d'']"]
    by (simp only: list.size) simp
qed

section \<open>The best known height\<close>

definition spoken_recently :: "epoch_time \<Rightarrow> peer_store_record \<Rightarrow> bool" where
  "spoken_recently now r \<longleftrightarrow>
     (\<exists>t. pr_last_ping r = Some t \<and> now - 60 \<le> t) \<and> now - 60 \<le> pi_timestamp (pr_peer_info r)"

definition peer_pow :: "pow_algorithm \<Rightarrow> peer_store_record \<Rightarrow> u128" where
  "peer_pow a r = (case a of RandomX \<Rightarrow> pi_current_random_x_pow (pr_peer_info r)
                           | Sha3x \<Rightarrow> pi_current_sha3x_pow (pr_peer_info r))"

definition peer_height :: "pow_algorithm \<Rightarrow> peer_store_record \<Rightarrow> u64" where
  "peer_height a r = (case a of RandomX \<Rightarrow> pi_current_random_x_height (pr_peer_info r)
                              | Sha3x \<Rightarrow> pi_current_sha3x_height (pr_peer_info r))"

lemma max_height_loop_step:
  assumes "60 \<le> now"
  shows "max_height_loop a now (r # rs) best =
     max_height_loop a now rs
       (if spoken_recently now r \<and> fst (snd best) < peer_pow a r
        then (peer_height a r, peer_pow a r, Some (pr_peer_id r)) else best)"
proof -
  have "sub_chk now 60 = (Ok (now - 60) :: (unit, u64) outcome)"
    using assms by (simp add: sub_chk_def checked_sub_def not_less)
  then show ?thesis
    by (cases "pr_last_ping r"; cases a)
      (auto simp: spoken_recently_def peer_pow_def peer_height_def not_less Let_def)
qed

lemma max_height_loop_Ok:
  assumes "60 \<le> now"
  shows "\<exists>h w q. max_height_loop a now rs (h0, w0, q0) = Ok (h, w, q) \<and> w0 \<le> w
    \<and> ((h, w, q) = (h0, w0, q0) \<or> (\<exists>r\<in>set rs. spoken_recently now r \<and> peer_pow a r = w
          \<and> peer_height a r = h \<and> q = Some (pr_peer_id r)) \<and> w0 < w)
    \<and> (\<forall>r\<in>set rs. spoken_recently now r \<longrightarrow> peer_pow a r \<le> w)"
proof (induction rs arbitrary: h0 w0 q0)
  case (Cons r rs)
  show ?case
  proof (cases "spoken_recently now r \<and> w0 < peer_pow a r")
    case True
    then show ?thesis
      using Cons.IH [of "peer_height a r" "peer_pow a r" "Some (pr_peer_id r)"]
      unfolding max_height_loop_step [OF assms] by force
  next
    case False
    then show ?thesis
      using Cons.IH [of h0 w0 q0]
      unfolding max_height_loop_step [OF assms] by (force simp: not_less intro: order_trans)
  qed
qed simp

text \<open>The best known network height is the one claimed with the greatest work by a peer that
  pinged and reported in the last minute, and zero when there is none with positive work.\<close>

theorem best_known_height:
  assumes "60 \<le> now"
  shows "\<exists>h w q. max_known_network_height s a now = Ok (h, w, q)
    \<and> (\<forall>r \<in> set (hm_values (whitelist_peers s)). spoken_recently now r \<longrightarrow> peer_pow a r \<le> w)
    \<and> (case q of
         None \<Rightarrow> h = 0 \<and> w = 0
       | Some p \<Rightarrow> \<exists>r \<in> set (hm_values (whitelist_peers s)). pr_peer_id r = p \<and> spoken_recently now r
                     \<and> peer_pow a r = w \<and> peer_height a r = h \<and> 0 < w)"
proof -
  obtain h w q where "max_known_network_height s a now = Ok (h, w, q)"
    and "(h, w, q) = (0, 0, None) \<or> (\<exists>r\<in>set (hm_values (whitelist_peers s)). spoken_recently now r
        \<and> peer_pow a r = w \<and> peer_height a r = h \<and> q = Some (pr_peer_id r)) \<and> 0 < w"
    and "\<forall>r\<in>set (hm_values (whitelist_peers s)). spoken_recently now r \<longrightarrow> peer_pow a r \<le> w"
    using max_height_loop_Ok [OF assms, of a "hm_values (whitelist_peers s)" 0 0 None]
    unfolding max_known_network_height_def by blast
  then show ?thesis by (intro exI [of _ h] exI [of _ w] exI [of _ q]) (auto split: option.split)
qed

theorem best_known_height_witness:
  "max_known_network_height demo_store RandomX 1030 = Ok (6, 60, Some [7])"
proof -
  have "60 \<le> (1030 :: u64)" by simp
  from best_known_height [OF this, of demo_store RandomX]
  obtain h w q where m: "max_known_network_height demo_store RandomX 1030 = Ok (h, w, q)" 
    and "(60 :: u128) \<le> w" and "case q of None \<Rightarrow> h = 0 \<and> w = 0 | Some p \<Rightarrow> [7] = p \<and> 60 = w \<and> 6 = h"
    by (auto simp: demo_store_eq spoken_recently_def demo_peer_info_def peer_info_new_def
        peer_store_record_new_def peer_pow_def peer_height_def split: option.splits)
  then show ?thesis by (cases q) auto
qed

section \<open>The peers to share\<close>

lemma sorted_pairs:
  "Sorting_Algorithms.sorted c (xs @ ys) \<Longrightarrow> x \<in> set xs \<Longrightarrow> y \<in> set ys \<Longrightarrow> compare c x y \<noteq> Greater"
  by (auto simp: sorted_append_iff)

lemma sorted_filter:
  "Sorting_Algorithms.sorted c xs \<Longrightarrow> Sorting_Algorithms.sorted c (filter P xs)"
proof (induction xs)
  case (Cons x xs)
  then have "Sorting_Algorithms.sorted c xs" and "\<And>y. y \<in> set xs \<Longrightarrow> compare c x y \<noteq> Greater"
    using sorted_Cons_imp_sorted sorted_append_iff [of c "[x]" xs] by auto
  then show ?case using Cons.IH sorted_append_iff [of c "[x]" "filter P xs"] by auto
qed simp

lemma share_order_compare:
  "compare (share_order squad) a b \<noteq> Greater \<longleftrightarrow>
     squad_rank squad a < squad_rank squad b \<or> squad_rank squad a = squad_rank squad b \<and> last_seen b \<le> last_seen a"
  by (auto simp: share_order_def then_by_def compare_prod_lex_apply not_less split: comp.splits)

definition shareable :: "net_ext \<Rightarrow> peer_store \<Rightarrow> peer_id list \<Rightarrow> peer_store_record \<Rightarrow> bool" where
  "shareable n s others r \<longleftrightarrow>
     r \<in> set (hm_values (whitelist_peers s) @ hm_values (non_squad_peers s))
   \<and> public_addresses n (pr_peer_info r) \<noteq> [] \<and> pr_last_ping r \<noteq> None \<and> pr_peer_id r \<notin> set others"

text \<open>The peers shared with another node are at most the limit, all with an address and a
  ping and unknown to the other node, and none left out is better (same squad first, then most
  recently seen) than one chosen.\<close>

theorem best_peers_shared:
  "let chosen = best_peers_to_share n s limit squad others in
     length chosen \<le> limit \<and> (\<forall>r \<in> set chosen. shareable n s others r)
   \<and> (\<forall>r. shareable n s others r \<and> r \<notin> set chosen \<longrightarrow>
        length chosen = limit
      \<and> (\<forall>c \<in> set chosen. squad_rank squad c < squad_rank squad r
           \<or> squad_rank squad c = squad_rank squad r \<and> last_seen r \<le> last_seen c))"
proof -
  define all where "all = filter (\<lambda>r. pr_peer_id r \<notin> set others)
    (Sorting_Algorithms.sort (share_order squad)
      (filter (\<lambda>r. public_addresses n (pr_peer_info r) \<noteq> [] \<and> pr_last_ping r \<noteq> None)
        (hm_values (whitelist_peers s) @ hm_values (non_squad_peers s))))"
  have chosen: "best_peers_to_share n s limit squad others = take limit all"
    by (simp add: best_peers_to_share_def all_def Let_def)
  have set_all: "r \<in> set all \<longleftrightarrow> shareable n s others r" for r
    by (auto simp: all_def shareable_def)
  have "Sorting_Algorithms.sorted (share_order squad) (take limit all @ drop limit all)"
    unfolding append_take_drop_id all_def by (rule sorted_filter) simp
  then have best: "compare (share_order squad) c r \<noteq> Greater" if "c \<in> set (take limit all)" "r \<in> set (drop limit all)" for c r
    using that by (rule sorted_pairs)
  have rest: "r \<in> set (drop limit all) \<and> length (take limit all) = limit"
    if "shareable n s others r" "r \<notin> set (take limit all)" for r
  proof -
    have "r \<in> set (take limit all @ drop limit all)" using that(1) set_all by simp
    then have d: "r \<in> set (drop limit all)" using that(2) by (simp only: set_append Un_iff simp_thms)
    then have "limit < length all" by (cases "limit < length all") auto
    then show ?thesis using d by simp
  qed
  show ?thesis
    unfolding chosen Let_def
  proof (intro conjI ballI allI impI)
    show "length (take limit all) \<le> limit" by simp
    show "shareable n s others r" if "r \<in> set (take limit all)" for r
      using set_take_subset that set_all by (metis subset_iff)
  next
    fix r assume "shareable n s others r \<and> r \<notin> set (take limit all)"
    then have r: "r \<in> set (drop limit all)" "length (take limit all) = limit" using rest by blast+
    from r(2) show "length (take limit all) = limit" .
    fix c assume "c \<in> set (take limit all)"
    then show "squad_rank squad c < squad_rank squad r
        \<or> squad_rank squad c = squad_rank squad r \<and> last_seen r \<le> last_seen c"
      using best r(1) by (simp add: share_order_compare [symmetric])
  qed
qed

theorem best_peers_shared_witness:
  "length (best_peers_to_share demo_net demo_store 1 ''squad'' []) = 1"
proof -
  have ex: "\<exists>r. shareable demo_net demo_store [] r"
    by (simp add: shareable_def demo_store_eq demo_peer_info_def peer_info_new_def public_addresses_def
        demo_net_def peer_store_record_new_def List.map_filter_def)
  note B = best_peers_shared [of demo_net demo_store 1 "''squad''" "[]", unfolded Let_def]
  let ?c = "best_peers_to_share demo_net demo_store 1 ''squad'' []"
  have "length ?c \<le> 1" using B by blast
  moreover have "?c \<noteq> []" using B ex by fastforce
  ultimately show ?thesis by (cases ?c) auto
qed

end
