(* ===== verification/NetFrame.thy ===== *)
theory NetFrame
  imports NetLoop PeerCorrect ChainSettings
begin

text \<open>
  What every handler of the service keeps. The state is read through four notions: the permits
  of the two semaphores (free, held by a sync in progress, by a queued request or by a task), the
  bounds on queued requests, the well-formedness of the chains, and the operations made on the
  peer store. The relation \<open>keeps\<close> says that all four are kept; a handler that only talks to
  the swarm or changes the peer store is \<open>quiet\<close>. There is one lemma for each handler.
\<close>

section \<open>What the service holds\<close>

definition permit_mset :: "permit option \<Rightarrow> permit multiset" where
  "permit_mset p = (case p of None \<Rightarrow> {#} | Some p \<Rightarrow> {#p#})"

lemma permit_mset_simps [simp]: "permit_mset None = {#}" "permit_mset (Some p) = {#p#}"
  by (simp_all add: permit_mset_def)

fun request_permits :: "inner_request \<Rightarrow> permit multiset" where
  "request_permits (PerformCatchUpSync r) = permit_mset (cu_permit r)"
| "request_permits (DoSyncMissingBlocks r) = {#}"
| "request_permits (AddSyncedBlock a b p d) = {#}"

definition free_permits :: "'l service \<Rightarrow> permit multiset" where
  "free_permits s = replicate_mset (sv_available_permits s RandomX) (Permit RandomX)
     + replicate_mset (sv_available_permits s Sha3x) (Permit Sha3x)"

definition sync_permits :: "'l service \<Rightarrow> pow_algorithm \<Rightarrow> permit multiset" where
  "sync_permits s a = mset (map (\<lambda>e. snd (snd e)) (sv_in_progress_syncs s a))"

definition all_permits :: "'l service \<Rightarrow> permit multiset" where
  "all_permits s = free_permits s + sync_permits s RandomX + sync_permits s Sha3x
     + (\<Sum>r\<leftarrow>sv_inner_requests s. request_permits r)
     + (\<Sum>k\<leftarrow>sv_tasks s. permit_mset (ct_permit k))"

definition syncs_ok :: "'l service \<Rightarrow> bool" where
  "syncs_ok s \<longleftrightarrow> hm_ok (sv_in_progress_syncs s RandomX) \<and> hm_ok (sv_in_progress_syncs s Sha3x)"

lemma syncs_okD: "syncs_ok s \<Longrightarrow> hm_ok (sv_in_progress_syncs s a)"
  by (cases a) (simp_all add: syncs_ok_def)

text \<open>No request is deeper than allowed, and no block of a peer counts as checked.\<close>

fun request_ok :: "nat \<Rightarrow> inner_request \<Rightarrow> bool" where
  "request_ok d (DoSyncMissingBlocks r) \<longleftrightarrow> sm_depth r \<le> d"
| "request_ok d (PerformCatchUpSync r) \<longleftrightarrow> True"
| "request_ok d (AddSyncedBlock a b p k) \<longleftrightarrow> k \<le> d \<and> b_verified b = vs_new"

definition max_depth :: "'l service \<Rightarrow> nat" where
  "max_depth s = max_missing_blocks_sync_depth (sv_config s)"

definition requests_ok :: "'l service \<Rightarrow> bool" where
  "requests_ok s \<longleftrightarrow>
     (\<forall>r \<in> set (sv_inner_requests s). request_ok (max_depth s) r)
   \<and> (\<forall>(i, d) \<in> set (sv_missing_blocks_sync_request_depth s). d \<le> max_depth s)
   \<and> (\<forall>k \<in> set (sv_tasks s). \<forall>b \<in> set (ct_blocks k). b_verified b = vs_new)"

definition chains_ok :: "'l service \<Rightarrow> bool" where
  "chains_ok s \<longleftrightarrow> (\<forall>a. chain_wf (sc_p2_chain (sv_share_chain s a)))"

section \<open>One relation for all handlers\<close>

text \<open>
  \<open>keeps w P Q s s'\<close>: a handler that is given the permits \<open>P\<close> and hands on the permits \<open>Q\<close>
  loses none, keeps the bounds on requests, the settings of the chains and the chains
  well-formed, and changes the peer store by operations of the peer store only.
\<close>

definition keeps ::
    "'l world \<Rightarrow> permit multiset \<Rightarrow> permit multiset \<Rightarrow> 'l service \<Rightarrow> 'l service \<Rightarrow> bool" where
  "keeps w P Q s s' \<longleftrightarrow>
     sv_config s' = sv_config s
   \<and> (peer_step (w_net w))\<^sup>*\<^sup>* (sv_peer_store s) (sv_peer_store s')
   \<and> (syncs_ok s \<longrightarrow> syncs_ok s' \<and> P + all_permits s = Q + all_permits s')
   \<and> (requests_ok s \<longrightarrow> requests_ok s')
   \<and> (chains_ok s \<longrightarrow> chains_ok s')
   \<and> (\<forall>a. share_settings (sv_share_chain s' a) = share_settings (sv_share_chain s a))"

lemma keeps_refl [simp]: "keeps w P P s s"
  by (simp add: keeps_def)

lemma keeps_trans: "keeps w P Q s s' \<Longrightarrow> keeps w Q R s' s'' \<Longrightarrow> keeps w P R s s''"
  by (auto simp: keeps_def)

text \<open>
  Most handlers only ask something of the swarm or change the peer store: they change none of
  the state the permits, the requests and the chains depend on.
\<close>

definition sync_view where
  "sync_view s = (sv_available_permits s, sv_in_progress_syncs s, sv_inner_requests s, sv_tasks s,
     sv_missing_blocks_sync_request_depth s, sv_config s, sv_share_chain s)"

definition quiet :: "'l world \<Rightarrow> 'l service \<Rightarrow> 'l service \<Rightarrow> bool" where
  "quiet w s s' \<longleftrightarrow> sync_view s' = sync_view s
     \<and> (peer_step (w_net w))\<^sup>*\<^sup>* (sv_peer_store s) (sv_peer_store s')"

lemma quiet_refl [simp, intro]: "quiet w s s"
  by (simp add: quiet_def)

lemma quiet_trans: "quiet w s s' \<Longrightarrow> quiet w s' s'' \<Longrightarrow> quiet w s s''"
  by (auto simp: quiet_def)

lemma quiet_act [simp]: "quiet w s (act a s') \<longleftrightarrow> quiet w s s'"
  by (simp add: quiet_def sync_view_def act_def)

lemma quiet_update [simp]:
  "quiet w s (s'\<lparr>sv_relay_store := rs\<rparr>) \<longleftrightarrow> quiet w s s'"
  "quiet w s (s'\<lparr>sv_is_private_nat := b\<rparr>) \<longleftrightarrow> quiet w s s'"
  "quiet w s (s'\<lparr>sv_dialed_seed_peers := ps\<rparr>) \<longleftrightarrow> quiet w s s'"
  "quiet w s (s'\<lparr>sv_synced := f\<rparr>) \<longleftrightarrow> quiet w s s'"
  "quiet w s (s'\<lparr>sv_last_failed_peer := l\<rparr>) \<longleftrightarrow> quiet w s s'"
  "quiet w s (s'\<lparr>sv_last_sync_requested_block := g\<rparr>) \<longleftrightarrow> quiet w s s'"
  "quiet w s (s'\<lparr>sv_recent_synced_tips := t\<rparr>) \<longleftrightarrow> quiet w s s'"
  "quiet w s (s'\<lparr>sv_swarm := sw\<rparr>) \<longleftrightarrow> quiet w s s'"
  by (simp_all add: quiet_def sync_view_def)

lemma quiet_fold:
  assumes "\<And>x s'. x \<in> set xs \<Longrightarrow> quiet w s s' \<Longrightarrow> quiet w s (f x s')" and "quiet w s s'"
  shows "quiet w s (fold f xs s')"
  using assms by (induction xs arbitrary: s') auto

lemma quiet_on_peers:
  "peer_step (w_net w) (sv_peer_store s') (f (sv_peer_store s')) \<Longrightarrow> quiet w s s' \<Longrightarrow> quiet w s (on_peers f s')"
  by (auto simp: quiet_def sync_view_def on_peers_def intro: rtranclp.rtrancl_into_rtrancl)

lemma quiet_store:
  "peer_step (w_net w) (sv_peer_store s') ps \<Longrightarrow> quiet w s s' \<Longrightarrow> quiet w s (s'\<lparr>sv_peer_store := ps\<rparr>)"
  using quiet_on_peers [of w s' "\<lambda>_. ps" s] by (simp add: on_peers_def)

lemma quiet_keeps: "quiet w s s' \<Longrightarrow> keeps w P P s s'"
  by (simp add: quiet_def keeps_def sync_view_def syncs_ok_def all_permits_def free_permits_def
      sync_permits_def requests_ok_def max_depth_def chains_ok_def)

section \<open>Handlers that are quiet\<close>

lemma quiet_add_peer: "quiet w s s' \<Longrightarrow> quiet w s (fst (add_peer w t i p s'))"
proof -
  assume q: "quiet w s s'"
  obtain ps st where a: "peer_add (w_net w) (c_instant t) p i (sv_peer_store s') = (ps, st)" by force
  have "peer_step (w_net w) (sv_peer_store s') ps"
    using peer_step.add [of "w_net w" "sv_peer_store s'" "c_instant t" p i] a by simp
  then have "quiet w s (s'\<lparr>sv_peer_store := ps\<rparr>)"
    using q by (rule quiet_store)
  then show ?thesis using q
    by (auto simp: add_peer_def a Let_def intro!: quiet_fold split: add_peer_status.splits)
qed

lemma quiet_received_one: "quiet w s (fst x) \<Longrightarrow> quiet w s (fst (add_received_peer w t p x))"
proof -
  assume q: "quiet w s (fst x)"
  have "quiet w s u" if "add_peer w t i p' (fst x) = (u, b)" for i p' u b
    using quiet_add_peer [OF q, of t i p'] that by simp
  then show ?thesis using q
    by (cases x) (auto simp: add_received_peer_def split: option.splits prod.splits bool.splits)
qed

lemma quiet_received: "quiet w s s' \<Longrightarrow> quiet w s (fst (add_received_peers w t ps s'))"
proof -
  have "quiet w s (fst x) \<Longrightarrow> quiet w s (fst (fold (add_received_peer w t) ps x))" for x
  proof (induction ps arbitrary: x)
    case (Cons p ps)
    from Cons.IH [OF quiet_received_one [OF Cons.prems]] show ?case by simp
  qed simp
  then show "quiet w s s' \<Longrightarrow> ?thesis" by (simp add: add_received_peers_def)
qed

lemma quiet_initiate [simp]:
  "quiet w s (initiate_direct_peer_exchange w t p s') \<longleftrightarrow> quiet w s s'"
  "quiet w s (initiate_meta_data_exchange w t p s') \<longleftrightarrow> quiet w s s'"
  by (simp_all add: initiate_direct_peer_exchange_def initiate_meta_data_exchange_def)

lemma quiet_exchange:
  "quiet w s (handle_direct_peer_exchange_request w t c q s)"
  "quiet w s (handle_direct_peer_exchange_response w t r s)"
  "quiet w s (handle_meta_data_exchange_request w t c m s)"
proof -
  show "quiet w s (handle_direct_peer_exchange_request w t c q s)"
    by (auto simp: handle_direct_peer_exchange_request_def Let_def split: option.splits
        intro!: quiet_received quiet_add_peer)
  show "quiet w s (handle_meta_data_exchange_request w t c m s)"
    by (auto simp: handle_meta_data_exchange_request_def Let_def split: option.splits intro!: quiet_add_peer)
  have "quiet w s s'" if "add_received_peers w t (dps_best_peers r) s = (s', n)" for s' n
    using quiet_received [of w s s t "dps_best_peers r"] that by simp
  then show "quiet w s (handle_direct_peer_exchange_response w t r s)"
    by (auto simp: handle_direct_peer_exchange_response_def Let_def split: option.splits prod.splits)
qed

lemma quiet_reservation: "quiet w s s' \<Longrightarrow> quiet w s (attempt_relay_reservation w p as s')"
  by (induction as arbitrary: s') (auto simp: Let_def)

lemma quiet_relay_job: "quiet w s (relay_job w t s)"
proof -
  have "quiet w s s' \<Longrightarrow> quiet w s (reserve_each w ps s')" for ps s'
    unfolding reserve_each_def by (rule quiet_fold) (auto intro: quiet_reservation)
  then show ?thesis by (simp add: relay_job_def Let_def)
qed

lemma quiet_churn_squad: "quiet w s s' \<Longrightarrow> quiet w s (snd (churn_squad rs s'))"
proof (induction rs s' rule: churn_squad.induct)
  case (1 rs s')
  then show ?case by (subst churn_squad.simps) (simp add: Let_def)
qed

lemma quiet_churn: "quiet w s (connection_churn w t s)"
proof -
  have "quiet w s s' \<Longrightarrow> quiet w s (churn_non_squad relays ps k s')" for relays ps k s'
    by (induction ps arbitrary: k s') auto
  then show ?thesis
    by (auto simp: connection_churn_def intro!: quiet_churn_squad split: prod.splits)
qed

lemma quiet_dial: "quiet w s s' \<Longrightarrow> quiet w s (dial_records w t stop rs k s')"
proof (induction rs arbitrary: k s')
  case (Cons r rs)
  then show ?case by (simp add: Let_def quiet_on_peers peer_step.dial)
qed simp

lemma quiet_seek: "quiet w s (seek_connections w t shuffle s)"
  by (auto simp: seek_connections_def Let_def intro!: quiet_dial split: prod.splits)

lemma quiet_jobs:
  "quiet w s (meta_data_exchange_job w t f s)" "quiet w s (peer_exchange_job w t f s)"
  by (auto simp: meta_data_exchange_job_def peer_exchange_job_def exchange_with_some_def intro!: quiet_fold)

lemma quiet_query: "quiet w s (fst (handle_query w q s))"
  by (simp add: handle_query_def split: p2p_service_query.split outcome.split)

lemma quiet_identified: "quiet w s (handle_peer_identified w p ps as s)"
  by (simp add: handle_peer_identified_def Let_def)

lemma quiet_autonat: "quiet w s (handle_autonat_event st s)"
  by (simp add: handle_autonat_event_def split: option.split nat_status.split)

lemma quiet_broadcast: "quiet w s (broadcast_peer_info w t s)" "quiet w s (broadcast_block w t b s)"
  by (simp_all add: broadcast_peer_info_def broadcast_block_def Let_def)

lemma quiet_grey: "quiet w s s' \<Longrightarrow> quiet w s (fst (grey_list_peer w p reason s'))"
proof -
  assume q: "quiet w s s'"
  obtain ps r where m: "move_to_grey_list (w_net w) p reason (sv_peer_store s') = (ps, r)" by force
  show ?thesis
    using q peer_step.grey [of "w_net w" "sv_peer_store s'" p reason]
    by (simp add: grey_list_peer_def m quiet_store)
qed

lemma quiet_black: "quiet w s s' \<Longrightarrow> quiet w s (blacklist_peer w p reason s')"
  by (auto simp: blacklist_peer_def intro!: quiet_on_peers peer_step.black)

lemma quiet_established: "quiet w s (connection_established w t p d s)"
  by (simp add: connection_established_def Let_def)

lemma quiet_requests:
  "quiet w s (handle_sync_missing_blocks_request w c q s)"
  "quiet w s (fst (handle_catch_up_sync_request w c r s))"
  by (simp_all add: handle_sync_missing_blocks_request_def handle_catch_up_sync_request_def Let_def
      split: outcome.split prod.split)

lemma quiet_reserved: "quiet w s (reservation_accepted t p l s)"
  by (simp add: reservation_accepted_def split: option.split)

lemmas quiet_handlers =
  quiet_exchange quiet_relay_job quiet_churn quiet_seek quiet_jobs quiet_query quiet_identified
  quiet_autonat quiet_broadcast quiet_established quiet_requests quiet_reserved

section \<open>Permits\<close>

lemma mset_hm_remove:
  "hm_ok m \<Longrightarrow> hm_get m k = Some v \<Longrightarrow> mset m = add_mset (k, v) (mset (hm_remove k m))"
proof (induction m)
  case (Cons e m)
  show ?case
  proof (cases "fst e = k")
    case True
    have "k \<notin> set (hm_keys m)" using Cons.prems(1) True by (simp add: hm_ok_def)
    then have "hm_remove k m = m" by (intro delete_id) simp
    then show ?thesis using True Cons.prems(2) by (cases e) simp
  next
    case False
    then show ?thesis using Cons by (cases e) (simp add: hm_ok_def)
  qed
qed simp

lemma image_hm_remove:
  assumes "hm_ok m" and "hm_get m k = Some v"
  shows "image_mset f (mset m) = add_mset (f (k, v)) (image_mset f (mset (hm_remove k m)))"
  unfolding mset_hm_remove [OF assms] by simp

lemma hm_insert_new: "\<not> hm_contains m k \<Longrightarrow> hm_insert k v m = m @ [(k, v)]"
  by (induction m) (auto simp: hm_contains_def split: if_splits)

lemma free_drop:
  "all_permits (drop_permit p s) = permit_mset p + all_permits s"
proof (cases p)
  case (Some q)
  then show ?thesis
    by (cases q; cases "case q of Permit a \<Rightarrow> a")
      (simp_all add: drop_permit_def all_permits_def free_permits_def sync_permits_def)
qed (simp add: drop_permit_def)

lemma drop_permit_simps [simp]:
  "sv_config (drop_permit p s) = sv_config s"
  "sv_peer_store (drop_permit p s) = sv_peer_store s" "sv_share_chain (drop_permit p s) = sv_share_chain s"
  "syncs_ok (drop_permit p s) = syncs_ok s" "requests_ok (drop_permit p s) = requests_ok s"
  "chains_ok (drop_permit p s) = chains_ok s"
  by (cases p; cases "the p";
      simp add: drop_permit_def syncs_ok_def requests_ok_def max_depth_def chains_ok_def)+

lemma keeps_drop: "keeps w (permit_mset p) {#} s (drop_permit p s)"
  by (simp add: keeps_def free_drop)

lemma keeps_drop_after: "keeps w P (permit_mset p) s s' \<Longrightarrow> keeps w P {#} s (drop_permit p s')"
  by (rule keeps_trans [OF _ keeps_drop])

lemma keeps_try_acquire:
  assumes "try_acquire a s = (s', p)"
  shows "keeps w {#} (permit_mset p) s s'"
  using assms
  by (cases a; auto simp: try_acquire_def keeps_def all_permits_def free_permits_def sync_permits_def
      syncs_ok_def requests_ok_def max_depth_def chains_ok_def split: nat.splits)

lemma keeps_quiet_trans: "keeps w P Q s s' \<Longrightarrow> quiet w s' s'' \<Longrightarrow> keeps w P Q s s''"
  by (blast intro: keeps_trans quiet_keeps)

lemma keeps_send:
  assumes "requests_ok s \<Longrightarrow> request_ok (max_depth s) r"
  shows "keeps w (request_permits r) {#} s (send_inner r s)"
  using assms
  by (auto simp: keeps_def send_inner_def all_permits_def free_permits_def sync_permits_def syncs_ok_def
      requests_ok_def max_depth_def chains_ok_def)

lemma keeps_send_plain:
  assumes "requests_ok s \<Longrightarrow> request_ok (max_depth s) r" and "request_permits r = {#}"
  shows "keeps w {#} {#} s (send_inner r s)"
  using keeps_send [OF assms(1)] assms(2) by metis

lemma keeps_fold:
  assumes "\<And>x s. x \<in> set xs \<Longrightarrow> keeps w {#} {#} s (f x s)"
  shows "keeps w {#} {#} s (fold f xs s)"
  using assms
proof (induction xs arbitrary: s)
  case (Cons x xs)
  then have "keeps w {#} {#} s (f x s)" "keeps w {#} {#} (f x s) (fold f xs (f x s))" by simp_all
  then show ?case using keeps_trans by force
qed simp

lemma find_SomeD: "List.find P xs = Some x \<Longrightarrow> x \<in> set xs \<and> P x"
  by (induction xs) (auto split: if_splits)

lemma keeps_release:
  assumes "release_from a i s = Some (s', p)" and ok: "syncs_ok s"
  shows "keeps w {#} {#p#} s s'"
proof -
  let ?m = "sv_in_progress_syncs s a"
  from assms(1) obtain q j where f: "List.find (\<lambda>(p, j, permit). j = i) ?m = Some (q, j, p)"
    and s': "s' = s\<lparr>sv_last_failed_peer := (sv_last_failed_peer s)(a := None),
                  sv_in_progress_syncs := (sv_in_progress_syncs s)(a := hm_remove q ?m)\<rparr>"
    by (auto simp: release_from_def split: option.splits)
  have g: "hm_get ?m q = Some (j, p)"
    using find_SomeD [OF f] hm_ok_get [OF syncs_okD [OF ok]] by blast
  have m: "mset (map (\<lambda>e. snd (snd e)) ?m) = add_mset p (mset (map (\<lambda>e. snd (snd e)) (hm_remove q ?m)))"
    using image_hm_remove [OF syncs_okD [OF ok] g, of "\<lambda>e. snd (snd e)"] by simp
  have "hm_ok (hm_remove q ?m)"
    using syncs_okD [OF ok] by (rule hm.ok_del)
  then show ?thesis
    using m by (cases a) (simp_all add: s' keeps_def all_permits_def free_permits_def sync_permits_def
        syncs_ok_def requests_ok_def max_depth_def chains_ok_def)
qed

lemma keeps_fail_sync: "syncs_ok s \<Longrightarrow> keeps w {#} {#} s (fail_sync a p i s)"
proof -
  assume ok: "syncs_ok s"
  let ?m = "sv_in_progress_syncs s a"
  show ?thesis
  proof (cases "hm_get ?m p")
    case (Some e)
    obtain j permit where e: "e = (j, permit)" by force
    have m: "mset (map (\<lambda>e. snd (snd e)) ?m) = add_mset permit (mset (map (\<lambda>e. snd (snd e)) (hm_remove p ?m)))"
      using image_hm_remove [OF syncs_okD [OF ok] Some [unfolded e], of "\<lambda>e. snd (snd e)"] by simp
    have "hm_ok (hm_remove p ?m)"
      using syncs_okD [OF ok] by (rule hm.ok_del)
    then have "keeps w {#} (permit_mset (Some permit)) s
        (s\<lparr>sv_in_progress_syncs := (sv_in_progress_syncs s)(a := hm_remove p ?m),
           sv_last_failed_peer := (sv_last_failed_peer s)(a := Some p)\<rparr>)"
      using m by (cases a) (simp_all add: keeps_def all_permits_def free_permits_def sync_permits_def
          syncs_ok_def requests_ok_def max_depth_def chains_ok_def)
    then show ?thesis
      by (auto simp: fail_sync_def Some e intro: keeps_drop_after)
  qed (simp add: fail_sync_def)
qed

end
