(* ===== verification/NetRounds.thy ===== *)
theory NetRounds
  imports NetFrame
begin

text \<open>
  The handlers that queue requests, run syncs and tasks, and from them every round of the main
  loop and every step of the service: \<open>keeps\<close> holds between the first and the last state
  of any run.
\<close>

lemma add_synced_blocks_chain:
  "chain_wf (sc_p2_chain s) \<Longrightarrow> chain_wf (sc_p2_chain (fst (add_synced_blocks e li t t' s bs)))"
  by (simp add: add_synced_blocks_def Let_def synced_loop_chain)

lemma add_synced_blocks_returns:
  "chain_wf (sc_p2_chain s) \<Longrightarrow> snd (add_synced_blocks e li t t' s bs) \<noteq> Diverge"
  by (simp add: add_synced_blocks_def Let_def synced_loop_returns)

lemma submit_block_chain:
  "chain_wf (sc_p2_chain s) \<Longrightarrow> chain_wf (sc_p2_chain (fst (submit_block e t t' s b)))"
  by (simp add: submit_block_def submit_with_lock_chain)

lemma chain_wf_cached_shares [simp]: "chain_wf (c\<lparr>ch_cached_shares := x\<rparr>) \<longleftrightarrow> chain_wf c"
  by (simp add: chain_wf_def levels_wf_def level_at_height_def)

lemma generate_shares_chain:
  assumes "chain_wf (sc_p2_chain s)"
  shows "chain_wf (sc_p2_chain (fst (generate_shares_and_get_target_difficulty e s b solo)))"
proof -
  have k: "sc_p2_chain (fst (bindS (s', r) f)) = c"
    if "sc_p2_chain s' = c" "\<And>s x. sc_p2_chain s = c \<Longrightarrow> sc_p2_chain (fst (f s x)) = c" for s' r f c
    using that bindS_preserves [of "\<lambda>s. sc_p2_chain s = c" "(s', r)" f] by simp
  have "chain_wf (fst (if solo then (sc_p2_chain s, Ok []) else shares_before e (sc_p2_chain s) b))"
    using assms shares_before_chain [of e "sc_p2_chain s" b] by auto
  then show ?thesis
    by (auto simp: generate_shares_and_get_target_difficulty_def Let_def split: prod.splits
        intro!: bindS_preserves [of "\<lambda>s. chain_wf (sc_p2_chain s)"])
qed

section \<open>The remaining handlers\<close>

lemma keeps_queue_catch_up: "keeps w {#} {#} s (queue_catch_up w a p i s)"
  by (simp add: queue_catch_up_def keeps_send_plain)

lemma keeps_meta_data_response: "keeps w {#} {#} s (handle_meta_data_exchange_response w t r s)"
proof -
  have add: "keeps w {#} {#} s (fst (add_peer w t i p s))" for i p
    by (rule quiet_keeps) (simp add: quiet_add_peer)
  show ?thesis
    by (auto simp: handle_meta_data_exchange_response_def Let_def add quiet_keeps split: option.splits
        intro: keeps_trans [OF keeps_trans [OF add keeps_queue_catch_up] keeps_queue_catch_up])
qed

lemma keeps_add_synced:
  assumes "sv_add_synced_blocks w t a bs s = (s', r)"
  shows "keeps w {#} {#} s s'"
proof -
  obtain c where c: "add_synced_blocks (w_ext w) (log_info w) (c_now t) (c_now' t) (sv_share_chain s a) bs = (c, r)"
    and s': "s' = s\<lparr>sv_share_chain := (sv_share_chain s)(a := c)\<rparr>"
    using assms by (auto simp: sv_add_synced_blocks_def split: prod.splits)
  have "chain_wf (sc_p2_chain c)" if "chain_wf (sc_p2_chain (sv_share_chain s a))"
    using add_synced_blocks_chain [OF that] c by (metis fst_conv)
  moreover have "share_settings c = share_settings (sv_share_chain s a)"
    using settings_add_synced c by (metis fst_conv)
  ultimately show ?thesis
    by (simp add: s' keeps_def all_permits_def free_permits_def sync_permits_def syncs_ok_def
        requests_ok_def max_depth_def chains_ok_def)
qed

lemma keeps_gossip: "keeps w {#} {#} s (fst (handle_new_gossipsub_message w t m p s))"
proof -
  have blocks: "keeps w {#} {#} s (fst (gossip_new_blocks w t p q s))" for q
  proof -
    obtain s' r where a: "sv_add_synced_blocks w t (notify_algo q) (reset_verified (nt_new_blocks q)) s = (s', r)"
      by force
    note k = keeps_add_synced [OF a]
    have g: "keeps w {#} {#} s (fst (grey_list_peer w x reason s'))" for x reason
      using k quiet_grey [OF quiet_refl] by (rule keeps_quiet_trans)
    have d: "keeps w {#} {#} s (send_inner (DoSyncMissingBlocks r) s')" if "sm_depth r = 0" for r
      using that by (intro keeps_trans [OF k] keeps_send_plain) simp_all
    have gb: "keeps w {#} {#} s (fst (bindS (grey_list_peer w x reason s') (\<lambda>s _. (s, Ok y))))" for x reason and y :: acceptance
      using g by (intro bindS_preserves [of "keeps w {#} {#} s"]) auto
    show ?thesis
      by (cases r) (auto simp: gossip_new_blocks_def Let_def a k gb intro!: d)
  qed
  have info: "quiet w s (fst (gossip_peer_info w t x d s))" for x d
    by (auto simp: gossip_peer_info_def intro!: quiet_add_peer split: sum.splits)
  have gb: "keeps w {#} {#} s (fst (bindS (grey_list_peer w x reason s) (\<lambda>s _. (s, Ok y))))" for x reason and y :: acceptance
    by (intro bindS_preserves [of "keeps w {#} {#} s"]) (auto intro: quiet_keeps quiet_grey)
  have "keeps w {#} {#} s (fst (case gossip_peer_info w t x d s of (s, a) \<Rightarrow> (s, Ok a :: (unit, acceptance) outcome)))" for x d
    using info [of x d] by (auto split: prod.splits intro: quiet_keeps)
  then show ?thesis
    by (auto simp: handle_new_gossipsub_message_def gossip_block_def blocks gb simp del: list.set
        split: option.splits sum.splits)
qed

lemma fold_send:
  "fold (\<lambda>x. send_inner (f x)) xs s = s\<lparr>sv_inner_requests := sv_inner_requests s @ map f xs\<rparr>"
  by (induction xs arbitrary: s) (simp_all add: send_inner_def)

lemma no_permits_sum: "\<forall>r\<in>set rs. request_permits r = {#} \<Longrightarrow> (\<Sum>r\<leftarrow>rs. request_permits r) = {#}"
  by (induction rs) simp_all

lemma keeps_requests:
  assumes "requests_ok s \<Longrightarrow> (\<forall>r\<in>set rs. request_ok (max_depth s) r) \<and> (\<forall>(i, d)\<in>set m. d \<le> max_depth s)"
    and "\<forall>r\<in>set rs. request_permits r = {#}"
  shows "keeps w {#} {#} s
    (s\<lparr>sv_missing_blocks_sync_request_depth := m, sv_inner_requests := sv_inner_requests s @ rs\<rparr>)"
proof -
  let ?s = "s\<lparr>sv_missing_blocks_sync_request_depth := m, sv_inner_requests := sv_inner_requests s @ rs\<rparr>"
  have "all_permits ?s = all_permits s"
    using no_permits_sum [OF assms(2)] by (simp add: all_permits_def free_permits_def sync_permits_def)
  moreover have "requests_ok s \<Longrightarrow> requests_ok ?s"
    using assms(1) by (simp add: requests_ok_def max_depth_def ball_Un)
  ultimately show ?thesis by (simp add: keeps_def syncs_ok_def chains_ok_def)
qed

lemma keeps_depths:
  assumes "\<And>i d. (i, d) \<in> set m \<Longrightarrow> requests_ok s \<Longrightarrow> d \<le> max_depth s"
  shows "keeps w {#} {#} s (s\<lparr>sv_missing_blocks_sync_request_depth := m\<rparr>)"
  using keeps_requests [of s "[]" m w] assms by auto

lemma requests_ok_depth:
  "requests_ok s \<Longrightarrow> (i, d) \<in> set (sv_missing_blocks_sync_request_depth s) \<Longrightarrow> d \<le> max_depth s"
  by (auto simp: requests_ok_def)

lemma set_hm_remove: "(j, d) \<in> set (hm_remove i m) \<Longrightarrow> (j, d) \<in> set m"
  by (simp add: AList.delete_eq)

lemma set_hm_insert: "(j, d) \<in> set (hm_insert i e m) \<Longrightarrow> (j, d) = (i, e) \<or> (j, d) \<in> set m"
  by (induction m) (auto split: if_splits)

lemma keeps_forget_depth:
  "keeps w {#} {#} s (s\<lparr>sv_missing_blocks_sync_request_depth := hm_remove i (sv_missing_blocks_sync_request_depth s)\<rparr>)"
  by (rule keeps_depths) (blast dest: requests_ok_depth set_hm_remove)

lemma keeps_sync_response: "keeps w {#} {#} s (sync_response_received w i r s)"
proof -
  let ?m = "hm_remove i (sv_missing_blocks_sync_request_depth s)"
  have "keeps w {#} {#} s (s\<lparr>sv_missing_blocks_sync_request_depth := ?m, sv_inner_requests :=
      sv_inner_requests s @ map (\<lambda>b. AddSyncedBlock a b p d) (sync_missing_into_blocks q)\<rparr>)"
    if d: "hm_get (sv_missing_blocks_sync_request_depth s) i = Some d" for q d a p
    by (rule keeps_requests)
      (auto simp: sync_missing_into_blocks_def reset_verified_def
        dest: requests_ok_depth set_hm_remove map_of_SomeD [OF d, THEN requests_ok_depth [rotated]])
  then show ?thesis
    using keeps_forget_depth
    by (auto simp: sync_response_received_def handle_sync_missing_blocks_response_def fold_send Let_def
        split: option.splits sum.splits)
qed

lemma keeps_send_sync_request:
  assumes "d \<le> max_depth s"
  shows "keeps w {#} {#} s (send_sync_request w a ms d p s)"
proof -
  have "keeps w {#} {#} s (s\<lparr>sv_missing_blocks_sync_request_depth :=
      hm_insert (sw_next_sync_id (sv_swarm s)) d (sv_missing_blocks_sync_request_depth s)\<rparr>)"
    by (rule keeps_depths) (use assms in \<open>blast dest: requests_ok_depth set_hm_insert\<close>)
  then show ?thesis
    by (rule keeps_quiet_trans) (simp add: send_sync_request_def Let_def quiet_def sync_view_def act_def)
qed

lemma max_depth_send [simp]: "max_depth (send_sync_request w a ms d p s) = max_depth s"
  by (simp add: send_sync_request_def Let_def max_depth_def act_def)

lemma keeps_send_requests:
  "d \<le> max_depth s \<Longrightarrow> keeps w {#} {#} s (fold (send_sync_request w a ms d) ps s)"
proof (induction ps arbitrary: s)
  case (Cons p ps)
  have "keeps w {#} {#} s (send_sync_request w a ms d p s)"
    using Cons.prems by (rule keeps_send_sync_request)
  moreover have "keeps w {#} {#} (send_sync_request w a ms d p s)
      (fold (send_sync_request w a ms d) ps (send_sync_request w a ms d p s))"
    by (rule Cons.IH) (simp add: Cons.prems)
  ultimately show ?case using keeps_trans by force
qed simp

lemma keeps_sync_missing_blocks: "keeps w {#} {#} s (fst (sync_missing_blocks w r s))"
  by (auto simp: sync_missing_blocks_def Let_def max_depth_def keeps_send_sync_request keeps_send_requests)

lemma keeps_catch_up_response: "keeps w (permit_mset p) {#} s (handle_catch_up_sync_response w r p s)"
proof -
  let ?a = "catch_up_sync_response_algo (w_net w) r"
  let ?s = "s\<lparr>sv_last_sync_requested_block := (sv_last_sync_requested_block s)(?a := None)\<rparr>"
  have q: "keeps w (permit_mset p) (permit_mset p) s ?s"
    by (rule quiet_keeps) simp
  have b: "keeps w (permit_mset p) (permit_mset p) s (blacklist_peer w x reason ?s)" for x reason
    by (rule quiet_keeps) (rule quiet_black, simp)
  have "keeps w (permit_mset p) {#} ?s (?s\<lparr>sv_tasks := sv_tasks ?s @ [k]\<rparr>)"
    if "ct_permit k = p" "ct_blocks k = catch_up_into_blocks r" for k
    using that
    by (auto simp: keeps_def all_permits_def free_permits_def sync_permits_def syncs_ok_def
        requests_ok_def max_depth_def chains_ok_def catch_up_into_blocks_def reset_verified_def)
  from keeps_trans [OF q this] show ?thesis
    by (auto simp: handle_catch_up_sync_response_def Let_def keeps_drop intro!: keeps_drop_after b)
qed

lemma keeps_catch_up_response_received:
  "syncs_ok s \<Longrightarrow> keeps w {#} {#} s (catch_up_response_received w i r s)"
proof -
  assume ok: "syncs_ok s"
  obtain s' p where rel: "release_catchup_sync_permit i s = (s', p)" by force
  have "keeps w {#} (permit_mset p) s s'"
    using rel keeps_release [OF _ ok]
    by (auto simp: release_catchup_sync_permit_def split: option.splits prod.splits)
  then have "keeps w {#} {#} s (handle_catch_up_sync_response w x p s')"
      "keeps w {#} {#} s (drop_permit p s')" for x
    by (blast intro: keeps_trans keeps_catch_up_response keeps_drop)+
  then show ?thesis
    by (simp add: catch_up_response_received_def rel split: sum.splits)
qed

section \<open>Tasks\<close>

lemma keeps_feed:
  assumes "\<forall>b\<in>set (ct_blocks k). b_verified b = vs_new"
  shows "keeps w {#} {#} s (fst (feed_blocks k s))"
proof -
  have "keeps w {#} {#} s
      (s\<lparr>sv_missing_blocks_sync_request_depth := sv_missing_blocks_sync_request_depth s,
         sv_inner_requests := sv_inner_requests s
           @ map (\<lambda>b. AddSyncedBlock (ct_algo k) b (ct_peer k) 0) (sort_key b_height (ct_blocks k))\<rparr>)"
    by (rule keeps_requests) (auto simp: assms dest: requests_ok_depth)
  then show ?thesis by (simp add: feed_blocks_def Let_def fold_send)
qed

lemma keeps_decide: "keeps w (permit_mset (ct_permit k)) {#} s (decide_catch_up w l m k s)"
proof -
  have reset: "quiet w s (on_peers (reset_catch_up_attempts (w_net w) (ct_peer k)) s)"
    by (rule quiet_on_peers) (auto intro: peer_step.reset)
  have "keeps w (permit_mset (ct_permit k)) {#} s
      (send_inner (PerformCatchUpSync r) (s\<lparr>sv_peer_store := ps, sv_synced := f\<rparr>))"
    if "add_catch_up_attempt (w_net w) (ct_peer k) (sv_peer_store s) = Ok ps" "cu_permit r = ct_permit k" for ps r f
  proof -
    have "quiet w s (s\<lparr>sv_peer_store := ps, sv_synced := f\<rparr>)"
      using quiet_store [OF peer_step.catch_up [OF that(1)] quiet_refl] by simp
    then have "keeps w (permit_mset (ct_permit k)) (permit_mset (ct_permit k)) s (s\<lparr>sv_peer_store := ps, sv_synced := f\<rparr>)"
      by (rule quiet_keeps)
    moreover have "keeps w (request_permits (PerformCatchUpSync r)) {#} (s\<lparr>sv_peer_store := ps, sv_synced := f\<rparr>)
        (send_inner (PerformCatchUpSync r) (s\<lparr>sv_peer_store := ps, sv_synced := f\<rparr>))"
      by (rule keeps_send) simp
    ultimately show ?thesis using that(2) by (simp add: keeps_trans)
  qed
  then show ?thesis
    using keeps_drop_after [OF quiet_keeps [OF reset]]
    by (auto simp: decide_catch_up_def Let_def keeps_drop split: outcome.splits)
qed

lemma keeps_frame: "keeps w {#} {#} s s' \<Longrightarrow> keeps w P P s s'"
  by (simp add: keeps_def)

lemma tasks_unchanged [simp]:
  "sv_tasks (fst (feed_blocks k s)) = sv_tasks s"
  "sv_tasks (decide_catch_up w l m k s) = sv_tasks s"
  by (simp_all add: feed_blocks_def fold_send decide_catch_up_def send_inner_def drop_permit_def on_peers_def
      Let_def split: outcome.split option.split permit.split)

lemma run_task_keeps:
  assumes "run_task w k s = (s', k')" and "\<forall>b\<in>set (ct_blocks k). b_verified b = vs_new"
  shows "sv_tasks s' = sv_tasks s"
    and "keeps w (permit_mset (ct_permit k)) (permit_mset (Option.bind k' ct_permit)) s s'"
    and "k' = Some k'' \<Longrightarrow> ct_permit k'' = ct_permit k \<and> ct_blocks k'' = ct_blocks k"
proof -
  have feed: "feed_blocks k s = (fst (feed_blocks k s), snd (feed_blocks k s))" by simp
  have f: "snd (feed_blocks k s) = Some k1 \<Longrightarrow> ct_permit k1 = ct_permit k \<and> ct_blocks k1 = ct_blocks k" for k1
    by (auto simp: feed_blocks_def Let_def)
  have fs: "\<exists>k1. snd (feed_blocks k s) = Some k1" by (simp add: feed_blocks_def Let_def)
  show "sv_tasks s' = sv_tasks s"
    using assms(1) tasks_unchanged(1) [of k s]
    by (auto simp: run_task_def simp del: tasks_unchanged(1) split: task_stage.splits option.splits)
  show "k' = Some k'' \<Longrightarrow> ct_permit k'' = ct_permit k \<and> ct_blocks k'' = ct_blocks k"
    using assms(1) f by (auto simp: run_task_def split: task_stage.splits option.splits)
  show "keeps w (permit_mset (ct_permit k)) (permit_mset (Option.bind k' ct_permit)) s s'"
  proof (cases "ct_stage k")
    case FeedBlocks
    then have fb: "feed_blocks k s = (s', k')" using assms(1) by (simp add: run_task_def)
    then obtain k1 where "k' = Some k1" "ct_permit k1 = ct_permit k" using fs f by auto
    then show ?thesis using keeps_frame [OF keeps_feed [OF assms(2)]] fb by (metis bind.bind_lunit fst_conv)
  next
    case (RememberTip l m)
    then show ?thesis using assms(1)
      by (auto simp: run_task_def intro!: quiet_keeps split: option.splits)
  next
    case (CompareWork l m)
    then show ?thesis using assms(1) by (auto simp: run_task_def)
  next
    case (Decide l m)
    then show ?thesis using assms(1) keeps_decide by (auto simp: run_task_def)
  qed
qed

lemma sum_list_nth:
  "i < length xs \<Longrightarrow> (\<Sum>x\<leftarrow>xs. f x) = f (xs ! i) + (\<Sum>x\<leftarrow>take i xs @ drop (Suc i) xs. f x)"
  for f :: "'a \<Rightarrow> 'b::comm_monoid_add"
  by (subst id_take_nth_drop [of i xs]) (simp_all add: ac_simps)

lemma keeps_task_change:
  assumes "syncs_ok s' \<Longrightarrow> P + (\<Sum>k\<leftarrow>sv_tasks s'. permit_mset (ct_permit k)) = (\<Sum>k\<leftarrow>ts. permit_mset (ct_permit k)) + Q"
    and "\<forall>k\<in>set ts. \<exists>k'\<in>set (sv_tasks s'). ct_blocks k = ct_blocks k'"
  shows "keeps w P Q s' (s'\<lparr>sv_tasks := ts\<rparr>)"
proof -
  have "requests_ok s' \<Longrightarrow> requests_ok (s'\<lparr>sv_tasks := ts\<rparr>)"
    using assms(2) by (fastforce simp: requests_ok_def max_depth_def)
  moreover have "syncs_ok s' \<Longrightarrow> P + all_permits s' = Q + all_permits (s'\<lparr>sv_tasks := ts\<rparr>)"
    using assms(1) by (simp add: all_permits_def free_permits_def sync_permits_def ac_simps)
  ultimately show ?thesis by (simp add: keeps_def syncs_ok_def chains_ok_def)
qed

lemma keeps_task_step:
  assumes i: "i < length (sv_tasks s)" and fresh: "requests_ok s"
  shows "keeps w {#} {#} s (task_step w i s)"
proof -
  let ?k = "sv_tasks s ! i"
  obtain s' k' where r: "run_task w ?k s = (s', k')" by force
  have b: "\<forall>b\<in>set (ct_blocks ?k). b_verified b = vs_new"
    using fresh i by (auto simp: requests_ok_def)
  note tasks = run_task_keeps(1) [OF r b] and keeps = run_task_keeps(2) [OF r b] and same = run_task_keeps(3) [OF r b]
  have i': "i < length (sv_tasks s')" using i tasks by simp
  have rest: "\<exists>k'\<in>set (sv_tasks s). ct_blocks k = ct_blocks k'"
    if "k \<in> set (take i (sv_tasks s) @ drop (Suc i) (sv_tasks s))" for k
    using that by (auto dest: in_set_takeD in_set_dropD)
  have K: "keeps w {#} {#} s s''" if "keeps w (permit_mset (ct_permit ?k)) (permit_mset (ct_permit ?k)) s s''" for s''
    using that by (simp add: keeps_def)
  show ?thesis
  proof (cases k')
    case None
    have "keeps w {#} (permit_mset (ct_permit ?k)) s' (s'\<lparr>sv_tasks := take i (sv_tasks s') @ drop (Suc i) (sv_tasks s')\<rparr>)"
      using sum_list_nth [OF i, of "\<lambda>k. permit_mset (ct_permit k)"] rest
      by (intro keeps_task_change) (simp_all add: tasks ac_simps)
    then have "keeps w {#} (permit_mset (ct_permit ?k)) s' (task_step w i s)"
      using None by (simp add: task_step_def r)
    moreover have "keeps w (permit_mset (ct_permit ?k)) {#} s s'" using keeps None by simp
    ultimately show ?thesis by (intro K) (rule keeps_trans)
  next
    case (Some k1)
    have "keeps w {#} {#} s' (s'\<lparr>sv_tasks := (sv_tasks s')[i := k1]\<rparr>)"
      using sum_list_nth [OF i, of "\<lambda>k. permit_mset (ct_permit k)"] rest same [OF Some] i
      by (intro keeps_task_change) (auto simp: tasks upd_conv_take_nth_drop ac_simps)
    then have "keeps w (permit_mset (ct_permit ?k)) (permit_mset (ct_permit ?k)) s' (task_step w i s)"
      using Some by (simp add: task_step_def r keeps_frame)
    moreover have "keeps w (permit_mset (ct_permit ?k)) (permit_mset (ct_permit ?k)) s s'"
      using keeps Some same [OF Some] by simp
    ultimately show ?thesis by (intro K) (rule keeps_trans)
  qed
qed

section \<open>Catching up\<close>

lemma sync_permits_insert:
  assumes "\<not> hm_contains (sv_in_progress_syncs s a) p"
  shows "mset (map (\<lambda>e. snd (snd e)) (hm_insert p (i, permit) (sv_in_progress_syncs s a)))
    = add_mset permit (sync_permits s a)"
  by (simp add: hm_insert_new [OF assms] sync_permits_def)

lemma keeps_send_catch_up:
  assumes "\<not> hm_contains (sv_in_progress_syncs s (cu_algo r)) (cu_peer r)"
  shows "keeps w {#permit#} {#} s (send_catch_up w t r permit h l s)"
proof -
  let ?a = "cu_algo r" and ?p = "cu_peer r"
  let ?i = "sw_next_catch_up_id (sv_swarm s)"
  let ?s1 = "s\<lparr>sv_in_progress_syncs := (sv_in_progress_syncs s)(?a := hm_insert ?p (?i, permit) (sv_in_progress_syncs s ?a))\<rparr>"
  have ok: "hm_ok (hm_insert ?p (?i, permit) (sv_in_progress_syncs s ?a))" if "syncs_ok s"
    using hm.ok_put [OF syncs_okD [OF that]] .
  have "keeps w {#permit#} {#} s ?s1"
    using sync_permits_insert [OF assms] ok
    by (cases "cu_algo r") (simp_all add: keeps_def all_permits_def free_permits_def sync_permits_def
        syncs_ok_def requests_ok_def max_depth_def chains_ok_def)
  moreover have "quiet w ?s1 (send_catch_up w t r permit h l s)"
  proof -
    let ?ps = "update_last_sync_attempt (w_net w) (c_instant t) ?p ?a (sv_peer_store s)"
    have "peer_step (w_net w) (sv_peer_store ?s1) ?ps"
      using peer_step.sync [of "w_net w" "sv_peer_store s"] by simp
    then have "quiet w ?s1 (?s1\<lparr>sv_peer_store := ?ps\<rparr>)" by (rule quiet_store) simp
    then show ?thesis
      by (simp add: send_catch_up_def Let_def quiet_def sync_view_def act_def)
  qed
  ultimately show ?thesis by (rule keeps_quiet_trans)
qed

lemma keeps_perform: "keeps w (permit_mset (cu_permit r)) {#} s (fst (perform_catch_up_sync w t r s))"
proof -
  let ?a = "cu_algo r"
  let ?s1 = "s\<lparr>sv_last_sync_requested_block := (sv_last_sync_requested_block s)(?a := None)\<rparr>"
  have K: "keeps w P P s ?s1" for P by (rule quiet_keeps) simp
  have F: "keeps w P P s (s\<lparr>sv_last_failed_peer := f\<rparr>)" for P f by (rule quiet_keeps) simp
  obtain s2 p where acq: "(case cu_permit r of None \<Rightarrow> try_acquire ?a ?s1 | Some p \<Rightarrow> (?s1, Some p)) = (s2, p)" by force
  have A: "keeps w (permit_mset (cu_permit r)) (permit_mset p) s s2"
    using acq keeps_trans [OF K [of "{#}"] keeps_try_acquire] K by (cases "cu_permit r") auto
  have same: "sv_in_progress_syncs s2 = sv_in_progress_syncs s"
    using acq by (auto simp: try_acquire_def split: option.splits nat.splits)
  have D: "keeps w (permit_mset (cu_permit r)) {#} s (drop_permit (Some q) s2)" if "p = Some q" for q
    using keeps_drop_after [OF A] that by simp
  have S: "keeps w (permit_mset (cu_permit r)) {#} s (send_catch_up w t r q h l s2)"
    if "p = Some q" "\<not> hm_contains (sv_in_progress_syncs s ?a) (cu_peer r)" for q h l
    using keeps_trans [OF A] keeps_send_catch_up [of s2 r w q t h l] that same by simp
  show ?thesis
    unfolding perform_catch_up_sync_def Let_def acq
    using A S D
    by (auto intro!: keeps_drop keeps_drop_after K F split: option.splits outcome.splits)
qed

section \<open>Rounds and steps\<close>

lemma keeps_add_synced_block: "keeps w {#} {#} s (fst (add_synced_block w t a b p d s))"
proof -
  obtain s1 r where add: "sv_add_synced_blocks w t a [b] s = (s1, r)" by force
  note k = keeps_add_synced [OF add]
  have after: "keeps w {#} {#} s1 (fst (after_synced_block w t a p d res s1))" for res
  proof -
    let ?r = "DoSyncMissingBlocks \<lparr>sm_algo = a, sm_peer = p, sm_missing_parents = into_missing_parents_vec res,
                       sm_is_from_new_block_notify = False, sm_depth = d + 1\<rparr>"
    let ?s2 = "if into_missing_parents_vec res \<noteq> [] \<and> d < max_missing_blocks_sync_depth (sv_config s1)
      then send_inner ?r s1 else s1"
    have s2: "keeps w {#} {#} s1 ?s2" by (simp add: keeps_send_plain max_depth_def)
    show ?thesis
      unfolding after_synced_block_def Let_def
      by (rule bindS_preserves [of "keeps w {#} {#} s1"])
        (auto simp: s2 [simplified] intro!: keeps_quiet_trans [OF s2] split: prod.splits)
  qed
  have "keeps w {#} {#} s (blacklist_peer w p reason s1)" for reason
    by (rule keeps_quiet_trans [OF k]) (simp add: quiet_black)
  then show ?thesis
    using keeps_trans [OF k after] k
    by (auto simp: add_synced_block_def add split: outcome.split)
qed

lemma keeps_inner: "keeps w (request_permits r) {#} s (fst (handle_inner_request w t r s))"
  by (cases r) (simp_all add: keeps_sync_missing_blocks keeps_perform keeps_add_synced_block)

lemma keeps_receive: "keeps w {#} {#} s (fst (receive_inner w t s))"
proof (cases "sv_inner_requests s")
  case (Cons r rs)
  have "keeps w {#} (request_permits r) s (s\<lparr>sv_inner_requests := rs\<rparr>)"
    by (auto simp: keeps_def all_permits_def free_permits_def sync_permits_def syncs_ok_def
        requests_ok_def max_depth_def chains_ok_def Cons)
  from keeps_trans [OF this keeps_inner] show ?thesis by (simp add: receive_inner_def Cons)
qed (simp add: receive_inner_def)

lemma keeps_grey_unless:
  "keeps w P Q s s' \<Longrightarrow> keeps w P Q s (fst (grey_list_unless_closed w sf x p e s'))"
  unfolding grey_list_unless_closed_def by (auto intro: keeps_quiet_trans quiet_grey)

lemma keeps_event:
  assumes "syncs_ok s"
  shows "keeps w {#} {#} s (fst (handle_event w sf t ev s))"
proof (cases ev)
  case (GossipMessage m i p)
  have "keeps w {#} {#} s (fst (bindS (handle_new_gossipsub_message w t m p s)
      (\<lambda>s res. (act (ReportValidation i p res) s, Ok () :: (unit, unit) outcome))))"
    using keeps_gossip by (intro bindS_preserves [of "keeps w {#} {#} s"]) (auto intro: keeps_quiet_trans)
  then show ?thesis using GossipMessage by (simp add: handle_event_def)
next
  case (OutgoingConnectionError p tr err)
  then show ?thesis by (auto simp: handle_event_def intro!: quiet_keeps quiet_grey)
next
  case (SyncOutboundFailure p err i)
  then show ?thesis by (auto simp: handle_event_def intro!: keeps_grey_unless keeps_forget_depth)
next
  case (CatchUpOutboundFailure p err i)
  have rx: "keeps w {#} {#} s (fail_sync RandomX p i s)" using keeps_fail_sync [OF assms] .
  then have "syncs_ok (fail_sync RandomX p i s)" using assms by (simp add: keeps_def)
  then have "keeps w {#} {#} s (fail_sync Sha3x p i (fail_sync RandomX p i s))"
    using keeps_trans [OF rx keeps_fail_sync] by blast
  then show ?thesis using CatchUpOutboundFailure by (auto simp: handle_event_def intro!: keeps_grey_unless)
next
  case (MdnsDiscovered ps)
  then show ?thesis by (auto simp: handle_event_def intro!: quiet_keeps quiet_fold)
next
  case (MdnsExpired ps)
  then show ?thesis by (auto simp: handle_event_def intro!: quiet_keeps quiet_fold)
next
  case (PingEvent p)
  have "quiet w s (on_peers (set_last_ping (w_net w) p (c_now t)) s)"
    by (rule quiet_on_peers) (auto intro: peer_step.ping)
  then show ?thesis using PingEvent by (simp add: handle_event_def quiet_keeps)
qed (auto simp: handle_event_def assms keeps_meta_data_response keeps_sync_response
    keeps_catch_up_response_received quiet_handlers intro!: quiet_keeps split: sum.splits)

lemma keeps_round:
  assumes "syncs_ok s"
  shows "keeps w {#} {#} s (fst (main_loop_round w sf t inp s))"
proof (cases inp)
  case ClearGreyListTick
  have "quiet w s (on_peers clear_grey_list s)" by (rule quiet_on_peers) (auto intro: peer_step.clear_grey)
  then show ?thesis using ClearGreyListTick by (simp add: main_loop_round_def quiet_keeps)
next
  case ClearBlackListTick
  have "quiet w s (on_peers clear_black_list s)" by (rule quiet_on_peers) (auto intro: peer_step.clear_black)
  then show ?thesis using ClearBlackListTick by (simp add: main_loop_round_def quiet_keeps)
qed (auto simp: main_loop_round_def assms keeps_receive keeps_event quiet_handlers intro!: quiet_keeps)

lemma net_step_keeps:
  assumes "net_step w sf s s'" and "syncs_ok s" and "requests_ok s"
  shows "keeps w {#} {#} s s'"
  using assms(1)
proof cases
  case (round t inp)
  then show ?thesis using keeps_round [OF assms(2), of w sf t inp] by simp
next
  case (task i)
  then show ?thesis using keeps_task_step assms(3) by simp
next
  case (swarm_changes ext conn num counters)
  then show ?thesis by (simp add: quiet_keeps)
next
  case (block_submitted a now now' b)
  then show ?thesis
    by (simp add: submit_block_chain settings_submit keeps_def all_permits_def free_permits_def sync_permits_def syncs_ok_def
        requests_ok_def max_depth_def chains_ok_def)
next
  case (shares_generated a b solo)
  then show ?thesis
    by (simp add: generate_shares_chain settings_generate keeps_def all_permits_def free_permits_def sync_permits_def syncs_ok_def
        requests_ok_def max_depth_def chains_ok_def)
next
  case silence_over
  then show ?thesis by (simp add: quiet_keeps)
qed

lemma net_steps_keep:
  "(net_step w sf)\<^sup>*\<^sup>* s s' \<Longrightarrow> syncs_ok s \<Longrightarrow> requests_ok s \<Longrightarrow> keeps w {#} {#} s s'"
proof (induction rule: rtranclp_induct)
  case (step u v)
  then have "keeps w {#} {#} s u" by simp
  moreover from this step.prems have "syncs_ok u" "requests_ok u" by (simp_all add: keeps_def)
  ultimately show ?case using net_step_keeps [OF step.hyps(2)] keeps_trans by blast
qed simp

end
