(* ===== verification/NetCorrect.thy ===== *)
theory NetCorrect
  imports NetRounds
begin

text \<open>
  What holds in every run of the peer-to-peer service, whatever its peers send: the permits
  that limit the catch-up syncs are conserved, requests for missing blocks stay within the
  depth, no block of a peer is taken for checked, the chains and the peer store stay
  well-formed. Then what becomes of a peer that sends an invalid block, which gossip reaches
  the chain, that the queue of inner requests empties, and how many peers are dialled.
\<close>

section \<open>Runs from the start\<close>

interpretation peer_run: run_invariant "peer_step n" "peers_ok n" for n
  by unfold_locales (rule peers_ok_step)

interpretation reach_run: run_invariant "peer_step n" "peer_reachable n squad" for n squad
  by unfold_locales (rule peer_reachable.step)

definition service_inv :: "'l world \<Rightarrow> p2p_config \<Rightarrow> string \<Rightarrow> permit multiset \<Rightarrow> 'l service \<Rightarrow> bool" where
  "service_inv w config squad C s \<longleftrightarrow> syncs_ok s \<and> requests_ok s \<and> chains_ok s \<and> sv_config s = config
     \<and> all_permits s = C \<and> peer_reachable (w_net w) squad (sv_peer_store s)"

interpretation net_run: run_invariant "net_step w sf" "service_inv w config squad C" for w sf config squad C
proof
  fix s s' :: "'a service"
  assume step: "net_step w sf s s'" and inv: "service_inv w config squad C s"
  then have "keeps w {#} {#} s s'" by (simp add: net_step_keeps service_inv_def)
  then show "service_inv w config squad C s'"
    using inv reach_run.run_kept unfolding keeps_def service_inv_def by auto
qed

definition permits_of_start :: "p2p_config \<Rightarrow> permit multiset" where
  "permits_of_start config = replicate_mset (num_concurrent_syncs config) (Permit RandomX)
     + replicate_mset (num_concurrent_syncs config) (Permit Sha3x)"

lemma service_new_inv:
  assumes "service_new config share_chains synced share_window swarm squad = Ok s"
    and "\<And>a. chain_wf (sc_p2_chain (share_chains a))"
  shows "service_inv w config squad (permits_of_start config) s"
  using assms
  by (auto simp: service_new_def service_inv_def syncs_ok_def requests_ok_def chains_ok_def all_permits_def
      free_permits_def sync_permits_def permits_of_start_def intro: peer_reachable.start split: if_splits)

definition service_reachable ::
    "'l world \<Rightarrow> (outbound_failure \<Rightarrow> string) \<Rightarrow> p2p_config \<Rightarrow> (pow_algorithm \<Rightarrow> 'l share_chain) \<Rightarrow> string
     \<Rightarrow> 'l service \<Rightarrow> bool" where
  "service_reachable w sf config share_chains squad s \<longleftrightarrow>
     (\<exists>synced share_window swarm s0.
        service_new config share_chains synced share_window swarm squad = Ok s0 \<and> (net_step w sf)\<^sup>*\<^sup>* s0 s)"

lemma reachable_inv:
  assumes "service_reachable w sf config share_chains squad s"
    and "\<And>a. chain_wf (sc_p2_chain (share_chains a))"
  shows "service_inv w config squad (permits_of_start config) s"
  using assms net_run.run_kept service_new_inv unfolding service_reachable_def by blast

section \<open>Permits\<close>

lemma size_permits: "size (sync_permits s a) = length (sv_in_progress_syncs s a)"
  by (simp add: sync_permits_def)

text \<open>C19: In every reachable state of the peer-to-peer service, whatever peers send and in
  whatever order rounds and tasks interleave, the permits of each algorithm (free, in a
  running sync, in a queued request or in a task) are as many as configured: none is lost or
  duplicated, at most twice the configured number of syncs run, and all are free again when
  nothing is running or queued.\<close>

theorem sync_permits_conserved:
  assumes "service_reachable w sf config share_chains squad s"
    and "\<And>a. chain_wf (sc_p2_chain (share_chains a))"
  shows "(\<forall>a. count (all_permits s) (Permit a) = num_concurrent_syncs config)
    \<and> length (sv_in_progress_syncs s RandomX) + length (sv_in_progress_syncs s Sha3x)
        \<le> 2 * num_concurrent_syncs config
    \<and> (sv_in_progress_syncs s RandomX = [] \<and> sv_in_progress_syncs s Sha3x = []
         \<and> sv_inner_requests s = [] \<and> sv_tasks s = []
       \<longrightarrow> (\<forall>a. sv_available_permits s a = num_concurrent_syncs config))"
proof (intro conjI impI allI)
  have inv: "all_permits s = permits_of_start config"
    using reachable_inv [OF assms] by (simp add: service_inv_def)
  show "count (all_permits s) (Permit a) = num_concurrent_syncs config" for a
    unfolding inv permits_of_start_def by (cases a) simp_all
  have "size (all_permits s) = 2 * num_concurrent_syncs config"
    unfolding inv permits_of_start_def by simp
  then show "length (sv_in_progress_syncs s RandomX) + length (sv_in_progress_syncs s Sha3x)
        \<le> 2 * num_concurrent_syncs config"
    by (simp add: all_permits_def size_permits)
  fix a
  assume "sv_in_progress_syncs s RandomX = [] \<and> sv_in_progress_syncs s Sha3x = []
         \<and> sv_inner_requests s = [] \<and> sv_tasks s = []"
  then have "all_permits s = free_permits s" by (simp add: all_permits_def sync_permits_def)
  then have "count (free_permits s) (Permit a) = count (permits_of_start config) (Permit a)" using inv by simp
  then show "sv_available_permits s a = num_concurrent_syncs config"
    by (cases a) (simp_all add: free_permits_def permits_of_start_def)
qed

section \<open>Requests for missing blocks\<close>

text \<open>C23: In every reachable state the depth of each outstanding and each queued request for
  missing blocks is at most the configured one, and every block queued for addition carries no
  verified flag of its sender.\<close>

theorem missing_block_requests_bounded:
  assumes "service_reachable w sf config share_chains squad s"
    and "\<And>a. chain_wf (sc_p2_chain (share_chains a))"
  shows "(\<forall>i d. hm_get (sv_missing_blocks_sync_request_depth s) i = Some d
            \<longrightarrow> d \<le> max_missing_blocks_sync_depth config)
    \<and> (\<forall>r. DoSyncMissingBlocks r \<in> set (sv_inner_requests s) \<longrightarrow> sm_depth r \<le> max_missing_blocks_sync_depth config)
    \<and> (\<forall>a b p d. AddSyncedBlock a b p d \<in> set (sv_inner_requests s)
          \<longrightarrow> d \<le> max_missing_blocks_sync_depth config \<and> \<not> is_verified (b_verified b)
              \<and> b_verified b = vs_new)"
proof -
  have "requests_ok s" "max_depth s = max_missing_blocks_sync_depth config"
    using reachable_inv [OF assms] by (auto simp: service_inv_def max_depth_def)
  moreover have "\<not> is_verified vs_new" by code_simp
  ultimately show ?thesis
    by (fastforce simp: requests_ok_def dest: map_of_SomeD)
qed


section \<open>A peer that misbehaves\<close>

definition known_peer :: "net_ext \<Rightarrow> peer_store \<Rightarrow> peer_id \<Rightarrow> bool" where
  "known_peer n ps p \<longleftrightarrow> hm_contains (whitelist_peers ps) (peer_to_base58 n p)
     \<or> hm_contains (greylist_peers ps) (peer_to_base58 n p)"

lemma move_to_blacklist_blacklists:
  "known_peer n ps p \<Longrightarrow> is_blacklisted n (move_to_blacklist n p reason ps) p"
  by (auto simp: known_peer_def hm_contains_def blacklisted_iff move_to_blacklist_def Let_def split: option.splits)

lemma move_to_blacklist_other:
  assumes "peer_to_base58 n q \<noteq> peer_to_base58 n p"
  shows "peer_get n (move_to_blacklist n p reason ps) q = peer_get n ps q"
    and "is_blacklisted n (move_to_blacklist n p reason ps) q = is_blacklisted n ps q"
  using assms by (simp_all add: peer_get_def blacklisted_iff move_to_blacklist_def Let_def split: option.split)

lemma blacklist_peer_simps [simp]:
  "sv_peer_store (blacklist_peer w p reason s) = move_to_blacklist (w_net w) p reason (sv_peer_store s)"
  "sw_actions (sv_swarm (blacklist_peer w p reason s)) = sw_actions (sv_swarm s) @ [DisconnectPeer p]"
  "sv_share_chain (blacklist_peer w p reason s) = sv_share_chain s"
  by (simp_all add: blacklist_peer_def on_peers_def act_def)

lemma sv_add_synced_simps:
  assumes "sv_add_synced_blocks w t a bs s = (s', r)"
  shows "sv_peer_store s' = sv_peer_store s" "sv_swarm s' = sv_swarm s"
    "sv_inner_requests s' = sv_inner_requests s" "sv_config s' = sv_config s"
    "a' \<noteq> a \<Longrightarrow> sv_share_chain s' a' = sv_share_chain s a'"
    "(sv_share_chain s' a, r) =
       add_synced_blocks (w_ext w) (log_info w) (c_now t) (c_now' t) (sv_share_chain s a) bs"
  using assms by (auto simp: sv_add_synced_blocks_def split: prod.splits)

lemma blacklisted_is_ignored:
  assumes "is_blacklisted (w_net w) (sv_peer_store s) p"
  shows "add_synced_block w t a b p d s = (s, Ok ())"
    and "cu_peer r = p \<Longrightarrow> perform_catch_up_sync w t r s = (drop_permit (cu_permit r) s, Ok ())"
    and "connection_established w t p dialer s = act (DisconnectPeer p) s"
  using assms by (simp_all add: add_synced_block_def perform_catch_up_sync_def connection_established_def)


text \<open>A catch-up answer without blocks blacklists and disconnects the peer that the answer
  names, and leaves the peer that sent the answer as it was.\<close>

theorem answer_blames_named_peer:
  fixes r q v i t sf
  assumes "csr_version r = PROTOCOL_VERSION" and "csr_blocks r = []" and "csr_peer_id r = v"
    and "known_peer (w_net w) (sv_peer_store s) v"
    and "peer_to_base58 (w_net w) q \<noteq> peer_to_base58 (w_net w) v"
  defines "s' \<equiv> fst (handle_event w sf t (CatchUpResponseReceived q i (Inr r)) s)"
  shows "is_blacklisted (w_net w) (sv_peer_store s') v
    \<and> DisconnectPeer v \<in> set (sw_actions (sv_swarm s'))
    \<and> peer_get (w_net w) (sv_peer_store s') q = peer_get (w_net w) (sv_peer_store s) q
    \<and> is_blacklisted (w_net w) (sv_peer_store s') q = is_blacklisted (w_net w) (sv_peer_store s) q"
proof -
  obtain s1 p where rel: "release_catchup_sync_permit i s = (s1, p)" by force
  have s1: "sv_peer_store s1 = sv_peer_store s" "sv_swarm s1 = sv_swarm s"
    using rel by (auto simp: release_catchup_sync_permit_def release_from_def split: option.splits prod.splits)
  have drop: "sv_swarm (drop_permit p u) = sv_swarm u" for u :: "'a service"
    by (simp add: drop_permit_def split: option.split permit.split)
  show ?thesis
    using assms(1-5) move_to_blacklist_other [OF assms(5)]
    by (simp add: s'_def handle_event_def catch_up_response_received_def rel handle_catch_up_sync_response_def
        catch_up_into_blocks_def reset_verified_def Let_def drop s1 move_to_blacklist_blacklists)
qed

section \<open>Gossip\<close>

lemma chain_unchanged [simp]:
  "sv_share_chain (act a s) = sv_share_chain s" "sv_share_chain (send_inner r s) = sv_share_chain s"
  by (simp_all add: act_def send_inner_def)

lemma quiet_chain: "quiet w s s' \<Longrightarrow> sv_share_chain s' = sv_share_chain s"
  by (simp add: quiet_def sync_view_def)

lemma add_peer_chain [simp]: "sv_share_chain (fst (add_peer w t i p s)) = sv_share_chain s"
  by (rule quiet_chain [OF quiet_add_peer [OF quiet_refl]])

lemma grey_list_chain [simp]: "sv_share_chain (fst (grey_list_peer w p reason s)) = sv_share_chain s"
  by (rule quiet_chain [OF quiet_grey [OF quiet_refl]])

text \<open>C27: A gossip message changes a share chain only if it is a block notification of the right
  version, not older than a minute, of an enabled algorithm, with blocks at most ten above our
  tip, and either claiming as much work as we have or reaching above four below our tip.\<close>

theorem gossip_admits_recent_near_blocks:
  assumes "handle_new_gossipsub_message w t m src s = (s', r)"
    and "sv_share_chain s' \<noteq> sv_share_chain s"
  shows "\<exists>q. decode_notify w (gm_data m) = Inr q \<and> nt_version q = PROTOCOL_VERSION
    \<and> sat_sub (c_now t) 60 \<le> nt_timestamp q \<and> algo_enabled (sv_config s) (notify_algo q)
    \<and> nt_new_blocks q \<noteq> []
    \<and> max_block_height (nt_new_blocks q) \<le> sat_add (tip_height (sv_share_chain s (notify_algo q))) 10
    \<and> (chain_pow (w_ext w) (sv_share_chain s (notify_algo q)) \<le> total_proof_of_work (w_ext w) q
       \<or> sat_sub (tip_height (sv_share_chain s (notify_algo q))) 4 < max_block_height (nt_new_blocks q))
    \<and> sv_share_chain s' = (sv_share_chain s)(notify_algo q :=
        fst (add_synced_blocks (w_ext w) (log_info w) (c_now t) (c_now' t) (sv_share_chain s (notify_algo q))
               (reset_verified (nt_new_blocks q))))"
proof -
  have grey: "sv_share_chain (fst (bindS (grey_list_peer w x reason u) (\<lambda>s _. (s, Ok y)))) = sv_share_chain u"
    for x reason u and y :: acceptance
    by (intro bindS_preserves [of "\<lambda>v. sv_share_chain v = sv_share_chain u"]) auto
  have info: "sv_share_chain (fst (gossip_peer_info w t x d s)) = sv_share_chain s" for x d
    by (simp add: gossip_peer_info_def split: sum.splits)
  have new: "sv_share_chain (fst (gossip_new_blocks w t src q s)) = (sv_share_chain s)(notify_algo q :=
      fst (add_synced_blocks (w_ext w) (log_info w) (c_now t) (c_now' t) (sv_share_chain s (notify_algo q))
               (reset_verified (nt_new_blocks q))))" for q
  proof -
    obtain s1 x where add: "sv_add_synced_blocks w t (notify_algo q) (reset_verified (nt_new_blocks q)) s = (s1, x)"
      by force
    then have "sv_share_chain s1 = (sv_share_chain s)(notify_algo q :=
      fst (add_synced_blocks (w_ext w) (log_info w) (c_now t) (c_now' t) (sv_share_chain s (notify_algo q))
               (reset_verified (nt_new_blocks q))))"
      by (auto simp: sv_add_synced_blocks_def split: prod.splits)
    then show ?thesis
      using grey by (cases x) (simp_all add: gossip_new_blocks_def Let_def add)
  qed
  have ne: "fst (handle_new_gossipsub_message w t m src s) = s'" using assms(1) by simp
  obtain q where q: "decode_notify w (gm_data m) = Inr q" and b: "fst (gossip_block w t src q s) = s'"
    using ne assms(2) info grey
    by (auto simp: handle_new_gossipsub_message_def simp del: list.set split: option.splits sum.splits if_splits prod.splits;
        metis fst_conv)
  show ?thesis
    using q b assms(2) new
    by (intro exI [of _ q])
      (auto simp: gossip_block_def not_better_def Let_def not_less not_le split: if_splits)
qed

section \<open>The queue of inner requests empties\<close>

fun request_weight :: "inner_request \<Rightarrow> nat" where
  "request_weight (AddSyncedBlock a b p d) = 2"
| "request_weight (DoSyncMissingBlocks r) = 1"
| "request_weight (PerformCatchUpSync r) = 1"

definition queue_weight :: "'l service \<Rightarrow> nat" where
  "queue_weight s = (\<Sum>r\<leftarrow>sv_inner_requests s. request_weight r)"

text \<open>The rounds that take a request from the queue, one clock for each.\<close>

fun drain :: "'l world \<Rightarrow> clock list \<Rightarrow> 'l service \<Rightarrow> 'l service \<times> (unit, unit) outcome" where
  "drain w [] s = (s, Ok ())"
| "drain w (t # ts) s = bindS (receive_inner w t s) (\<lambda>s _. drain w ts s)"

lemma inner_unchanged [simp]:
  "sv_inner_requests (act ac s) = sv_inner_requests s"
  "sv_inner_requests (drop_permit pm s) = sv_inner_requests s"
  "sv_inner_requests (on_peers f s) = sv_inner_requests s"
  "sv_inner_requests (blacklist_peer w p x s) = sv_inner_requests s"
  "sv_inner_requests (send_catch_up w t r permit h l s) = sv_inner_requests s"
  "sv_inner_requests (send_sync_request w a ms d p s) = sv_inner_requests s"
  by (simp_all add: act_def drop_permit_def on_peers_def blacklist_peer_def send_catch_up_def
      send_sync_request_def Let_def split: option.split permit.split)

lemma inner_send_requests [simp]:
  "sv_inner_requests (fold (send_sync_request w a ms d) ps s) = sv_inner_requests s"
  by (induction ps arbitrary: s) simp_all

lemma inner_acquire: "try_acquire a s = (s', p) \<Longrightarrow> sv_inner_requests s' = sv_inner_requests s"
  by (auto simp: try_acquire_def split: nat.splits)

lemma inner_perform: "sv_inner_requests (fst (perform_catch_up_sync w t r s)) = sv_inner_requests s"
proof -
  let ?s1 = "s\<lparr>sv_last_sync_requested_block := (sv_last_sync_requested_block s)(cu_algo r := None)\<rparr>"
  obtain s2 p where acq: "(case cu_permit r of None \<Rightarrow> try_acquire (cu_algo r) ?s1 | Some p \<Rightarrow> (?s1, Some p)) = (s2, p)"
    by force
  then have "sv_inner_requests s2 = sv_inner_requests s"
    by (auto dest: inner_acquire split: option.splits)
  then show ?thesis
    by (auto simp: perform_catch_up_sync_def Let_def acq split: option.splits outcome.splits)
qed

lemma inner_missing: "sv_inner_requests (fst (sync_missing_blocks w r s)) = sv_inner_requests s"
  by (simp add: sync_missing_blocks_def Let_def)

lemma inner_added:
  "queue_weight (fst (add_synced_block w t a b p d s)) \<le> queue_weight s + 1"
proof -
  obtain s1 r where add: "sv_add_synced_blocks w t a [b] s = (s1, r)" by force
  have "queue_weight (fst (after_synced_block w t a p d res s1)) \<le> queue_weight s1 + 1" for res
    by (auto simp: after_synced_block_def Let_def queue_weight_def send_inner_def split: prod.splits
        intro!: bindS_preserves [of "\<lambda>u. (\<Sum>r\<leftarrow>sv_inner_requests u. request_weight r)
          \<le> Suc (\<Sum>r\<leftarrow>sv_inner_requests s1. request_weight r)"])
  then show ?thesis
    using sv_add_synced_simps(3) [OF add]
    by (auto simp: add_synced_block_def add queue_weight_def split: outcome.split)
qed

lemma receive_lighter:
  "sv_inner_requests s \<noteq> [] \<Longrightarrow> queue_weight (fst (receive_inner w t s)) < queue_weight s"
proof -
  assume "sv_inner_requests s \<noteq> []"
  then obtain r rs where q: "sv_inner_requests s = r # rs" by (cases "sv_inner_requests s") auto
  let ?s = "s\<lparr>sv_inner_requests := rs\<rparr>"
  have "queue_weight (fst (handle_inner_request w t r ?s)) < request_weight r + queue_weight ?s"
    using inner_added [of w t _ _ _ _ ?s]
    by (cases r) (auto simp: queue_weight_def inner_perform inner_missing less_Suc_eq_le)
  then show ?thesis by (simp add: receive_inner_def q queue_weight_def)
qed

text \<open>A round on the queue ends well or panics.\<close>

definition ends :: "('e, 'a) outcome \<Rightarrow> bool" where
  "ends r \<longleftrightarrow> (\<exists>x. r = Ok x) \<or> r = Panic"

lemma ends_simps [simp]: "ends (Ok x)" "ends Panic" "\<not> ends (Err e)" "\<not> ends Diverge"
  by (simp_all add: ends_def)

lemma ends_bindO: "ends m \<Longrightarrow> (\<And>x. m = Ok x \<Longrightarrow> ends (f x)) \<Longrightarrow> ends (bindO m f)"
  by (cases m) auto

lemma ends_bindS: "ends (snd m) \<Longrightarrow> (\<And>s x. m = (s, Ok x) \<Longrightarrow> ends (snd (f s x))) \<Longrightarrow> ends (snd (bindS m f))"
  by (cases "(m, f)" rule: bindS.cases) auto

lemma ends_sub_chk [simp]: "ends (sub_chk a b)"
  by (simp add: sub_chk_def unwrap_def split: option.split)

lemma ends_max_height: "ends (max_height_loop a now rs best)"
proof (induction rs arbitrary: best)
  case (Cons r rs)
  have IH: "ends (max_height_loop a now rs b)" for b by (rule Cons.IH)
  then show ?case
    unfolding max_height_loop.simps Let_def
    by (cases a; cases best) (auto intro!: ends_bindO split: option.split)
qed simp

lemma ends_catch_up_state: "ends (catch_up_state l p c)"
proof -
  have "ends (replace_older ch h k i hs)" for ch h k i hs
  proof (induction ch h k i hs rule: replace_older.induct)
    case (1 ch h k i hs)
    then show ?case by (subst replace_older.simps) (auto simp: Let_def split: option.splits)
  qed
  then show ?thesis
    by (auto simp: catch_up_state_def create_catchup_sync_blocks_def Let_def intro!: ends_bindO split: option.splits)
qed

lemma ends_inner:
  assumes "chains_ok s"
  shows "ends (snd (handle_inner_request w t r s))"
proof (cases r)
  case (DoSyncMissingBlocks q)
  then show ?thesis by (simp add: sync_missing_blocks_def Let_def)
next
  case (PerformCatchUpSync q)
  let ?s1 = "s\<lparr>sv_last_sync_requested_block := (sv_last_sync_requested_block s)(cu_algo q := None)\<rparr>"
  obtain s2 p where acq: "(case cu_permit q of None \<Rightarrow> try_acquire (cu_algo q) ?s1 | Some p \<Rightarrow> (?s1, Some p)) = (s2, p)"
    by force
  obtain l where l: "ends l" "l = catch_up_state (cu_last_block_from_them q)
      (sv_last_sync_requested_block s (cu_algo q)) (sv_share_chain s2 (cu_algo q))"
    using ends_catch_up_state by blast
  show ?thesis
    using l(1) PerformCatchUpSync
    by (auto simp: perform_catch_up_sync_def Let_def acq l(2) split: option.split outcome.split)
next
  case (AddSyncedBlock a b p d)
  obtain s1 x where add: "sv_add_synced_blocks w t a [b] s = (s1, x)" by force
  have "x \<noteq> Diverge"
    using sv_add_synced_simps(6) [OF add] add_synced_blocks_returns [of "sv_share_chain s a"] assms
    unfolding chains_ok_def by (metis snd_conv)
  moreover have "ends (snd (after_synced_block w t a p d res s1))" for res
    by (auto simp: after_synced_block_def Let_def max_known_network_height_def ends_max_height
        intro!: ends_bindS split: prod.splits)
  ultimately show ?thesis
    using AddSyncedBlock by (cases x) (auto simp: add_synced_block_def add)
qed

text \<open>C28: Handling the queued inner requests empties the queue, without new events, after at most
  as many requests as the queue weighs (a block weighs by the rounds of missing blocks it may
  still cause), unless a handler panics, and keeps the share chains well-formed.\<close>

theorem inner_requests_drain:
  assumes "chains_ok s" and "queue_weight s \<le> length ts" and "drain w ts s = (s', r)"
  shows "(r = Ok () \<and> sv_inner_requests s' = [] \<or> r = Panic) \<and> chains_ok s'"
  using assms
proof (induction ts arbitrary: s)
  case Nil
  then have "sv_inner_requests s = []"
    by (cases "sv_inner_requests s"; cases "hd (sv_inner_requests s)") (auto simp: queue_weight_def)
  then show ?case using Nil by simp
next
  case (Cons t ts)
  obtain s1 x where rec: "receive_inner w t s = (s1, x)" by force
  have c: "chains_ok s1"
    using keeps_receive [of w s t] Cons.prems(1) rec by (simp add: keeps_def)
  have "ends x"
    using rec Cons.prems(1) ends_inner [of "s\<lparr>sv_inner_requests := rs\<rparr>" for rs]
    by (auto simp: receive_inner_def chains_ok_def split: list.splits) (metis snd_conv)+
  then consider (ok) "x = Ok ()" | (panic) "x = Panic" by (auto simp: ends_def)
  then show ?case
  proof cases
    case ok
    have "queue_weight s1 \<le> length ts"
    proof (cases "sv_inner_requests s")
      case Nil
      then show ?thesis using rec by (simp add: receive_inner_def queue_weight_def)
    next
      case (Cons q qs)
      then show ?thesis using receive_lighter [of s w t] rec Cons.prems \<open>queue_weight s \<le> length (t # ts)\<close> by simp
    qed
    then show ?thesis using Cons.IH [OF c] Cons.prems(3) rec ok by simp
  next
    case panic
    then show ?thesis using Cons.prems(3) rec c by simp
  qed
qed

section \<open>Opening and closing connections\<close>

definition good_dial :: "'l world \<Rightarrow> 'l service \<Rightarrow> action \<Rightarrow> bool" where
  "good_dial w s x \<longleftrightarrow> (\<exists>p as. x = DialPeer p as \<and> p \<notin> set (connected_peers s)
     \<and> \<not> is_seed_peer (sv_peer_store s) p \<and> (\<forall>a\<in>set as. \<not> is_localhost_or_private w a))"

definition dials :: "'l world \<Rightarrow> nat \<Rightarrow> 'l service \<Rightarrow> 'l service \<Rightarrow> bool" where
  "dials w m s s' \<longleftrightarrow> (\<exists>ds. sw_actions (sv_swarm s') = sw_actions (sv_swarm s) @ ds
     \<and> length ds \<le> m \<and> (\<forall>x\<in>set ds. good_dial w s x))
   \<and> connected_peers s' = connected_peers s
   \<and> seed_peers (sv_peer_store s') = seed_peers (sv_peer_store s) \<and> sv_config s' = sv_config s"

lemma dials_refl [simp]: "dials w m s s"
  by (simp add: dials_def)

lemma dials_trans:
  assumes "dials w m s s'" and "dials w k s' s''" shows "dials w (m + k) s s''"
proof -
  from assms(1) obtain d1 where d1: "sw_actions (sv_swarm s') = sw_actions (sv_swarm s) @ d1"
    "length d1 \<le> m" "\<forall>x\<in>set d1. good_dial w s x" by (auto simp: dials_def)
  from assms(2) obtain d2 where d2: "sw_actions (sv_swarm s'') = sw_actions (sv_swarm s') @ d2"
    "length d2 \<le> k" "\<forall>x\<in>set d2. good_dial w s' x" by (auto simp: dials_def)
  have "good_dial w s' = good_dial w s"
    using assms(1) by (simp add: fun_eq_iff good_dial_def is_seed_peer_def dials_def)
  then have "\<exists>ds. sw_actions (sv_swarm s'') = sw_actions (sv_swarm s) @ ds \<and> length ds \<le> m + k
      \<and> (\<forall>x\<in>set ds. good_dial w s x)"
    using d1 d2 by (intro exI [of _ "d1 @ d2"]) auto
  then show ?thesis using assms by (simp add: dials_def)
qed

lemma dial_records_bounded:
  assumes "\<And>n. m \<le> n \<Longrightarrow> stop n" and "k < m"
  shows "dials w (m - k) s (dial_records w t stop rs k s)"
  using assms(2)
proof (induction rs arbitrary: k s)
  case (Cons r rs)
  let ?p = "pr_peer_id r"
  let ?a = "DialPeer ?p (filter (\<lambda>a. \<not> is_localhost_or_private w a) (public_addresses (w_net w) (pr_peer_info r)))"
  let ?s = "act ?a (on_peers (update_last_dial_attempt (w_net w) (c_instant t) ?p) s)"
  show ?case
  proof (cases "?p \<notin> set (connected_peers s) \<and> \<not> is_seed_peer (sv_peer_store s) ?p")
    case True
    have one: "dials w 1 s ?s"
      using True by (auto simp: dials_def good_dial_def act_def on_peers_def update_last_dial_attempt_def Let_def)
    have dr: "dial_records w t stop (r # rs) k s = (if stop (Suc k) then ?s else dial_records w t stop rs (Suc k) ?s)"
      using True by (simp add: Let_def)
    show ?thesis
    proof (cases "stop (Suc k)")
      case st: True
      have "dials w (1 + (m - Suc k)) s ?s" by (rule dials_trans [OF one]) simp
      moreover have "1 + (m - Suc k) = m - k" using Cons.prems by simp
      ultimately show ?thesis unfolding dr using st by simp
    next
      case False
      then have "Suc k < m" using assms(1) Cons.prems by (meson not_less_eq not_le)
      then have "dials w (1 + (m - Suc k)) s (dial_records w t stop rs (Suc k) ?s)"
        by (intro dials_trans [OF one Cons.IH])
      moreover have "1 + (m - Suc k) = m - k" using Cons.prems by simp
      ultimately show ?thesis unfolding dr using False by simp
    qed
  next
    case False
    then have "dial_records w t stop (r # rs) k s = dial_records w t stop rs k s" by auto
    then show ?thesis using Cons.IH [OF Cons.prems] by metis
  qed
qed simp

text \<open>A round of the connection job only dials: peers that are not connected, are no seed
  peers and have addresses to dial; at most two outside the squad, and at most one more than
  are missing to eight in the squad.\<close>

theorem seek_dials_bounded:
  assumes "seek_split w s = (squad, others)"
  shows "\<exists>ds. sw_actions (sv_swarm (seek_connections w t shuffle s)) = sw_actions (sv_swarm s) @ ds
    \<and> length ds \<le> (if length others < 2 then 2 else 0) + (if length squad < 8 then 9 - length squad else 0)
    \<and> (\<forall>x\<in>set ds. good_dial w s x)"
proof -
  have non: "dials w (if length others < 2 then 2 else 0) s
      (if length others < 2 then dial_records w t (\<lambda>n. 2 \<le> n) rs 0 s else s)" for rs
    using dial_records_bounded [of 2 "\<lambda>n. 2 \<le> n" 0 w s t rs] by simp
  have sq: "dials w (if length squad < 8 then 9 - length squad else 0) u
      (if length squad < 8 then dial_records w t (\<lambda>n. 8 - length squad < n) rs 0 u else u)" for rs u
    using dial_records_bounded [of "9 - length squad" "\<lambda>n. 8 - length squad < n" 0 w u t rs] by auto
  have "dials w ((if length others < 2 then 2 else 0) + (if length squad < 8 then 9 - length squad else 0)) s
      (seek_connections w t shuffle s)"
  proof (cases "cfg_is_seed_peer (sv_config s)")
    case False
    show ?thesis
      unfolding seek_connections_def assms prod.case Let_def MAX_OUTBOUND_SQUAD_PEERS_def
        MAX_OUTBOUND_NON_SQUAD_PEERS_def if_not_P [OF False]
      by (rule dials_trans [OF non sq])
  qed (simp add: seek_connections_def)
  then show ?thesis by (simp add: dials_def)
qed

lemma churn_squad_spec:
  "\<exists>dropped. sw_actions (sv_swarm (snd (churn_squad rs s)))
        = sw_actions (sv_swarm s) @ map (\<lambda>r. DisconnectPeer (pr_peer_id r)) dropped
    \<and> mset rs = mset (fst (churn_squad rs s)) + mset dropped
    \<and> length (fst (churn_squad rs s)) \<le> 6 \<and> (6 < length rs \<longrightarrow> 5 \<le> length (fst (churn_squad rs s)))"
proof (induction rs s rule: churn_squad.induct)
  case (1 rs s)
  show ?case
  proof (cases "6 < length rs")
    case True
    let ?a = "worst_last pi_current_sha3x_pow rs"
    let ?b = "worst_last pi_current_random_x_pow (butlast ?a)"
    let ?s = "act (DisconnectPeer (pr_peer_id (List.last ?b))) (act (DisconnectPeer (pr_peer_id (List.last ?a))) s)"
    have c: "churn_squad rs s = churn_squad (butlast ?b) ?s"
      using True by (subst churn_squad.simps) (simp add: MAX_OUTBOUND_SQUAD_PEERS_def Let_def)
    from "1.IH" [OF _ refl refl refl refl] True obtain ds where ds:
      "sw_actions (sv_swarm (snd (churn_squad (butlast ?b) ?s)))
        = sw_actions (sv_swarm ?s) @ map (\<lambda>r. DisconnectPeer (pr_peer_id r)) ds"
      "mset (butlast ?b) = mset (fst (churn_squad (butlast ?b) ?s)) + mset ds"
      "length (fst (churn_squad (butlast ?b) ?s)) \<le> 6"
      "6 < length (butlast ?b) \<longrightarrow> 5 \<le> length (fst (churn_squad (butlast ?b) ?s))"
      by (auto simp: MAX_OUTBOUND_SQUAD_PEERS_def)
    have split: "mset xs = add_mset (List.last xs) (mset (butlast xs))" if "xs \<noteq> []" for xs :: "peer_store_record list"
      using that by (metis append_butlast_last_id mset_append mset.simps add_mset_add_single)
    have ma: "mset ?a = mset rs" "mset ?b = mset (butlast ?a)" by (simp_all add: worst_last_def)
    have "length ?a = length rs" "length ?b = length rs - 1" by simp_all
    then have ne: "?a \<noteq> []" "?b \<noteq> []" using True by fastforce+
    have len: "6 < length (butlast ?b) \<or> length (butlast ?b) = 5 \<or> length (butlast ?b) = 6"
      using True by auto
    have five: "5 \<le> length (fst (churn_squad (butlast ?b) ?s))"
    proof (cases "6 < length (butlast ?b)")
      case False
      then have "fst (churn_squad (butlast ?b) ?s) = butlast ?b"
        by (subst churn_squad.simps) (simp add: MAX_OUTBOUND_SQUAD_PEERS_def)
      then show ?thesis using len False by auto
    qed (use ds(4) in simp)
    have "mset rs = mset (fst (churn_squad rs s)) + mset (List.last ?a # List.last ?b # ds)"
      using split [OF ne(1)] split [OF ne(2)] ma ds(2) c by simp
    then show ?thesis
      using ds(1,3) five c by (intro exI [of _ "List.last ?a # List.last ?b # ds"]) (simp add: act_def)
  next
    case False
    then have "churn_squad rs s = (rs, s)"
      by (subst churn_squad.simps) (simp add: MAX_OUTBOUND_SQUAD_PEERS_def)
    then show ?thesis using False by simp
  qed
qed

section \<open>Runs that can be computed\<close>

datatype move = Round clock loop_input | Task nat

fun run_moves ::
    "'l world \<Rightarrow> (outbound_failure \<Rightarrow> string) \<Rightarrow> move list \<Rightarrow> 'l service \<Rightarrow> 'l service option" where
  "run_moves w sf [] s = Some s"
| "run_moves w sf (Round t inp # ms) s =
     (case main_loop_round w sf t inp s of
        (s', Ok _) \<Rightarrow> run_moves w sf ms s'
      | _ \<Rightarrow> None)"
| "run_moves w sf (Task i # ms) s =
     (if i < length (sv_tasks s) then run_moves w sf ms (task_step w i s) else None)"

lemma run_moves_steps: "run_moves w sf ms s = Some s' \<Longrightarrow> (net_step w sf)\<^sup>*\<^sup>* s s'"
proof (induction w sf ms s rule: run_moves.induct)
  case (2 w sf t inp ms s)
  then obtain s1 where r: "main_loop_round w sf t inp s = (s1, Ok ())" and m: "run_moves w sf ms s1 = Some s'"
    by (auto split: prod.splits outcome.splits)
  from net_step.round [OF r] "2.IH" [OF r [symmetric] refl m] show ?case
    by (rule converse_rtranclp_into_rtranclp)
next
  case (3 w sf i ms s)
  then have i: "i < length (sv_tasks s)" and m: "run_moves w sf ms (task_step w i s) = Some s'"
    by (auto split: if_splits)
  from net_step.task [OF i] "3.IH" [OF i m] show ?case
    by (rule converse_rtranclp_into_rtranclp)
qed simp

definition demo_world :: "(epoch_time \<times> difficulty) list world" where
  "demo_world = \<lparr>w_ext = demo_ext, w_net = demo_net, multiaddr_protocols = (\<lambda>_. []),
     with_p2p_circuit = (\<lambda>a. a), network_key_str = ''net'', current_chain_id = ''1'',
     decimal = (\<lambda>_. ''37''), decode_peer_info = (\<lambda>_. Inl ''''), hop_protocol_name = ''hop'',
     listen_on_succeeds = (\<lambda>_. True), decode_notify = (\<lambda>_. Inl ''''), show_error = (\<lambda>_. ''''),
     log_info = False\<rparr>"

definition demo_clock :: clock where
  "demo_clock = \<lparr>c_now = 2000, c_now' = 2000, c_instant = 0\<rparr>"

definition demo_swarm :: swarm where
  "demo_swarm = \<lparr>sw_local_peer_id = [9], sw_external_addresses = [], sw_connected_peers = [[1], [2]],
     sw_num_peers = 2, sw_counters = \<lparr>pending_incoming = 0, pending_outgoing = 0,
       established_incoming = 0, established_outgoing = 2\<rparr>,
     sw_next_sync_id = 0, sw_next_catch_up_id = 0, sw_actions = []\<rparr>"

definition demo_chains :: "pow_algorithm \<Rightarrow> (epoch_time \<times> difficulty) list share_chain" where
  "demo_chains = (\<lambda>_. demo_share demo_one)"

definition demo_start :: "(epoch_time \<times> difficulty) list service" where
  "demo_start = (case service_new p2p_config_default demo_chains (\<lambda>_. True) 10 demo_swarm ''squad'' of Ok s \<Rightarrow> s)"

definition demo_info :: "u128 \<Rightarrow> u128 \<Rightarrow> peer_info" where
  "demo_info sha rx = \<lparr>pi_version = 37, pi_peer_id = None, pi_current_sha3x_height = 5,
     pi_current_random_x_height = 5, pi_current_sha3x_pow = sha, pi_current_random_x_pow = rx,
     pi_squad = ''squad'', pi_timestamp = 2000, pi_user_agent = None, pi_user_agent_version = None,
     pi_public_addresses = []\<rparr>"

definition demo_meta :: "peer_id \<Rightarrow> u128 \<Rightarrow> u128 \<Rightarrow> move" where
  "demo_meta p sha rx = Round demo_clock (SwarmEvent (MetaDataResponseReceived (Inr
     \<lparr>mds_peer_id = peer_to_base58 demo_net p, mds_info = demo_info sha rx\<rparr>)))"

definition demo_answer :: "peer_id \<Rightarrow> request_id \<Rightarrow> p2block list \<Rightarrow> move" where
  "demo_answer p i bs = Round demo_clock (SwarmEvent (CatchUpResponseReceived p i (Inr
     (catch_up_sync_response_new demo_net Sha3x p bs (9, 77) 100))))"

definition demo_moves :: "move list" where
  "demo_moves = [demo_meta [1] 0 100, Round demo_clock InnerRequest,
     demo_meta [2] 100 0, Round demo_clock InnerRequest,
     demo_answer [1] 0 [demo_block 0 1 0 10 31], Task 0, Task 0, Task 0, Task 0,
     Round demo_clock InnerRequest, Round demo_clock InnerRequest]"

lemma demo_chains_wf: "chain_wf (sc_p2_chain (demo_chains a))"
  by (simp add: demo_chains_def chain_wf_demo_one)

lemma demo_run_reachable:
  "run_moves demo_world (\<lambda>_. []) ms demo_start = Some s
     \<Longrightarrow> service_reachable demo_world (\<lambda>_. []) p2p_config_default demo_chains ''squad'' s"
  unfolding service_reachable_def
  by (intro exI [of _ "\<lambda>_. True"] exI [of _ 10] exI [of _ demo_swarm] exI [of _ demo_start])
    (simp add: run_moves_steps, simp add: demo_start_def service_new_def p2p_config_default_def)

text \<open>The states after all moves, and after an answer and the first stage of its task.\<close>

definition demo_end :: "(epoch_time \<times> difficulty) list service" where
  "demo_end = the (run_moves demo_world (\<lambda>_. []) demo_moves demo_start)"

definition demo_fed :: "(epoch_time \<times> difficulty) list service" where
  "demo_fed = the (run_moves demo_world (\<lambda>_. []) [demo_answer [1] 0 [demo_block 5 2 7 20 31], Task 0] demo_start)"

lemma demo_end_facts:
  "case run_moves demo_world (\<lambda>_. []) demo_moves demo_start of
     None \<Rightarrow> False
   | Some s \<Rightarrow> length (sv_in_progress_syncs s Sha3x) = 2"
  by code_simp

lemma demo_fed_facts:
  "case run_moves demo_world (\<lambda>_. []) [demo_answer [1] 0 [demo_block 5 2 7 20 31], Task 0] demo_start of
     None \<Rightarrow> False
   | Some s \<Rightarrow> sv_inner_requests s = [AddSyncedBlock Sha3x (demo_block 5 2 7 20 0) [1] 0]"
  by code_simp

lemma demo_end_syncs: "length (sv_in_progress_syncs demo_end Sha3x) = 2"
  and demo_fed_queue: "sv_inner_requests demo_fed = [AddSyncedBlock Sha3x (demo_block 5 2 7 20 0) [1] 0]"
  using demo_end_facts demo_fed_facts by (auto simp: demo_end_def demo_fed_def split: option.splits)

lemma demo_reachable:
  "service_reachable demo_world (\<lambda>_. []) p2p_config_default demo_chains ''squad'' demo_end"
  "service_reachable demo_world (\<lambda>_. []) p2p_config_default demo_chains ''squad'' demo_fed"
  using demo_end_facts demo_fed_facts
  by (auto simp: demo_end_def demo_fed_def intro: demo_run_reachable split: option.splits)

text \<open>With the default configuration of one concurrent sync there is a reachable state with
  two running syncs of one algorithm, because the answering peer chooses the algorithm under
  which the permit is used again.\<close>

theorem sync_limit_not_per_algorithm:
  "\<exists>s. service_reachable demo_world (\<lambda>_. []) p2p_config_default demo_chains ''squad'' s
     \<and> num_concurrent_syncs p2p_config_default = 1 \<and> length (sv_in_progress_syncs s Sha3x) = 2"
proof (intro exI conjI)
  show "service_reachable demo_world (\<lambda>_. []) p2p_config_default demo_chains ''squad'' demo_end"
    by (rule demo_reachable(1))
  show "num_concurrent_syncs p2p_config_default = 1" by (simp add: p2p_config_default_def)
  show "length (sv_in_progress_syncs demo_end Sha3x) = 2" by (rule demo_end_syncs)
qed

theorem sync_permits_conserved_witness:
  "count (all_permits demo_end) (Permit Sha3x) = 1
   \<and> length (sv_in_progress_syncs demo_end RandomX) + length (sv_in_progress_syncs demo_end Sha3x) \<le> 2"
  using sync_permits_conserved [OF demo_reachable(1) demo_chains_wf] by (simp add: p2p_config_default_def)

theorem missing_block_requests_bounded_witness:
  "\<not> is_verified (b_verified (demo_block 5 2 7 20 0)) \<and> (0 :: nat) \<le> max_missing_blocks_sync_depth p2p_config_default"
  using missing_block_requests_bounded [OF demo_reachable(2) demo_chains_wf] demo_fed_queue
  by auto


text \<open>The start with a peer on the white list.\<close>

definition demo_with_peer :: "(epoch_time \<times> difficulty) list service" where
  "demo_with_peer = demo_start\<lparr>sv_peer_store := demo_store\<rparr>"

definition demo_bad_block :: p2block where
  "demo_bad_block = (demo_block 5 3 7 20 0)\<lparr>b_version := 0\<rparr>"


theorem answer_blames_named_peer_witness:
  "is_blacklisted demo_net
     (sv_peer_store (fst (handle_event demo_world (\<lambda>_. []) demo_clock
        (CatchUpResponseReceived [2] 7 (Inr (catch_up_sync_response_new demo_net Sha3x [7] [] (9, 77) 100))) demo_with_peer))) [7]"
proof -
  have w: "w_net demo_world = demo_net" by (simp add: demo_world_def)
  have "known_peer (w_net demo_world) (sv_peer_store demo_with_peer) [7]" by code_simp
  then show ?thesis
    using answer_blames_named_peer [of "catch_up_sync_response_new demo_net Sha3x [7] [] (9, 77) 100" "[7]"
        demo_world demo_with_peer "[2]" "\<lambda>_. []" demo_clock 7]
    by (simp add: w catch_up_sync_response_new_def demo_net_def)
qed

definition demo_gossip_world :: "(epoch_time \<times> difficulty) list world" where
  "demo_gossip_world = demo_world\<lparr>decode_notify := \<lambda>_. Inr (notify_new_tip_block_new 2000 [1] [demo_block 5 2 7 20 0])\<rparr>"

definition demo_gossip :: gossip_message where
  "demo_gossip = \<lparr>gm_source = Some [1], gm_topic = squad_topic demo_gossip_world demo_start BLOCK_NOTIFY_SHA3X_TOPIC,
     gm_data = []\<rparr>"

theorem gossip_admits_recent_near_blocks_witness:
  "\<exists>q. decode_notify demo_gossip_world [] = Inr q
     \<and> max_block_height (nt_new_blocks q) \<le> sat_add (tip_height (sv_share_chain demo_start (notify_algo q))) 10"
proof -
  let ?r = "handle_new_gossipsub_message demo_gossip_world demo_clock demo_gossip [2] demo_start"
  have "length (ch_levels (sc_p2_chain (sv_share_chain (fst ?r) Sha3x))) = 2"
    and "length (ch_levels (sc_p2_chain (sv_share_chain demo_start Sha3x))) = 1" by code_simp+
  then have "sv_share_chain (fst ?r) \<noteq> sv_share_chain demo_start" by force
  then show ?thesis
    using gossip_admits_recent_near_blocks [of demo_gossip_world demo_clock demo_gossip "[2]" demo_start "fst ?r" "snd ?r"]
    by (auto simp: demo_gossip_def)
qed

definition demo_queued :: "(epoch_time \<times> difficulty) list service" where
  "demo_queued = send_inner (AddSyncedBlock Sha3x (demo_block 5 2 7 20 0) [1] 0) demo_start"

theorem inner_requests_drain_witness:
  "sv_inner_requests (fst (drain demo_world [demo_clock, demo_clock] demo_queued)) = []"
proof -
  have "queue_weight demo_queued \<le> length [demo_clock, demo_clock]"
    and "snd (drain demo_world [demo_clock, demo_clock] demo_queued) \<noteq> Panic" by code_simp+
  moreover have "chains_ok demo_queued"
    using demo_chains_wf by (simp add: chains_ok_def demo_queued_def send_inner_def demo_start_def
        service_new_def p2p_config_default_def)
  ultimately show ?thesis
    using inner_requests_drain [of demo_queued "[demo_clock, demo_clock]" demo_world] by (metis prod.collapse)
qed

theorem seek_dials_bounded_witness:
  "\<exists>ds. sw_actions (sv_swarm (seek_connections demo_world demo_clock (\<lambda>rs. rs) demo_with_peer))
      = sw_actions (sv_swarm demo_with_peer) @ ds \<and> length ds \<le> 11"
proof -
  have "seek_split demo_world demo_with_peer = ([], [])" by code_simp
  from seek_dials_bounded [OF this, of demo_clock "\<lambda>rs. rs"] show ?thesis by auto
qed

end
