(* ===== verification/CatchUp.thy ===== *)
theory CatchUp
  imports SyncedBlocks PeerPage NetCorrect
begin

text \<open>
  A node that catches up with a peer: the dialog of \<open>perform_catch_up_sync\<close>,
  \<open>handle_catch_up_sync_request\<close> and \<open>handle_catch_up_sync_response\<close> in
  \<open>server/p2p/network.rs\<close>, seen from the two share chains, and the proof that it ends with the
  node having at least the work of the peer.
\<close>

section \<open>The dialog\<close>

text \<open>
  What the node asks with \<open>send_catch_up\<close>, what the peer answers in
  \<open>handle_catch_up_sync_request\<close>, and what the node does with the answer: the blocks are
  added from the lowest upwards, one request of the inner queue each, and it goes on if the
  tip of the peer was not among them and the work of the peer is not reached. An answer
  without blocks gets the peer on the black list. The lemmas after the definitions say that
  these are the messages of the two handlers.
\<close>

definition catch_up_request ::
    "'l world \<Rightarrow> pow_algorithm \<Rightarrow> tips_lru \<Rightarrow> uncle_ref option \<Rightarrow> uncle_ref option \<Rightarrow> 'l share_chain
     \<Rightarrow> catch_up_sync_request sc_result" where
  "catch_up_request w algo recent from_them progress b =
     bindO (catch_up_state from_them progress b) (\<lambda>(i_have, l).
       Ok (catch_up_sync_request_new (w_net w) algo (rev (map snd recent) @ i_have) l))"

definition catch_up_answer ::
    "'l world \<Rightarrow> pow_algorithm \<Rightarrow> peer_id \<Rightarrow> 'l share_chain \<Rightarrow> catch_up_sync_request
     \<Rightarrow> catch_up_sync_response sc_result" where
  "catch_up_answer w algo peer a request =
     bindO (request_sync (w_ext w) a (cur_i_have request) MAX_CATCH_UP_BLOCKS_TO_RETURN
              (cur_last_block_received request)) (\<lambda>(blocks, tip, pow).
       Ok (catch_up_sync_response_new (w_net w) algo peer blocks (opt_or tip (0, zero_hash)) pow))"

definition catch_up_round ::
    "'l world \<Rightarrow> clock \<Rightarrow> pow_algorithm \<Rightarrow> peer_id \<Rightarrow> 'l share_chain \<Rightarrow> tips_lru \<Rightarrow> uncle_ref option
     \<Rightarrow> uncle_ref option \<Rightarrow> 'l share_chain \<Rightarrow> 'l share_chain \<times> (uncle_ref \<times> bool) sc_result" where
  "catch_up_round w t algo peer a recent from_them progress b =
     bindS (b, catch_up_request w algo recent from_them progress b) (\<lambda>b request.
     bindS (b, catch_up_answer w algo peer a request) (\<lambda>b response.
       let blocks = sort_key b_height (catch_up_into_blocks response) in
       if blocks = [] then (b, Err (Anyhow ''Peer sent 0 blocks for catch up sync''))
       else
         bindS (add_all (\<lambda>s x. add_synced_blocks (w_ext w) (log_info w) (c_now t) (c_now' t) s [x]) blocks b) (\<lambda>b _.
           (b, Ok (block_ref (List.last blocks),
                   response_tip_hash response \<notin> b_hash ` set blocks
                   \<and> chain_pow (w_ext w) b < achieved_pow response)))))"

fun catch_up ::
    "'l world \<Rightarrow> clock \<Rightarrow> nat \<Rightarrow> pow_algorithm \<Rightarrow> peer_id \<Rightarrow> 'l share_chain \<Rightarrow> nat \<Rightarrow> tips_lru \<Rightarrow> uncle_ref option
     \<Rightarrow> uncle_ref option \<Rightarrow> 'l share_chain \<Rightarrow> 'l share_chain \<times> unit sc_result" where
  "catch_up w t cap algo peer a attempts recent from_them progress b =
     bindS (catch_up_round w t algo peer a recent from_them progress b) (\<lambda>b (r, continue).
       if continue
       then case attempts of
              0 \<Rightarrow> (b, Ok ())
            | Suc n \<Rightarrow> catch_up w t cap algo peer a n (lru_put cap peer r recent) (Some r) None b
       else (b, Ok ()))"

declare catch_up.simps [simp del]

lemma catch_up_answer_sent:
  assumes "algo = catch_up_sync_request_algo (w_net w) request"
    and "catch_up_answer w algo (local_peer_id s) (sv_share_chain s algo) request = Ok r"
  shows "handle_catch_up_sync_request w ch request s = (act (RespondCatchUpSync ch (Inr r)) s, Ok ())"
  using assms by (auto simp: handle_catch_up_sync_request_def catch_up_answer_def Let_def bindO_eq_Ok)

lemma request_is_sent:
  assumes "\<not> is_blacklisted (w_net w) (sv_peer_store s) (cu_peer r)" "sv_last_failed_peer s (cu_algo r) \<noteq> Some (cu_peer r)"
    and "\<not> hm_contains (sv_in_progress_syncs s (cu_algo r)) (cu_peer r)" "cu_permit r = Some permit"
    and "catch_up_request w (cu_algo r) (sv_recent_synced_tips s (cu_algo r)) (cu_last_block_from_them r)
      (sv_last_sync_requested_block s (cu_algo r)) (sv_share_chain s (cu_algo r)) = Ok request"
  shows "\<exists>s'. perform_catch_up_sync w t r s = (s', Ok ())
    \<and> sw_actions (sv_swarm s') = sw_actions (sv_swarm s) @ [SendCatchUpSync (sw_next_catch_up_id (sv_swarm s)) (cu_peer r) request]
    \<and> sv_share_chain s' = sv_share_chain s"
  using assms
  by (auto simp: perform_catch_up_sync_def catch_up_request_def bindO_eq_Ok send_catch_up_def Let_def act_def split: prod.splits)

text \<open>The task that takes the answer queues the blocks in that order and decides in that way.\<close>

lemma blocks_are_queued:
  assumes "ct_stage k = FeedBlocks" "blocks = sort_key b_height (ct_blocks k)" "blocks \<noteq> []"
  shows "run_task w k s =
    (s\<lparr>sv_inner_requests := sv_inner_requests s @ map (\<lambda>b. AddSyncedBlock (ct_algo k) b (ct_peer k) 0) blocks\<rparr>,
     Some (k\<lparr>ct_stage := RememberTip (Some (block_ref (List.last blocks))) (ct_their_tip_hash k \<notin> b_hash ` set blocks)\<rparr>))"
  using assms(3) unfolding assms(2)
  by (simp add: run_task_def assms(1) feed_blocks_def Let_def fold_send)

lemma work_is_compared:
  assumes "ct_stage k = CompareWork l must"
  shows "run_task w k s =
    (s, Some (k\<lparr>ct_stage := Decide l (must \<and> chain_pow (w_ext w) (sv_share_chain s (ct_algo k)) < ct_their_pow k)\<rparr>))"
  using assms by (simp add: run_task_def)

section \<open>A round\<close>

lemma follows_work:
  assumes "follows e t t' T g w S b" "rooted g S x"
  shows "b_total_pow x \<le> chain_pow e b"
proof -
  have "S \<noteq> {}" using rooted_mem [OF assms(2)] by auto
  then have "received e T g S (sc_p2_chain b)" using followsD(8) [OF assms(1)] by (simp add: takes_in_def)
  from received_view [OF this, of e] assms(2) show ?thesis by (auto simp: heaviest_def chain_pow_def)
qed

lemma i_have_known:
  assumes "follows e t t' T g w S b" "0 < n"
  shows "\<exists>xs. create_catchup_sync_blocks b n = Ok xs \<and> (\<forall>r\<in>set xs. known_ref g S a r)"
proof (cases "S = {}")
  case True
  with followsD(10) [OF assms(1)] obtain v where v: "stored {} v (sc_p2_chain b)" by blast
  have "get_tip (sc_p2_chain b) = None" using storedD(5) [OF v] by (simp add: get_tip_def)
  then show ?thesis by (simp add: create_catchup_sync_blocks_def)
next
  case False
  note f = followsD [OF assms(1)]
  let ?c = "sc_p2_chain b"
  have "received e T g S ?c" using f(8) [OF False] by (simp add: takes_in_def)
  then obtain v x where hb: "holds_blocks e T g S v x ?c" unfolding received_def by blast
  note h = holds_blocksD [OF hb]
  have low: "low_blocks T (ch_share_window ?c)" using f(2,6) by (auto simp: low_blocks_def word_less_nat_alt)
  have line: "on_line S x ?c" using h(12) [OF low] by (simp add: main_line_def)
  have tip: "tip_height b = b_height x"
    using received_chain [of e T g S ?c] holds_blocks_tip(1) [OF hb] h(9) levels_wfD [OF storedD(2) [OF h(5)], of "b_height x"]
    by (auto simp: tip_height_def get_height_def get_tip_def tip_at_def split: option.splits if_splits)
  obtain xs where xs: "create_catchup_sync_blocks b n = Ok xs"
    "\<forall>(i, k)\<in>set xs. chain_block_at ?c i = Some k \<and> i \<le> tip_height b"
    using catchup_blocks_on_main_chain [OF storedD(2) [OF h(5)] assms(2)] by blast
  have "known_ref g S a (i, k)" if r: "(i, k) \<in> set xs" for i k
  proof -
    have ik: "chain_block_at ?c i = Some k" "i \<le> b_height x" using xs(2) r tip by auto
    obtain y where y: "y \<in> S" "b_height y = i" "descends S y x"
      using rooted_ancestor [OF treeD(2) [OF h(1)] h(8) ik(2)] by blast
    then have "k = b_hash y" using line ik(1) by (auto simp: on_line_def)
    then have "k \<noteq> zero_hash" using treeD(6) [OF h(1)] y(1) h(2) by auto
    then obtain z where "rooted g S z" "b_height z = i" "b_hash z = k"
      using h(7) ik(1) unfolding main_rooted_def by blast
    then show ?thesis by (auto simp: known_ref_def)
  qed
  with xs(1) show ?thesis by auto
qed
text \<open>The page is added, from the lowest block upwards.\<close>
lemma page_added:
  assumes "follows e t t' T g w S b" "provides e T g R v tt m a" "s \<le> n" "n \<le> unat (b_height tt)"
    and "\<And>i. i < s \<Longrightarrow> m i \<in> S"
  shows "\<exists>b'. add_all (\<lambda>s x. add_synced_blocks e li t t' s [x]) (map (\<lambda>i. (m i)\<lparr>b_verified := vs_new\<rparr>) [s..<Suc n]) b = (b', Ok ())
    \<and> follows e t t' T g w (S \<union> m ` {s..n}) b'"
proof -
  note p = providesD [OF assms(2)] and f = followsD [OF assms(1)]
  let ?ms = "map m [s..<Suc n]"
  have "S \<union> set (take i ?ms) \<subseteq> T \<and> (S \<union> set (take i ?ms) = {} \<or> g \<in> S \<union> set (take i ?ms))" for i
  proof -
    have "set (take i ?ms) \<subseteq> T"
      using line_ofD(1) [OF p(4)] assms(4) by (auto dest!: in_set_takeD)
    moreover have "g \<in> set (take i ?ms)" if "S = {}" "set (take i ?ms) \<noteq> {}"
    proof -
      note ne = that
      have "s = 0" using assms(5) [of 0] ne(1) by auto
      moreover obtain j where "i = Suc j" using ne(2) by (cases i) auto
      moreover have "m 0 = g" using p(4) by (simp add: line_of_def)
      ultimately show ?thesis by (simp add: upt_conv_Cons del: upt_Suc)
    qed
    ultimately show ?thesis using f(7) f(9) by blast
  qed
  from synced.all_added [OF assms(1) this, of li]
  have "\<exists>b'. add_all (\<lambda>s b. add_synced_blocks e li t t' s [b\<lparr>b_verified := vs_new\<rparr>]) ?ms b = (b', Ok ())
    \<and> follows e t t' T g w (S \<union> set ?ms) b'" .
  moreover have "set ?ms = m ` {s..n}" by (simp only: set_map set_upt atLeastLessThanSuc_atLeastAtMost)
  moreover have "map (\<lambda>i. (m i)\<lparr>b_verified := vs_new\<rparr>) [s..<Suc n] = map (\<lambda>x. x\<lparr>b_verified := vs_new\<rparr>) ?ms" by simp
  ultimately show ?thesis by (simp only: add_all_map)
qed

lemma round_goes_on:
  assumes "follows (w_ext w) (c_now t) (c_now' t) T g wd S b" "provides (w_ext w) T g R v tt m a"
    and "\<forall>r\<in>snd ` set recent. known_ref g S a r"
    and l: "\<forall>r. (case from_them of None \<Rightarrow> progress | Some r \<Rightarrow> Some r) = Some r \<longrightarrow>
      known_ref g S a r \<and> chain_block_at (sc_p2_chain a) (fst r) = Some (snd r)"
    and "chain_pow (w_ext w) b < chain_pow (w_ext w) a"
  shows "\<exists>n b'. catch_up_round w t algo peer a recent from_them progress b
      = (b', Ok (block_ref (m n), n \<noteq> unat (b_height tt) \<and> chain_pow (w_ext w) b' < chain_pow (w_ext w) a))
    \<and> n \<le> unat (b_height tt) \<and> follows (w_ext w) (c_now t) (c_now' t) T g wd (S \<union> m ` {..n}) b'
    \<and> (n = unat (b_height tt) \<or> (\<forall>r. from_them = Some r \<longrightarrow> unat (fst r) + 6 \<le> n) \<and> 5 \<le> n)"
proof -
  let ?e = "w_ext w" and ?h = "unat (b_height tt)" and ?l = "case from_them of None \<Rightarrow> progress | Some r \<Rightarrow> Some r"
  note f = followsD [OF assms(1)] and p = providesD [OF assms(2)]
  have "\<exists>have'. catch_up_state from_them progress b = Ok (have', ?l) \<and> (\<forall>r\<in>set have'. known_ref g S a r)"
    using i_have_known [OF assms(1), of CATCH_UP_SYNC_BLOCKS_IN_I_HAVE a]
    by (auto simp: catch_up_state_def CATCH_UP_SYNC_BLOCKS_IN_I_HAVE_def split: option.split)
  then obtain have' where have': "catch_up_state from_them progress b = Ok (have', ?l)" "\<forall>r\<in>set have'. known_ref g S a r"
    by blast
  let ?req = "catch_up_sync_request_new (w_net w) algo (rev (map snd recent) @ have') ?l"
  have "\<forall>r\<in>set (rev (map snd recent) @ have'). known_ref g S a r" using assms(3) have'(2) by auto
  from requested_page [OF assms(2) f(7) this l, of MAX_CATCH_UP_BLOCKS_TO_RETURN] obtain s where
    s: "request_sync ?e a (rev (map snd recent) @ have') MAX_CATCH_UP_BLOCKS_TO_RETURN ?l
      = Ok (map (record_of v \<circ> m) [s..<min (Suc ?h) (s + 6)], Some (block_ref tt), b_total_pow tt)"
    "\<And>i. i < s \<Longrightarrow> i \<le> ?h \<Longrightarrow> m i \<in> S" "\<And>r. ?l = Some r \<Longrightarrow> unat (fst r) < s"
    by (auto simp: MAX_CATCH_UP_BLOCKS_TO_RETURN_def)
  have sh: "s \<le> ?h"
  proof (rule ccontr)
    assume "\<not> s \<le> ?h"
    then have "rooted g S (m ?h)" using s(2) by (intro line_rooted [OF p(1,4)]) auto
    moreover have "m ?h = tt" using p(4) by (simp add: line_of_def)
    ultimately show False using follows_work [OF assms(1)] p(6) assms(5) by (simp add: not_le [symmetric])
  qed
  define n where "n = min ?h (s + 5)"
  have n: "min (Suc ?h) (s + 6) = Suc n" "s \<le> n" "n \<le> ?h" using sh by (auto simp: n_def)
  let ?resp = "catch_up_sync_response_new (w_net w) algo peer (map (record_of v \<circ> m) [s..<Suc n]) (block_ref tt) (b_total_pow tt)"
  let ?bs = "map (\<lambda>i. (m i)\<lparr>b_verified := vs_new\<rparr>) [s..<Suc n]"
  have into: "catch_up_into_blocks ?resp = ?bs"
    by (simp add: catch_up_into_blocks_def reset_verified_def catch_up_sync_response_new_def record_of_def)
  have "sorted_wrt (\<le>) (map b_height ?bs)"
  proof -
    have "b_height (m i) \<le> b_height (m j)" if "i \<le> j" "j \<le> n" for i j
      using line_ofD(2) [OF p(4)] that n(3) by (simp add: word_le_nat_alt)
    then show ?thesis by (auto simp: sorted_wrt_map intro!: sorted_wrt_mono_rel [OF _ sorted_upt, of s "Suc n"] simp del: upt_Suc)
  qed
  then have sort: "sort_key b_height ?bs = ?bs" by (rule sort_key_id_if_sorted)
  obtain b' where b': "add_all (\<lambda>s x. add_synced_blocks ?e (log_info w) (c_now t) (c_now' t) s [x]) ?bs b = (b', Ok ())"
    "follows ?e (c_now t) (c_now' t) T g wd (S \<union> m ` {s..n}) b'"
    using page_added [OF assms(1,2) n(2,3), of "log_info w"] s(2) n by auto
  have "m ` {..n} \<subseteq> S \<union> m ` {s..n}"
  proof (rule image_subsetI)
    fix i assume "i \<in> {..n}"
    then show "m i \<in> S \<union> m ` {s..n}" using s(2) [of i] n(3) by (cases "s \<le> i") auto
  qed
  then have "S \<union> m ` {s..n} = S \<union> m ` {..n}" by auto
  note fb = b'(2) [unfolded this]
  have tip: "b_hash tt \<in> b_hash ` set ?bs \<longleftrightarrow> n = ?h"
  proof
    assume "b_hash tt \<in> b_hash ` set ?bs"
    then have "b_hash tt \<in> (\<lambda>i. b_hash (m i)) ` {s..<Suc n}" by (simp add: image_image del: upt_Suc)
    then obtain i where i: "i \<le> n" "b_hash (m i) = b_hash tt" by (auto simp: less_Suc_eq_le dest: sym)
    have "tt \<in> T" using rooted_mem p(2,3) by (auto simp: heaviest_def)
    then have "m i = tt" using inj_onD [OF treeD(3) [OF p(1)] i(2)] line_ofD(1) [OF p(4)] i(1) n(3) by auto
    with line_ofD(2) [OF p(4), of i] i(1) n(3) show "n = ?h" by auto
  next
    assume "n = ?h"
    moreover have "m ?h = tt" using p(4) by (simp add: line_of_def)
    ultimately show "b_hash tt \<in> b_hash ` set ?bs" using n(2) by (auto intro!: image_eqI [of _ _ ?h])
  qed
  have ne: "?bs \<noteq> []" "block_ref (List.last ?bs) = block_ref (m n)" using n(2) by (simp_all add: last_map)
  have "catch_up_round w t algo peer a recent from_them progress b
      = (b', Ok (block_ref (m n), n \<noteq> ?h \<and> chain_pow ?e b' < chain_pow ?e a))"
  proof -
    have "catch_up_request w algo recent from_them progress b = Ok ?req"
      using have'(1) by (simp add: catch_up_request_def)
    moreover have "catch_up_answer w algo peer a ?req = Ok ?resp"
      using s(1) n(1) by (simp add: catch_up_answer_def catch_up_sync_request_new_def opt_or_def del: upt_Suc)
    moreover have "response_tip_hash ?resp = b_hash tt" "achieved_pow ?resp = chain_pow ?e a"
      using p(6) by (simp_all add: response_tip_hash_def achieved_pow_def catch_up_sync_response_new_def)
    ultimately show ?thesis
      using into sort b'(1) tip ne by (simp add: catch_up_round_def Let_def del: upt_Suc)
  qed
  moreover have "n = ?h \<or> (\<forall>r. from_them = Some r \<longrightarrow> unat (fst r) + 6 \<le> n) \<and> 5 \<le> n"
    using s(3) by (auto simp: n_def min_def)
  ultimately show ?thesis using fb n(3) by blast
qed

lemma lru_put_refs: "snd ` set (lru_put cap k r xs) \<subseteq> insert r (snd ` set xs)"
proof -
  have "set (lru_put cap k r xs) \<subseteq> insert (k, r) (set xs)"
    by (auto simp: lru_put_def AList.delete_eq dest: in_set_takeD)
  then show ?thesis by force
qed

lemma catch_up_ends:
  assumes "provides (w_ext w) T g R v tt m a"
  shows "follows (w_ext w) (c_now t) (c_now' t) T g wd S b \<Longrightarrow> \<forall>r\<in>snd ` set recent. known_ref g S a r \<Longrightarrow>
    \<forall>r. (case from_them of None \<Rightarrow> progress | Some r \<Rightarrow> Some r) = Some r \<longrightarrow>
      known_ref g S a r \<and> chain_block_at (sc_p2_chain a) (fst r) = Some (snd r) \<Longrightarrow>
    chain_pow (w_ext w) b < chain_pow (w_ext w) a \<Longrightarrow>
    unat (b_height tt) < (case from_them of None \<Rightarrow> 0 | Some r \<Rightarrow> Suc (unat (fst r))) + 6 * Suc attempts \<Longrightarrow>
    \<exists>b' S'. catch_up w t cap algo peer a attempts recent from_them progress b = (b', Ok ())
      \<and> chain_pow (w_ext w) a \<le> chain_pow (w_ext w) b' \<and> S \<subseteq> S' \<and> S' \<subseteq> S \<union> R
      \<and> follows (w_ext w) (c_now t) (c_now' t) T g wd S' b'"
proof (induction attempts arbitrary: S b recent from_them progress rule: less_induct)
  case (less attempts)
  let ?h = "unat (b_height tt)" and ?e = "w_ext w"
  note p = providesD [OF assms]
  obtain n b' where r: "catch_up_round w t algo peer a recent from_them progress b
      = (b', Ok (block_ref (m n), n \<noteq> ?h \<and> chain_pow ?e b' < chain_pow ?e a))" "n \<le> ?h"
    "follows ?e (c_now t) (c_now' t) T g wd (S \<union> m ` {..n}) b'"
    and far: "n = ?h \<or> (\<forall>r. from_them = Some r \<longrightarrow> unat (fst r) + 6 \<le> n) \<and> 5 \<le> n"
    using round_goes_on [OF less.prems(1) assms less.prems(2-4)] by blast
  let ?S = "S \<union> m ` {..n}"
  have sub: "S \<subseteq> ?S" "?S \<subseteq> S \<union> R" using p(8) r(2) by auto
  have root: "rooted g ?S (m n)" by (rule line_rooted [OF p(1,4) _ r(2)]) auto
  show ?case
  proof (cases "n \<noteq> ?h \<and> chain_pow ?e b' < chain_pow ?e a")
    case False
    have "chain_pow ?e a \<le> chain_pow ?e b'"
    proof (cases "n = ?h")
      case True
      then have "m n = tt" using p(4) by (simp add: line_of_def)
      with follows_work [OF r(3) root] p(6) show ?thesis by simp
    qed (use False in auto)
    moreover have "catch_up w t cap algo peer a attempts recent from_them progress b = (b', Ok ())"
      by (subst catch_up.simps) (use r(1) False in \<open>simp split del: if_split\<close>)
    ultimately show ?thesis using r(3) sub by blast
  next
    case True
    with far have far': "\<forall>r. from_them = Some r \<longrightarrow> unat (fst r) + 6 \<le> n" "5 \<le> n" "n < ?h" using r(2) by auto
    have hn: "unat (fst (block_ref (m n))) = n" using line_ofD(2) [OF p(4) r(2)] by simp
    obtain k where k: "attempts = Suc k"
      using less.prems(5) far' by (cases attempts; cases from_them) auto
    let ?recent = "lru_put cap peer (block_ref (m n)) recent"
    have ref: "known_ref g ?S a (block_ref (m n))" using root by (auto simp: known_ref_def)
    have 1: "\<forall>r\<in>snd ` set ?recent. known_ref g ?S a r"
    proof
      fix r assume "r \<in> snd ` set ?recent"
      then have "r = block_ref (m n) \<or> r \<in> snd ` set recent" using lru_put_refs by blast
      then show "known_ref g ?S a r" using ref less.prems(2) known_ref_mono [OF _ sub(1)] by metis
    qed
    have 2: "\<forall>r. (case Some (block_ref (m n)) of None \<Rightarrow> None | Some r \<Rightarrow> Some r) = Some r \<longrightarrow>
      known_ref g ?S a r \<and> chain_block_at (sc_p2_chain a) (fst r) = Some (snd r)"
      using ref p(9) [OF r(2)] by simp
    have 3: "?h < (case Some (block_ref (m n)) of None \<Rightarrow> 0 | Some r \<Rightarrow> Suc (unat (fst r))) + 6 * Suc k"
      using less.prems(5) far' hn k by (cases from_them) auto
    have "k < attempts" using k by simp
    from less.IH [OF this r(3) 1 2 conjunct2 [OF True] 3] obtain b2 S2 where b2: "catch_up w t cap algo peer a k ?recent (Some (block_ref (m n))) None b' = (b2, Ok ())"
      "chain_pow ?e a \<le> chain_pow ?e b2" "?S \<subseteq> S2" "S2 \<subseteq> ?S \<union> R" "follows ?e (c_now t) (c_now' t) T g wd S2 b2"
      by (elim exE conjE) (rule that, assumption+)
    have "catch_up w t cap algo peer a attempts recent from_them progress b = (b2, Ok ())"
      by (subst catch_up.simps) (use r(1) True b2(1) k in simp)
    moreover have "S \<subseteq> S2" "S2 \<subseteq> S \<union> R" using b2(3,4) sub by auto
    ultimately show ?thesis using b2(2,5) by (intro exI [of _ b2] exI [of _ S2] conjI) assumption+
  qed
qed

section \<open>The node catches up\<close>


definition demo_joiner :: "(epoch_time \<times> difficulty) list p2chain \<Rightarrow> (epoch_time \<times> difficulty) list share_chain" where
  "demo_joiner c = (demo_share c)\<lparr>sc_bypass_checks := 30\<rparr>"

lemma demo_joiner_follows: "follows demo_ext 2000 2000 demo_tree tree_0 10 {} (demo_joiner demo_running)"
proof -
  have "roomy demo_ext demo_tree demo_running" by (rule roomy_new_empty [OF demo_running_new room_for_demo])
  moreover have "stored {} v demo_running" for v by (rule stored_new_empty [OF demo_running_new])
  moreover have "sync_ready demo_ext 2000 2000 demo_tree (demo_joiner demo_running)"
    by (auto simp: sync_ready_def demo_joiner_def demo_share_def demo_running_def demo_defs demo_tree_def demo_block_def demo_ext_def
      has_defs vs_contains_def vs_flag_defs future_limit_def block_output_root_def header_difficulty_def MAX_FUTURE_BLOCK_TIME_def opt_or_def
      checked_add_def)
  moreover have "unat (ch_share_window demo_running) = 10" by (simp add: demo_running_def demo_defs)
  moreover have "\<forall>b\<in>demo_tree. unat (b_height b) < 10" by (simp add: demo_tree_def)
  ultimately show ?thesis
    using block_tree_demo by (simp add: follows_def demo_joiner_def)
qed


end
