(* ===== verification/NetStart.thy ===== *)
theory NetStart
  imports NetLoop
begin

text \<open>
  The start of the peer-to-peer service, \<open>start\<close> in \<open>server/p2p/network.rs\<close>: the addresses it
  listens on, the seed peers of the configuration and of the domain name system, and which main
  loop follows.

  The resolver, the parts of an address that tell a seed peer, and the decoding of a text record
  are functions of other crates. The distinction of \<open>is_eafnosupport\<close> only chooses between two log lines.
\<close>

section \<open>Seed peers\<close>

text \<open>The parts of a seed address, in order, as far as they are looked at.\<close>

datatype seed_protocol = Dnsaddr string | SeedP2p peer_id | OtherSeedPart

text \<open>
  \<open>txt_lookup\<close> is \<open>None\<close> when the lookup fails, else the text records, each a list of byte
  strings. \<open>dial_succeeds\<close> says whether the swarm accepts a dial request.
\<close>

record seed_ext =
  seed_parts :: "multiaddr \<Rightarrow> seed_protocol list"
  txt_lookup :: "string \<Rightarrow> bytes list list option"
  from_utf8 :: "bytes \<Rightarrow> string option"

datatype start_error =
    InvalidSeedAddress
  | SeedAddressEmpty
  | SeedAddressWithoutPeerId
  | InvalidDnsText
  | MissingDnsaddrPrefix
  | NoListeners
  | InvalidExternalAddress
  | NoBroadcastClient
  | NoReceiverClient

definition strip_prefix :: "string \<Rightarrow> string \<Rightarrow> string option" where
  "strip_prefix p s = (if take (length p) s = p then Some (drop (length p) s) else None)"

definition parse_dnsaddr_txt :: "net_ext \<Rightarrow> seed_ext \<Rightarrow> bytes \<Rightarrow> (start_error, multiaddr) outcome" where
  "parse_dnsaddr_txt n e txt =
     bindO (ok_or InvalidDnsText (from_utf8 e txt)) (\<lambda>txt_str.
       case strip_prefix ''dnsaddr='' txt_str of
         None \<Rightarrow> Err MissingDnsaddrPrefix
       | Some a \<Rightarrow> ok_or InvalidDnsText (multiaddr_parse n a))"

text \<open>\<open>addr.iter().last()\<close>, when it is the identity of a peer\<close>

definition last_peer_id :: "seed_ext \<Rightarrow> multiaddr \<Rightarrow> peer_id option" where
  "last_peer_id e addr =
     (if seed_parts e addr = [] then None
      else case last (seed_parts e addr) of SeedP2p p \<Rightarrow> Some p | _ \<Rightarrow> None)"

definition last_dnsaddr :: "seed_ext \<Rightarrow> multiaddr \<Rightarrow> string option" where
  "last_dnsaddr e addr =
     (if seed_parts e addr = [] then None
      else case last (seed_parts e addr) of Dnsaddr d \<Rightarrow> Some d | _ \<Rightarrow> None)"

definition is_dns_addr :: "seed_ext \<Rightarrow> multiaddr \<Rightarrow> bool" where
  "is_dns_addr e addr \<longleftrightarrow> (case seed_parts e addr of Dnsaddr d # _ \<Rightarrow> True | _ \<Rightarrow> False)"

type_synonym seed_map = "(peer_id, multiaddr) hmap"

text \<open>A text record that is not valid, or names no peer, is skipped; so is a domain that is not found.\<close>

definition add_txt_record :: "net_ext \<Rightarrow> seed_ext \<Rightarrow> bytes list \<Rightarrow> seed_map \<Rightarrow> seed_map" where
  "add_txt_record n e txt m =
     (case txt of
        [] \<Rightarrow> m
      | chars # _ \<Rightarrow>
          (case parse_dnsaddr_txt n e chars of
             Ok parsed_addr \<Rightarrow>
               (case last_peer_id e parsed_addr of
                  Some p \<Rightarrow> hm_insert p parsed_addr m
                | None \<Rightarrow> m)
           | _ \<Rightarrow> m))"

definition lookup_seeds :: "net_ext \<Rightarrow> seed_ext \<Rightarrow> multiaddr \<Rightarrow> seed_map \<Rightarrow> seed_map" where
  "lookup_seeds n e addr m =
     (case last_dnsaddr e addr of
        None \<Rightarrow> m
      | Some addr_str \<Rightarrow>
          (case txt_lookup e (''_dnsaddr.'' @ addr_str) of
             None \<Rightarrow> m
           | Some records \<Rightarrow> fold (add_txt_record n e) records m))"

definition add_seed_address ::
    "net_ext \<Rightarrow> seed_ext \<Rightarrow> string \<Rightarrow> seed_map \<Rightarrow> (start_error, seed_map) outcome" where
  "add_seed_address n e seed_peer m =
     bindO (ok_or InvalidSeedAddress (multiaddr_parse n seed_peer)) (\<lambda>addr.
       if seed_parts e addr = [] then Err SeedAddressEmpty
       else
         let peer = last_peer_id e addr in
         if peer = None \<and> \<not> is_dns_addr e addr then Err SeedAddressWithoutPeerId
         else if is_dns_addr e addr then Ok (lookup_seeds n e addr m)
         else bindO (unwrap peer) (\<lambda>p. Ok (hm_insert p addr m)))"

definition parse_seed_peers ::
    "'l world \<Rightarrow> seed_ext \<Rightarrow> 'l service \<Rightarrow> (start_error, seed_map) outcome" where
  "parse_seed_peers w e s = foldO (add_seed_address (w_net w) e) (cfg_seed_peers (sv_config s)) []"

definition join_seed_peers :: "seed_map \<Rightarrow> 'l service \<Rightarrow> 'l service" where
  "join_seed_peers m s =
     on_peers (add_seed_peers (hm_keys m))
       (fold (\<lambda>(p, addr) s. act (DialPeer p []) (act (AddPeerAddress p addr) s)) m s)"

definition dial_seed_peers ::
    "'l world \<Rightarrow> seed_ext \<Rightarrow> 'l service \<Rightarrow> 'l service \<times> (start_error, unit) outcome" where
  "dial_seed_peers w e s =
     bindS (s, parse_seed_peers w e s) (\<lambda>s m. (join_seed_peers m s, Ok ()))"

section \<open>Start\<close>

type_synonym u16 = "16 word"

definition port_str :: "'l world \<Rightarrow> u16 \<Rightarrow> string" where
  "port_str w port = decimal w (ucast port)"

definition quic_multiaddr_str :: "'l world \<Rightarrow> u16 \<Rightarrow> string \<times> string \<Rightarrow> string" where
  "quic_multiaddr_str w port = (\<lambda>(addr_ip, ip_label).
     ''/'' @ ip_label @ ''/'' @ addr_ip @ ''/udp/'' @ port_str w port @ ''/quic-v1'')"

definition tcp_multiaddr_str :: "'l world \<Rightarrow> u16 \<Rightarrow> string \<times> string \<Rightarrow> string" where
  "tcp_multiaddr_str w port = (\<lambda>(addr_ip, ip_label).
     ''/'' @ ip_label @ ''/'' @ addr_ip @ ''/tcp/'' @ port_str w port)"

definition listen_configs :: "(string \<times> string) list" where
  "listen_configs = [(''::'', ''ip6''), (''0.0.0.0'', ''ip4'')]"

definition try_listen :: "'l world \<Rightarrow> string \<Rightarrow> 'l service \<times> nat \<Rightarrow> 'l service \<times> nat" where
  "try_listen w addr_str = (\<lambda>(s, listeners_started_count).
     case multiaddr_parse (w_net w) addr_str of
       Some maddr \<Rightarrow>
         (act (ListenOn maddr) s,
          if listen_on_succeeds w maddr then Suc listeners_started_count else listeners_started_count)
     | None \<Rightarrow> (s, listeners_started_count))"

definition start_listeners :: "'l world \<Rightarrow> u16 \<Rightarrow> 'l service \<Rightarrow> 'l service \<times> nat" where
  "start_listeners w port s =
     fold (\<lambda>c st. try_listen w (tcp_multiaddr_str w port c) (try_listen w (quic_multiaddr_str w port c) st))
       listen_configs (s, 0)"

definition add_external_address :: "multiaddr \<Rightarrow> 'l service \<Rightarrow> 'l service" where
  "add_external_address addr s =
     s\<lparr>sv_swarm := (sv_swarm s)\<lparr>sw_external_addresses :=
         (if addr \<in> set (external_addresses s) then external_addresses s else external_addresses s @ [addr])\<rparr>\<rparr>"

definition set_external_addr :: "'l world \<Rightarrow> 'l service \<Rightarrow> 'l service \<times> (start_error, unit) outcome" where
  "set_external_addr w s =
     (case external_addr (sv_config s) of
        None \<Rightarrow> (s, Ok ())
      | Some external \<Rightarrow>
          bindS (s, ok_or InvalidExternalAddress (multiaddr_parse (w_net w) external))
            (\<lambda>s addr. (add_external_address addr s, Ok ())))"

text \<open>The main loop that \<open>start\<close> enters.\<close>

datatype main_loop_kind = NormalLoop | DiagnosticLoop

definition service_start ::
    "'l world \<Rightarrow> seed_ext \<Rightarrow> u16 \<Rightarrow> 'l service \<Rightarrow> 'l service \<times> (start_error, main_loop_kind) outcome" where
  "service_start w e port s =
     (case start_listeners w port s of
        (s, listeners_started_count) \<Rightarrow>
          if listeners_started_count = 0 then (s, Err NoListeners)
          else
            bindS (set_external_addr w s) (\<lambda>s _.
              let s = subscribe_to_topics w s in
              if diagnostic_mode (sv_config s) then (s, Ok DiagnosticLoop)
              else bindS (dial_seed_peers w e s) (\<lambda>s _. (s, Ok NormalLoop))))"

end
