(* ===== verification/Diagnostics.thy ===== *)
theory Diagnostics
  imports NetLoop
begin

text \<open>
  The diagnostics collector, \<open>server/diagnostics/diagnostics_collector.rs\<close>: what it keeps
  of the peers the service reports, how it files a peer whose type changes, and what it answers.

  A \<open>SystemTime\<close> is in nanoseconds; the difference of two that are in the wrong order is the
  default of a duration, zero. The mutable reference that \<open>hydrate_and_get_existing\<close> returns
  is the map it points into, named by its type of peer: it is used before the maps change again.
\<close>

section \<open>State\<close>

type_synonym system_time = nat

record diagnostic_peer_info =
  di_peer_id :: peer_id
  di_connected_at :: "system_time option"
  di_requested_peers_at :: "system_time option"
  di_number_of_peers_received :: "u64 option"
  di_number_of_peers_added :: "u64 option"
  di_response_time :: "duration option"

type_synonym info_map = "(string, diagnostic_peer_info) hmap"

record diagnostics_collector =
  first_data_received :: "system_time option"
  seed_peer_info :: info_map
  private_peer_info :: info_map
  relay_peer_info :: info_map
  non_squad_peer_info :: info_map
  unknown_peer_info :: info_map

definition diagnostics_collector_new :: diagnostics_collector where
  "diagnostics_collector_new =
     \<lparr>first_data_received = None, seed_peer_info = [], private_peer_info = [],
      relay_peer_info = [], non_squad_peer_info = [], unknown_peer_info = []\<rparr>"

datatype diagnostic_data =
    NewPeer peer_id peer_type_enum system_time
  | PeerConnected peer_id peer_type_enum system_time
  | PeerRequest peer_id peer_type_enum system_time
  | PeerResponse peer_id peer_type_enum u64 u64 system_time

fun data_timestamp :: "diagnostic_data \<Rightarrow> system_time" where
  "data_timestamp (NewPeer p t now) = now"
| "data_timestamp (PeerRequest p t now) = now"
| "data_timestamp (PeerResponse p t r a now) = now"
| "data_timestamp (PeerConnected p t now) = now"

text \<open>The map of a type of peer, as the matches on \<open>peer_type\<close> choose it.\<close>

fun infos_of :: "peer_type_enum \<Rightarrow> diagnostics_collector \<Rightarrow> info_map" where
  "infos_of SeedPeer c = seed_peer_info c"
| "infos_of PrivatePeer c = private_peer_info c"
| "infos_of RelayPeer c = relay_peer_info c"
| "infos_of NonSquadPeer c = non_squad_peer_info c"
| "infos_of Unknown c = unknown_peer_info c"

fun on_info :: "peer_type_enum \<Rightarrow> (info_map \<Rightarrow> info_map) \<Rightarrow> diagnostics_collector \<Rightarrow> diagnostics_collector" where
  "on_info SeedPeer f c = c\<lparr>seed_peer_info := f (seed_peer_info c)\<rparr>"
| "on_info PrivatePeer f c = c\<lparr>private_peer_info := f (private_peer_info c)\<rparr>"
| "on_info RelayPeer f c = c\<lparr>relay_peer_info := f (relay_peer_info c)\<rparr>"
| "on_info NonSquadPeer f c = c\<lparr>non_squad_peer_info := f (non_squad_peer_info c)\<rparr>"
| "on_info Unknown f c = c\<lparr>unknown_peer_info := f (unknown_peer_info c)\<rparr>"

section \<open>Filing a peer under the type it is reported with\<close>

text \<open>The peer is taken out of the map it is in, unless that is the map of the reported type.\<close>

definition take_hydrated ::
    "peer_type_enum \<Rightarrow> string \<Rightarrow> peer_type_enum \<Rightarrow> diagnostics_collector
     \<Rightarrow> diagnostics_collector \<times> diagnostic_peer_info option" where
  "take_hydrated held_as k ptype c =
     (if ptype = held_as then (c, None)
      else (on_info held_as (hm_remove k) c, hm_get (infos_of held_as c) k))"

definition hydrate_and_get_existing ::
    "net_ext \<Rightarrow> peer_id \<Rightarrow> peer_type_enum \<Rightarrow> diagnostics_collector
     \<Rightarrow> diagnostics_collector \<times> peer_type_enum option" where
  "hydrate_and_get_existing n p ptype c =
     (let k = peer_to_base58 n p;
          (c, hydrate_peer) =
            (if hm_contains (unknown_peer_info c) k then take_hydrated Unknown k ptype c
             else if hm_contains (private_peer_info c) k then take_hydrated PrivatePeer k ptype c
             else if hm_contains (seed_peer_info c) k then take_hydrated SeedPeer k ptype c
             else if hm_contains (relay_peer_info c) k then take_hydrated RelayPeer k ptype c
             else if hm_contains (non_squad_peer_info c) k then take_hydrated NonSquadPeer k ptype c
             else (c, None));
          c = (case hydrate_peer of None \<Rightarrow> c | Some peer \<Rightarrow> on_info ptype (hm_insert k peer) c)
      in (c, if hm_contains (private_peer_info c) k then Some PrivatePeer
             else if hm_contains (seed_peer_info c) k then Some SeedPeer
             else if hm_contains (relay_peer_info c) k then Some RelayPeer
             else if hm_contains (non_squad_peer_info c) k then Some NonSquadPeer
             else if hm_contains (unknown_peer_info c) k then Some Unknown
             else None))"

text \<open>Writing through the reference.\<close>

definition update_info ::
    "peer_type_enum \<Rightarrow> string \<Rightarrow> (diagnostic_peer_info \<Rightarrow> diagnostic_peer_info)
     \<Rightarrow> diagnostics_collector \<Rightarrow> diagnostics_collector" where
  "update_info place k f c =
     (case hm_get (infos_of place c) k of
        None \<Rightarrow> c
      | Some peer \<Rightarrow> on_info place (hm_insert k (f peer)) c)"

section \<open>What a report changes\<close>

definition new_info :: "peer_id \<Rightarrow> system_time option \<Rightarrow> diagnostic_peer_info" where
  "new_info p connected_at =
     \<lparr>di_peer_id = p, di_connected_at = connected_at, di_requested_peers_at = None,
      di_number_of_peers_received = None, di_number_of_peers_added = None, di_response_time = None\<rparr>"

definition note_connected :: "system_time \<Rightarrow> diagnostic_peer_info \<Rightarrow> diagnostic_peer_info" where
  "note_connected now peer =
     (if di_connected_at peer = None then peer\<lparr>di_connected_at := Some now\<rparr> else peer)"

definition note_requested :: "system_time \<Rightarrow> diagnostic_peer_info \<Rightarrow> diagnostic_peer_info" where
  "note_requested now peer =
     (if di_requested_peers_at peer = None then peer\<lparr>di_requested_peers_at := Some now\<rparr> else peer)"

definition add_to_number :: "u64 option \<Rightarrow> u64 \<Rightarrow> u64 option" where
  "add_to_number number k = (case number of Some m \<Rightarrow> Some (sat_add m k) | None \<Rightarrow> Some k)"

definition note_response ::
    "system_time \<Rightarrow> u64 \<Rightarrow> u64 \<Rightarrow> diagnostic_peer_info \<Rightarrow> diagnostic_peer_info" where
  "note_response now received added peer =
     (let peer = peer\<lparr>di_number_of_peers_received := add_to_number (di_number_of_peers_received peer) received\<rparr>;
          peer = peer\<lparr>di_number_of_peers_added := add_to_number (di_number_of_peers_added peer) added\<rparr>
      in if di_response_time peer = None
         then peer\<lparr>di_response_time := map_option (\<lambda>requested_at. now - requested_at) (di_requested_peers_at peer)\<rparr>
         else peer)"

definition handle_diagnostic ::
    "net_ext \<Rightarrow> system_time \<Rightarrow> diagnostic_data \<Rightarrow> diagnostics_collector \<Rightarrow> diagnostics_collector" where
  "handle_diagnostic n now data c =
     (case data of
        NewPeer p t timestamp \<Rightarrow>
          (case hydrate_and_get_existing n p t c of
             (c, Some place) \<Rightarrow> c
           | (c, None) \<Rightarrow> on_info t (hm_insert (peer_to_base58 n p) (new_info p None)) c)
      | PeerConnected p t timestamp \<Rightarrow>
          (case hydrate_and_get_existing n p t c of
             (c, Some place) \<Rightarrow> update_info place (peer_to_base58 n p) (note_connected now) c
           | (c, None) \<Rightarrow> on_info t (hm_insert (peer_to_base58 n p) (new_info p (Some now))) c)
      | PeerRequest p t timestamp \<Rightarrow>
          (case hydrate_and_get_existing n p t c of
             (c, Some place) \<Rightarrow> update_info place (peer_to_base58 n p) (note_requested now) c
           | (c, None) \<Rightarrow> c)
      | PeerResponse p t received added timestamp \<Rightarrow>
          (case hydrate_and_get_existing n p t c of
             (c, Some place) \<Rightarrow> update_info place (peer_to_base58 n p) (note_response now received added) c
           | (c, None) \<Rightarrow> c))"

section \<open>The loop of the collector\<close>

text \<open>
  What a round of the loop receives: a request with its reply channel, a report of the service,
  or an error of the broadcast channel (reports were overwritten before they were read). The
  timer only writes a log line. A request never changes the state.
\<close>

datatype diagnostic_request = GetPeerInfo peer_type_enum | GetConnectedPeersOf peer_type_enum

datatype diagnostic_reply = PeerInfoReply info_map | ConnectedPeersReply "peer_id list"

definition answer_diagnostic :: "diagnostic_request \<Rightarrow> diagnostics_collector \<Rightarrow> diagnostic_reply" where
  "answer_diagnostic request c =
     (case request of
        GetPeerInfo ptype \<Rightarrow> PeerInfoReply (infos_of ptype c)
      | GetConnectedPeersOf ptype \<Rightarrow>
          ConnectedPeersReply (map di_peer_id
            (filter (\<lambda>p. di_connected_at p \<noteq> None) (hm_values (infos_of ptype c)))))"

datatype collector_event = Request diagnostic_request | Report diagnostic_data | Lagged

definition collector_handles ::
    "net_ext \<Rightarrow> system_time \<times> collector_event \<Rightarrow> diagnostics_collector \<Rightarrow> diagnostics_collector" where
  "collector_handles n e c =
     (case e of
        (now, Report data) \<Rightarrow>
          let c = (if first_data_received c = None
                   then c\<lparr>first_data_received := Some (data_timestamp data)\<rparr> else c)
          in handle_diagnostic n now data c
      | (now, _) \<Rightarrow> c)"

definition collector_after ::
    "net_ext \<Rightarrow> (system_time \<times> collector_event) list \<Rightarrow> diagnostics_collector" where
  "collector_after n events = fold (collector_handles n) events diagnostics_collector_new"

end
