(* ===== verification/NetDiagnostic.thy ===== *)
theory NetDiagnostic
  imports NetStart Diagnostics
begin

text \<open>
  The main loop of the diagnostic mode, \<open>main_loop_diagnostic_mode\<close> in
  \<open>server/p2p/network.rs\<close>: the state machine that connects to seed peers, private peers and
  relays in turn and waits for their answers, the summary it ends with, and the reports that the
  handlers of the service send to the diagnostics collector.

  The two clients of the collector are the queue of the broadcast channel and the collector at
  the time it answers, \<open>None\<close> once its task has ended. The JSON file is not modelled: its
  numbers are the \<open>summary\<close>. An \<open>Instant\<close> or time difference is read once per round.
\<close>

section \<open>Reports of the handlers\<close>

definition report_new_peer :: "system_time \<Rightarrow> peer_id \<Rightarrow> peer_type_enum \<Rightarrow> diagnostic_data" where
  "report_new_peer now p t = NewPeer p t now"

definition report_exchange_request :: "system_time \<Rightarrow> peer_id \<Rightarrow> peer_type_enum \<Rightarrow> diagnostic_data" where
  "report_exchange_request now p t = PeerRequest p t now"

definition report_peer_response ::
    "system_time \<Rightarrow> peer_id \<Rightarrow> u64 \<Rightarrow> u64 \<Rightarrow> peer_type_enum \<Rightarrow> diagnostic_data" where
  "report_peer_response now p received added t = PeerResponse p t received added now"

definition report_peer_connected :: "system_time \<Rightarrow> peer_id \<Rightarrow> peer_type_enum \<Rightarrow> diagnostic_data" where
  "report_peer_connected now p t = PeerConnected p t now"

text \<open>What \<open>initiate_direct_peer_exchange\<close> reports.\<close>

definition exchange_reports :: "'l world \<Rightarrow> system_time \<Rightarrow> peer_id \<Rightarrow> 'l service \<Rightarrow> diagnostic_data list" where
  "exchange_reports w now peer s =
     (if peer = local_peer_id s then []
      else [report_exchange_request now peer (service_peer_type w peer s)])"

text \<open>
  What \<open>handle_direct_peer_exchange_response\<close> reports: the answer, and the next request if
  there were peers to add.
\<close>

definition exchange_response_reports ::
    "'l world \<Rightarrow> clock \<Rightarrow> system_time \<Rightarrow> direct_peer_info_response \<Rightarrow> 'l service \<Rightarrow> diagnostic_data list" where
  "exchange_response_reports w t now response s =
     (case peer_from_str (w_net w) (dps_peer_id response) of
        None \<Rightarrow> []
      | Some p \<Rightarrow>
          if pi_version (dps_info response) \<noteq> PROTOCOL_VERSION then []
          else
            (case add_received_peers w t (dps_best_peers response) s of
               (s, num_peers_added) \<Rightarrow>
                 report_peer_response now p (of_nat (length (dps_best_peers response)))
                   (of_nat num_peers_added) (service_peer_type w p s)
                 # (if cfg_is_seed_peer (sv_config s) \<or> num_peers_added = 0 then []
                    else exchange_reports w now p s)))"

text \<open>What \<open>handle_event\<close> reports when the connection to a peer is there.\<close>

definition connection_reports ::
    "'l world \<Rightarrow> clock \<Rightarrow> system_time \<Rightarrow> peer_id \<Rightarrow> bool \<Rightarrow> 'l service \<Rightarrow> diagnostic_data list" where
  "connection_reports w t now peer is_dialer s =
     (if is_blacklisted (w_net w) (sv_peer_store s) peer then []
      else report_peer_connected now peer (service_peer_type w peer s) # exchange_reports w now peer s)"

definition event_reports ::
    "'l world \<Rightarrow> clock \<Rightarrow> system_time \<Rightarrow> swarm_event \<Rightarrow> 'l service \<Rightarrow> diagnostic_data list" where
  "event_reports w t now event s =
     (case event of
        ConnectionEstablished peer is_dialer \<Rightarrow> connection_reports w t now peer is_dialer s
      | DirectPeerResponseReceived (Inr response) \<Rightarrow> exchange_response_reports w t now response s
      | _ \<Rightarrow> [])"

section \<open>The state machine\<close>

datatype diagnostic_state =
    ConnectToSeedPeers
  | WaitForSeedPeersDownload
  | ConnectToPrivatePeers
  | WaitForPrivatePeersDownload
  | ConnectToRelayPeers
  | WaitForRelayPeersDownload
  | DiagnosticsDone

definition CONNECT_INITIAL_WAIT :: duration where "CONNECT_INITIAL_WAIT = from_secs 20"
definition CONNECT_TIMEOUT :: duration where "CONNECT_TIMEOUT = from_secs 60"
definition RESPONSE_TIMEOUT :: duration where "RESPONSE_TIMEOUT = from_secs 150"

fun success_next_state :: "diagnostic_state \<Rightarrow> diagnostic_state" where
  "success_next_state ConnectToSeedPeers = WaitForSeedPeersDownload"
| "success_next_state WaitForSeedPeersDownload = ConnectToPrivatePeers"
| "success_next_state ConnectToPrivatePeers = WaitForPrivatePeersDownload"
| "success_next_state WaitForPrivatePeersDownload = ConnectToRelayPeers"
| "success_next_state ConnectToRelayPeers = WaitForRelayPeersDownload"
| "success_next_state WaitForRelayPeersDownload = DiagnosticsDone"
| "success_next_state DiagnosticsDone = DiagnosticsDone"

fun failed_next_state :: "diagnostic_state \<Rightarrow> diagnostic_state" where
  "failed_next_state ConnectToSeedPeers = DiagnosticsDone"
| "failed_next_state WaitForSeedPeersDownload = DiagnosticsDone"
| "failed_next_state ConnectToPrivatePeers = ConnectToRelayPeers"
| "failed_next_state WaitForPrivatePeersDownload = ConnectToRelayPeers"
| "failed_next_state ConnectToRelayPeers = DiagnosticsDone"
| "failed_next_state WaitForRelayPeersDownload = DiagnosticsDone"
| "failed_next_state DiagnosticsDone = DiagnosticsDone"

section \<open>The summary\<close>

text \<open>
  \<open>sort_by\<close> is stable: the order by the second criterion, then by the first. \<open>None\<close> is less
  than any number or time; the numbers go down, the times go up.
\<close>

definition received_key :: "diagnostic_peer_info \<Rightarrow> int" where
  "received_key p = (case di_number_of_peers_received p of None \<Rightarrow> 0 | Some r \<Rightarrow> - 1 - int (unat r))"

definition connected_key :: "diagnostic_peer_info \<Rightarrow> nat" where
  "connected_key p = (case di_connected_at p of None \<Rightarrow> 0 | Some time \<Rightarrow> Suc time)"

definition first_ten :: "diagnostic_peer_info list \<Rightarrow> diagnostic_peer_info list" where
  "first_ten ps = take 10 (sort_key received_key (sort_key connected_key ps))"

record peers_summary =
  ps_connect :: bool
  ps_connected :: nat
  ps_responded :: nat
  ps_received :: u64
  ps_added :: u64

definition sum_usize :: "u64 list \<Rightarrow> ('e, u64) outcome" where
  "sum_usize ns = foldO (\<lambda>k acc. add_chk acc k) ns 0"

definition summarize :: "diagnostic_peer_info list \<Rightarrow> ('e, peers_summary) outcome" where
  "summarize ps =
     bindO (sum_usize (map (\<lambda>p. opt_or (di_number_of_peers_received p) 0) ps)) (\<lambda>received.
     bindO (sum_usize (map (\<lambda>p. opt_or (di_number_of_peers_added p) 0) ps)) (\<lambda>added.
       Ok \<lparr>ps_connect = list_ex (\<lambda>p. di_connected_at p \<noteq> None) ps,
           ps_connected = length (filter (\<lambda>p. di_connected_at p \<noteq> None) ps),
           ps_responded = length (filter (\<lambda>p. di_response_time p \<noteq> None) ps),
           ps_received = received, ps_added = added\<rparr>))"

section \<open>State of the loop and its questions to the collector\<close>

text \<open>
  \<open>dr_reports\<close> is the broadcast channel, \<open>dr_collector\<close> the task that reads it, \<open>dr_written\<close>
  the summaries of seed peers, relays and private peers last written to the file.
\<close>

record 'l diagnostic_run =
  dr_state :: diagnostic_state
  dr_start :: instant
  dr_dialed_seed_peers :: "peer_id list"
  dr_dialed_private_peers :: "peer_id list"
  dr_dialed_relay_peers :: "peer_id list"
  dr_service :: "'l service"
  dr_reports :: "diagnostic_data list"
  dr_collector :: "diagnostics_collector option"
  dr_written :: "(peers_summary \<times> peers_summary \<times> peers_summary) option"
  dr_shutdown :: bool

text \<open>The start of the loop needs both clients of the collector.\<close>

definition diagnostic_loop_start ::
    "clock \<Rightarrow> bool \<Rightarrow> bool \<Rightarrow> diagnostics_collector option \<Rightarrow> 'l service
     \<Rightarrow> (start_error, 'l diagnostic_run) outcome" where
  "diagnostic_loop_start t has_broadcast_client has_receiver_client collector s =
     (if \<not> has_broadcast_client then Err NoBroadcastClient
      else if \<not> has_receiver_client then Err NoReceiverClient
      else Ok \<lparr>dr_state = ConnectToSeedPeers, dr_start = c_instant t, dr_dialed_seed_peers = [],
              dr_dialed_private_peers = [], dr_dialed_relay_peers = [], dr_service = s,
              dr_reports = [], dr_collector = collector, dr_written = None, dr_shutdown = False\<rparr>)"

definition get_connected_peers :: "diagnostics_collector option \<Rightarrow> peer_type_enum \<Rightarrow> peer_id list option" where
  "get_connected_peers collector t =
     (case collector of
        None \<Rightarrow> None
      | Some c \<Rightarrow>
          (case answer_diagnostic (GetConnectedPeersOf t) c of
             ConnectedPeersReply ps \<Rightarrow> Some ps
           | PeerInfoReply _ \<Rightarrow> None))"

definition get_peer_diagnostic_info :: "diagnostics_collector option \<Rightarrow> peer_type_enum \<Rightarrow> info_map option" where
  "get_peer_diagnostic_info collector t =
     (case collector of
        None \<Rightarrow> None
      | Some c \<Rightarrow>
          (case answer_diagnostic (GetPeerInfo t) c of
             PeerInfoReply m \<Rightarrow> Some m
           | ConnectedPeersReply _ \<Rightarrow> None))"

definition on_service :: "('l service \<Rightarrow> 'l service) \<Rightarrow> 'l diagnostic_run \<Rightarrow> 'l diagnostic_run" where
  "on_service f r = r\<lparr>dr_service := f (dr_service r)\<rparr>"

definition send_report :: "diagnostic_data \<Rightarrow> 'l diagnostic_run \<Rightarrow> 'l diagnostic_run" where
  "send_report d r = r\<lparr>dr_reports := dr_reports r @ [d]\<rparr>"

definition move_on :: "clock \<Rightarrow> diagnostic_state \<Rightarrow> 'l diagnostic_run \<Rightarrow> 'l diagnostic_run" where
  "move_on t next_state r = r\<lparr>dr_state := next_state, dr_start := c_instant t\<rparr>"

definition time_in_state :: "clock \<Rightarrow> 'l diagnostic_run \<Rightarrow> duration" where
  "time_in_state t r = c_instant t - dr_start r"

section \<open>The states\<close>

definition dial_seed ::
    "system_time \<Rightarrow> (peer_id \<Rightarrow> bool) \<Rightarrow> peer_id \<times> multiaddr \<Rightarrow> 'l diagnostic_run \<Rightarrow> 'l diagnostic_run" where
  "dial_seed now dial = (\<lambda>(peer, addr) r.
     let r = on_service (act (AddPeerAddress peer addr)) r;
         r = on_service (act (DialPeer peer [])) r;
         r = (if dial peer then send_report (report_new_peer now peer SeedPeer) r else r)
     in r\<lparr>dr_dialed_seed_peers := dr_dialed_seed_peers r @ [peer]\<rparr>)"

definition dial_seeds_once ::
    "'l world \<Rightarrow> seed_ext \<Rightarrow> system_time \<Rightarrow> (peer_id \<Rightarrow> bool) \<Rightarrow> 'l diagnostic_run
     \<Rightarrow> 'l diagnostic_run \<times> (start_error, unit) outcome" where
  "dial_seeds_once w e now dial r =
     (if dr_dialed_seed_peers r \<noteq> [] then (r, Ok ())
      else bindS (r, parse_seed_peers w e (dr_service r)) (\<lambda>r seed_peers.
        let r = on_service (on_peers (add_seed_peers (hm_keys seed_peers))) r
        in (fold (dial_seed now dial) seed_peers r, Ok ())))"

definition seeds_connected :: "clock \<Rightarrow> 'l diagnostic_run \<Rightarrow> 'l diagnostic_run" where
  "seeds_connected t r =
     (case get_connected_peers (dr_collector r) SeedPeer of
        None \<Rightarrow> r
      | Some seeds \<Rightarrow>
          if CONNECT_INITIAL_WAIT < time_in_state t r \<and> seeds \<noteq> [] then move_on t (success_next_state (dr_state r)) r
          else if CONNECT_TIMEOUT < time_in_state t r then move_on t (failed_next_state (dr_state r)) r
          else r)"

definition seen_seeds :: "info_map option \<Rightarrow> bool \<times> nat" where
  "seen_seeds seeds_data =
     (case seeds_data of
        None \<Rightarrow> (True, 0)
      | Some m \<Rightarrow> fold (\<lambda>(k, d) (seen_all, seen_count).
            if di_response_time d = None then (False, seen_count) else (seen_all, Suc seen_count)) m (True, 0))"

definition wait_for_seeds :: "clock \<Rightarrow> 'l diagnostic_run \<Rightarrow> 'l diagnostic_run" where
  "wait_for_seeds t r =
     (case seen_seeds (get_peer_diagnostic_info (dr_collector r) SeedPeer) of
        (seen_all, seen_count) \<Rightarrow>
          if seen_all then move_on t (success_next_state (dr_state r)) r
          else if RESPONSE_TIMEOUT < time_in_state t r \<and> 0 < seen_count
          then move_on t (success_next_state (dr_state r)) r
          else if RESPONSE_TIMEOUT < time_in_state t r then move_on t (failed_next_state (dr_state r)) r
          else r)"

text \<open>A private peer counts as dialled when the swarm took the request, a relay in any case.\<close>

definition dial_private ::
    "'l world \<Rightarrow> system_time \<Rightarrow> (peer_id \<Rightarrow> bool) \<Rightarrow> peer_store_record \<Rightarrow> 'l diagnostic_run \<Rightarrow> 'l diagnostic_run" where
  "dial_private w now dial record r =
     (let p = pr_peer_id record;
          r = on_service (act (DialPeer p (public_addresses (w_net w) (pr_peer_info record)))) r
      in if dial p
         then (send_report (report_new_peer now p PrivatePeer) r)
                \<lparr>dr_dialed_private_peers := dr_dialed_private_peers r @ [p]\<rparr>
         else r)"

definition dial_relay ::
    "'l world \<Rightarrow> system_time \<Rightarrow> (peer_id \<Rightarrow> bool) \<Rightarrow> peer_store_record \<Rightarrow> 'l diagnostic_run \<Rightarrow> 'l diagnostic_run" where
  "dial_relay w now dial record r =
     (let p = pr_peer_id record;
          r = on_service (act (DialPeer p (public_addresses (w_net w) (pr_peer_info record)))) r;
          r = (if dial p then send_report (report_new_peer now p RelayPeer) r else r)
      in r\<lparr>dr_dialed_relay_peers := dr_dialed_relay_peers r @ [p]\<rparr>)"

definition select_records ::
    "clock \<Rightarrow> (peer_store_record list \<Rightarrow> peer_store_record list) \<Rightarrow> peer_id list \<Rightarrow> bool \<Rightarrow> 'l diagnostic_run
     \<Rightarrow> peer_store_record list" where
  "select_records t shuffle dialed relay r =
     filter (\<lambda>x. pr_peer_id x \<notin> set dialed)
       (take 50 (shuffle (get_same_squad_peer_records t (dr_dialed_seed_peers r) relay (dr_service r))))"

definition some_connected :: "clock \<Rightarrow> peer_type_enum \<Rightarrow> 'l diagnostic_run \<Rightarrow> 'l diagnostic_run" where
  "some_connected t kind r =
     (case get_connected_peers (dr_collector r) kind of
        None \<Rightarrow> r
      | Some peers \<Rightarrow>
          if 10 \<le> length peers \<or> (CONNECT_TIMEOUT < time_in_state t r \<and> peers \<noteq> [])
          then move_on t (success_next_state (dr_state r)) r
          else if CONNECT_TIMEOUT < time_in_state t r \<and> peers = [] then move_on t (failed_next_state (dr_state r)) r
          else r)"

definition seen_some :: "info_map option \<Rightarrow> nat" where
  "seen_some peers_data =
     (case peers_data of
        None \<Rightarrow> 0
      | Some m \<Rightarrow> fold (\<lambda>(k, d) seen_count. if di_response_time d \<noteq> None then Suc seen_count else seen_count) m 0)"

definition wait_for_some :: "clock \<Rightarrow> peer_type_enum \<Rightarrow> 'l diagnostic_run \<Rightarrow> 'l diagnostic_run" where
  "wait_for_some t kind r =
     (let seen_count = seen_some (get_peer_diagnostic_info (dr_collector r) kind)
      in if 5 \<le> seen_count then move_on t (success_next_state (dr_state r)) r
         else if RESPONSE_TIMEOUT < time_in_state t r \<and> 0 < seen_count
         then move_on t (success_next_state (dr_state r)) r
         else if RESPONSE_TIMEOUT < time_in_state t r then move_on t (failed_next_state (dr_state r)) r
         else r)"

definition top_peers :: "'l diagnostic_run \<Rightarrow> peer_type_enum \<Rightarrow> diagnostic_peer_info list" where
  "top_peers r kind = first_ten (hm_values (opt_or (get_peer_diagnostic_info (dr_collector r) kind) []))"

definition write_results :: "'l diagnostic_run \<Rightarrow> 'l diagnostic_run \<times> (start_error, unit) outcome" where
  "write_results r =
     bindS (r, summarize (top_peers r SeedPeer)) (\<lambda>r seeds.
     bindS (r, summarize (top_peers r RelayPeer)) (\<lambda>r relays.
     bindS (r, summarize (top_peers r PrivatePeer)) (\<lambda>r privates.
       (r\<lparr>dr_written := Some (seeds, relays, privates), dr_shutdown := True\<rparr>, Ok ()))))"

definition diagnostic_tick ::
    "'l world \<Rightarrow> seed_ext \<Rightarrow> clock \<Rightarrow> system_time \<Rightarrow> (peer_id \<Rightarrow> bool)
     \<Rightarrow> (peer_store_record list \<Rightarrow> peer_store_record list) \<Rightarrow> 'l diagnostic_run
     \<Rightarrow> 'l diagnostic_run \<times> (start_error, unit) outcome" where
  "diagnostic_tick w e t now dial shuffle r =
     (case dr_state r of
        ConnectToSeedPeers \<Rightarrow>
          bindS (dial_seeds_once w e now dial r) (\<lambda>r _. (seeds_connected t r, Ok ()))
      | WaitForSeedPeersDownload \<Rightarrow> (wait_for_seeds t r, Ok ())
      | ConnectToPrivatePeers \<Rightarrow>
          (some_connected t PrivatePeer
             (fold (dial_private w now dial)
                (select_records t shuffle (dr_dialed_private_peers r) False r) r), Ok ())
      | WaitForPrivatePeersDownload \<Rightarrow> (wait_for_some t PrivatePeer r, Ok ())
      | ConnectToRelayPeers \<Rightarrow>
          (some_connected t RelayPeer
             (fold (dial_relay w now dial)
                (select_records t shuffle (dr_dialed_relay_peers r) True r) r), Ok ())
      | WaitForRelayPeersDownload \<Rightarrow> (wait_for_some t RelayPeer r, Ok ())
      | DiagnosticsDone \<Rightarrow> write_results r)"

section \<open>Rounds of the loop and of the collector\<close>

fun ignored_event :: "swarm_event \<Rightarrow> bool" where
  "ignored_event (GossipMessage m i p) \<longleftrightarrow> True"
| "ignored_event (GossipSubscribed p) \<longleftrightarrow> True"
| "ignored_event (MetaDataRequestReceived c q) \<longleftrightarrow> True"
| "ignored_event (MetaDataResponseReceived a) \<longleftrightarrow> True"
| "ignored_event (SyncRequestReceived c q) \<longleftrightarrow> True"
| "ignored_event (SyncResponseReceived p i a) \<longleftrightarrow> True"
| "ignored_event (SyncOutboundFailure p f i) \<longleftrightarrow> True"
| "ignored_event (CatchUpRequestReceived c q) \<longleftrightarrow> True"
| "ignored_event (CatchUpResponseReceived p i a) \<longleftrightarrow> True"
| "ignored_event (CatchUpOutboundFailure p f i) \<longleftrightarrow> True"
| "ignored_event _ \<longleftrightarrow> False"

text \<open>
  \<open>SwarmEvent::Dialing\<close> only reports. The collector reads the oldest report; when it lags
  behind, the channel has dropped the oldest one.
\<close>

datatype diagnostic_input =
    DiagnosticTick "peer_id \<Rightarrow> bool" "peer_store_record list \<Rightarrow> peer_store_record list"
  | DiagnosticEvent swarm_event
  | DialingEvent "peer_id option"
  | DiagnosticStatsTick
  | CollectorReceives
  | CollectorLags
  | CollectorStops

definition diagnostic_event ::
    "'l world \<Rightarrow> (outbound_failure \<Rightarrow> string) \<Rightarrow> clock \<Rightarrow> system_time \<Rightarrow> swarm_event \<Rightarrow> 'l diagnostic_run
     \<Rightarrow> 'l diagnostic_run \<times> (start_error, unit) outcome" where
  "diagnostic_event w show_failure t now event r =
     (if ignored_event event then (r, Ok ())
      else
        let reports = event_reports w t now event (dr_service r);
            (s, res) = handle_event w show_failure t event (dr_service r);
            r = r\<lparr>dr_service := s, dr_reports := dr_reports r @ reports\<rparr>
        in (r, case res of Ok _ \<Rightarrow> Ok () | Err _ \<Rightarrow> Ok () | Panic \<Rightarrow> Panic | Diverge \<Rightarrow> Diverge))"

definition dialing_reports :: "'l world \<Rightarrow> system_time \<Rightarrow> peer_id option \<Rightarrow> 'l service \<Rightarrow> diagnostic_data list" where
  "dialing_reports w now peer s =
     (case peer of Some p \<Rightarrow> [report_new_peer now p (service_peer_type w p s)] | None \<Rightarrow> [])"

definition collector_receives :: "'l world \<Rightarrow> system_time \<Rightarrow> bool \<Rightarrow> 'l diagnostic_run \<Rightarrow> 'l diagnostic_run" where
  "collector_receives w now lags r =
     (case (dr_collector r, dr_reports r) of
        (Some c, d # ds) \<Rightarrow>
          r\<lparr>dr_collector := Some (collector_handles (w_net w) (now, if lags then Lagged else Report d) c),
            dr_reports := ds\<rparr>
      | _ \<Rightarrow> r)"

definition diagnostic_round ::
    "'l world \<Rightarrow> (outbound_failure \<Rightarrow> string) \<Rightarrow> seed_ext \<Rightarrow> clock \<times> system_time \<times> diagnostic_input
     \<Rightarrow> 'l diagnostic_run \<Rightarrow> 'l diagnostic_run \<times> (start_error, unit) outcome" where
  "diagnostic_round w show_failure e = (\<lambda>(t, now, inp) r.
     case inp of
       DiagnosticTick dial shuffle \<Rightarrow> diagnostic_tick w e t now dial shuffle r
     | DiagnosticEvent event \<Rightarrow> diagnostic_event w show_failure t now event r
     | DialingEvent peer \<Rightarrow>
         (r\<lparr>dr_reports := dr_reports r @ dialing_reports w now peer (dr_service r)\<rparr>, Ok ())
     | DiagnosticStatsTick \<Rightarrow>
         (on_service (\<lambda>s. act (SendLibp2pStats (ci_counters (get_libp2p_connection_info s))) s) r, Ok ())
     | CollectorReceives \<Rightarrow> (collector_receives w now False r, Ok ())
     | CollectorLags \<Rightarrow> (collector_receives w now True r, Ok ())
     | CollectorStops \<Rightarrow> (r\<lparr>dr_collector := None\<rparr>, Ok ()))"

fun diagnostic_rounds ::
    "'l world \<Rightarrow> (outbound_failure \<Rightarrow> string) \<Rightarrow> seed_ext \<Rightarrow> (clock \<times> system_time \<times> diagnostic_input) list
     \<Rightarrow> 'l diagnostic_run \<Rightarrow> 'l diagnostic_run \<times> (start_error, unit) outcome" where
  "diagnostic_rounds w show_failure e [] r = (r, Ok ())"
| "diagnostic_rounds w show_failure e (inp # inputs) r =
     bindS (diagnostic_round w show_failure e inp r) (\<lambda>r _. diagnostic_rounds w show_failure e inputs r)"

end
