(* ===== verification/DiagnosticsCorrect.thy ===== *)
theory DiagnosticsCorrect
  imports Diagnostics
begin

text \<open>
  The diagnostics collector keeps the history of the reports: what it holds of a peer, and under
  which type, is a function of the reports about this peer.
\<close>

section \<open>Moving a peer\<close>

lemma infos_of_on_info [simp]:
  "infos_of t (on_info t' f c) = (if t = t' then f (infos_of t c) else infos_of t c)"
  by (cases t; cases t'; simp)

lemma infos_of_first [simp]: "infos_of t (c\<lparr>first_data_received := x\<rparr>) = infos_of t c"
  by (cases t; simp)

lemma infos_of_new [simp]: "infos_of t diagnostics_collector_new = []"
  by (cases t; simp add: diagnostics_collector_new_def)

text \<open>No peer is in two maps.\<close>

definition filed_once :: "diagnostics_collector \<Rightarrow> bool" where
  "filed_once c \<longleftrightarrow> (\<forall>t t' k. hm_get (infos_of t c) k \<noteq> None \<longrightarrow> hm_get (infos_of t' c) k \<noteq> None \<longrightarrow> t = t')"

lemma filed_onceD:
  "filed_once c \<Longrightarrow> hm_get (infos_of t c) k = Some i \<Longrightarrow> t' \<noteq> t \<Longrightarrow> hm_get (infos_of t' c) k = None"
  unfolding filed_once_def by (metis option.distinct(1) option.exhaust)

definition refiled :: "peer_type_enum \<Rightarrow> peer_type_enum \<Rightarrow> string \<Rightarrow> diagnostic_peer_info
    \<Rightarrow> diagnostics_collector \<Rightarrow> diagnostics_collector" where
  "refiled t0 t k i c = (if t = t0 then c else on_info t (hm_insert k i) (on_info t0 (hm_remove k) c))"

lemma hydrate_unknown_peer:
  assumes "\<And>t'. hm_get (infos_of t' c) (peer_to_base58 n p) = None"
  shows "hydrate_and_get_existing n p t c = (c, None)"
  using assms [of Unknown] assms [of PrivatePeer] assms [of SeedPeer] assms [of RelayPeer]
    assms [of NonSquadPeer]
  by (simp add: hydrate_and_get_existing_def hm_contains_def)

lemma hydrate_known_peer:
  assumes once: "filed_once c" and held: "hm_get (infos_of t0 c) (peer_to_base58 n p) = Some i"
  shows "hydrate_and_get_existing n p t c = (refiled t0 t (peer_to_base58 n p) i c, Some t)"
proof -
  have other: "hm_get (infos_of t' c) (peer_to_base58 n p) = (if t' = t0 then Some i else None)" for t'
    using filed_onceD [OF once held] held by auto
  show ?thesis
    using other [of Unknown] other [of PrivatePeer] other [of SeedPeer] other [of RelayPeer]
      other [of NonSquadPeer]
    by (cases t0; cases t)
      (simp_all add: hydrate_and_get_existing_def hm_contains_def take_hydrated_def refiled_def Let_def)
qed

lemma infos_of_refiled:
  assumes "filed_once c" and "hm_get (infos_of t0 c) k = Some i"
  shows "hm_get (infos_of t' (refiled t0 t k i c)) k'
    = (if k' = k then (if t' = t then Some i else None) else hm_get (infos_of t' c) k')"
  using filed_onceD [OF assms] assms(2) by (auto simp: refiled_def)

section \<open>What the reports about a peer amount to\<close>

fun data_peer :: "diagnostic_data \<Rightarrow> peer_id" where
  "data_peer (NewPeer p t ts) = p"
| "data_peer (PeerConnected p t ts) = p"
| "data_peer (PeerRequest p t ts) = p"
| "data_peer (PeerResponse p t r a ts) = p"

fun data_type :: "diagnostic_data \<Rightarrow> peer_type_enum" where
  "data_type (NewPeer p t ts) = t"
| "data_type (PeerConnected p t ts) = t"
| "data_type (PeerRequest p t ts) = t"
| "data_type (PeerResponse p t r a ts) = t"

text \<open>The reports that introduce a peer, that it is connected, and how many peers it sent.\<close>

fun introduces :: "diagnostic_data \<Rightarrow> bool" where
  "introduces (NewPeer p t ts) \<longleftrightarrow> True"
| "introduces (PeerConnected p t ts) \<longleftrightarrow> True"
| "introduces _ \<longleftrightarrow> False"

fun reports_connection :: "diagnostic_data \<Rightarrow> bool" where
  "reports_connection (PeerConnected p t ts) \<longleftrightarrow> True"
| "reports_connection _ \<longleftrightarrow> False"

fun received_in :: "diagnostic_data \<Rightarrow> u64 option \<Rightarrow> u64 option" where
  "received_in (PeerResponse p t r a ts) m = add_to_number m r"
| "received_in _ m = m"

definition about :: "net_ext \<Rightarrow> string \<Rightarrow> diagnostic_data \<Rightarrow> bool" where
  "about n k d \<longleftrightarrow> peer_to_base58 n (data_peer d) = k"

definition known_in :: "net_ext \<Rightarrow> diagnostic_data list \<Rightarrow> string \<Rightarrow> bool" where
  "known_in n ds k \<longleftrightarrow> (\<exists>d\<in>set ds. about n k d \<and> introduces d)"

definition connected_in :: "net_ext \<Rightarrow> diagnostic_data list \<Rightarrow> string \<Rightarrow> bool" where
  "connected_in n ds k \<longleftrightarrow> (\<exists>d\<in>set ds. about n k d \<and> reports_connection d)"

definition last_type :: "net_ext \<Rightarrow> diagnostic_data list \<Rightarrow> string \<Rightarrow> peer_type_enum" where
  "last_type n ds k = data_type (last (filter (about n k) ds))"

definition silent :: "net_ext \<Rightarrow> string \<Rightarrow> diagnostic_data \<Rightarrow> bool" where
  "silent n k d \<longleftrightarrow> \<not> (about n k d \<and> introduces d)"

definition received_total :: "net_ext \<Rightarrow> diagnostic_data list \<Rightarrow> string \<Rightarrow> u64 option" where
  "received_total n ds k =
     fold received_in (filter (about n k) (dropWhile (silent n k) ds)) None"

lemma known_in_snoc: "known_in n (ds @ [d]) k \<longleftrightarrow> known_in n ds k \<or> (about n k d \<and> introduces d)"
  by (auto simp: known_in_def)

lemma connected_in_snoc:
  "connected_in n (ds @ [d]) k \<longleftrightarrow> connected_in n ds k \<or> (about n k d \<and> reports_connection d)"
  by (auto simp: connected_in_def)

lemma connected_known: "connected_in n ds k \<Longrightarrow> known_in n ds k"
  unfolding connected_in_def known_in_def by (metis introduces.simps(2) reports_connection.elims(2))

lemma last_type_snoc: "last_type n (ds @ [d]) k = (if about n k d then data_type d else last_type n ds k)"
  by (simp add: last_type_def)

lemma received_total_unknown: "\<not> known_in n ds k \<Longrightarrow> received_total n ds k = None"
proof -
  assume "\<not> known_in n ds k"
  then have "\<forall>x\<in>set ds. silent n k x" by (auto simp: known_in_def silent_def)
  then have "dropWhile (silent n k) ds = []" by simp
  then show ?thesis by (simp add: received_total_def del: dropWhile_eq_Nil_conv)
qed

lemma received_total_snoc:
  "received_total n (ds @ [d]) k
    = (if known_in n ds k \<and> about n k d then received_in d (received_total n ds k)
       else received_total n ds k)"
proof (cases "known_in n ds k")
  case True
  then obtain x where "x \<in> set ds" "\<not> silent n k x" by (auto simp: known_in_def silent_def)
  then have "dropWhile (silent n k) (ds @ [d]) = dropWhile (silent n k) ds @ [d]"
    by (rule dropWhile_append1)
  then show ?thesis using True by (simp add: received_total_def)
next
  case False
  then have "\<forall>x\<in>set ds. silent n k x" by (auto simp: known_in_def silent_def)
  then have "dropWhile (silent n k) (ds @ [d]) = dropWhile (silent n k) [d]" "dropWhile (silent n k) ds = []"
    by (auto simp: dropWhile_append2 dropWhile_eq_Nil_conv simp del: dropWhile.simps)
  moreover have "\<not> silent n k d \<Longrightarrow> received_in d None = None" by (cases d) (auto simp: silent_def)
  ultimately show ?thesis using False received_total_unknown [OF False] by (simp add: received_total_def)
qed

section \<open>One report\<close>

definition info_change :: "system_time \<Rightarrow> diagnostic_data \<Rightarrow> diagnostic_peer_info \<Rightarrow> diagnostic_peer_info" where
  "info_change now d i =
     (case d of NewPeer p t ts \<Rightarrow> i | PeerConnected p t ts \<Rightarrow> note_connected now i
      | PeerRequest p t ts \<Rightarrow> note_requested now i | PeerResponse p t r a ts \<Rightarrow> note_response now r a i)"

lemma info_change_simps [simp]:
  "di_peer_id (info_change now d i) = di_peer_id i"
  "di_connected_at (info_change now d i) = None \<longleftrightarrow> di_connected_at i = None \<and> \<not> reports_connection d"
  "di_number_of_peers_received (info_change now d i) = received_in d (di_number_of_peers_received i)"
  by (cases d; simp add: info_change_def note_connected_def note_requested_def note_response_def Let_def)+

lemma handle_known:
  assumes "filed_once c" and "hm_get (infos_of t0 c) (peer_to_base58 n (data_peer d)) = Some i"
  shows "hm_get (infos_of t (handle_diagnostic n now d c)) k
    = (if about n k d then (if t = data_type d then Some (info_change now d i) else None)
       else hm_get (infos_of t c) k)"
  using assms infos_of_refiled [OF assms]
  by (cases d) (auto simp: handle_diagnostic_def hydrate_known_peer update_info_def about_def info_change_def)

lemma handle_unknown:
  assumes "\<And>t'. hm_get (infos_of t' c) (peer_to_base58 n (data_peer d)) = None"
  shows "hm_get (infos_of t (handle_diagnostic n now d c)) k
    = (if about n k d \<and> introduces d \<and> t = data_type d
       then Some (new_info (data_peer d) (if reports_connection d then Some now else None))
       else hm_get (infos_of t c) k)"
  using assms by (cases d) (auto simp: handle_diagnostic_def hydrate_unknown_peer about_def)

lemma on_info_ok:
  assumes "\<And>t. hm_ok (infos_of t c)" and "\<And>m. hm_ok m \<Longrightarrow> hm_ok (f m)"
  shows "hm_ok (infos_of t (on_info t' f c))"
  using assms by simp

lemma handle_ok:
  assumes once: "filed_once c" and ok: "\<And>t. hm_ok (infos_of t c)"
  shows "hm_ok (infos_of t (handle_diagnostic n now d c))"
proof (cases "\<exists>t0 i. hm_get (infos_of t0 c) (peer_to_base58 n (data_peer d)) = Some i")
  case True
  then obtain t0 i where held: "hm_get (infos_of t0 c) (peer_to_base58 n (data_peer d)) = Some i" by blast
  have "hm_ok (infos_of t' (refiled t0 t1 k i c))" for t' t1 k
    unfolding refiled_def using ok by (auto intro!: on_info_ok hm.ok_put hm.ok_del)
  then show ?thesis using hydrate_known_peer [OF once held]
    by (cases d)
      (auto simp: handle_diagnostic_def update_info_def split: option.split intro!: on_info_ok hm.ok_put)
next
  case False
  then have "hydrate_and_get_existing n (data_peer d) t' c = (c, None)" for t'
    by (intro hydrate_unknown_peer) auto
  then show ?thesis using ok by (cases d) (auto simp: handle_diagnostic_def intro!: on_info_ok hm.ok_put)
qed

section \<open>The collector as a function of the history\<close>

definition entry_matches ::
    "net_ext \<Rightarrow> diagnostic_data list \<Rightarrow> peer_type_enum \<Rightarrow> string \<Rightarrow> diagnostic_peer_info option \<Rightarrow> bool" where
  "entry_matches n ds t k e \<longleftrightarrow>
     (case e of
        None \<Rightarrow> \<not> (known_in n ds k \<and> last_type n ds k = t)
      | Some i \<Rightarrow> known_in n ds k \<and> last_type n ds k = t \<and> peer_to_base58 n (di_peer_id i) = k
          \<and> (di_connected_at i = None \<longleftrightarrow> \<not> connected_in n ds k)
          \<and> di_number_of_peers_received i = received_total n ds k)"

definition records :: "net_ext \<Rightarrow> diagnostic_data list \<Rightarrow> diagnostics_collector \<Rightarrow> bool" where
  "records n ds c \<longleftrightarrow> (\<forall>t k. entry_matches n ds t k (hm_get (infos_of t c) k)) \<and> (\<forall>t. hm_ok (infos_of t c))"

lemma recordsD: "records n ds c \<Longrightarrow> entry_matches n ds t k (hm_get (infos_of t c) k)"
  by (simp add: records_def)

lemma entry_matches_iff [simp]:
  "entry_matches n ds t k None \<longleftrightarrow> \<not> (known_in n ds k \<and> last_type n ds k = t)"
  "entry_matches n ds t k (Some i) \<longleftrightarrow> known_in n ds k \<and> last_type n ds k = t
     \<and> peer_to_base58 n (di_peer_id i) = k \<and> (di_connected_at i = None \<longleftrightarrow> \<not> connected_in n ds k)
     \<and> di_number_of_peers_received i = received_total n ds k"
  by (simp_all add: entry_matches_def)

lemma records_SomeD: "records n ds c \<Longrightarrow> hm_get (infos_of t c) k = Some i \<Longrightarrow> entry_matches n ds t k (Some i)"
  by (drule recordsD [of _ _ _ t k]) simp

lemma records_filed_once: "records n ds c \<Longrightarrow> filed_once c"
  unfolding filed_once_def using records_SomeD entry_matches_iff(2) by (metis not_Some_eq)

lemma records_new: "records n [] diagnostics_collector_new"
  by (simp add: records_def known_in_def)

lemma entry_other:
  "\<not> about n k d \<Longrightarrow> entry_matches n (ds @ [d]) t k e = entry_matches n ds t k e"
  by (cases e) (simp_all add: known_in_snoc connected_in_snoc last_type_snoc received_total_snoc)

lemma records_report:
  assumes rec: "records n ds c"
  shows "records n (ds @ [d]) (handle_diagnostic n now d c)"
proof -
  let ?k = "peer_to_base58 n (data_peer d)"
  note once = records_filed_once [OF rec]
  note snoc = known_in_snoc connected_in_snoc last_type_snoc received_total_snoc about_def
  have "entry_matches n (ds @ [d]) t k (hm_get (infos_of t (handle_diagnostic n now d c)) k)" for t k
  proof (cases "\<exists>t0 i. hm_get (infos_of t0 c) ?k = Some i")
    case True
    then obtain t0 i where held: "hm_get (infos_of t0 c) ?k = Some i" by blast
    show ?thesis
    proof (cases "about n k d")
      case True
      then show ?thesis using records_SomeD [OF rec held]
        by (auto simp: handle_known [OF once held] snoc)
    qed (simp add: handle_known [OF once held] entry_other recordsD [OF rec])
  next
    case False
    then have none: "\<And>t'. hm_get (infos_of t' c) ?k = None" by auto
    then have unknown: "\<not> known_in n ds ?k" using recordsD [OF rec, of _ ?k] by auto
    show ?thesis
    proof (cases "about n k d")
      case True
      then have k: "k = ?k" by (simp add: about_def)
      have "\<not> connected_in n ds ?k" using unknown connected_known by blast
      then show ?thesis using unknown received_total_unknown [OF unknown] none
        unfolding k handle_unknown [OF none] by (cases d) (auto simp: snoc new_info_def)
    qed (simp add: handle_unknown [OF none] entry_other recordsD [OF rec])
  qed
  then show ?thesis using handle_ok [OF once] rec by (simp add: records_def)
qed

definition reports_of :: "(system_time \<times> collector_event) list \<Rightarrow> diagnostic_data list" where
  "reports_of events =
     List.map_filter (\<lambda>(now, e). case e of Report d \<Rightarrow> Some d | _ \<Rightarrow> None) events"

lemma reports_of_simps [simp]:
  "reports_of [] = []"
  "reports_of (events @ [(now, Report d)]) = reports_of events @ [d]"
  "reports_of (events @ [(now, Request r)]) = reports_of events"
  "reports_of (events @ [(now, Lagged)]) = reports_of events"
  by (simp_all add: reports_of_def List.map_filter_def)

lemma collector_after_records: "records n (reports_of events) (collector_after n events)"
proof (induction events rule: rev_induct)
  case Nil
  show ?case by (simp add: collector_after_def records_new)
next
  case (snoc e events)
  obtain now ev where e: "e = (now, ev)" by (cases e)
  let ?c = "collector_after n events"
  have "records n (reports_of events) (?c\<lparr>first_data_received := x\<rparr>)" for x
    using snoc.IH by (simp add: records_def)
  then show ?case using snoc.IH
    by (cases ev) (simp_all add: e collector_after_def collector_handles_def Let_def records_report)
qed

text \<open>C31: After any history of reports the diagnostics collector has exactly one entry for each
  peer that a report introduced, filed under the type of peer last reported, with a time of
  connection exactly if a connection was reported and with the saturated sum of the peers it
  sent; for any other peer it has none.\<close>

theorem diagnostics_filed_by_history:
  "if known_in n (reports_of events) k
   then \<exists>i. (\<forall>t. hm_get (infos_of t (collector_after n events)) k
               = (if t = last_type n (reports_of events) k then Some i else None))
         \<and> peer_to_base58 n (di_peer_id i) = k
         \<and> (di_connected_at i = None \<longleftrightarrow> \<not> connected_in n (reports_of events) k)
         \<and> di_number_of_peers_received i = received_total n (reports_of events) k
   else \<forall>t. hm_get (infos_of t (collector_after n events)) k = None"
proof (cases "known_in n (reports_of events) k")
  case True
  let ?t = "last_type n (reports_of events) k"
  note rec = collector_after_records [of n events]
  obtain i where i: "hm_get (infos_of ?t (collector_after n events)) k = Some i"
    using recordsD [OF rec, of ?t k] True by fastforce
  moreover have "\<forall>t. hm_get (infos_of t (collector_after n events)) k = (if t = ?t then Some i else None)"
    using filed_onceD [OF records_filed_once [OF rec] i] i by auto
  ultimately show ?thesis using records_SomeD [OF rec i] True by auto
next
  case False
  then show ?thesis
    using recordsD [OF collector_after_records, of n events _ k] by (metis entry_matches_iff(2) option.exhaust)
qed

lemma connected_reply:
  assumes rec: "records n ds c" and reply: "answer_diagnostic (GetConnectedPeersOf t) c = ConnectedPeersReply ps"
  shows "distinct (map (peer_to_base58 n) ps)
    \<and> set (map (peer_to_base58 n) ps) = {k. connected_in n ds k \<and> last_type n ds k = t}"
proof -
  let ?m = "infos_of t c" and ?con = "\<lambda>i. di_connected_at i \<noteq> None"
  have ok: "hm_ok ?m" using rec by (simp add: records_def)
  have key: "peer_to_base58 n (di_peer_id i) = k" if "(k, i) \<in> set ?m" for k i
    using records_SomeD [OF rec, of t k i] that ok by (simp add: hm_ok_get)
  have ps: "ps = map di_peer_id (filter ?con (hm_values ?m))"
    using reply by (simp add: answer_diagnostic_def)
  have "map (peer_to_base58 n) ps = map fst (filter (\<lambda>(k, i). ?con i) ?m)"
    unfolding ps filter_map o_def map_map using key by (auto simp: case_prod_unfold intro!: map_cong)
  moreover have "distinct (map fst (filter (\<lambda>(k, i). ?con i) ?m))"
    using ok by (simp add: hm_ok_def distinct_map_filter)
  moreover have "k \<in> set (map fst (filter (\<lambda>(k, i). ?con i) ?m))
      \<longleftrightarrow> connected_in n ds k \<and> last_type n ds k = t" for k
  proof -
    have "k \<in> set (map fst (filter (\<lambda>(k, i). ?con i) ?m)) \<longleftrightarrow> (\<exists>i. hm_get ?m k = Some i \<and> ?con i)"
      using hm_ok_get [OF ok] by (force simp: image_iff)
    also have "\<dots> \<longleftrightarrow> connected_in n ds k \<and> last_type n ds k = t"
      using recordsD [OF rec, of t k] connected_known [of n ds k]
      by (cases "hm_get ?m k") auto
    finally show ?thesis .
  qed
  ultimately show ?thesis by auto
qed

text \<open>The connected peers of a type are exactly those with a reported connection whose last
  reported type it is.\<close>

theorem connected_peers_reply_exact:
  assumes "answer_diagnostic (GetConnectedPeersOf t) (collector_after n events) = ConnectedPeersReply ps"
  shows "distinct (map (peer_to_base58 n) ps)
    \<and> set (map (peer_to_base58 n) ps)
        = {k. connected_in n (reports_of events) k \<and> last_type n (reports_of events) k = t}"
  using connected_reply [OF collector_after_records assms] .

definition demo_events :: "(system_time \<times> collector_event) list" where
  "demo_events = [(1, Report (NewPeer [1] Unknown 0)), (2, Report (PeerConnected [1] SeedPeer 1)),
     (3, Request (GetPeerInfo SeedPeer)), (4, Report (NewPeer [2] SeedPeer 3))]"

theorem connected_peers_reply_exact_witness:
  "{k. connected_in demo_net (reports_of demo_events) k \<and> last_type demo_net (reports_of demo_events) k = SeedPeer}
    = {peer_to_base58 demo_net [1]}"
proof -
  have "answer_diagnostic (GetConnectedPeersOf SeedPeer) (collector_after demo_net demo_events)
      = ConnectedPeersReply [[1]]" by code_simp
  from connected_peers_reply_exact [OF this] show ?thesis by auto
qed

end
