(* ===== verification/DiagnosticMode.thy ===== *)
theory DiagnosticMode
  imports NetDiagnostic DiagnosticsCorrect NetCorrect
begin

text \<open>
  The diagnostic mode ends: each state has a time limit, and the states only move forward. It
  leaves the share chains and everything the synchronisation uses alone.
\<close>

section \<open>The states move forward\<close>

fun stage :: "diagnostic_state \<Rightarrow> nat" where
  "stage ConnectToSeedPeers = 0"
| "stage WaitForSeedPeersDownload = 1"
| "stage ConnectToPrivatePeers = 2"
| "stage WaitForPrivatePeersDownload = 3"
| "stage ConnectToRelayPeers = 4"
| "stage WaitForRelayPeersDownload = 5"
| "stage DiagnosticsDone = 6"

fun time_limit :: "diagnostic_state \<Rightarrow> duration" where
  "time_limit ConnectToSeedPeers = from_secs 60"
| "time_limit WaitForSeedPeersDownload = from_secs 150"
| "time_limit ConnectToPrivatePeers = from_secs 60"
| "time_limit WaitForPrivatePeersDownload = from_secs 150"
| "time_limit ConnectToRelayPeers = from_secs 60"
| "time_limit WaitForRelayPeersDownload = from_secs 150"
| "time_limit DiagnosticsDone = 0"

text \<open>The time by which a state has begun, when two ticks are at most \<open>g\<close> apart.\<close>

fun begin_by :: "duration \<Rightarrow> diagnostic_state \<Rightarrow> duration" where
  "begin_by g ConnectToSeedPeers = 0"
| "begin_by g WaitForSeedPeersDownload = from_secs 60 + g"
| "begin_by g ConnectToPrivatePeers = from_secs 210 + 2 * g"
| "begin_by g WaitForPrivatePeersDownload = from_secs 270 + 3 * g"
| "begin_by g ConnectToRelayPeers = from_secs 420 + 4 * g"
| "begin_by g WaitForRelayPeersDownload = from_secs 480 + 5 * g"
| "begin_by g DiagnosticsDone = from_secs 630 + 6 * g"

lemma next_stage:
  "d \<noteq> DiagnosticsDone \<Longrightarrow> stage d < stage (success_next_state d)"
  "d \<noteq> DiagnosticsDone \<Longrightarrow> stage d < stage (failed_next_state d)"
  by (cases d; simp)+

lemma begin_by_mono:
  "stage d < stage d' \<Longrightarrow> begin_by g d + time_limit d + g \<le> begin_by g d'"
  by (cases d; cases d'; simp add: from_secs_def)

text \<open>
  \<open>advanced t r r'\<close>: the state stayed, within its time limit if the collector answers, or a
  later one began now.
\<close>

definition advanced :: "clock \<Rightarrow> 'l diagnostic_run \<Rightarrow> 'l diagnostic_run \<Rightarrow> bool" where
  "advanced t r r' \<longleftrightarrow>
     (dr_state r' = dr_state r \<and> dr_start r' = dr_start r
        \<and> (dr_collector r \<noteq> None \<longrightarrow> time_in_state t r \<le> time_limit (dr_state r)))
   \<or> (stage (dr_state r) < stage (dr_state r') \<and> dr_start r' = c_instant t)"

lemma advanced_verdicts:
  "dr_state r = ConnectToSeedPeers \<Longrightarrow> advanced t r (seeds_connected t r)"
  "dr_state r = WaitForSeedPeersDownload \<Longrightarrow> advanced t r (wait_for_seeds t r)"
  "dr_state r = ConnectToPrivatePeers \<Longrightarrow> advanced t r (some_connected t kind r)"
  "dr_state r = ConnectToRelayPeers \<Longrightarrow> advanced t r (some_connected t kind r)"
  "dr_state r = WaitForPrivatePeersDownload \<Longrightarrow> advanced t r (wait_for_some t kind r)"
  "dr_state r = WaitForRelayPeersDownload \<Longrightarrow> advanced t r (wait_for_some t kind r)"
  by (auto simp: advanced_def seeds_connected_def wait_for_seeds_def some_connected_def wait_for_some_def
      move_on_def Let_def get_connected_peers_def answer_diagnostic_def CONNECT_TIMEOUT_def RESPONSE_TIMEOUT_def
      split: option.splits prod.splits)

text \<open>What dialling leaves alone.\<close>

definition same_place :: "'l diagnostic_run \<Rightarrow> 'l diagnostic_run \<Rightarrow> bool" where
  "same_place r r' \<longleftrightarrow> dr_state r' = dr_state r \<and> dr_start r' = dr_start r \<and> dr_collector r' = dr_collector r
     \<and> dr_shutdown r' = dr_shutdown r \<and> dr_written r' = dr_written r"

lemma same_place_fold:
  assumes "\<And>x r'. same_place r r' \<Longrightarrow> same_place r (f x r')" and "same_place r r'"
  shows "same_place r (fold f xs r')"
  using assms by (induction xs arbitrary: r') auto

lemma same_place_dials:
  "same_place r (fold (dial_private w now dial) rs r)"
  "same_place r (fold (dial_relay w now dial) rs r)"
  "same_place r (fold (dial_seed now dial) m (on_service f r))"
  by (rule same_place_fold; auto simp: same_place_def dial_private_def dial_relay_def dial_seed_def
      on_service_def send_report_def Let_def split: prod.splits)+

lemma same_place_refl [simp]: "same_place r r"
  by (simp add: same_place_def)

lemma same_place_seeds: "same_place r (fst (dial_seeds_once w e now dial r))"
  by (cases "parse_seed_peers w e (dr_service r)")
    (simp_all add: dial_seeds_once_def same_place_dials)

lemma same_place_advanced:
  "same_place r r' \<Longrightarrow> advanced t r' r'' \<Longrightarrow> advanced t r r''"
  by (simp add: same_place_def advanced_def time_in_state_def)

lemma tick_advances:
  assumes tick: "diagnostic_tick w e t now dial shuffle r = (r', Ok ())" and "dr_state r \<noteq> DiagnosticsDone"
  shows "advanced t r r'"
proof (cases "dr_state r")
  case ConnectToSeedPeers
  obtain r1 where "dial_seeds_once w e now dial r = (r1, Ok ())" "r' = seeds_connected t r1"
    using tick ConnectToSeedPeers
    by (auto simp: diagnostic_tick_def elim!: bindS_cases)
  then have "same_place r r1" using same_place_seeds [of r w e now dial] by simp
  then show ?thesis using ConnectToSeedPeers \<open>r' = _\<close>
    by (metis advanced_verdicts(1) same_place_advanced same_place_def)
next
  case ConnectToPrivatePeers
  then show ?thesis using tick
    by (metis (no_types, lifting) Pair_inject advanced_verdicts(3) diagnostic_state.simps(45) diagnostic_tick_def
        same_place_advanced same_place_def same_place_dials(1))
next
  case ConnectToRelayPeers
  then show ?thesis using tick
    by (metis (no_types, lifting) Pair_inject advanced_verdicts(4) diagnostic_state.simps(47) diagnostic_tick_def
        same_place_advanced same_place_def same_place_dials(2))
qed (use assms advanced_verdicts in \<open>auto simp: diagnostic_tick_def\<close>)

section \<open>The mode ends\<close>

lemma write_results_done:
  "write_results r = (r', Ok ()) \<Longrightarrow>
     dr_shutdown r' \<and> dr_written r' \<noteq> None \<and> dr_state r' = dr_state r \<and> dr_collector r' = dr_collector r"
  by (auto simp: write_results_def elim!: bindS_cases)

lemma verdict_collector:
  "dr_collector (seeds_connected t r) = dr_collector r" "dr_collector (wait_for_seeds t r) = dr_collector r"
  "dr_collector (some_connected t kind r) = dr_collector r" "dr_collector (wait_for_some t kind r) = dr_collector r"
  by (simp_all add: seeds_connected_def wait_for_seeds_def some_connected_def wait_for_some_def move_on_def Let_def
      split: option.split prod.split)

lemma tick_collector:
  assumes "diagnostic_tick w e t now dial shuffle r = (r', Ok ())"
  shows "dr_collector r' = dr_collector r"
proof (cases "dr_state r")
  case ConnectToSeedPeers
  then show ?thesis using assms same_place_seeds [of r w e now dial]
    by (auto simp: diagnostic_tick_def same_place_def verdict_collector elim!: bindS_cases)
qed (use assms same_place_dials write_results_done in
    \<open>fastforce simp: diagnostic_tick_def verdict_collector same_place_def\<close>)+

fun is_tick :: "diagnostic_input \<Rightarrow> bool" where
  "is_tick (DiagnosticTick dial shuffle) \<longleftrightarrow> True"
| "is_tick _ \<longleftrightarrow> False"

text \<open>Two ticks are at most \<open>g\<close> apart, the first at most \<open>g\<close> after \<open>u\<close>.\<close>

fun paced :: "duration \<Rightarrow> instant \<Rightarrow> (clock \<times> system_time \<times> diagnostic_input) list \<Rightarrow> bool" where
  "paced g u [] \<longleftrightarrow> True"
| "paced g u ((t, now, inp) # inputs) \<longleftrightarrow>
     (if is_tick inp then u \<le> c_instant t \<and> c_instant t \<le> u + g \<and> paced g (c_instant t) inputs
      else paced g u inputs)"

fun last_tick :: "instant \<Rightarrow> (clock \<times> system_time \<times> diagnostic_input) list \<Rightarrow> instant" where
  "last_tick u [] = u"
| "last_tick u ((t, now, inp) # inputs) = last_tick (if is_tick inp then c_instant t else u) inputs"

definition on_time :: "duration \<Rightarrow> instant \<Rightarrow> instant \<Rightarrow> 'l diagnostic_run \<Rightarrow> bool" where
  "on_time g t0 u r \<longleftrightarrow> dr_collector r \<noteq> None
     \<and> (dr_state r \<noteq> DiagnosticsDone \<longrightarrow>
          dr_start r \<le> u \<and> u \<le> dr_start r + time_limit (dr_state r) \<and> dr_start r \<le> t0 + begin_by g (dr_state r))
     \<and> (dr_state r = DiagnosticsDone \<longrightarrow>
          (dr_shutdown r \<and> dr_written r \<noteq> None) \<or> u \<le> t0 + begin_by g DiagnosticsDone)"

lemma on_time_tick:
  assumes tick: "diagnostic_tick w e t now dial shuffle r = (r', Ok ())" and ot: "on_time g t0 u r"
    and u: "u \<le> c_instant t" "c_instant t \<le> u + g"
  shows "on_time g t0 (c_instant t) r'"
proof (cases "dr_state r = DiagnosticsDone")
  case True
  then have "write_results r = (r', Ok ())" using tick by (simp add: diagnostic_tick_def)
  from write_results_done [OF this] show ?thesis using ot True by (simp add: on_time_def)
next
  case False
  have col: "dr_collector r \<noteq> None" "dr_collector r' = dr_collector r"
    using ot tick_collector [OF tick] by (simp_all add: on_time_def)
  have st: "dr_start r \<le> u" "u \<le> dr_start r + time_limit (dr_state r)" "dr_start r \<le> t0 + begin_by g (dr_state r)"
    using ot False by (simp_all add: on_time_def)
  from tick_advances [OF tick False] show ?thesis unfolding advanced_def
  proof (elim disjE conjE)
    assume "dr_state r' = dr_state r" "dr_start r' = dr_start r"
      "dr_collector r \<noteq> None \<longrightarrow> time_in_state t r \<le> time_limit (dr_state r)"
    then show ?thesis using False st col u by (auto simp: on_time_def time_in_state_def)
  next
    assume "stage (dr_state r) < stage (dr_state r')" and s: "dr_start r' = c_instant t"
    then have "begin_by g (dr_state r) + time_limit (dr_state r) + g \<le> begin_by g (dr_state r')"
      by (intro begin_by_mono)
    then have "c_instant t \<le> t0 + begin_by g (dr_state r')" using st u by linarith
    then show ?thesis using s col by (auto simp: on_time_def)
  qed
qed

lemma on_time_other:
  assumes "\<not> is_tick inp" and "inp \<noteq> CollectorStops"
    and "fst (diagnostic_round w sf e (t, now, inp) r) = r'" and "on_time g t0 u r"
  shows "on_time g t0 u r'"
  using assms
  by (cases inp) (auto simp: on_time_def diagnostic_round_def diagnostic_event_def on_service_def
      collector_receives_def Let_def split: prod.splits option.splits list.splits if_splits)

lemma on_time_rounds:
  assumes "diagnostic_rounds w sf e inputs r = (r', Ok ())" and "on_time g t0 u r" and "paced g u inputs"
    and "\<forall>(t, now, inp) \<in> set inputs. inp \<noteq> CollectorStops"
  shows "on_time g t0 (last_tick u inputs) r'"
  using assms
proof (induction inputs arbitrary: u r)
  case Nil
  then show ?case by simp
next
  case (Cons x inputs)
  obtain t now inp where x: "x = (t, now, inp)" by (cases x)
  from Cons.prems(1) obtain r1 where r1: "diagnostic_round w sf e (t, now, inp) r = (r1, Ok ())"
      and rest: "diagnostic_rounds w sf e inputs r1 = (r', Ok ())"
    by (auto simp: x bindS_Ok)
  have "on_time g t0 (if is_tick inp then c_instant t else u) r1"
  proof (cases "is_tick inp")
    case True
    then show ?thesis using r1 Cons.prems
      by (cases inp) (auto simp: x diagnostic_round_def intro: on_time_tick)
  next
    case False
    then show ?thesis using on_time_other [OF False, of w sf e t now r r1] r1 Cons.prems by (auto simp: x)
  qed
  from Cons.IH [OF rest this] show ?case using Cons.prems(3,4) by (auto simp: x split: if_splits)
qed


definition demo_tick :: "nat \<Rightarrow> clock \<times> system_time \<times> diagnostic_input" where
  "demo_tick k = (demo_clock\<lparr>c_instant := from_secs (700 * k)\<rparr>, 0, DiagnosticTick (\<lambda>_. True) (\<lambda>rs. rs))"

definition demo_ticks :: "(clock \<times> system_time \<times> diagnostic_input) list" where
  "demo_ticks = map demo_tick [1, 2, 3, 4, 5, 6, 7]"

definition demo_seed_ext :: seed_ext where
  "demo_seed_ext = \<lparr>seed_parts = (\<lambda>_. [SeedP2p [7]]), txt_lookup = (\<lambda>_. None), from_utf8 = (\<lambda>_. None)\<rparr>"

definition demo_diagnostic_start :: "(epoch_time \<times> difficulty) list diagnostic_run" where
  "demo_diagnostic_start =
     (case diagnostic_loop_start demo_clock True True (Some diagnostics_collector_new) demo_start of Ok r \<Rightarrow> r)"


section \<open>What the mode does not touch\<close>

lemma quiet_fold_run:
  assumes "\<And>x r. quiet w s (dr_service r) \<Longrightarrow> quiet w s (dr_service (f x r))" and "quiet w s (dr_service r)"
  shows "quiet w s (dr_service (fold f xs r))"
  using assms by (induction xs arbitrary: r) auto

lemma quiet_dials:
  "quiet w s (dr_service r) \<Longrightarrow> quiet w s (dr_service (fold (dial_private w now dial) rs r))"
  "quiet w s (dr_service r) \<Longrightarrow> quiet w s (dr_service (fold (dial_relay w now dial) rs r))"
  "quiet w s (dr_service r) \<Longrightarrow> quiet w s (dr_service (fold (dial_seed now dial) m r))"
  by (rule quiet_fold_run; auto simp: dial_private_def dial_relay_def dial_seed_def on_service_def
      send_report_def Let_def split: prod.splits)+

lemma verdict_service:
  "dr_service (seeds_connected t r) = dr_service r" "dr_service (wait_for_seeds t r) = dr_service r"
  "dr_service (some_connected t kind r) = dr_service r" "dr_service (wait_for_some t kind r) = dr_service r"
  by (simp_all add: seeds_connected_def wait_for_seeds_def some_connected_def wait_for_some_def move_on_def Let_def
      split: option.split prod.split)

lemma quiet_seeds_once:
  "quiet w s (dr_service r) \<Longrightarrow> quiet w s (dr_service (fst (dial_seeds_once w e now dial r)))"
  by (cases "parse_seed_peers w e (dr_service r)")
    (auto simp: dial_seeds_once_def on_service_def intro!: quiet_dials quiet_on_peers peer_step.seeds)

lemma quiet_write: "dr_service (fst (write_results r)) = dr_service r"
  unfolding write_results_def
  by (intro bindS_preserves [where P = "\<lambda>r'. dr_service r' = dr_service r"]) auto

lemma quiet_tick:
  assumes "quiet w s (dr_service r)"
  shows "quiet w s (dr_service (fst (diagnostic_tick w e t now dial shuffle r)))"
proof (cases "dr_state r")
  case ConnectToSeedPeers
  have "quiet w s (dr_service (fst (bindS (dial_seeds_once w e now dial r)
      (\<lambda>r _. (seeds_connected t r, Ok () :: (start_error, unit) outcome)))))"
    using assms by (intro bindS_preserves [where P = "\<lambda>r'. quiet w s (dr_service r')"])
      (auto simp: verdict_service quiet_seeds_once)
  then show ?thesis using ConnectToSeedPeers by (simp add: diagnostic_tick_def)
qed (simp_all add: diagnostic_tick_def verdict_service quiet_dials quiet_write assms)

lemma quiet_other_event:
  assumes "\<not> ignored_event ev" and "quiet w s s'"
  shows "quiet w s (fst (handle_event w sf t ev s'))"
proof -
  have "quiet w s' (fst (handle_event w sf t ev s'))"
  proof (cases ev)
    case (OutgoingConnectionError p tr err)
    then show ?thesis by (auto simp: handle_event_def intro!: quiet_grey)
  next
    case (MdnsDiscovered ps)
    then show ?thesis by (auto simp: handle_event_def intro!: quiet_fold)
  next
    case (MdnsExpired ps)
    then show ?thesis by (auto simp: handle_event_def intro!: quiet_fold)
  next
    case (PingEvent p)
    then show ?thesis by (auto simp: handle_event_def intro!: quiet_on_peers peer_step.ping)
  qed (use assms(1) in \<open>auto simp: handle_event_def quiet_handlers split: sum.splits\<close>)
  then show ?thesis using assms(2) quiet_trans by blast
qed

lemma quiet_diagnostic_round:
  assumes "quiet w s (dr_service r)"
  shows "quiet w s (dr_service (fst (diagnostic_round w sf e inp r)))"
proof -
  obtain t now i where inp: "inp = (t, now, i)" by (cases inp)
  show ?thesis
  proof (cases i)
    case (DiagnosticEvent ev)
    then show ?thesis using assms quiet_other_event [of ev w s "dr_service r" sf t]
      by (auto simp: inp diagnostic_round_def diagnostic_event_def Let_def split: prod.splits)
  next
    case CollectorReceives
    then show ?thesis using assms
      by (auto simp: inp diagnostic_round_def collector_receives_def split: option.splits list.splits)
  next
    case CollectorLags
    then show ?thesis using assms
      by (auto simp: inp diagnostic_round_def collector_receives_def split: option.splits list.splits)
  qed (use assms quiet_tick in \<open>auto simp: inp diagnostic_round_def on_service_def\<close>)
qed

lemma quiet_diagnostic_rounds:
  "quiet w s (dr_service r) \<Longrightarrow> quiet w s (dr_service (fst (diagnostic_rounds w sf e inputs r)))"
proof (induction inputs arbitrary: r)
  case (Cons inp inputs)
  have "quiet w s (dr_service (fst (bindS (diagnostic_round w sf e inp r)
      (\<lambda>r _. diagnostic_rounds w sf e inputs r))))"
    using quiet_diagnostic_round [OF Cons.prems] Cons.IH
    by (intro bindS_preserves [where P = "\<lambda>r'. quiet w s (dr_service r')"]) auto
  then show ?case by simp
qed simp

text \<open>C30: Whatever the network does, the diagnostic mode leaves share chains, sync requests,
  running syncs, permits and tasks as they are, and changes the peer store by its operations
  only.\<close>

theorem diagnostic_mode_leaves_chains:
  assumes "diagnostic_loop_start t0 b b' c s = Ok r0"
    and "diagnostic_rounds w sf e inputs r0 = (r, res)"
  shows "sv_share_chain (dr_service r) = sv_share_chain s
    \<and> sv_inner_requests (dr_service r) = sv_inner_requests s
    \<and> sv_in_progress_syncs (dr_service r) = sv_in_progress_syncs s
    \<and> sv_available_permits (dr_service r) = sv_available_permits s
    \<and> sv_tasks (dr_service r) = sv_tasks s
    \<and> (peer_step (w_net w))\<^sup>*\<^sup>* (sv_peer_store s) (sv_peer_store (dr_service r))"
proof -
  have "dr_service r0 = s" using assms(1) by (auto simp: diagnostic_loop_start_def split: if_splits)
  then have "quiet w s (dr_service (fst (diagnostic_rounds w sf e inputs r0)))"
    by (intro quiet_diagnostic_rounds) simp
  then show ?thesis using assms(2) by (simp add: quiet_def sync_view_def)
qed

theorem diagnostic_mode_leaves_chains_witness:
  "sv_share_chain (dr_service (fst (diagnostic_rounds demo_world (\<lambda>_. []) demo_seed_ext demo_ticks demo_diagnostic_start)))
    = sv_share_chain demo_start"
proof -
  have start: "diagnostic_loop_start demo_clock True True (Some diagnostics_collector_new) demo_start
      = Ok demo_diagnostic_start"
    by (simp add: demo_diagnostic_start_def diagnostic_loop_start_def)
  show ?thesis using diagnostic_mode_leaves_chains [OF start surjective_pairing] by blast
qed

section \<open>What the states conclude from the collector\<close>

text \<open>The first stage is left for the second only after twenty seconds and a reported connection
  to a seed peer.\<close>

theorem seeds_stage_needs_connected_seed:
  assumes "diagnostic_tick w e t now dial shuffle r = (r', Ok ())"
    and "dr_state r = ConnectToSeedPeers" and "dr_state r' = WaitForSeedPeersDownload"
    and "dr_collector r = Some (collector_after (w_net w) events)"
  shows "from_secs 20 < time_in_state t r
    \<and> (\<exists>k. connected_in (w_net w) (reports_of events) k
          \<and> last_type (w_net w) (reports_of events) k = SeedPeer)"
proof -
  obtain r1 where r1: "dial_seeds_once w e now dial r = (r1, Ok ())" and r': "r' = seeds_connected t r1"
    using assms(1,2) by (auto simp: diagnostic_tick_def elim!: bindS_cases)
  have same: "same_place r r1" using same_place_seeds [of r w e now dial] r1 by simp
  obtain seeds where seeds: "answer_diagnostic (GetConnectedPeersOf SeedPeer) (collector_after (w_net w) events)
      = ConnectedPeersReply seeds"
    by (simp add: answer_diagnostic_def)
  have "seeds \<noteq> [] \<and> CONNECT_INITIAL_WAIT < time_in_state t r"
    using same seeds assms(2-4) r'
    by (auto simp: seeds_connected_def get_connected_peers_def same_place_def move_on_def time_in_state_def
        split: if_splits)
  moreover from this obtain p where "p \<in> set seeds" by (cases seeds) auto
  ultimately show ?thesis
    using connected_reply [OF collector_after_records seeds] by (auto simp: CONNECT_INITIAL_WAIT_def)
qed

definition demo_seed_events :: "(system_time \<times> collector_event) list" where
  "demo_seed_events = [(1, Report (PeerConnected [1] SeedPeer 1))]"

definition demo_connected_run :: "(epoch_time \<times> difficulty) list diagnostic_run" where
  "demo_connected_run =
     demo_diagnostic_start\<lparr>dr_collector := Some (collector_after demo_net demo_seed_events)\<rparr>"

theorem seeds_stage_needs_connected_seed_witness:
  "connected_in demo_net (reports_of demo_seed_events) (peer_to_base58 demo_net [1])"
proof -
  let ?tick = "diagnostic_tick demo_world demo_seed_ext (demo_clock\<lparr>c_instant := from_secs 21\<rparr>) 0
      (\<lambda>_. True) (\<lambda>rs. rs) demo_connected_run"
  have "snd ?tick = Ok ()" "dr_state (fst ?tick) = WaitForSeedPeersDownload"
    and state: "dr_state demo_connected_run = ConnectToSeedPeers" by code_simp+
  then have tick: "?tick = (fst ?tick, Ok ())" by (metis prod.collapse)
  have net: "w_net demo_world = demo_net" by (simp add: demo_world_def)
  have "dr_collector demo_connected_run = Some (collector_after (w_net demo_world) demo_seed_events)"
    by (simp add: demo_connected_run_def net)
  from seeds_stage_needs_connected_seed [OF tick state \<open>dr_state (fst ?tick) = _\<close> this]
  show ?thesis by (auto simp: connected_in_def demo_seed_events_def about_def net reports_of_def
        List.map_filter_def)
qed

text \<open>
  The time limits of the states that connect need an answer of the collector: without one they
  wait for ever, while the wait for the answers of the seed peers succeeds at once.
\<close>

lemma no_time_limit_without_collector:
  assumes "dr_collector r = None"
  shows "seeds_connected t r = r" and "some_connected t kind r = r"
    and "wait_for_seeds t r = move_on t (success_next_state (dr_state r)) r"
  using assms by (simp_all add: seeds_connected_def some_connected_def wait_for_seeds_def
      get_connected_peers_def get_peer_diagnostic_info_def seen_seeds_def)

end
