(* ===== verification/CoinbaseExtra.thy ===== *)
theory CoinbaseExtra
  imports Messages
begin

text \<open>
  The coinbase extra field a block template carries, \<open>convert_coinbase_extra\<close> of
  \<open>server/grpc/util.rs\<close>: a marker byte, then the squad and the miner's own text, each
  with a type byte and a length byte. A string is the bytes of its UTF-8 encoding.
\<close>

definition into_bytes :: "string \<Rightarrow> bytes" where
  "into_bytes s = map of_char s"

definition u8_try_from :: "nat \<Rightarrow> (unit, u8) outcome" where
  "u8_try_from n = (if n < 256 then Ok (of_nat n) else Err ())"

definition convert_coinbase_extra :: "string \<Rightarrow> string \<Rightarrow> (unit, bytes) outcome" where
  "convert_coinbase_extra squad custom_coinbase_extra =
     (let type_length_value_marker = 0xFF; squad_type_marker = 0x02; custom_message_type_marker = 0x01;
          current_squad = into_bytes squad in
      bindO (u8_try_from (length current_squad)) (\<lambda>current_squad_len.
        let result = [type_length_value_marker, squad_type_marker, current_squad_len] @ current_squad;
            custom_coinbase_extra_bytes = into_bytes custom_coinbase_extra in
        bindO (u8_try_from (length custom_coinbase_extra_bytes)) (\<lambda>custom_coinbase_extra_len.
          Ok (result @ [custom_message_type_marker, custom_coinbase_extra_len]
              @ custom_coinbase_extra_bytes))))"

section \<open>Reading it back\<close>

text \<open>
  The specification of the format: the reader of such a field, which splits it at the
  lengths it states. The pool only writes the field.
\<close>

definition from_bytes :: "bytes \<Rightarrow> string" where
  "from_bytes bs = map (\<lambda>b. char_of (unat b)) bs"

definition read_field :: "u8 \<Rightarrow> bytes \<Rightarrow> (bytes \<times> bytes) option" where
  "read_field marker bs =
     (case bs of
        t # n # rest \<Rightarrow>
          if t = marker \<and> unat n \<le> length rest then Some (take (unat n) rest, drop (unat n) rest) else None
      | _ \<Rightarrow> None)"

definition read_coinbase_extra :: "bytes \<Rightarrow> (string \<times> string) option" where
  "read_coinbase_extra bs =
     (case bs of
        m # rest \<Rightarrow>
          if m = 0xFF then
            (case read_field 0x02 rest of
               Some (squad, rest) \<Rightarrow>
                 (case read_field 0x01 rest of
                    Some (custom, []) \<Rightarrow> Some (from_bytes squad, from_bytes custom)
                  | _ \<Rightarrow> None)
             | None \<Rightarrow> None)
          else None
      | [] \<Rightarrow> None)"

lemma from_into_bytes [simp]: "from_bytes (into_bytes s) = s"
proof -
  have "char_of (unat (of_char c :: u8)) = c" for c :: char
  proof -
    have "of_char c < (256 :: nat)" by simp
    then have "unat (of_nat (of_char c) :: u8) = of_char c" by (simp add: unat_of_nat del: of_nat_of_char)
    then show ?thesis by (metis char_of_char of_nat_of_char)
  qed
  then show ?thesis by (simp add: from_bytes_def into_bytes_def comp_def)
qed

lemma length_into_bytes [simp]: "length (into_bytes s) = length s"
  by (simp add: into_bytes_def)

lemma u8_try_from_Ok: "u8_try_from n = Ok b \<longleftrightarrow> n < 256 \<and> b = of_nat n"
  by (auto simp: u8_try_from_def)

lemma read_field_append:
  "length xs < 256 \<Longrightarrow> read_field m (m # of_nat (length xs) # xs @ ys) = Some (xs, ys)"
  by (simp add: read_field_def unat_of_nat)

text \<open>The coinbase extra field is the marker, the squad and the miner's text with their
  length bytes, refused exactly when one of them has more than 255 bytes, and a reader of the
  format gets both back.\<close>

theorem coinbase_extra_roundtrip:
  "convert_coinbase_extra squad extra =
     (if length squad < 256 \<and> length extra < 256
      then Ok (0xFF # 0x02 # of_nat (length squad) # into_bytes squad
               @ 0x01 # of_nat (length extra) # into_bytes extra)
      else Err ())
   \<and> (case convert_coinbase_extra squad extra of
        Ok bs \<Rightarrow> read_coinbase_extra bs = Some (squad, extra) \<and> length bs = 5 + length squad + length extra
      | _ \<Rightarrow> 256 \<le> length squad \<or> 256 \<le> length extra)"
proof -
  have conv: "convert_coinbase_extra squad extra =
     (if length squad < 256 \<and> length extra < 256
      then Ok (0xFF # 0x02 # of_nat (length squad) # into_bytes squad
               @ 0x01 # of_nat (length extra) # into_bytes extra)
      else Err ())"
    by (simp add: convert_coinbase_extra_def u8_try_from_def Let_def)
  have "read_coinbase_extra (0xFF # 0x02 # of_nat (length squad) # into_bytes squad
      @ 0x01 # of_nat (length extra) # into_bytes extra) = Some (squad, extra)"
    if "length squad < 256" "length extra < 256"
    using that read_field_append [of "into_bytes squad" "0x02" "0x01 # of_nat (length extra) # into_bytes extra"]
      read_field_append [of "into_bytes extra" "0x01" "[]"]
    by (simp add: read_coinbase_extra_def)
  then show ?thesis
    unfolding conv by auto
qed

end
