(* ===== verification/StatsCollector.thy ===== *)
theory StatsCollector
  imports Messages
begin

text \<open>
  The statistics of the node, \<open>server/http/stats_collector.rs\<close>: the samples the parts of
  the node broadcast, the collector that receives them, and the requests it answers.
  \<open>summary\<close> is the specification: what the collector shows, read off the list of
  all samples it has received. The periodic log line is not modelled.
\<close>

section \<open>Samples\<close>

datatype stat_data =
    InfoChanged string peer_id epoch_time
  | TargetDifficultyChanged difficulty pow_algorithm epoch_time
  | NetworkDifficultyChanged difficulty pow_algorithm epoch_time
  | MinerBlockAccepted pow_algorithm epoch_time
  | PoolBlockAccepted pow_algorithm epoch_time
  | ChainChanged pow_algorithm u64 u64 epoch_time
  | NewPeerStats u64 u64 u64 u64 epoch_time
  | LibP2PStats u32 u32 u32 u32 epoch_time
  | GossipsubMessageReceived epoch_time

fun stat_timestamp :: "stat_data \<Rightarrow> epoch_time" where
  "stat_timestamp (InfoChanged squad p timestamp) = timestamp"
| "stat_timestamp (MinerBlockAccepted a timestamp) = timestamp"
| "stat_timestamp (PoolBlockAccepted a timestamp) = timestamp"
| "stat_timestamp (ChainChanged a height len timestamp) = timestamp"
| "stat_timestamp (NewPeerStats n_all n_grey n_black n_other timestamp) = timestamp"
| "stat_timestamp (TargetDifficultyChanged d a timestamp) = timestamp"
| "stat_timestamp (NetworkDifficultyChanged d a timestamp) = timestamp"
| "stat_timestamp (LibP2PStats p_in p_out e_in e_out timestamp) = timestamp"
| "stat_timestamp (GossipsubMessageReceived timestamp) = timestamp"

text \<open>
  \<open>StatsBroadcastClient\<close>: each method broadcasts one sample, and a failure to send is
  ignored. The sample is the result; \<open>now\<close> is the reading of the clock.
\<close>

definition send_miner_block_accepted :: "epoch_time \<Rightarrow> pow_algorithm \<Rightarrow> stat_data" where
  "send_miner_block_accepted now pow_algo = MinerBlockAccepted pow_algo now"

definition send_miner_block_rejected :: "epoch_time \<Rightarrow> pow_algorithm \<Rightarrow> stat_data" where
  "send_miner_block_rejected now pow_algo = MinerBlockAccepted pow_algo now"

definition send_pool_block_accepted :: "epoch_time \<Rightarrow> pow_algorithm \<Rightarrow> stat_data" where
  "send_pool_block_accepted now pow_algo = PoolBlockAccepted pow_algo now"

definition send_pool_block_rejected :: "epoch_time \<Rightarrow> pow_algorithm \<Rightarrow> stat_data" where
  "send_pool_block_rejected now pow_algo = PoolBlockAccepted pow_algo now"

definition send_info_changed :: "epoch_time \<Rightarrow> string \<Rightarrow> peer_id \<Rightarrow> stat_data" where
  "send_info_changed now squad p = InfoChanged squad p now"

definition send_chain_changed :: "epoch_time \<Rightarrow> pow_algorithm \<Rightarrow> u64 \<Rightarrow> u64 \<Rightarrow> stat_data" where
  "send_chain_changed now pow_algo height len = ChainChanged pow_algo height len now"

definition send_new_peer :: "epoch_time \<Rightarrow> u64 \<Rightarrow> u64 \<Rightarrow> u64 \<Rightarrow> u64 \<Rightarrow> stat_data" where
  "send_new_peer now total_peers total_grey_list total_black_list total_non_squad =
     NewPeerStats total_peers total_grey_list total_black_list total_non_squad now"

definition send_target_difficulty :: "epoch_time \<Rightarrow> pow_algorithm \<Rightarrow> difficulty \<Rightarrow> stat_data" where
  "send_target_difficulty now pow_algo target_difficulty =
     TargetDifficultyChanged target_difficulty pow_algo now"

definition send_network_difficulty :: "epoch_time \<Rightarrow> pow_algorithm \<Rightarrow> difficulty \<Rightarrow> stat_data" where
  "send_network_difficulty now pow_algo network_difficulty =
     NetworkDifficultyChanged network_difficulty pow_algo now"

definition send_libp2p_stats :: "epoch_time \<Rightarrow> u32 \<Rightarrow> u32 \<Rightarrow> u32 \<Rightarrow> u32 \<Rightarrow> stat_data" where
  "send_libp2p_stats now p_in p_out e_in e_out = LibP2PStats p_in p_out e_in e_out now"

definition send_gossipsub_message_received :: "epoch_time \<Rightarrow> stat_data" where
  "send_gossipsub_message_received now = GossipsubMessageReceived now"

lemmas stat_senders =
  send_miner_block_accepted_def send_miner_block_rejected_def send_pool_block_accepted_def
  send_pool_block_rejected_def send_info_changed_def send_chain_changed_def send_new_peer_def
  send_target_difficulty_def send_network_difficulty_def send_libp2p_stats_def
  send_gossipsub_message_received_def

section \<open>The collector\<close>

record stats_collector =
  st_first_stat_received :: "epoch_time option"
  st_last_squad :: "string option"
  st_local_peer_id :: "peer_id option"
  st_miner_rx_accepted :: u64
  st_miner_sha_accepted :: u64
  st_pool_rx_accepted :: u64
  st_pool_sha_accepted :: u64
  st_sha_network_difficulty :: difficulty
  st_sha_target_difficulty :: difficulty
  st_randomx_network_difficulty :: difficulty
  st_randomx_target_difficulty :: difficulty
  st_sha3x_chain_height :: u64
  st_sha3x_chain_length :: u64
  st_randomx_chain_height :: u64
  st_randomx_chain_length :: u64
  st_total_peers :: u64
  st_total_grey_list :: u64
  st_total_black_list :: u64
  st_total_non_squad_peers :: u64
  st_pending_incoming :: u32
  st_pending_outgoing :: u32
  st_established_incoming :: u32
  st_established_outgoing :: u32
  st_last_gossip_message :: epoch_time

definition stats_collector_new :: "'l ext \<Rightarrow> epoch_time \<Rightarrow> stats_collector" where
  "stats_collector_new e now = \<lparr>
     st_first_stat_received = None, st_last_squad = None, st_local_peer_id = None,
     st_miner_rx_accepted = 0, st_miner_sha_accepted = 0,
     st_pool_rx_accepted = 0, st_pool_sha_accepted = 0,
     st_sha_network_difficulty = difficulty_min e, st_sha_target_difficulty = difficulty_min e,
     st_randomx_network_difficulty = difficulty_min e,
     st_randomx_target_difficulty = difficulty_min e,
     st_sha3x_chain_height = 0, st_sha3x_chain_length = 0,
     st_randomx_chain_height = 0, st_randomx_chain_length = 0,
     st_total_peers = 0, st_total_grey_list = 0, st_total_black_list = 0,
     st_total_non_squad_peers = 0, st_pending_incoming = 0, st_pending_outgoing = 0,
     st_established_incoming = 0, st_established_outgoing = 0, st_last_gossip_message = now\<rparr>"

text \<open>Counting up overflows with a panic; nothing has changed by then.\<close>

fun handle_stat :: "stat_data \<Rightarrow> stats_collector \<Rightarrow> (unit, stats_collector) outcome" where
  "handle_stat (InfoChanged squad p t) c =
     Ok (c\<lparr>st_last_squad := Some squad, st_local_peer_id := Some p\<rparr>)"
| "handle_stat (MinerBlockAccepted Sha3x t) c =
     bindO (add_chk (st_miner_sha_accepted c) 1) (\<lambda>n. Ok (c\<lparr>st_miner_sha_accepted := n\<rparr>))"
| "handle_stat (MinerBlockAccepted RandomX t) c =
     bindO (add_chk (st_miner_rx_accepted c) 1) (\<lambda>n. Ok (c\<lparr>st_miner_rx_accepted := n\<rparr>))"
| "handle_stat (PoolBlockAccepted Sha3x t) c =
     bindO (add_chk (st_pool_sha_accepted c) 1) (\<lambda>n. Ok (c\<lparr>st_pool_sha_accepted := n\<rparr>))"
| "handle_stat (PoolBlockAccepted RandomX t) c =
     bindO (add_chk (st_pool_rx_accepted c) 1) (\<lambda>n. Ok (c\<lparr>st_pool_rx_accepted := n\<rparr>))"
| "handle_stat (ChainChanged Sha3x height len t) c =
     Ok (c\<lparr>st_sha3x_chain_height := height, st_sha3x_chain_length := len\<rparr>)"
| "handle_stat (ChainChanged RandomX height len t) c =
     Ok (c\<lparr>st_randomx_chain_height := height, st_randomx_chain_length := len\<rparr>)"
| "handle_stat (NewPeerStats n_all n_grey n_black n_other t) c =
     Ok (c\<lparr>st_total_peers := n_all, st_total_grey_list := n_grey, st_total_black_list := n_black,
           st_total_non_squad_peers := n_other\<rparr>)"
| "handle_stat (TargetDifficultyChanged d Sha3x t) c = Ok (c\<lparr>st_sha_target_difficulty := d\<rparr>)"
| "handle_stat (TargetDifficultyChanged d RandomX t) c = Ok (c\<lparr>st_randomx_target_difficulty := d\<rparr>)"
| "handle_stat (NetworkDifficultyChanged d Sha3x t) c = Ok (c\<lparr>st_sha_network_difficulty := d\<rparr>)"
| "handle_stat (NetworkDifficultyChanged d RandomX t) c = Ok (c\<lparr>st_randomx_network_difficulty := d\<rparr>)"
| "handle_stat (LibP2PStats p_in p_out e_in e_out t) c =
     Ok (c\<lparr>st_pending_incoming := p_in, st_pending_outgoing := p_out,
           st_established_incoming := e_in, st_established_outgoing := e_out\<rparr>)"
| "handle_stat (GossipsubMessageReceived t) c = Ok (c\<lparr>st_last_gossip_message := t\<rparr>)"

text \<open>The branch of the loop that receives a sample.\<close>

definition receive_sample :: "stat_data \<Rightarrow> stats_collector \<Rightarrow> (unit, stats_collector) outcome" where
  "receive_sample sample c =
     handle_stat sample
       (if st_first_stat_received c = None
        then c\<lparr>st_first_stat_received := Some (stat_timestamp sample)\<rparr> else c)"

datatype stats_request = GetStats pow_algorithm | GetLatestStats

record get_stats_response =
  gs_height :: u64
  gs_last_block_time :: epoch_time
  gs_num_my_shares :: u64
  gs_total_shares :: u64

datatype stats_reply =
    ChainStats get_stats_response
  | LatestStats epoch_time "peer_id option" string

definition answer_request :: "epoch_time \<Rightarrow> stats_collector \<Rightarrow> stats_request \<Rightarrow> stats_reply" where
  "answer_request now c r =
     (case r of
        GetStats a \<Rightarrow>
          ChainStats \<lparr>gs_height = (case a of Sha3x \<Rightarrow> st_sha3x_chain_height c
                                          | RandomX \<Rightarrow> st_randomx_chain_height c),
                      gs_last_block_time = now, gs_num_my_shares = 0, gs_total_shares = 0\<rparr>
      | GetLatestStats \<Rightarrow>
          LatestStats (st_last_gossip_message c) (st_local_peer_id c)
            (case st_last_squad c of Some squad \<Rightarrow> squad | None \<Rightarrow> []))"

text \<open>
  One round of \<open>run\<close>: the branch \<open>select!\<close> takes. \<open>None\<close> is a closed request channel
  or an error of the broadcast channel. The flag tells whether the loop goes on.
\<close>

datatype collector_input =
    ShutdownSignal
  | ReportTick
  | RequestReceived "stats_request option"
  | SampleReceived "stat_data option"

definition collector_round ::
    "epoch_time \<Rightarrow> collector_input \<Rightarrow> stats_collector
     \<Rightarrow> (unit, stats_collector \<times> stats_reply list \<times> bool) outcome" where
  "collector_round now i c =
     (case i of
        ShutdownSignal \<Rightarrow> Ok (c, [], False)
      | ReportTick \<Rightarrow> Ok (c, [], True)
      | RequestReceived None \<Rightarrow> Ok (c, [], False)
      | RequestReceived (Some r) \<Rightarrow> Ok (c, [answer_request now c r], True)
      | SampleReceived None \<Rightarrow> Ok (c, [], True)
      | SampleReceived (Some sample) \<Rightarrow>
          bindO (receive_sample sample c) (\<lambda>c. Ok (c, [], True)))"

fun collector_run ::
    "(epoch_time \<times> collector_input) list \<Rightarrow> stats_collector
     \<Rightarrow> (unit, stats_collector \<times> stats_reply list) outcome" where
  "collector_run [] c = Ok (c, [])"
| "collector_run ((now, i) # rest) c =
     bindO (collector_round now i c) (\<lambda>(c, replies, goes_on).
       if goes_on
       then bindO (collector_run rest c) (\<lambda>(c, more). Ok (c, replies @ more))
       else Ok (c, replies))"

section \<open>What the collector shows\<close>

text \<open>The last value that the samples have for a field.\<close>

definition latest :: "('a \<Rightarrow> 'b option) \<Rightarrow> 'b \<Rightarrow> 'a list \<Rightarrow> 'b" where
  "latest f d xs = last (d # List.map_filter f xs)"

definition count_of :: "('a \<Rightarrow> bool) \<Rightarrow> 'a list \<Rightarrow> nat" where
  "count_of P xs = length (filter P xs)"

lemma latest_simps [simp]:
  "latest f d [] = d"
  "latest f d (xs @ [x]) = (case f x of None \<Rightarrow> latest f d xs | Some y \<Rightarrow> y)"
  by (auto simp: latest_def map_filter_def split: option.splits)

lemma count_of_simps [simp]:
  "count_of P [] = 0"
  "count_of P (xs @ [x]) = count_of P xs + (if P x then 1 else 0)"
  by (simp_all add: count_of_def)

definition miner_accepts :: "pow_algorithm \<Rightarrow> stat_data \<Rightarrow> bool" where
  "miner_accepts a x = (case x of MinerBlockAccepted b t \<Rightarrow> b = a | _ \<Rightarrow> False)"

definition pool_accepts :: "pow_algorithm \<Rightarrow> stat_data \<Rightarrow> bool" where
  "pool_accepts a x = (case x of PoolBlockAccepted b t \<Rightarrow> b = a | _ \<Rightarrow> False)"

definition info_of :: "stat_data \<Rightarrow> (string \<times> peer_id) option" where
  "info_of x = (case x of InfoChanged squad p t \<Rightarrow> Some (squad, p) | _ \<Rightarrow> None)"

definition target_of :: "pow_algorithm \<Rightarrow> stat_data \<Rightarrow> difficulty option" where
  "target_of a x = (case x of TargetDifficultyChanged d b t \<Rightarrow> if b = a then Some d else None | _ \<Rightarrow> None)"

definition network_of :: "pow_algorithm \<Rightarrow> stat_data \<Rightarrow> difficulty option" where
  "network_of a x = (case x of NetworkDifficultyChanged d b t \<Rightarrow> if b = a then Some d else None | _ \<Rightarrow> None)"

definition chain_of :: "pow_algorithm \<Rightarrow> stat_data \<Rightarrow> (u64 \<times> u64) option" where
  "chain_of a x = (case x of ChainChanged b h l t \<Rightarrow> if b = a then Some (h, l) else None | _ \<Rightarrow> None)"

definition peers_of :: "stat_data \<Rightarrow> (u64 \<times> u64 \<times> u64 \<times> u64) option" where
  "peers_of x = (case x of NewPeerStats a b c d t \<Rightarrow> Some (a, b, c, d) | _ \<Rightarrow> None)"

definition libp2p_of :: "stat_data \<Rightarrow> (u32 \<times> u32 \<times> u32 \<times> u32) option" where
  "libp2p_of x = (case x of LibP2PStats a b c d t \<Rightarrow> Some (a, b, c, d) | _ \<Rightarrow> None)"

definition gossip_of :: "stat_data \<Rightarrow> epoch_time option" where
  "gossip_of x = (case x of GossipsubMessageReceived t \<Rightarrow> Some t | _ \<Rightarrow> None)"

lemmas sample_views =
  miner_accepts_def pool_accepts_def info_of_def target_of_def network_of_def chain_of_def
  peers_of_def libp2p_of_def gossip_of_def

definition summary :: "'l ext \<Rightarrow> epoch_time \<Rightarrow> stat_data list \<Rightarrow> stats_collector" where
  "summary e now xs =
     (let info = latest (map_option Some \<circ> info_of) None xs;
          libp2p = latest libp2p_of (0, 0, 0, 0) xs; peers = latest peers_of (0, 0, 0, 0) xs;
          sha = latest (chain_of Sha3x) (0, 0) xs; rx = latest (chain_of RandomX) (0, 0) xs in
      \<lparr>st_first_stat_received = (if xs = [] then None else Some (stat_timestamp (hd xs))),
       st_last_squad = map_option fst info, st_local_peer_id = map_option snd info,
       st_miner_rx_accepted = of_nat (count_of (miner_accepts RandomX) xs),
       st_miner_sha_accepted = of_nat (count_of (miner_accepts Sha3x) xs),
       st_pool_rx_accepted = of_nat (count_of (pool_accepts RandomX) xs),
       st_pool_sha_accepted = of_nat (count_of (pool_accepts Sha3x) xs),
       st_sha_network_difficulty = latest (network_of Sha3x) (difficulty_min e) xs,
       st_sha_target_difficulty = latest (target_of Sha3x) (difficulty_min e) xs,
       st_randomx_network_difficulty = latest (network_of RandomX) (difficulty_min e) xs,
       st_randomx_target_difficulty = latest (target_of RandomX) (difficulty_min e) xs,
       st_sha3x_chain_height = fst sha, st_sha3x_chain_length = snd sha,
       st_randomx_chain_height = fst rx, st_randomx_chain_length = snd rx,
       st_total_peers = fst peers, st_total_grey_list = fst (snd peers),
       st_total_black_list = fst (snd (snd peers)), st_total_non_squad_peers = snd (snd (snd peers)),
       st_pending_incoming = fst libp2p, st_pending_outgoing = fst (snd libp2p),
       st_established_incoming = fst (snd (snd libp2p)),
       st_established_outgoing = snd (snd (snd libp2p)),
       st_last_gossip_message = latest gossip_of now xs\<rparr>)"

text \<open>No counter has reached the limit of its type.\<close>

definition countable_samples :: "stat_data list \<Rightarrow> bool" where
  "countable_samples xs \<longleftrightarrow>
     count_of (miner_accepts RandomX) xs < 2 ^ 64 \<and> count_of (miner_accepts Sha3x) xs < 2 ^ 64
   \<and> count_of (pool_accepts RandomX) xs < 2 ^ 64 \<and> count_of (pool_accepts Sha3x) xs < 2 ^ 64"

lemma unat_of_nat_small: "n < 2 ^ LENGTH('w) \<Longrightarrow> unat (of_nat n :: 'w::len word) = n"
  by (simp add: unsigned_of_nat take_bit_nat_eq_self)

lemma add_chk_count_gen:
  "n < 2 ^ LENGTH('w) \<Longrightarrow>
     add_chk (of_nat n :: 'w::len word) 1 = (if Suc n < 2 ^ LENGTH('w) then Ok (of_nat (Suc n)) else Panic)"
  by (simp add: add_chk_def checked_add_def unat_of_nat_small add.commute)

lemma add_chk_count:
  "n < 2 ^ 64 \<Longrightarrow> add_chk (of_nat n :: u64) 1 = (if Suc n < 2 ^ 64 then Ok (of_nat (Suc n)) else Panic)"
  using add_chk_count_gen [where 'w = 64, of n] by simp

lemma receive_sample_summary:
  assumes "countable_samples xs"
  shows "receive_sample x (summary e now xs)
    = (if countable_samples (xs @ [x]) then Ok (summary e now (xs @ [x])) else Panic)"
  using assms
  by (cases "(x, summary e now xs)" rule: handle_stat.cases)
     (auto simp: receive_sample_def summary_def Let_def sample_views countable_samples_def add_chk_count
       hd_append simp del: of_nat_Suc)

lemma count_of_butlast: "count_of P xs \<le> count_of P (xs @ ys)"
  by (simp add: count_of_def)

lemma countable_prefix: "countable_samples (xs @ ys) \<Longrightarrow> countable_samples xs"
  unfolding countable_samples_def by (meson count_of_butlast le_less_trans)

lemma new_is_summary: "stats_collector_new e now = summary e now []"
  by (simp add: stats_collector_new_def summary_def)

text \<open>C39: After any sequence of samples the collector shows exactly the summary of the sequence:
  the last value of every reported quantity, the numbers of accepted blocks, and the time of
  the first sample; it panics exactly when one of those numbers exceeds 64 bits.\<close>

theorem stats_are_summary:
  "foldO receive_sample samples (stats_collector_new e now)
     = (if countable_samples samples then Ok (summary e now samples) else Panic)"
proof (induction samples rule: rev_induct)
  case Nil
  show ?case by (simp add: new_is_summary countable_samples_def)
next
  case (snoc x xs)
  show ?case
  proof (cases "countable_samples xs")
    case True
    then show ?thesis using snoc.IH receive_sample_summary [OF True, of x e now]
      by (simp add: foldO_append)
  next
    case False
    then have "\<not> countable_samples (xs @ [x])" using countable_prefix by blast
    then show ?thesis using False snoc.IH by (simp add: foldO_append)
  qed
qed

section \<open>Rejected blocks\<close>

text \<open>What a node broadcasts for a miner's block and for a block sent to the Tari network.\<close>

definition report_miner_block :: "epoch_time \<Rightarrow> pow_algorithm \<Rightarrow> bool \<Rightarrow> stat_data" where
  "report_miner_block now a accepted =
     (if accepted then send_miner_block_accepted now a else send_miner_block_rejected now a)"

definition report_pool_block :: "epoch_time \<Rightarrow> pow_algorithm \<Rightarrow> bool \<Rightarrow> stat_data" where
  "report_pool_block now a accepted =
     (if accepted then send_pool_block_accepted now a else send_pool_block_rejected now a)"

lemma receive_miner_block:
  "receive_sample (report_miner_block now Sha3x ok) c = Ok c' \<Longrightarrow>
     unat (st_miner_sha_accepted c') = Suc (unat (st_miner_sha_accepted c))
   \<and> st_pool_sha_accepted c' = st_pool_sha_accepted c"
  by (auto simp: receive_sample_def report_miner_block_def stat_senders dest!: add_chk_unat
      split: if_splits)

lemma receive_pool_block:
  "receive_sample (report_pool_block now Sha3x ok) c = Ok c' \<Longrightarrow>
     unat (st_pool_sha_accepted c') = Suc (unat (st_pool_sha_accepted c))
   \<and> st_miner_sha_accepted c' = st_miner_sha_accepted c"
  by (auto simp: receive_sample_def report_pool_block_def stat_senders dest!: add_chk_unat
      split: if_splits)

text \<open>Blocks reported as rejected, by the share chain or by the Tari network, are counted as
  accepted: the counters grow by the number of all reports.\<close>

theorem rejected_blocks_counted_as_accepted:
  assumes "foldO receive_sample
      (map (report_miner_block now Sha3x) miner_results @ map (report_pool_block now Sha3x) pool_results) c
    = Ok c'"
  shows "unat (st_miner_sha_accepted c') = unat (st_miner_sha_accepted c) + length miner_results
    \<and> unat (st_pool_sha_accepted c') = unat (st_pool_sha_accepted c) + length pool_results"
proof -
  have miner: "unat (st_miner_sha_accepted d') = unat (st_miner_sha_accepted d) + length rs
      \<and> st_pool_sha_accepted d' = st_pool_sha_accepted d"
    if "foldO receive_sample (map (report_miner_block now Sha3x) rs) d = Ok d'" for rs d d'
    using that
  proof (induction rs arbitrary: d)
    case (Cons r rs)
    then obtain d1 where "receive_sample (report_miner_block now Sha3x r) d = Ok d1"
      and "foldO receive_sample (map (report_miner_block now Sha3x) rs) d1 = Ok d'" by auto
    with Cons.IH [of d1] receive_miner_block [of now r d d1] show ?case by simp
  qed simp
  have pool: "unat (st_pool_sha_accepted d') = unat (st_pool_sha_accepted d) + length rs
      \<and> st_miner_sha_accepted d' = st_miner_sha_accepted d"
    if "foldO receive_sample (map (report_pool_block now Sha3x) rs) d = Ok d'" for rs d d'
    using that
  proof (induction rs arbitrary: d)
    case (Cons r rs)
    then obtain d1 where "receive_sample (report_pool_block now Sha3x r) d = Ok d1"
      and "foldO receive_sample (map (report_pool_block now Sha3x) rs) d1 = Ok d'" by auto
    with Cons.IH [of d1] receive_pool_block [of now r d d1] show ?case by simp
  qed simp
  from assms show ?thesis by (auto simp: foldO_append dest!: miner pool)
qed

theorem rejected_blocks_counted_as_accepted_witness:
  "\<exists>c'. foldO receive_sample
       (map (report_miner_block 7 Sha3x) [True, False, False] @ map (report_pool_block 7 Sha3x) [False])
       (stats_collector_new demo_ext 5) = Ok c'
     \<and> unat (st_miner_sha_accepted c') = 3 \<and> unat (st_pool_sha_accepted c') = 1"
proof -
  have "\<exists>c'. foldO receive_sample
       (map (report_miner_block 7 Sha3x) [True, False, False] @ map (report_pool_block 7 Sha3x) [False])
       (stats_collector_new demo_ext 5) = Ok c'"
    by (simp add: receive_sample_def report_miner_block_def report_pool_block_def stat_senders
        stats_collector_new_def add_chk_def checked_add_def)
  then obtain c' where c': "foldO receive_sample
       (map (report_miner_block 7 Sha3x) [True, False, False] @ map (report_pool_block 7 Sha3x) [False])
       (stats_collector_new demo_ext 5) = Ok c'" ..
  have "unat (st_miner_sha_accepted c') = 3 \<and> unat (st_pool_sha_accepted c') = 1"
    using rejected_blocks_counted_as_accepted [OF c'] by (simp add: stats_collector_new_def)
  with c' show ?thesis by blast
qed

end
