(* ===== verification/GrpcPool.thy ===== *)
theory GrpcPool
  imports ShareService PeerStore CoinbaseExtra StatsCollector
begin

text \<open>
  The service for miners, \<open>server/grpc/p2pool.rs\<close>: it hands out block templates, takes
  mined blocks back, forwards those good enough to the Tari base node and enters them into the
  share chain.

  The fields the service has once for each proof-of-work algorithm are functions of the
  algorithm. A request is one step: its locks and its time limit of five seconds, after
  which the request is dropped where it waits, are not modelled. The answers of the base node
  and the functions of the Tari crates the service calls are arguments. What the service tells
  others is recorded in order: the samples for the statistics and the blocks handed to the
  peer-to-peer service. The samples that the share chain itself broadcasts are not among them.
\<close>

section \<open>Messages\<close>

definition MAX_STORED_TEMPLATES_RX :: nat where "MAX_STORED_TEMPLATES_RX = 100"
definition MAX_STORED_TEMPLATES_SHA3X :: nat where "MAX_STORED_TEMPLATES_SHA3X = 100"

definition max_stored_templates :: "pow_algorithm \<Rightarrow> nat" where
  "max_stored_templates a =
     (case a of RandomX \<Rightarrow> MAX_STORED_TEMPLATES_RX | Sha3x \<Rightarrow> MAX_STORED_TEMPLATES_SHA3X)"

datatype status =
    Internal string | InvalidArgument string | FailedPrecondition string | BaseNodeStatus string

record grpc_header =
  gh_height :: u64
  gh_pow :: "u64 option"
  gh_rest :: bytes

record grpc_block =
  gb_header :: "grpc_header option"
  gb_body :: bytes

record miner_data =
  md_target_difficulty :: u64
  md_rest :: bytes

record template_response =
  tr_block :: "grpc_block option"
  tr_miner_data :: "miner_data option"
  tr_rest :: bytes

record new_block_request =
  nr_pow :: "int option"
  nr_coinbase_extra :: string
  nr_wallet_payment_address :: string

record tip_info =
  ti_node_height :: u64
  ti_node_tip_hash :: bytes
  ti_p2pool_rx_height :: u64
  ti_p2pool_rx_tip_hash :: bytes
  ti_p2pool_sha_height :: u64
  ti_p2pool_sha_tip_hash :: bytes

text \<open>The functions of the Tari crates and the conversions of the generated code.\<close>

record 'l grpc_world =
  g_ext :: "'l ext"
  header_height :: "block_header \<Rightarrow> u64"
  header_hash :: "block_header \<Rightarrow> fixed_hash"
  reset_nonce :: "block_header \<Rightarrow> block_header"
  reset_pow_data :: "block_header \<Rightarrow> block_header"
  hash_to_vec :: "fixed_hash \<Rightarrow> bytes"
  pow_algos_try_from :: "int \<Rightarrow> pow_algorithm option"
  address_from_str :: "string \<Rightarrow> string + tari_address"
  grpc_to_tari :: "grpc_block \<Rightarrow> string + tari_block"
  debug_error :: "share_chain_error \<Rightarrow> string"

text \<open>What the base node answers: to the connection and to each of the three requests.\<close>

record base_node =
  bn_connect :: "string + unit"
  bn_template :: "int \<Rightarrow> new_block_coinbase list \<Rightarrow> string + template_response"
  bn_submit :: "grpc_block \<Rightarrow> string + unit"
  bn_tip_info :: "string + (u64 \<times> bytes) option"

section \<open>State\<close>

record 'l grpc_pool =
  gp_share_chain :: "pow_algorithm \<Rightarrow> 'l share_chain"
  gp_params :: block_validation_params
  gp_height_difficulty_cache :: "pow_algorithm \<Rightarrow> (u64, difficulty) hmap"
  gp_max_difficulty :: difficulty
  gp_template_store :: "pow_algorithm \<Rightarrow> (fixed_hash, p2block) hmap"
  gp_list_of_templates :: "pow_algorithm \<Rightarrow> fixed_hash list"
  gp_synced :: "pow_algorithm \<Rightarrow> bool"
  gp_squad :: string
  gp_cache_get_tip_info :: "instant \<times> tip_info option"
  gp_cache_time :: duration
  gp_p2p_open :: bool
  gp_stats :: "stat_data list"
  gp_broadcasts :: "p2block list"

definition grpc_pool_new ::
    "'l ext \<Rightarrow> instant \<Rightarrow> (pow_algorithm \<Rightarrow> 'l share_chain) \<Rightarrow> block_validation_params
     \<Rightarrow> (pow_algorithm \<Rightarrow> bool) \<Rightarrow> string \<Rightarrow> duration \<Rightarrow> 'l grpc_pool" where
  "grpc_pool_new e now share_chains params synced squad cache_time = \<lparr>
     gp_share_chain = share_chains, gp_params = params,
     gp_height_difficulty_cache = (\<lambda>_. []), gp_max_difficulty = difficulty_min e,
     gp_template_store = (\<lambda>_. []), gp_list_of_templates = (\<lambda>_. []),
     gp_synced = synced, gp_squad = squad, gp_cache_get_tip_info = (now, None),
     gp_cache_time = cache_time, gp_p2p_open = True, gp_stats = [], gp_broadcasts = []\<rparr>"

type_synonym ('l, 'a) grpc_result = "'l grpc_pool \<times> (status, 'a) outcome"

text \<open>
  The readings of the clock of one request: those of the share chain, and that of the samples.
\<close>

record grpc_clock =
  k_now :: epoch_time
  k_now' :: epoch_time
  k_stats :: epoch_time

definition tell_stats :: "stat_data \<Rightarrow> 'l grpc_pool \<Rightarrow> 'l grpc_pool" where
  "tell_stats x s = s\<lparr>gp_stats := gp_stats s @ [x]\<rparr>"

text \<open>\<open>ServiceClient::broadcast_block\<close>: fails when the receiving service is gone.\<close>

definition client_broadcast_block :: "p2block \<Rightarrow> 'l grpc_pool \<Rightarrow> ('l, unit) grpc_result" where
  "client_broadcast_block block s =
     (if gp_p2p_open s then (s\<lparr>gp_broadcasts := gp_broadcasts s @ [block]\<rparr>, Ok ())
      else (s, Err (Internal ''channel closed'')))"

definition with_chain ::
    "pow_algorithm \<Rightarrow> ('l share_chain \<Rightarrow> 'l share_chain \<times> ('e, 'a) outcome) \<Rightarrow> 'l grpc_pool
     \<Rightarrow> 'l grpc_pool \<times> ('e, 'a) outcome" where
  "with_chain a f s =
     (case f (gp_share_chain s a) of
        (c, r) \<Rightarrow> (s\<lparr>gp_share_chain := (gp_share_chain s)(a := c)\<rparr>, r))"

section \<open>Entering a block into the share chain\<close>

definition submit_share_chain_block ::
    "'l grpc_world \<Rightarrow> grpc_clock \<Rightarrow> p2block \<Rightarrow> 'l grpc_pool \<Rightarrow> ('l, unit) grpc_result" where
  "submit_share_chain_block w k block s =
     (let pow_algo = block_algo block in
      if \<not> gp_synced s pow_algo then (s, Ok ())
      else
        case with_chain pow_algo (\<lambda>c. submit_block (g_ext w) (k_now k) (k_now' k) c block) s of
          (s, Ok tip) \<Rightarrow>
            if new_tip tip \<noteq> None
            then (let s = tell_stats (send_miner_block_accepted (k_stats k) pow_algo) s in
                  client_broadcast_block block
                    (fold (\<lambda>uncle s. fst (client_broadcast_block uncle s))
                       (get_blocks (gp_share_chain s pow_algo) (b_uncles block)) s))
            else (tell_stats (send_miner_block_rejected (k_stats k) pow_algo) s, Ok ())
        | (s, Err error) \<Rightarrow> (tell_stats (send_miner_block_rejected (k_stats k) pow_algo) s, Ok ())
        | (s, Panic) \<Rightarrow> (s, Panic)
        | (s, Diverge) \<Rightarrow> (s, Diverge))"

section \<open>Tip information\<close>

text \<open>
  The answer is kept for \<open>cache_time\<close>. The first test finds it expired when more than that
  has passed, the second, under the write lock, valid when less has passed.
\<close>

definition elapsed :: "instant \<Rightarrow> instant \<Rightarrow> duration" where
  "elapsed now t = now - t"

definition fresh_tip_info :: "'l grpc_world \<Rightarrow> base_node \<Rightarrow> 'l grpc_pool \<Rightarrow> (status, tip_info) outcome" where
  "fresh_tip_info w bn s =
     (let tip_of = (\<lambda>a. case sc_get_tip (gp_share_chain s a) of
                          Some (height, hash) \<Rightarrow> (height, hash_to_vec w hash)
                        | None \<Rightarrow> (0, hash_to_vec w zero_hash));
          (rx_height, rx_hash) = tip_of RandomX; (sha3_height, sha3_hash) = tip_of Sha3x in
      bindO (sum_to_outcome (\<lambda>m. Internal (''Could not connect to base node '' @ m)) (bn_connect bn)) (\<lambda>_.
      bindO (sum_to_outcome BaseNodeStatus (bn_tip_info bn)) (\<lambda>metadata.
        let (node_height, node_tip_hash) = opt_or metadata (0, hash_to_vec w zero_hash) in
        Ok \<lparr>ti_node_height = node_height, ti_node_tip_hash = node_tip_hash,
            ti_p2pool_rx_height = rx_height, ti_p2pool_rx_tip_hash = rx_hash,
            ti_p2pool_sha_height = sha3_height, ti_p2pool_sha_tip_hash = sha3_hash\<rparr>)))"

text \<open>\<open>busy\<close>: another request holds the write lock and has not finished.\<close>

definition get_tip_info ::
    "'l grpc_world \<Rightarrow> base_node \<Rightarrow> instant \<Rightarrow> bool \<Rightarrow> 'l grpc_pool \<Rightarrow> ('l, tip_info) grpc_result" where
  "get_tip_info w bn now busy s =
     (let (t, cached_response) = gp_cache_get_tip_info s;
          cache_expired = (cached_response = None \<or> gp_cache_time s < elapsed now t) in
      case (if cache_expired \<and> \<not> busy then None else cached_response) of
        Some cache \<Rightarrow> (s, Ok cache)
      | None \<Rightarrow>
          (case (if elapsed now t < gp_cache_time s then cached_response else None) of
             Some cache \<Rightarrow> (s, Ok cache)
           | None \<Rightarrow>
               (case fresh_tip_info w bn s of
                  Ok r \<Rightarrow> (s\<lparr>gp_cache_get_tip_info := (now, Some r)\<rparr>, Ok r)
                | Err x \<Rightarrow> (s, Err x)
                | Panic \<Rightarrow> (s, Panic)
                | Diverge \<Rightarrow> (s, Diverge))))"

section \<open>A new template\<close>

text \<open>A method that changes its receiver and may fail, as a value.\<close>

definition into_result :: "'s \<times> ('f, unit) outcome \<Rightarrow> ('f, 's) outcome" where
  "into_result m = (case m of (s, r) \<Rightarrow> bindO r (\<lambda>_. Ok s))"

text \<open>The template is filed under the hash of its Tari header with the nonce zero.\<close>

definition remember_template ::
    "pow_algorithm \<Rightarrow> fixed_hash \<Rightarrow> p2block \<Rightarrow> 'l grpc_pool \<Rightarrow> 'l grpc_pool" where
  "remember_template a tari_hash block s =
     (let hashes = gp_list_of_templates s a @ [tari_hash];
          hashes = (if max_stored_templates a < length hashes then tl hashes else hashes) in
      s\<lparr>gp_list_of_templates := (gp_list_of_templates s)(a := hashes),
        gp_template_store := (gp_template_store s)(a := hm_insert tari_hash block (gp_template_store s a))\<rparr>)"

text \<open>
  The difficulty the miner is given: a synced node lowers the difficulty of the base node to
  its own target, one that is not synced reports the difficulty of the base node.
\<close>

definition miner_difficulty ::
    "'l grpc_world \<Rightarrow> bool \<Rightarrow> difficulty \<Rightarrow> miner_data \<Rightarrow> (status, miner_data \<times> difficulty) outcome" where
  "miner_difficulty w synced target miner_data =
     (let miner_data =
        (if target < md_target_difficulty miner_data \<and> synced
         then miner_data\<lparr>md_target_difficulty := target\<rparr> else miner_data)
      in bindO (if \<not> synced then unwrap (difficulty_from_u64 (g_ext w) (md_target_difficulty miner_data))
                else Ok target) (\<lambda>target. Ok (miner_data, target)))"

definition tell_network_difficulty ::
    "'l grpc_world \<Rightarrow> grpc_clock \<Rightarrow> pow_algorithm \<Rightarrow> u64 \<Rightarrow> 'l grpc_pool \<Rightarrow> 'l grpc_pool" where
  "tell_network_difficulty w k a target s =
     (case difficulty_from_u64 (g_ext w) target of
        Some diff \<Rightarrow> tell_stats (send_network_difficulty (k_stats k) a diff) s
      | None \<Rightarrow> s)"

definition issue_template ::
    "'l grpc_world \<Rightarrow> grpc_clock \<Rightarrow> pow_algorithm \<Rightarrow> bool \<Rightarrow> p2block \<Rightarrow> difficulty \<Rightarrow> template_response
     \<Rightarrow> 'l grpc_pool \<Rightarrow> ('l, template_response \<times> u64) grpc_result" where
  "issue_template w k a synced new_tip_block target response s =
     (let e = g_ext w; bad_target = Internal ''Invalid target difficulty'' in
      bindS (s, ok_or (Internal ''missing miner data'') (tr_miner_data response)) (\<lambda>s miner_data.
      bindS (s, ok_or (Internal ''missing missing block'') (tr_block response)) (\<lambda>s block.
      bindS (s, sum_to_outcome (\<lambda>m. Internal (''Could not convert gprc block to tari block: '' @ m))
                  (grpc_to_tari w block)) (\<lambda>s tari_block.
      let tari_block = tari_block\<lparr>tb_header := reset_nonce w (tb_header tari_block)\<rparr> in
      bindS (s, map_err (\<lambda>x. Internal (''Could not convert gprc block to p2p block: '' @ debug_error w x))
                  (into_result (populate_tari_data e new_tip_block tari_block))) (\<lambda>s new_tip_block.
      let tari_hash = header_hash w (b_original_header new_tip_block) in
      bindS (s, ok_or (Internal ''missing missing header'') (map_option gh_height (gb_header block))) (\<lambda>s height.
      bindS (s, ok_or bad_target (difficulty_from_u64 e (md_target_difficulty miner_data))) (\<lambda>s actual_diff.
      let s = s\<lparr>gp_height_difficulty_cache := (gp_height_difficulty_cache s)
                  (a := hm_insert height actual_diff (gp_height_difficulty_cache s a))\<rparr> in
      bindS (s, map_err (\<lambda>_. bad_target)
                  (into_result (change_target_difficulty e new_tip_block target))) (\<lambda>s new_tip_block.
      let s = tell_network_difficulty w k a (md_target_difficulty miner_data) s in
      bindS (s, miner_difficulty w synced target miner_data) (\<lambda>s (miner_data, target).
      let s = tell_stats (send_target_difficulty (k_stats k) a target) s;
          s = remember_template a tari_hash new_tip_block s in
      (s, Ok (response\<lparr>tr_miner_data := Some miner_data\<rparr>, target)))))))))))"

definition get_new_block ::
    "'l grpc_world \<Rightarrow> base_node \<Rightarrow> grpc_clock \<Rightarrow> new_block_request \<Rightarrow> 'l grpc_pool
     \<Rightarrow> ('l, template_response \<times> u64) grpc_result" where
  "get_new_block w bn k req s =
     bindS (s, ok_or (InvalidArgument ''missing pow in request'') (nr_pow req)) (\<lambda>s pow.
     bindS (s, ok_or (Internal ''invalid block header pow algo in request'') (pow_algos_try_from w pow)) (\<lambda>s a.
     bindS (s, sum_to_outcome (\<lambda>m. FailedPrecondition (''Invalid wallet payment address:  '' @ m))
                 (address_from_str w (nr_wallet_payment_address req))) (\<lambda>s wallet_payment_address.
     let synced = gp_synced s a;
         coinbase_extra = (case convert_coinbase_extra (gp_squad s) (nr_coinbase_extra req) of
                             Ok x \<Rightarrow> x | _ \<Rightarrow> []) in
     bindS (s, map_err (\<lambda>x. Internal (''failed to get new tip block '' @ debug_error w x))
                 (generate_new_tip_block (g_ext w) (k_now k) (k_now' k) (gp_share_chain s a)
                    wallet_payment_address coinbase_extra)) (\<lambda>s new_tip_block.
     bindS (with_chain a (\<lambda>c. case generate_shares_and_get_target_difficulty (g_ext w) c new_tip_block (\<not> synced) of
                (c, r) \<Rightarrow> (c, map_err (\<lambda>x. Internal (''failed to generate shares '' @ debug_error w x)) r)) s)
       (\<lambda>s (shares, target).
     bindS (s, sum_to_outcome (\<lambda>m. Internal (''Could not connect to base node '' @ m)) (bn_connect bn)) (\<lambda>s _.
     bindS (s, sum_to_outcome BaseNodeStatus (bn_template bn pow shares)) (\<lambda>s response.
     issue_template w k a synced new_tip_block target response s)))))))"

section \<open>A mined block\<close>

definition i32_try_from :: "u64 \<Rightarrow> int option" where
  "i32_try_from v = (if unat v < 2 ^ 31 then Some (int (unat v)) else None)"

definition template_key :: "'l grpc_world \<Rightarrow> block_header \<Rightarrow> fixed_hash" where
  "template_key w header = header_hash w (reset_pow_data w (reset_nonce w header))"

definition achieved_difficulty ::
    "'l grpc_world \<Rightarrow> block_validation_params \<Rightarrow> block_header \<Rightarrow> (status, difficulty) outcome" where
  "achieved_difficulty w params header =
     sum_to_outcome Internal
       (case bh_pow_algo header of
          Sha3x \<Rightarrow> sha3x_difficulty (g_ext w) header
        | RandomX \<Rightarrow> randomx_difficulty (g_ext w) header params)"

text \<open>
  Forwarding to the base node, when the block is good enough for it. A refusal ends the
  request; then the share chain is not given the block.
\<close>

definition submit_to_base_node ::
    "'l grpc_world \<Rightarrow> base_node \<Rightarrow> grpc_clock \<Rightarrow> pow_algorithm \<Rightarrow> grpc_block \<Rightarrow> p2block \<Rightarrow> 'l grpc_pool
     \<Rightarrow> ('l, p2block) grpc_result" where
  "submit_to_base_node w bn k pow_algo payload p2pool_block s =
     bindS (s, sum_to_outcome (\<lambda>m. Internal (''Could not connect to base node '' @ m)) (bn_connect bn)) (\<lambda>s _.
       case bn_submit bn payload of
         Inr _ \<Rightarrow>
           (tell_stats (send_pool_block_accepted (k_stats k) pow_algo)
              (s\<lparr>gp_max_difficulty := difficulty_min (g_ext w)\<rparr>),
            Ok (p2pool_block\<lparr>b_sent_to_main_chain := True\<rparr>))
       | Inl error \<Rightarrow>
           (tell_stats (send_pool_block_rejected (k_stats k) pow_algo) s, Err (Internal error)))"

text \<open>An error that is only logged.\<close>

fun ignore_error :: "'s \<times> ('e, 'a) outcome \<Rightarrow> 's \<times> ('f, unit) outcome" where
  "ignore_error (s, Ok x) = (s, Ok ())"
| "ignore_error (s, Err e) = (s, Ok ())"
| "ignore_error (s, Panic) = (s, Panic)"
| "ignore_error (s, Diverge) = (s, Diverge)"

lemma fst_ignore_error [simp]: "fst (ignore_error m) = fst m"
  by (cases m rule: ignore_error.cases) simp_all

text \<open>What is done with a block whose template was found.\<close>

definition submit_mined ::
    "'l grpc_world \<Rightarrow> base_node \<Rightarrow> grpc_clock \<Rightarrow> pow_algorithm \<Rightarrow> grpc_block \<Rightarrow> p2block \<Rightarrow> 'l grpc_pool
     \<Rightarrow> ('l, unit) grpc_result" where
  "submit_mined w bn k pow_algo payload p2pool_block s =
     (let header = b_original_header p2pool_block in
      bindS (s, achieved_difficulty w (gp_params s) header) (\<lambda>s request_block_difficulty.
      let network_difficulty =
            opt_or (hm_get (gp_height_difficulty_cache s (bh_pow_algo header)) (header_height w header))
              (difficulty_min (g_ext w));
          s = (if gp_max_difficulty s < request_block_difficulty
               then s\<lparr>gp_max_difficulty := request_block_difficulty\<rparr> else s) in
      bindS (if network_difficulty \<le> request_block_difficulty
             then submit_to_base_node w bn k pow_algo payload p2pool_block s
             else (s, Ok p2pool_block)) (\<lambda>s p2pool_block.
        ignore_error (submit_share_chain_block w k p2pool_block s))))"

definition submit_mined_block ::
    "'l grpc_world \<Rightarrow> base_node \<Rightarrow> grpc_clock \<Rightarrow> grpc_block option \<Rightarrow> 'l grpc_pool
     \<Rightarrow> ('l, fixed_hash) grpc_result" where
  "submit_mined_block w bn k request s =
     bindS (s, ok_or (Internal ''missing block in request'') request) (\<lambda>s payload.
     bindS (s, ok_or (Internal ''missing block header in request'') (gb_header payload)) (\<lambda>s header.
     bindS (s, ok_or (Internal ''missing block header pow in request'') (gh_pow header)) (\<lambda>s pow.
     bindS (s, ok_or (Internal ''general error'') (i32_try_from pow)) (\<lambda>s algo.
     bindS (s, ok_or (Internal ''invalid block header pow algo in request'') (pow_algos_try_from w algo)) (\<lambda>s pow_algo.
     bindS (s, sum_to_outcome (\<lambda>m. Internal (''Could not convert gprc block to tari block: '' @ m))
                 (grpc_to_tari w payload)) (\<lambda>s tari_block.
     let tari_hash = template_key w (tb_header tari_block) in
     bindS (s, ok_or (Internal ''missing template'') (hm_get (gp_template_store s pow_algo) tari_hash)) (\<lambda>s template.
     bindS (submit_mined w bn k pow_algo payload (template\<lparr>b_original_header := tb_header tari_block\<rparr>) s)
       (\<lambda>s _. (s, Ok tari_hash)))))))))"

text \<open>The miner is told only that the submission failed.\<close>

definition grpc_submit_block ::
    "'l grpc_world \<Rightarrow> base_node \<Rightarrow> grpc_clock \<Rightarrow> grpc_block option \<Rightarrow> 'l grpc_pool
     \<Rightarrow> ('l, fixed_hash) grpc_result" where
  "grpc_submit_block w bn k request s =
     (case submit_mined_block w bn k request s of
        (s, r) \<Rightarrow> (s, map_err (\<lambda>_. Internal ''submit_block failed'') r))"

section \<open>Requests\<close>

datatype grpc_request =
    GetTipInfo base_node instant bool
  | GetNewBlock base_node grpc_clock new_block_request
  | SubmitBlock base_node grpc_clock "grpc_block option"

text \<open>
  One request, whatever its outcome; a panic ends its task and leaves what was changed. Between
  requests the other parts of the node change the share chains and the synced flags.
\<close>

fun serve :: "'l grpc_world \<Rightarrow> grpc_request \<Rightarrow> 'l grpc_pool \<Rightarrow> 'l grpc_pool" where
  "serve w (GetTipInfo bn now busy) s = fst (get_tip_info w bn now busy s)"
| "serve w (GetNewBlock bn k req) s = fst (get_new_block w bn k req s)"
| "serve w (SubmitBlock bn k block) s = fst (grpc_submit_block w bn k block s)"

inductive grpc_step :: "'l grpc_world \<Rightarrow> 'l grpc_pool \<Rightarrow> 'l grpc_pool \<Rightarrow> bool" for w where
  request: "grpc_step w s (serve w r s)"
| elsewhere: "grpc_step w s (s\<lparr>gp_share_chain := share_chains, gp_synced := synced, gp_p2p_open := alive\<rparr>)"

end
