(* ===== verification/ServerConfig.thy ===== *)
theory ServerConfig
  imports NetStart GrpcPool
begin

text \<open>
  The configuration: \<open>server/config.rs\<close>, the options of the command line
  (\<open>cli/args.rs\<close>, \<open>cli/util.rs\<close>, \<open>cli/commands/*.rs\<close>), and how the options, the environment and
  the network become the configuration of a node (\<open>server\<close> in \<open>cli/commands/util.rs\<close>).

  Paths are strings. The environment is what the process finds: the network, two variables and
  the current directory. Parsing of the command line is the work of a library; white space and
  case are those of ASCII.
\<close>

section \<open>The configuration and its builder\<close>

record http_config =
  http_enabled :: bool
  http_port :: u16

definition http_config_default :: http_config where
  "http_config_default = \<lparr>http_enabled = True, http_port = 19000\<rparr>"

record server_config =
  cs_base_node_address :: string
  cs_p2p_port :: u16
  cs_grpc_port :: u16
  cs_idle_connection_timeout :: duration
  cs_p2p_service :: p2p_config
  cs_http_server :: http_config
  cs_max_incoming_connections :: "u32 option"
  cs_max_outgoing_connections :: "u32 option"
  cs_network_silence_delay :: u64
  cs_max_relay_circuits :: "nat option"
  cs_max_relay_circuits_per_peer :: "nat option"
  cs_block_time_sha :: u64
  cs_block_time_rx :: u64
  cs_share_window :: u64
  cs_block_cache_file :: string
  cs_minimum_sha3_target_difficulty :: "u64 option"
  cs_minimum_randomx_target_difficulty :: "u64 option"
  cs_grpc_cache_time :: duration

definition server_config_default :: server_config where
  "server_config_default = \<lparr>
     cs_base_node_address = ''http://127.0.0.1:18182'', cs_p2p_port = 0, cs_grpc_port = 18145,
     cs_idle_connection_timeout = from_secs 60, cs_p2p_service = p2p_config_default,
     cs_http_server = http_config_default, cs_max_incoming_connections = Some 100,
     cs_max_outgoing_connections = Some 20, cs_network_silence_delay = 300,
     cs_max_relay_circuits = None, cs_max_relay_circuits_per_peer = None,
     cs_block_time_sha = 20, cs_block_time_rx = 30, cs_share_window = 1000,
     cs_block_cache_file = ''block_cache'', cs_minimum_sha3_target_difficulty = None,
     cs_minimum_randomx_target_difficulty = None, cs_grpc_cache_time = from_secs 1\<rparr>"

text \<open>Each method of the builder that is used sets one field.\<close>

definition with_p2p_port :: "u16 \<Rightarrow> server_config \<Rightarrow> server_config" where
  "with_p2p_port x c = c\<lparr>cs_p2p_port := x\<rparr>"

definition with_grpc_port :: "u16 \<Rightarrow> server_config \<Rightarrow> server_config" where
  "with_grpc_port x c = c\<lparr>cs_grpc_port := x\<rparr>"

definition with_network_silence_delay :: "u64 \<Rightarrow> server_config \<Rightarrow> server_config" where
  "with_network_silence_delay x c = c\<lparr>cs_network_silence_delay := x\<rparr>"

definition with_minimum_sha3_target_difficulty :: "u64 \<Rightarrow> server_config \<Rightarrow> server_config" where
  "with_minimum_sha3_target_difficulty x c = c\<lparr>cs_minimum_sha3_target_difficulty := Some x\<rparr>"

definition with_minimum_randomx_target_difficulty :: "u64 \<Rightarrow> server_config \<Rightarrow> server_config" where
  "with_minimum_randomx_target_difficulty x c = c\<lparr>cs_minimum_randomx_target_difficulty := Some x\<rparr>"

definition with_grpc_cache_time :: "duration \<Rightarrow> server_config \<Rightarrow> server_config" where
  "with_grpc_cache_time x c = c\<lparr>cs_grpc_cache_time := x\<rparr>"

definition with_max_incoming_connections :: "u32 \<Rightarrow> server_config \<Rightarrow> server_config" where
  "with_max_incoming_connections x c = c\<lparr>cs_max_incoming_connections := Some x\<rparr>"

definition with_max_outgoing_connections :: "u32 \<Rightarrow> server_config \<Rightarrow> server_config" where
  "with_max_outgoing_connections x c = c\<lparr>cs_max_outgoing_connections := Some x\<rparr>"

definition with_relay_max_circuits :: "nat option \<Rightarrow> server_config \<Rightarrow> server_config" where
  "with_relay_max_circuits x c = c\<lparr>cs_max_relay_circuits := x\<rparr>"

definition with_relay_max_circuits_per_peer :: "nat option \<Rightarrow> server_config \<Rightarrow> server_config" where
  "with_relay_max_circuits_per_peer x c = c\<lparr>cs_max_relay_circuits_per_peer := x\<rparr>"

definition with_base_node_address :: "string \<Rightarrow> server_config \<Rightarrow> server_config" where
  "with_base_node_address x c = c\<lparr>cs_base_node_address := x\<rparr>"

definition with_sha3_block_time :: "u64 \<Rightarrow> server_config \<Rightarrow> server_config" where
  "with_sha3_block_time x c = c\<lparr>cs_block_time_sha := x\<rparr>"

definition with_rx_block_time :: "u64 \<Rightarrow> server_config \<Rightarrow> server_config" where
  "with_rx_block_time x c = c\<lparr>cs_block_time_rx := x\<rparr>"

definition with_share_window :: "u64 \<Rightarrow> server_config \<Rightarrow> server_config" where
  "with_share_window x c = c\<lparr>cs_share_window := x\<rparr>"

definition with_block_cache_file :: "string \<Rightarrow> server_config \<Rightarrow> server_config" where
  "with_block_cache_file x c = c\<lparr>cs_block_cache_file := x\<rparr>"

definition with_squad_prefix :: "string \<Rightarrow> server_config \<Rightarrow> server_config" where
  "with_squad_prefix x c = c\<lparr>cs_p2p_service := (cs_p2p_service c)\<lparr>squad_prefix := x\<rparr>\<rparr>"

definition with_squad_override :: "string \<Rightarrow> server_config \<Rightarrow> server_config" where
  "with_squad_override x c = c\<lparr>cs_p2p_service := (cs_p2p_service c)\<lparr>squad_override := Some x\<rparr>\<rparr>"

definition with_num_squads :: "nat \<Rightarrow> server_config \<Rightarrow> server_config" where
  "with_num_squads x c = c\<lparr>cs_p2p_service := (cs_p2p_service c)\<lparr>num_squads := x\<rparr>\<rparr>"

definition with_seed_peers :: "string list \<Rightarrow> server_config \<Rightarrow> server_config" where
  "with_seed_peers x c = c\<lparr>cs_p2p_service := (cs_p2p_service c)\<lparr>cfg_seed_peers := x\<rparr>\<rparr>"

definition with_stable_peer :: "bool \<Rightarrow> server_config \<Rightarrow> server_config" where
  "with_stable_peer x c = c\<lparr>cs_p2p_service := (cs_p2p_service c)\<lparr>stable_peer := x\<rparr>\<rparr>"

definition with_private_key_folder :: "string \<Rightarrow> server_config \<Rightarrow> server_config" where
  "with_private_key_folder x c = c\<lparr>cs_p2p_service := (cs_p2p_service c)\<lparr>private_key_folder := x\<rparr>\<rparr>"

definition with_sha3x_enabled :: "bool \<Rightarrow> server_config \<Rightarrow> server_config" where
  "with_sha3x_enabled x c = c\<lparr>cs_p2p_service := (cs_p2p_service c)\<lparr>sha3x_enabled := x\<rparr>\<rparr>"

definition with_randomx_enabled :: "bool \<Rightarrow> server_config \<Rightarrow> server_config" where
  "with_randomx_enabled x c = c\<lparr>cs_p2p_service := (cs_p2p_service c)\<lparr>randomx_enabled := x\<rparr>\<rparr>"

definition with_private_key :: "bytes option \<Rightarrow> server_config \<Rightarrow> server_config" where
  "with_private_key x c = c\<lparr>cs_p2p_service := (cs_p2p_service c)\<lparr>private_key := x\<rparr>\<rparr>"

definition with_is_seed_peer :: "bool \<Rightarrow> server_config \<Rightarrow> server_config" where
  "with_is_seed_peer x c = c\<lparr>cs_p2p_service := (cs_p2p_service c)\<lparr>cfg_is_seed_peer := x\<rparr>\<rparr>"

definition with_mdns_enabled :: "bool \<Rightarrow> server_config \<Rightarrow> server_config" where
  "with_mdns_enabled x c = c\<lparr>cs_p2p_service := (cs_p2p_service c)\<lparr>mdns_enabled := x\<rparr>\<rparr>"

definition with_relay_disabled :: "bool \<Rightarrow> server_config \<Rightarrow> server_config" where
  "with_relay_disabled x c = c\<lparr>cs_p2p_service := (cs_p2p_service c)\<lparr>relay_server_disabled := x\<rparr>\<rparr>"

definition with_external_address :: "string \<Rightarrow> server_config \<Rightarrow> server_config" where
  "with_external_address x c = c\<lparr>cs_p2p_service := (cs_p2p_service c)\<lparr>external_addr := Some x\<rparr>\<rparr>"

definition with_user_agent :: "string \<Rightarrow> server_config \<Rightarrow> server_config" where
  "with_user_agent x c = c\<lparr>cs_p2p_service := (cs_p2p_service c)\<lparr>user_agent := x\<rparr>\<rparr>"

definition with_debug_print_chain :: "bool \<Rightarrow> server_config \<Rightarrow> server_config" where
  "with_debug_print_chain x c = c\<lparr>cs_p2p_service := (cs_p2p_service c)\<lparr>debug_print_chain := x\<rparr>\<rparr>"

definition with_diagnostic_mode_file_path :: "string \<Rightarrow> server_config \<Rightarrow> server_config" where
  "with_diagnostic_mode_file_path x c = c\<lparr>cs_p2p_service := (cs_p2p_service c)\<lparr>diagnostic_mode_file_path := Some x\<rparr>\<rparr>"

definition with_diagnostic_mode :: "bool \<Rightarrow> server_config \<Rightarrow> server_config" where
  "with_diagnostic_mode x c = c\<lparr>cs_p2p_service := (cs_p2p_service c)\<lparr>diagnostic_mode := x\<rparr>\<rparr>"

definition with_num_concurrent_syncs :: "nat \<Rightarrow> server_config \<Rightarrow> server_config" where
  "with_num_concurrent_syncs x c = c\<lparr>cs_p2p_service := (cs_p2p_service c)\<lparr>num_concurrent_syncs := x\<rparr>\<rparr>"

definition with_http_server_enabled :: "bool \<Rightarrow> server_config \<Rightarrow> server_config" where
  "with_http_server_enabled x c = c\<lparr>cs_http_server := (cs_http_server c)\<lparr>http_enabled := x\<rparr>\<rparr>"

definition with_stats_server_port :: "u16 \<Rightarrow> server_config \<Rightarrow> server_config" where
  "with_stats_server_port x c = c\<lparr>cs_http_server := (cs_http_server c)\<lparr>http_port := x\<rparr>\<rparr>"

text \<open>The interval is kept when none is given.\<close>

definition with_peer_publish_interval :: "u64 option \<Rightarrow> server_config \<Rightarrow> server_config" where
  "with_peer_publish_interval x c =
     (case x of
        None \<Rightarrow> c
      | Some interval \<Rightarrow>
          c\<lparr>cs_p2p_service := (cs_p2p_service c)\<lparr>peer_info_publish_interval := from_secs (unat interval)\<rparr>\<rparr>)"

lemmas builder_defs =
  with_p2p_port_def with_grpc_port_def with_network_silence_delay_def
  with_minimum_sha3_target_difficulty_def with_minimum_randomx_target_difficulty_def with_grpc_cache_time_def
  with_max_incoming_connections_def with_max_outgoing_connections_def with_relay_max_circuits_def
  with_relay_max_circuits_per_peer_def with_base_node_address_def with_sha3_block_time_def
  with_rx_block_time_def with_share_window_def with_block_cache_file_def
  with_squad_prefix_def with_squad_override_def with_num_squads_def
  with_seed_peers_def with_stable_peer_def with_private_key_folder_def
  with_sha3x_enabled_def with_randomx_enabled_def with_private_key_def
  with_is_seed_peer_def with_mdns_enabled_def with_relay_disabled_def
  with_external_address_def with_user_agent_def with_debug_print_chain_def
  with_diagnostic_mode_file_path_def with_diagnostic_mode_def with_num_concurrent_syncs_def
  with_http_server_enabled_def with_stats_server_port_def with_peer_publish_interval_def

section \<open>The command line\<close>

record start_args =
  ar_base_dir :: "string option"
  ar_grpc_port :: "u16 option"
  ar_p2p_port :: "u16 option"
  ar_stats_server_port :: "u16 option"
  ar_external_address :: "string option"
  ar_base_node_address :: string
  ar_seed_peers :: "string list option"
  ar_no_default_seed_peers :: bool
  ar_stable_peer :: bool
  ar_squad_prefix :: string
  ar_squad_override :: "string option"
  ar_num_squads :: nat
  ar_private_key_folder :: string
  ar_is_seed_peer :: bool
  ar_mdns_disabled :: bool
  ar_relay_server_disabled :: bool
  ar_relay_server_max_circuits :: "nat option"
  ar_relay_server_max_circuits_per_peer :: "nat option"
  ar_http_server_disabled :: bool
  ar_user_agent :: "string option"
  ar_peer_publish_interval :: "u64 option"
  ar_debug_print_chain :: bool
  ar_diagnostic_mode :: bool
  ar_diagnostic_mode_file_path :: "string option"
  ar_max_connections :: "u32 option"
  ar_randomx_disabled :: bool
  ar_sha3x_disabled :: bool
  ar_block_time_sha :: "u64 option"
  ar_block_time_rx :: "u64 option"
  ar_num_concurrent_syncs :: "u32 option"
  ar_share_window :: "u64 option"
  ar_export_libp2p_info :: "string option"
  ar_network_silence_delay :: "u16 option"
  ar_minimum_sha3_target_difficulty :: "u64 option"
  ar_minimum_randomx_target_difficulty :: "u64 option"
  ar_grpc_cache_seconds :: "u64 option"

definition is_whitespace :: "char \<Rightarrow> bool" where
  "is_whitespace c \<longleftrightarrow> c \<in> {CHR '' '', CHR 0x09, CHR 0x0A, CHR 0x0B, CHR 0x0C, CHR 0x0D}"

definition trim :: "string \<Rightarrow> string" where
  "trim s = rev (dropWhile is_whitespace (rev (dropWhile is_whitespace s)))"

definition validate_squad :: "string \<Rightarrow> string + string" where
  "validate_squad squad = (if trim squad = [] then Inl ''squad must be set'' else Inr squad)"

fun split_on :: "char \<Rightarrow> string \<Rightarrow> string list" where
  "split_on c [] = [[]]"
| "split_on c (x # xs) =
     (if x = c then [] # split_on c xs
      else case split_on c xs of [] \<Rightarrow> [[x]] | y # ys \<Rightarrow> (x # y) # ys)"

text \<open>The sub-command for diagnostics starts the same server with these options.\<close>

definition set_diagnostic_mode :: "start_args \<Rightarrow> start_args" where
  "set_diagnostic_mode args = args\<lparr>
     ar_is_seed_peer := False,
     ar_http_server_disabled := False,
     ar_peer_publish_interval := Some 30,
     ar_debug_print_chain := False,
     ar_diagnostic_mode := True,
     ar_randomx_disabled := True,
     ar_sha3x_disabled := True,
     ar_network_silence_delay := Some (- 1)\<rparr>"

section \<open>From the command line to the configuration\<close>

text \<open>\<open>ev_identity\<close> is \<open>Some None\<close> when the variable is set to something that is not a key.\<close>

record environment =
  ev_local_net :: bool
  ev_network_key_str :: string
  ev_identity :: "bytes option option"
  ev_address :: "string option"
  ev_block_cache_path :: "string option"

datatype config_error = InvalidIdentity | NoCurrentDirectory

definition with_opt :: "('a \<Rightarrow> server_config \<Rightarrow> server_config) \<Rightarrow> 'a option \<Rightarrow> server_config \<Rightarrow> server_config" where
  "with_opt setter x c = (case x of None \<Rightarrow> c | Some y \<Rightarrow> setter y c)"

definition seed_peer_list :: "environment \<Rightarrow> start_args \<Rightarrow> string list" where
  "seed_peer_list env args =
     (if \<not> ev_local_net env \<and> \<not> ar_no_default_seed_peers args
      then [''/dnsaddr/'' @ ev_network_key_str env @ ''.sha-p2pool.tari.com''] else [])
     @ (case ar_seed_peers args of
          Some cli_seed_peers \<Rightarrow> concat (map (\<lambda>s. map trim (split_on CHR '','' s)) cli_seed_peers)
        | None \<Rightarrow> [])"

definition config_from_args :: "environment \<Rightarrow> start_args \<Rightarrow> (config_error, server_config) outcome" where
  "config_from_args env args =
     (let c = server_config_default;
          c = with_opt with_grpc_port (ar_grpc_port args) c;
          c = with_opt with_p2p_port (ar_p2p_port args) c;
          c = with_opt with_sha3_block_time (ar_block_time_sha args) c;
          c = with_opt with_rx_block_time (ar_block_time_rx args) c;
          c = with_opt (\<lambda>n. with_num_concurrent_syncs (unat n)) (ar_num_concurrent_syncs args) c;
          c = with_opt with_share_window (ar_share_window args) c;
          c = with_squad_prefix (ar_squad_prefix args) c;
          c = with_num_squads (ar_num_squads args) c;
          c = with_opt with_squad_override (ar_squad_override args) c;
          c = with_opt (\<lambda>delay. with_network_silence_delay (ucast delay)) (ar_network_silence_delay args) c;
          c = with_opt with_minimum_sha3_target_difficulty (ar_minimum_sha3_target_difficulty args) c;
          c = with_opt with_minimum_randomx_target_difficulty (ar_minimum_randomx_target_difficulty args) c;
          c = with_opt (\<lambda>n. with_grpc_cache_time (from_secs (unat n))) (ar_grpc_cache_seconds args) c;
          c = with_seed_peers (seed_peer_list env args) c;
          c = with_stable_peer (ar_stable_peer args) c;
          c = with_private_key_folder (ar_private_key_folder args) c;
          c = with_opt (\<lambda>n. with_max_incoming_connections n \<circ> with_max_outgoing_connections n)
                (ar_max_connections args) c;
          c = with_randomx_enabled (\<not> ar_randomx_disabled args) c;
          c = with_sha3x_enabled (\<not> ar_sha3x_disabled args) c
      in bindO (case ev_identity env of
                  None \<Rightarrow> Ok c
                | Some None \<Rightarrow> Err InvalidIdentity
                | Some (Some private) \<Rightarrow> Ok (with_private_key (Some private) c)) (\<lambda>c.
      let c = with_opt with_external_address (ar_external_address args) c;
          c = with_opt with_external_address (ev_address env) c;
          c = with_is_seed_peer (ar_is_seed_peer args) c;
          c = with_mdns_enabled (\<not> ar_mdns_disabled args) c;
          c = with_relay_disabled (ar_relay_server_disabled args) c;
          c = with_relay_max_circuits (ar_relay_server_max_circuits args) c;
          c = with_relay_max_circuits_per_peer (ar_relay_server_max_circuits_per_peer args) c;
          c = with_http_server_enabled (\<not> ar_http_server_disabled args) c;
          c = with_user_agent (opt_or (ar_user_agent args) ''tari-p2pool'') c;
          c = with_peer_publish_interval (ar_peer_publish_interval args) c;
          c = with_debug_print_chain (ar_debug_print_chain args) c;
          c = with_opt with_stats_server_port (ar_stats_server_port args) c;
          c = with_base_node_address (ar_base_node_address args) c
      in bindO (ok_or NoCurrentDirectory (ev_block_cache_path env)) (\<lambda>path.
      let c = with_block_cache_file path c;
          c = with_diagnostic_mode (ar_diagnostic_mode args) c;
          c = with_opt with_diagnostic_mode_file_path (ar_diagnostic_mode_file_path args) c
      in Ok c)))"

section \<open>The squad\<close>

definition squad_id :: "nat \<Rightarrow> peer_id \<Rightarrow> nat" where
  "squad_id num p = (if p = [] then 0 else unat (last p)) mod max 1 num"

definition choose_squad :: "(nat \<Rightarrow> string) \<Rightarrow> server_config \<Rightarrow> peer_id \<Rightarrow> string" where
  "choose_squad show c p =
     (case squad_override (cs_p2p_service c) of
        Some squad \<Rightarrow> squad
      | None \<Rightarrow> squad_prefix (cs_p2p_service c) @ ''_''
                 @ show (squad_id (num_squads (cs_p2p_service c)) p))"

section \<open>The share chains of a node\<close>

text \<open>The checks that the share chains of a node leave out.\<close>

definition verification_checks :: verified_status where
  "verification_checks =
     set_target_difficulty_verified (set_difficulty_verified (set_median_timestamp (set_correct_shares vs_new)))"

definition chain_config_of :: "server_config \<Rightarrow> chain_config" where
  "chain_config_of c = \<lparr>
     cf_share_window = cs_share_window c, cf_block_time_rx = cs_block_time_rx c,
     cf_block_time_sha = cs_block_time_sha c,
     cf_minimum_randomx_target_difficulty = cs_minimum_randomx_target_difficulty c,
     cf_minimum_sha3_target_difficulty = cs_minimum_sha3_target_difficulty c\<rparr>"

definition node_share_chain ::
    "'l ext \<Rightarrow> (int \<Rightarrow> int option) \<Rightarrow> chain_files \<Rightarrow> server_config \<Rightarrow> block_validation_params \<Rightarrow> string
     \<Rightarrow> pow_algorithm \<Rightarrow> 'l share_chain sc_result" where
  "node_share_chain e ago fx c params squad a =
     share_chain_new e ago fx (chain_config_of c) a
       (case a of Sha3x \<Rightarrow> None | RandomX \<Rightarrow> Some params) [] squad (Some verification_checks)"

end
