(* ===== verification/Node.thy ===== *)
theory Node
  imports ServerConfig Diagnostics
begin

text \<open>
  A whole node, \<open>server/server.rs\<close>: what it is made of, how it starts, and how its parts share
  the two share chains, the two synced flags and the channel of blocks to publish.

  The share chains and the flags are behind shared pointers in the code. Here the service holds
  them, and a request of a miner works on a service for miners that sees them and writes them
  back. A request is one step, as in \<open>GrpcPool\<close>.
\<close>

section \<open>Connecting to the base node\<close>

text \<open>
  \<open>connect_base_node\<close> (\<open>server/grpc/util.rs\<close>): after a failure it tries again every five
  seconds, until it succeeds or the process shuts down. A list of events that does not decide
  it leaves it waiting: \<open>Diverge\<close>.
\<close>

datatype connect_event = ConnectAttempt bool | ConnectShutdown

datatype connect_error = ConnectionShutdown

fun connect_retry :: "connect_event list \<Rightarrow> (connect_error, unit) outcome" where
  "connect_retry [] = Diverge"
| "connect_retry (ConnectShutdown # events) = Err ConnectionShutdown"
| "connect_retry (ConnectAttempt True # events) = Ok ()"
| "connect_retry (ConnectAttempt False # events) = connect_retry events"

definition connect_base_node :: "bool \<Rightarrow> connect_event list \<Rightarrow> (connect_error, unit) outcome" where
  "connect_base_node client_result events = (if client_result then Ok () else connect_retry events)"

section \<open>The parts of a node\<close>

record 'l node =
  nd_config :: server_config
  nd_service :: "'l service"
  nd_grpc :: "'l grpc_pool option"
  nd_http :: bool
  nd_submitted :: "p2block list"
  nd_diagnostics :: "diagnostics_collector option"

text \<open>\<open>Server::new\<close>: a seed peer serves no miners and needs no base node.\<close>

definition server_new ::
    "'l world \<Rightarrow> instant \<Rightarrow> server_config \<Rightarrow> (pow_algorithm \<Rightarrow> 'l share_chain) \<Rightarrow> block_validation_params
     \<Rightarrow> (connect_error, unit) outcome \<Rightarrow> diagnostics_collector option \<Rightarrow> swarm \<Rightarrow> string
     \<Rightarrow> (connect_error, 'l node) outcome" where
  "server_new w now config share_chains params connected diagnostics swarm squad =
     (let are_we_synced = (\<lambda>_. False) in
      bindO (if \<not> cfg_is_seed_peer (cs_p2p_service config)
             then bindO connected (\<lambda>_.
               Ok (Some (grpc_pool_new (w_ext w) now share_chains params are_we_synced squad
                           (cs_grpc_cache_time config))))
             else Ok None) (\<lambda>p2pool_server.
      bindO (map_err (\<lambda>_. ConnectionShutdown)
               (service_new (cs_p2p_service config) share_chains are_we_synced (cs_share_window config) swarm squad))
        (\<lambda>p2p_service.
        Ok \<lparr>nd_config = config, nd_service = p2p_service, nd_grpc = p2pool_server,
            nd_http = http_enabled (cs_http_server config), nd_submitted = [],
            nd_diagnostics = diagnostics\<rparr>)))"

text \<open>\<open>Server::start\<close> spawns the other parts and starts the service.\<close>

definition server_start ::
    "'l world \<Rightarrow> seed_ext \<Rightarrow> 'l node \<Rightarrow> 'l node \<times> (start_error, main_loop_kind) outcome" where
  "server_start w e n =
     (case service_start w e (cs_p2p_port (nd_config n)) (nd_service n) of
        (s, r) \<Rightarrow> (n\<lparr>nd_service := s\<rparr>, r))"

text \<open>The task that waits for the end of the network silence.\<close>

definition silence_done :: "'l node \<Rightarrow> 'l node" where
  "silence_done n = n\<lparr>nd_service := (nd_service n)\<lparr>sv_synced := (\<lambda>_. True)\<rparr>\<rparr>"

section \<open>Shared state\<close>

text \<open>The service for miners as it sees the share chains, the flags and the open channel.\<close>

definition shared_view :: "'l node \<Rightarrow> 'l grpc_pool \<Rightarrow> 'l grpc_pool" where
  "shared_view n g = g\<lparr>gp_share_chain := sv_share_chain (nd_service n), gp_synced := sv_synced (nd_service n),
     gp_p2p_open := True\<rparr>"

definition write_back :: "'l grpc_pool \<Rightarrow> 'l grpc_pool \<Rightarrow> 'l node \<Rightarrow> 'l node" where
  "write_back g g' n = n\<lparr>nd_grpc := Some g',
     nd_service := (nd_service n)\<lparr>sv_share_chain := gp_share_chain g'\<rparr>,
     nd_submitted := nd_submitted n @ drop (length (gp_broadcasts g)) (gp_broadcasts g')\<rparr>"

definition miner_request :: "'l grpc_world \<Rightarrow> grpc_request \<Rightarrow> 'l node \<Rightarrow> 'l node" where
  "miner_request gw request n =
     (case nd_grpc n of
        None \<Rightarrow> n
      | Some g \<Rightarrow> write_back (shared_view n g) (serve gw request (shared_view n g)) n)"

text \<open>The main loop takes the next block that the service for miners has sent it.\<close>

definition publish_submitted ::
    "'l world \<Rightarrow> (outbound_failure \<Rightarrow> string) \<Rightarrow> clock \<Rightarrow> 'l node \<Rightarrow> 'l node \<times> (unit, unit) outcome" where
  "publish_submitted w show_failure t n =
     (case nd_submitted n of
        [] \<Rightarrow> (n, Ok ())
      | block # blocks \<Rightarrow>
          (case main_loop_round w show_failure t (ClientBroadcast block) (nd_service n) of
             (s, r) \<Rightarrow> (n\<lparr>nd_service := s, nd_submitted := blocks\<rparr>, r)))"

section \<open>Steps of a node\<close>

inductive node_step ::
    "'l world \<Rightarrow> 'l grpc_world \<Rightarrow> (outbound_failure \<Rightarrow> string) \<Rightarrow> 'l node \<Rightarrow> 'l node \<Rightarrow> bool"
  for w gw show_failure where
  miner: "node_step w gw show_failure n (miner_request gw request n)"
| publish: "publish_submitted w show_failure t n = (n', Ok ()) \<Longrightarrow> node_step w gw show_failure n n'"
| loop: "main_loop_round w show_failure t inp (nd_service n) = (s, Ok ()) \<Longrightarrow> (\<And>b. inp \<noteq> ClientBroadcast b) \<Longrightarrow>
    node_step w gw show_failure n (n\<lparr>nd_service := s\<rparr>)"
| sync_task: "i < length (sv_tasks (nd_service n)) \<Longrightarrow>
    node_step w gw show_failure n (n\<lparr>nd_service := task_step w i (nd_service n)\<rparr>)"
| swarm: "node_step w gw show_failure n (n\<lparr>nd_service := (nd_service n)\<lparr>sv_swarm := (sv_swarm (nd_service n))
    \<lparr>sw_external_addresses := ext, sw_connected_peers := conn, sw_num_peers := num, sw_counters := counters\<rparr>\<rparr>\<rparr>)"
| silence: "node_step w gw show_failure n (silence_done n)"

end
