(* ===== verification/HttpServer.thy ===== *)
theory HttpServer
  imports Node
begin

text \<open>
  The HTTP server, \<open>server/http/server.rs\<close>, \<open>http/stats/handlers.rs\<close>, \<open>http/stats/models.rs\<close>,
  \<open>http/health.rs\<close> and \<open>http/version.rs\<close>. Every handler asks the peer-to-peer service or the
  statistics collector through a channel and waits for the answer. A part that has stopped, or
  that panics over the request, drops its end of the channel: \<open>None\<close> stands for it. Only the
  main loop takes queries from the channel of the service: in the loop for diagnostics they stay
  there, and the handler waits.

  The query string comes as the map that the web framework has read it into; JSON is not
  modelled. Requests that take long are only logged.
\<close>

section \<open>Requests and answers\<close>

datatype status_code = OK | BAD_REQUEST | NOT_FOUND | INTERNAL_SERVER_ERROR

record 'l http_state =
  hs_service :: "'l service option"
  hs_loop :: main_loop_kind
  hs_stats :: "stats_collector option"

text \<open>
  Hexadecimal digits of a hash, the height in a Tari header, the name of an algorithm, and the
  version of the crate.
\<close>

record http_ext =
  hx_hex :: "fixed_hash \<Rightarrow> string"
  hx_height :: "block_header \<Rightarrow> u64"
  hx_algo :: "pow_algorithm \<Rightarrow> string"
  hx_version :: string

record block_result =
  br_hash :: string
  br_timestamp :: epoch_time
  br_prev_hash :: string
  br_height :: u64
  br_miner_wallet_address :: string
  br_sent_to_main_chain :: bool
  br_target_difficulty :: u64
  br_candidate_block_height :: u64
  br_algo :: string

record peer_list =
  pl_allow_list :: "connected_peer_info list"
  pl_grey_list :: "connected_peer_info list"

record stats =
  ss_connection_info :: connection_info
  ss_connected_since :: "epoch_time option"
  ss_randomx_stats :: get_stats_response
  ss_sha3x_stats :: get_stats_response
  ss_last_gossip_message :: epoch_time
  ss_peer_id :: string
  ss_squad :: string

section \<open>Asking the other parts\<close>

definition ask_service ::
    "'l world \<Rightarrow> p2p_service_query \<Rightarrow> 'l http_state \<Rightarrow> 'l http_state \<times> (status_code, action) outcome" where
  "ask_service w q h =
     (case hs_service h of
        None \<Rightarrow> (h, Err INTERNAL_SERVER_ERROR)
      | Some s \<Rightarrow>
          if hs_loop h = DiagnosticLoop then (h, Diverge)
          else (case handle_query w q s of
             (s, Ok _) \<Rightarrow> (h\<lparr>hs_service := Some s\<rparr>, Ok (last (sw_actions (sv_swarm s))))
           | (s, Diverge) \<Rightarrow> (h\<lparr>hs_service := Some s\<rparr>, Diverge)
           | (s, _) \<Rightarrow> (h\<lparr>hs_service := None\<rparr>, Err INTERNAL_SERVER_ERROR)))"

definition ask_stats ::
    "epoch_time \<Rightarrow> stats_request \<Rightarrow> 'l http_state \<Rightarrow> (status_code, stats_reply) outcome" where
  "ask_stats now r h =
     (case hs_stats h of
        None \<Rightarrow> Err INTERNAL_SERVER_ERROR
      | Some c \<Rightarrow> Ok (answer_request now c r))"

section \<open>Handlers\<close>

text \<open>
  Each query has an answer of its own type in the code; an answer of another kind does not occur,
  and the last branch of each \<open>case\<close> is not reached.
\<close>

definition handle_connections ::
    "'l world \<Rightarrow> 'l http_state \<Rightarrow> 'l http_state \<times> (status_code, connected_peer_info list) outcome" where
  "handle_connections w h =
     bindS (ask_service w QGetConnections h) (\<lambda>h res.
       case res of ReplyConnections peers \<Rightarrow> (h, Ok peers) | _ \<Rightarrow> (h, Err INTERNAL_SERVER_ERROR))"

definition handle_peers ::
    "'l world \<Rightarrow> 'l http_state \<Rightarrow> 'l http_state \<times> (status_code, peer_list) outcome" where
  "handle_peers w h =
     bindS (ask_service w QGetPeers h) (\<lambda>h res.
       case res of
         ReplyPeers allow grey \<Rightarrow> (h, Ok \<lparr>pl_allow_list = allow, pl_grey_list = grey\<rparr>)
       | _ \<Rightarrow> (h, Err INTERNAL_SERVER_ERROR))"

text \<open>\<open>str::to_lowercase\<close> on ASCII letters.\<close>

definition to_lower :: "char \<Rightarrow> char" where
  "to_lower c = (let n = of_char c :: nat in if 65 \<le> n \<and> n \<le> 90 then char_of (n + 32) else c)"

definition to_lowercase :: "string \<Rightarrow> string" where
  "to_lowercase = map to_lower"

text \<open>\<open>str::parse\<close> for an unsigned integer below \<open>limit\<close>: an optional plus sign, then digits.\<close>

fun parse_digits :: "nat \<Rightarrow> nat \<Rightarrow> string \<Rightarrow> nat option" where
  "parse_digits limit acc [] = Some acc"
| "parse_digits limit acc (c # cs) =
     (let n = of_char c :: nat in
      if 48 \<le> n \<and> n \<le> 57 \<and> 10 * acc + (n - 48) < limit
      then parse_digits limit (10 * acc + (n - 48)) cs else None)"

definition parse_unsigned :: "nat \<Rightarrow> string \<Rightarrow> nat option" where
  "parse_unsigned limit s =
     (case s of
        [] \<Rightarrow> None
      | c # cs \<Rightarrow>
          if c = CHR ''+'' \<or> c = CHR ''-''
          then if cs = [] then None
               else if c = CHR ''+'' then parse_digits limit 0 cs else parse_digits limit 0 s
          else parse_digits limit 0 s)"

definition parse_param :: "string option \<Rightarrow> nat \<Rightarrow> (status_code, nat) outcome" where
  "parse_param param dflt =
     (case param of
        Some s \<Rightarrow> ok_or BAD_REQUEST (parse_unsigned (2 ^ 64) s)
      | None \<Rightarrow> Ok dflt)"

definition parse_algo :: "string option \<Rightarrow> (status_code, pow_algorithm) outcome" where
  "parse_algo param =
     (case param of
        Some algo \<Rightarrow>
          if to_lowercase algo = ''sha3x'' then Ok Sha3x
          else if to_lowercase algo = ''randomx'' then Ok RandomX
          else Err BAD_REQUEST
      | None \<Rightarrow> Err BAD_REQUEST)"

definition block_result_of :: "'l world \<Rightarrow> http_ext \<Rightarrow> pow_algorithm \<Rightarrow> p2block \<Rightarrow> block_result" where
  "block_result_of w x algo block = \<lparr>
     br_hash = hx_hex x (b_hash block),
     br_timestamp = b_timestamp block,
     br_prev_hash = hx_hex x (b_prev_hash block),
     br_height = b_height block,
     br_miner_wallet_address = to_base58 (w_ext w) (b_miner_wallet_address block),
     br_sent_to_main_chain = b_sent_to_main_chain block,
     br_target_difficulty = b_target_difficulty block,
     br_candidate_block_height = hx_height x (b_original_header block),
     br_algo = to_lowercase (hx_algo x algo)\<rparr>"

definition handle_chain ::
    "'l world \<Rightarrow> http_ext \<Rightarrow> (string \<Rightarrow> string option) \<Rightarrow> 'l http_state
     \<Rightarrow> 'l http_state \<times> (status_code, block_result list) outcome" where
  "handle_chain w x params h =
     bindS (h, parse_algo (params ''algo'')) (\<lambda>h algo.
     bindS (h, parse_param (params ''height'') 0) (\<lambda>h height.
     bindS (h, parse_param (params ''count'') 20) (\<lambda>h n.
     bindS (ask_service w (QGetChain algo (of_nat height) n) h) (\<lambda>h res.
       case res of
         ReplyChain blocks \<Rightarrow> (h, Ok (map (block_result_of w x algo) blocks))
       | _ \<Rightarrow> (h, Err INTERNAL_SERVER_ERROR)))))"

text \<open>The body of the handler for the miners with shares is \<open>todo!()\<close>.\<close>

definition handle_miners_with_shares ::
    "'l http_state \<Rightarrow> 'l http_state \<times> (status_code, unit) outcome" where
  "handle_miners_with_shares h = (h, Panic)"

definition get_chain_stats ::
    "epoch_time \<Rightarrow> epoch_time \<Rightarrow> 'l http_state \<Rightarrow> (status_code, get_stats_response \<times> get_stats_response) outcome" where
  "get_chain_stats now now' h =
     bindO (ask_stats now (GetStats RandomX) h) (\<lambda>rx.
     bindO (ask_stats now' (GetStats Sha3x) h) (\<lambda>sha.
       case (rx, sha) of
         (ChainStats rx_stats, ChainStats sha3x_stats) \<Rightarrow> Ok (rx_stats, sha3x_stats)
       | _ \<Rightarrow> Err INTERNAL_SERVER_ERROR))"

definition handle_get_stats ::
    "'l world \<Rightarrow> epoch_time \<Rightarrow> epoch_time \<Rightarrow> 'l http_state \<Rightarrow> 'l http_state \<times> (status_code, stats) outcome" where
  "handle_get_stats w now now' h =
     bindS (h, ask_stats now GetLatestStats h) (\<lambda>h latest.
     bindS (h, get_chain_stats now now' h) (\<lambda>h (rx_stats, sha3x_stats).
     bindS (ask_service w QConnectionInfo h) (\<lambda>h info.
       case (latest, info) of
         (LatestStats last_gossip_message p squad, ReplyConnectionInfo connection_info) \<Rightarrow>
           (h, Ok \<lparr>ss_connection_info = connection_info, ss_connected_since = None,
                   ss_randomx_stats = rx_stats, ss_sha3x_stats = sha3x_stats,
                   ss_last_gossip_message = last_gossip_message,
                   ss_peer_id = (case p of Some p \<Rightarrow> peer_to_base58 (w_net w) p | None \<Rightarrow> []),
                   ss_squad = squad\<rparr>)
       | _ \<Rightarrow> (h, Err INTERNAL_SERVER_ERROR))))"

definition handle_health :: "(status_code, status_code) outcome" where
  "handle_health = Ok OK"

definition handle_version :: "http_ext \<Rightarrow> (status_code, string) outcome" where
  "handle_version x = Ok (hx_version x)"

section \<open>Routes\<close>

datatype http_response =
    StatsResponse stats
  | MinersResponse
  | HealthResponse status_code
  | VersionResponse string
  | ChainResponse "block_result list"
  | PeerResponse peer_list
  | ConnectionsResponse "connected_peer_info list"

definition respond ::
    "('a \<Rightarrow> http_response) \<Rightarrow> 'l http_state \<times> (status_code, 'a) outcome
     \<Rightarrow> 'l http_state \<times> (status_code, http_response) outcome" where
  "respond f x = bindS x (\<lambda>h r. (h, Ok (f r)))"

text \<open>A path without a route is answered by the web framework.\<close>

definition routes ::
    "'l world \<Rightarrow> http_ext \<Rightarrow> epoch_time \<Rightarrow> epoch_time \<Rightarrow> string \<Rightarrow> (string \<Rightarrow> string option) \<Rightarrow> 'l http_state
     \<Rightarrow> 'l http_state \<times> (status_code, http_response) outcome" where
  "routes w x now now' path params h =
     (if path = ''/stats'' then respond StatsResponse (handle_get_stats w now now' h)
      else if path = ''/miners'' then respond (\<lambda>_. MinersResponse) (handle_miners_with_shares h)
      else if path = ''/health'' then respond HealthResponse (h, handle_health)
      else if path = ''/version'' then respond VersionResponse (h, handle_version x)
      else if path = ''/chain'' then respond ChainResponse (handle_chain w x params h)
      else if path = ''/peer'' then respond PeerResponse (handle_peers w h)
      else if path = ''/connections'' then respond ConnectionsResponse (handle_connections w h)
      else (h, Err NOT_FOUND))"

text \<open>The server of a node asks the parts of that node.\<close>

definition http_view :: "main_loop_kind \<Rightarrow> stats_collector option \<Rightarrow> 'l node \<Rightarrow> 'l http_state" where
  "http_view kind c n = \<lparr>hs_service = Some (nd_service n), hs_loop = kind, hs_stats = c\<rparr>"

end
