(* ===== verification/GrpcCorrect.thy ===== *)
theory GrpcCorrect
  imports GrpcPool ShareCorrect
begin

text \<open>
  What the service for miners guarantees, over all sequences of requests (\<open>grpc_step\<close>,
  interleaved with what the other parts of the node do to the share chains): the bookkeeping of
  the templates, that a miner's block is matched with the template it was mined on, what reaches
  the share chain and the base node, and how old the tip information is.
\<close>

section \<open>Templates are never forgotten\<close>

definition templates ::
    "'l grpc_pool \<Rightarrow> (pow_algorithm \<Rightarrow> (fixed_hash, p2block) hmap) \<times> (pow_algorithm \<Rightarrow> fixed_hash list)" where
  "templates s = (gp_template_store s, gp_list_of_templates s)"

definition templates_ok :: "'l grpc_world \<Rightarrow> 'l grpc_pool \<Rightarrow> bool" where
  "templates_ok w s \<longleftrightarrow>
     (\<forall>a. length (gp_list_of_templates s a) \<le> max_stored_templates a
        \<and> (\<forall>h \<in> set (gp_list_of_templates s a). hm_contains (gp_template_store s a) h)
        \<and> (\<forall>h b. hm_get (gp_template_store s a) h = Some b \<longrightarrow> header_hash w (b_original_header b) = h))"

definition keeps_templates :: "'l grpc_world \<Rightarrow> 'l grpc_pool \<Rightarrow> 'l grpc_pool \<Rightarrow> bool" where
  "keeps_templates w s s' \<longleftrightarrow>
     (templates_ok w s \<longrightarrow> templates_ok w s')
   \<and> (\<forall>a h. hm_contains (gp_template_store s a) h \<longrightarrow> hm_contains (gp_template_store s' a) h)"

lemma same_keeps: "templates s' = templates s \<Longrightarrow> keeps_templates w s s'"
  by (simp add: templates_def keeps_templates_def templates_ok_def)

lemma templates_trans: "keeps_templates w s t \<Longrightarrow> keeps_templates w t u \<Longrightarrow> keeps_templates w s u"
  by (auto simp: keeps_templates_def)

lemma templates_refl [simp]: "keeps_templates w s s"
  by (simp add: keeps_templates_def)

lemma same_updates [simp]:
  "templates (tell_stats x s) = templates s"
  "templates (fst (client_broadcast_block b s)) = templates s"
  "templates (s\<lparr>gp_height_difficulty_cache := c\<rparr>) = templates s"
  "templates (s\<lparr>gp_max_difficulty := d\<rparr>) = templates s"
  "templates (s\<lparr>gp_cache_get_tip_info := t\<rparr>) = templates s"
  "templates (fst (with_chain a f s)) = templates s"
  "templates (tell_network_difficulty w k a target s) = templates s"
  by (auto simp: templates_def tell_stats_def client_broadcast_block_def with_chain_def
      tell_network_difficulty_def split: prod.splits option.splits)

lemma set_tl: "x \<in> set (tl xs) \<Longrightarrow> x \<in> set xs"
  by (cases xs) auto

lemma keeps_remember:
  assumes "header_hash w (b_original_header block) = h"
  shows "keeps_templates w s (remember_template a h block s)"
proof -
  let ?s = "remember_template a h block s" and ?hs = "gp_list_of_templates s a @ [h]"
  have store: "hm_get (gp_template_store ?s b) x
      = (if b = a \<and> x = h then Some block else hm_get (gp_template_store s b) x)" for b x
    by (simp add: remember_template_def Let_def update_conv)
  then have contains: "hm_contains (gp_template_store ?s b) x
      \<longleftrightarrow> (b = a \<and> x = h) \<or> hm_contains (gp_template_store s b) x" for b x
    by (auto simp: hm_contains_def)
  have names: "gp_list_of_templates ?s b
      = (if b \<noteq> a then gp_list_of_templates s b
         else if max_stored_templates a < length ?hs then tl ?hs else ?hs)" for b
    by (simp add: remember_template_def Let_def)
  have listed: "x \<in> set (gp_list_of_templates ?s b) \<Longrightarrow> (b = a \<and> x = h) \<or> x \<in> set (gp_list_of_templates s b)" for b x
    by (auto simp: names dest: set_tl split: if_splits)
  have "templates_ok w ?s" if ok: "templates_ok w s"
    unfolding templates_ok_def
  proof (intro allI conjI ballI impI)
    fix b
    show "length (gp_list_of_templates ?s b) \<le> max_stored_templates b"
      using ok by (auto simp: names templates_ok_def)
    show "hm_contains (gp_template_store ?s b) x" if "x \<in> set (gp_list_of_templates ?s b)" for x
      using listed [OF that] ok by (auto simp: contains templates_ok_def)
    show "header_hash w (b_original_header c) = x" if "hm_get (gp_template_store ?s b) x = Some c" for x c
      using that ok assms by (auto simp: store templates_ok_def split: if_splits)
  qed
  then show ?thesis by (simp add: keeps_templates_def contains)
qed

lemma same_broadcasts [simp]:
  "templates (fold (\<lambda>uncle s. fst (client_broadcast_block uncle s)) us s) = templates s"
  by (induction us arbitrary: s) simp_all

lemma same_submit_share [simp]: "templates (fst (submit_share_chain_block w k block s)) = templates s"
proof -
  let ?m = "with_chain (block_algo block) (\<lambda>c. submit_block (g_ext w) (k_now k) (k_now' k) c block) s"
  obtain t r where m: "?m = (t, r)" by (cases ?m)
  then have t: "templates t = templates s" using same_updates(6) by (metis fst_conv)
  show ?thesis
    using t by (auto simp: submit_share_chain_block_def Let_def m split: outcome.split)
qed

lemma same_bindS:
  assumes "templates (fst m) = templates s0"
    and "\<And>s x. m = (s, Ok x) \<Longrightarrow> templates s = templates s0 \<Longrightarrow> templates (fst (f s x)) = templates s0"
  shows "templates (fst (bindS m f)) = templates s0"
  using assms by (rule bindS_preserves)

lemma same_submit_to_base [simp]:
  "templates (fst (submit_to_base_node w bn k a payload b s)) = templates s"
  unfolding submit_to_base_node_def by (rule same_bindS) (simp_all split: sum.split)

lemma same_submit_mined [simp]: "templates (fst (submit_mined w bn k a payload b s)) = templates s"
  unfolding submit_mined_def Let_def
  by (intro same_bindS) simp_all

lemma same_submit [simp]: "templates (fst (grpc_submit_block w bn k block s)) = templates s"
proof -
  have "templates (fst (submit_mined_block w bn k block s)) = templates s"
    unfolding submit_mined_block_def Let_def by (intro same_bindS) simp_all
  then show ?thesis
    by (cases "submit_mined_block w bn k block s") (simp add: grpc_submit_block_def)
qed

lemma same_tip_info [simp]: "templates (fst (get_tip_info w bn now busy s)) = templates s"
  by (simp add: get_tip_info_def Let_def split: prod.split option.split outcome.split)

lemma change_target_keeps_header:
  "into_result (change_target_difficulty e b d) = Ok b' \<Longrightarrow> b_original_header b' = b_original_header b"
  by (auto simp: into_result_def change_target_difficulty_def fix_hash_def Let_def
      split: prod.splits option.splits)

lemma keeps_bindS:
  assumes "keeps_templates w s0 (fst m)"
    and "\<And>s x. m = (s, Ok x) \<Longrightarrow> keeps_templates w s0 s \<Longrightarrow> keeps_templates w s0 (fst (f s x))"
  shows "keeps_templates w s0 (fst (bindS m f))"
  using assms by (rule bindS_preserves)


lemma keeps_same: "keeps_templates w s0 s \<Longrightarrow> templates t = templates s \<Longrightarrow> keeps_templates w s0 t"
  using templates_trans same_keeps by blast

lemma keeps_final:
  assumes "keeps_templates w s0 s"
    and "map_err f (into_result (change_target_difficulty e b d)) = Ok b'"
  shows "keeps_templates w s0
    (remember_template a (header_hash w (b_original_header b)) b' (tell_stats x s))"
proof -
  have "header_hash w (b_original_header b') = header_hash w (b_original_header b)"
    using assms(2) by (simp add: change_target_keeps_header [of e b d])
  then show ?thesis
    using templates_trans [OF keeps_same [OF assms(1) same_updates(1)] keeps_remember] by blast
qed

lemma keeps_issue:
  "keeps_templates w s0 s \<Longrightarrow>
     keeps_templates w s0 (fst (issue_template w k a synced b target response s))"
  unfolding issue_template_def Let_def
  by (intro keeps_bindS; (simp only: fst_conv prod.inject split: prod.split)?)
     (auto elim: keeps_same intro: keeps_final)

lemma keeps_with_chain [simp]: "keeps_templates w s (fst (with_chain a f s))"
  by (rule same_keeps) simp

lemma keeps_split:
  "(\<And>a b. x = (a, b) \<Longrightarrow> keeps_templates w s0 (fst (f a b)))
     \<Longrightarrow> keeps_templates w s0 (fst (case x of (a, b) \<Rightarrow> f a b))"
  by (cases x) simp

lemma keeps_new_block: "keeps_templates w s (fst (get_new_block w bn k req s))"
  unfolding get_new_block_def Let_def
  by (intro keeps_bindS keeps_split keeps_issue) simp_all

lemma serve_keeps: "keeps_templates w s (serve w r s)"
  by (cases r) (simp_all add: keeps_new_block same_keeps)

lemma grpc_step_keeps: "grpc_step w s s' \<Longrightarrow> keeps_templates w s s'"
  by (auto elim!: grpc_step.cases simp: serve_keeps intro: same_keeps simp: templates_def)

text \<open>What is promised of the templates, from the view of a miner that was issued one.\<close>

interpretation grpc_run: run_invariant "grpc_step w" "templates_ok w" for w :: "'l grpc_world"
  by unfold_locales (auto dest: grpc_step_keeps simp: keeps_templates_def)

interpretation redeem_run: run_invariant "grpc_step w" "\<lambda>s. hm_contains (gp_template_store s a) h"
  for w :: "'l grpc_world" and a h
  by unfold_locales (auto dest: grpc_step_keeps simp: keeps_templates_def)

lemma new_templates_ok: "templates_ok w (grpc_pool_new e now cs params synced squad t)"
  by (simp add: templates_ok_def grpc_pool_new_def)


section \<open>What a template and a submission come from\<close>

lemma into_result_Ok: "into_result m = Ok b \<longleftrightarrow> m = (b, Ok ())"
  by (cases m; cases "snd m") (auto simp: into_result_def)

lemma sum_to_outcome_Ok: "sum_to_outcome f x = Ok y \<longleftrightarrow> x = Inr y"
  by (cases x) auto

lemma remember_contains:
  "hm_contains (gp_template_store (remember_template a h b s) a) h"
  by (simp add: remember_template_def Let_def hm_contains_def update_conv)

lemma populate_header:
  "populate_tari_data e b t = (b1, Ok ()) \<Longrightarrow> b_original_header b1 = tb_header t"
  by (auto simp: populate_tari_data_def Let_def split: sum.splits)

lemma issue_template_Ok:
  assumes "issue_template w k a synced b target response s = (s', Ok (resp, d))"
  shows "\<exists>md md' block tari b1 b2.
      tr_miner_data response = Some md \<and> tr_block response = Some block \<and> grpc_to_tari w block = Inr tari
    \<and> populate_tari_data (g_ext w) b (tari\<lparr>tb_header := reset_nonce w (tb_header tari)\<rparr>) = (b1, Ok ())
    \<and> change_target_difficulty (g_ext w) b1 target = (b2, Ok ())
    \<and> hm_get (gp_template_store s' a) (header_hash w (reset_nonce w (tb_header tari))) = Some b2
    \<and> miner_difficulty w synced target md = Ok (md', d) \<and> resp = response\<lparr>tr_miner_data := Some md'\<rparr>"
proof -
  obtain md md' block tari b1 b2 t where facts:
    "tr_miner_data response = Some md" "tr_block response = Some block" "grpc_to_tari w block = Inr tari"
    "populate_tari_data (g_ext w) b (tari\<lparr>tb_header := reset_nonce w (tb_header tari)\<rparr>) = (b1, Ok ())"
    "change_target_difficulty (g_ext w) b1 target = (b2, Ok ())"
    "miner_difficulty w synced target md = Ok (md', d)"
    "s' = remember_template a (header_hash w (b_original_header b1)) b2 t"
    "resp = response\<lparr>tr_miner_data := Some md'\<rparr>"
    using assms
    by (auto simp: issue_template_def Let_def bindS_Ok into_result_Ok sum_to_outcome_Ok split: prod.splits)
  have "b_original_header b1 = reset_nonce w (tb_header tari)"
    using populate_header [OF facts(4)] by simp
  with facts show ?thesis by (auto simp: remember_template_def Let_def update_conv)
qed

lemma get_new_block_issues:
  assumes "get_new_block w bn k req s = (s', Ok (resp, d))"
  shows "\<exists>pow a addr tip c shares target response t.
      nr_pow req = Some pow \<and> pow_algos_try_from w pow = Some a
    \<and> address_from_str w (nr_wallet_payment_address req) = Inr addr
    \<and> generate_new_tip_block (g_ext w) (k_now k) (k_now' k) (gp_share_chain s a) addr
        (case convert_coinbase_extra (gp_squad s) (nr_coinbase_extra req) of Ok x \<Rightarrow> x | _ \<Rightarrow> []) = Ok tip
    \<and> generate_shares_and_get_target_difficulty (g_ext w) (gp_share_chain s a) tip (\<not> gp_synced s a)
        = (c, Ok (shares, target))
    \<and> bn_template bn pow shares = Inr response
    \<and> issue_template w k a (gp_synced s a) tip target response t = (s', Ok (resp, d))"
  using assms
  by (force simp: get_new_block_def Let_def bindS_Ok sum_to_outcome_Ok with_chain_def split: prod.splits)

lemma miner_difficulty_Ok:
  "miner_difficulty w synced target md = Ok (md', d) \<Longrightarrow>
     (if synced then d = target \<and> md_target_difficulty md' = min target (md_target_difficulty md)
      else difficulty_from_u64 (g_ext w) (md_target_difficulty md) = Some d \<and> md' = md)"
  by (auto simp: miner_difficulty_def Let_def min_def split: if_splits)

text \<open>In every reachable state the list of templates has at most a hundred entries, each is
  in the store, and each template in the store is filed under the hash of its header.\<close>

theorem template_stores_are_consistent:
  assumes "(grpc_step w)\<^sup>*\<^sup>* (grpc_pool_new e now cs params synced squad cache_time) s"
  shows "length (gp_list_of_templates s a) \<le> 100
    \<and> (\<forall>h \<in> set (gp_list_of_templates s a). \<exists>b. hm_get (gp_template_store s a) h = Some b)
    \<and> (\<forall>h b. hm_get (gp_template_store s a) h = Some b \<longrightarrow> header_hash w (b_original_header b) = h)"
proof -
  have "templates_ok w s" using grpc_run.run_kept [OF assms new_templates_ok] .
  then have "length (gp_list_of_templates s a) \<le> max_stored_templates a"
    and "\<forall>h \<in> set (gp_list_of_templates s a). hm_contains (gp_template_store s a) h"
    and "\<forall>h b. hm_get (gp_template_store s a) h = Some b \<longrightarrow> header_hash w (b_original_header b) = h"
    unfolding templates_ok_def by blast+
  moreover have "max_stored_templates a = 100"
    by (cases a) (simp_all add: max_stored_templates_def MAX_STORED_TEMPLATES_RX_def MAX_STORED_TEMPLATES_SHA3X_def)
  ultimately show ?thesis by (simp add: hm_contains_def)
qed

lemma submit_finds_template:
  assumes "gb_header payload = Some header" "gh_pow header = Some v" "i32_try_from v = Some p"
    "pow_algos_try_from w p = Some a" "grpc_to_tari w payload = Inr tari"
    "hm_get (gp_template_store s a) (template_key w (tb_header tari)) = Some template"
  shows "submit_mined_block w bn k (Some payload) s =
    bindS (submit_mined w bn k a payload (template\<lparr>b_original_header := tb_header tari\<rparr>) s)
      (\<lambda>s _. (s, Ok (template_key w (tb_header tari))))"
  using assms by (simp add: submit_mined_block_def Let_def)


section \<open>What becomes of a mined block\<close>

lemma unchanged_chain [simp]:
  "gp_share_chain (tell_stats x s) = gp_share_chain s"
  "gp_share_chain (fst (client_broadcast_block b s)) = gp_share_chain s"
  "gp_synced (tell_stats x s) = gp_synced s"
  by (simp_all add: tell_stats_def client_broadcast_block_def)

lemma broadcasts_chain [simp]:
  "gp_share_chain (fold (\<lambda>uncle s. fst (client_broadcast_block uncle s)) us s) = gp_share_chain s"
  by (induction us arbitrary: s) simp_all

text \<open>The share chains after a block was entered.\<close>

definition chains_with ::
    "'l grpc_world \<Rightarrow> grpc_clock \<Rightarrow> p2block \<Rightarrow> 'l grpc_pool \<Rightarrow> pow_algorithm \<Rightarrow> 'l share_chain" where
  "chains_with w k block s =
     (if gp_synced s (block_algo block)
      then (gp_share_chain s)(block_algo block :=
             fst (submit_block (g_ext w) (k_now k) (k_now' k) (gp_share_chain s (block_algo block)) block))
      else gp_share_chain s)"

lemma submit_share_chain:
  "gp_share_chain (fst (submit_share_chain_block w k block s)) = chains_with w k block s"
proof -
  obtain c r where m: "submit_block (g_ext w) (k_now k) (k_now' k)
      (gp_share_chain s (block_algo block)) block = (c, r)" by (metis surj_pair)
  show ?thesis
    by (cases r) (simp_all add: submit_share_chain_block_def Let_def with_chain_def m chains_with_def)
qed

lemma submit_to_base_node_frame:
  "submit_to_base_node w bn k a payload b s = (s', r) \<Longrightarrow>
     gp_share_chain s' = gp_share_chain s \<and> gp_synced s' = gp_synced s \<and> gp_broadcasts s' = gp_broadcasts s
   \<and> (case r of Ok b' \<Rightarrow> b' = b\<lparr>b_sent_to_main_chain := True\<rparr> \<and> bn_connect bn = Inr () \<and> bn_submit bn payload = Inr ()
      | Err x \<Rightarrow> bn_connect bn \<noteq> Inr () \<or> bn_submit bn payload \<noteq> Inr ()
      | _ \<Rightarrow> False)"
  by (cases "bn_connect bn"; cases "bn_submit bn payload")
     (auto simp: submit_to_base_node_def tell_stats_def)

text \<open>The least difficulty of the block at which the base node is given it.\<close>

definition network_difficulty_for :: "'l grpc_world \<Rightarrow> 'l grpc_pool \<Rightarrow> block_header \<Rightarrow> difficulty" where
  "network_difficulty_for w s header =
     opt_or (hm_get (gp_height_difficulty_cache s (bh_pow_algo header)) (header_height w header))
       (difficulty_min (g_ext w))"

lemma submit_mined_Ok:
  assumes "submit_mined w bn k a payload b s = (s', Ok x)"
  shows "\<exists>d. achieved_difficulty w (gp_params s) (b_original_header b) = Ok d
    \<and> (let good = network_difficulty_for w s (b_original_header b) \<le> d;
           b' = (if good then b\<lparr>b_sent_to_main_chain := True\<rparr> else b) in
       (good \<longrightarrow> bn_connect bn = Inr () \<and> bn_submit bn payload = Inr ())
     \<and> gp_share_chain s' = chains_with w k b' s)"
proof -
  let ?h = "b_original_header b"
  obtain d where d: "achieved_difficulty w (gp_params s) ?h = Ok d"
    using assms by (auto simp: submit_mined_def Let_def bindS_Ok)
  let ?s = "if gp_max_difficulty s < d then s\<lparr>gp_max_difficulty := d\<rparr> else s"
  define good where "good \<longleftrightarrow> network_difficulty_for w s ?h \<le> d"
  obtain t c where t: "(if good then submit_to_base_node w bn k a payload b ?s else (?s, Ok b)) = (t, Ok c)"
    and i: "ignore_error (submit_share_chain_block w k c t) = (s', Ok () :: (status, unit) outcome)"
    using assms unfolding submit_mined_def Let_def bindS_Ok d good_def network_difficulty_for_def by auto
  from arg_cong [OF i, of fst] have s': "s' = fst (submit_share_chain_block w k c t)" by simp
  have same: "gp_share_chain ?s = gp_share_chain s" "gp_synced ?s = gp_synced s" by simp_all
  show ?thesis
  proof (cases good)
    case True
    then have "submit_to_base_node w bn k a payload b ?s = (t, Ok c)" using t by simp
    from submit_to_base_node_frame [OF this] show ?thesis
      using True same d s' by (simp add: good_def Let_def submit_share_chain chains_with_def)
  next
    case False
    then show ?thesis
      using t same d s' by (simp add: good_def Let_def submit_share_chain chains_with_def)
  qed
qed


text \<open>C25: A miner's submission that is answered with success was found under the hash of its
  header with nonce and proof-of-work data reset; what enters the share chain of a synced node
  is that template with the mined header, marked as sent exactly when it met the difficulty of
  the Tari network and the base node took it, its share hash still that of the template; a
  node that is not synced changes no share chain.\<close>

theorem submission_uses_issued_template:
  assumes "grpc_submit_block w bn k (Some payload) s = (s', Ok h)"
  shows "\<exists>a tari template d block.
      grpc_to_tari w payload = Inr tari \<and> h = template_key w (tb_header tari)
    \<and> hm_get (gp_template_store s a) h = Some template
    \<and> achieved_difficulty w (gp_params s) (tb_header tari) = Ok d
    \<and> block = (let b = template\<lparr>b_original_header := tb_header tari\<rparr> in
        if network_difficulty_for w s (tb_header tari) \<le> d then b\<lparr>b_sent_to_main_chain := True\<rparr> else b)
    \<and> (network_difficulty_for w s (tb_header tari) \<le> d \<longrightarrow> bn_submit bn payload = Inr ())
    \<and> b_hash block = b_hash template
    \<and> gp_share_chain s' =
        (if gp_synced s (block_algo block)
         then (gp_share_chain s)(block_algo block :=
                fst (submit_block (g_ext w) (k_now k) (k_now' k) (gp_share_chain s (block_algo block)) block))
         else gp_share_chain s)"
proof -
  have m: "submit_mined_block w bn k (Some payload) s = (s', Ok h)"
    using assms by (cases "submit_mined_block w bn k (Some payload) s") (auto simp: grpc_submit_block_def)
  then obtain a tari template where tari: "grpc_to_tari w payload = Inr tari"
    and h: "h = template_key w (tb_header tari)"
    and found: "hm_get (gp_template_store s a) h = Some template"
    and mined: "submit_mined w bn k a payload (template\<lparr>b_original_header := tb_header tari\<rparr>) s = (s', Ok ())"
    by (auto simp: submit_mined_block_def Let_def bindS_Ok sum_to_outcome_Ok)
  from submit_mined_Ok [OF mined] tari h found show ?thesis
    by (fastforce simp: Let_def chains_with_def)
qed

text \<open>When a mined block meets the network difficulty and the base node cannot be reached or
  refuses it, the miner is told that the submission failed and the share chain is not given
  the block.\<close>

theorem refused_by_base_node_is_lost:
  assumes "gb_header payload = Some header" "gh_pow header = Some v" "i32_try_from v = Some p"
    and "pow_algos_try_from w p = Some a" "grpc_to_tari w payload = Inr tari"
    and "hm_get (gp_template_store s a) (template_key w (tb_header tari)) = Some template"
    and "achieved_difficulty w (gp_params s) (tb_header tari) = Ok d"
    and "network_difficulty_for w s (tb_header tari) \<le> d"
    and "bn_connect bn \<noteq> Inr () \<or> bn_submit bn payload \<noteq> Inr ()"
  shows "\<exists>s'. grpc_submit_block w bn k (Some payload) s = (s', Err (Internal ''submit_block failed''))
    \<and> gp_share_chain s' = gp_share_chain s \<and> gp_broadcasts s' = gp_broadcasts s"
proof -
  let ?b = "template\<lparr>b_original_header := tb_header tari\<rparr>"
  let ?s = "if gp_max_difficulty s < d then s\<lparr>gp_max_difficulty := d\<rparr> else s"
  obtain t r where t: "submit_to_base_node w bn k a payload ?b ?s = (t, r)" by (metis surj_pair)
  note frame = submit_to_base_node_frame [OF t]
  obtain x where r: "r = Err x" using frame assms(9) by (cases r) auto
  have "submit_mined w bn k a payload ?b s = (t, Err x)"
    using assms(7,8) t r by (simp add: submit_mined_def Let_def network_difficulty_for_def)
  then have "grpc_submit_block w bn k (Some payload) s = (t, Err (Internal ''submit_block failed''))"
    using submit_finds_template [OF assms(1-6)] by (simp add: grpc_submit_block_def)
  moreover have "gp_broadcasts ?s = gp_broadcasts s" "gp_share_chain ?s = gp_share_chain s" by simp_all
  ultimately show ?thesis using frame by metis
qed

lemma fresh_tip_heights:
  assumes "fresh_tip_info w bn s = Ok info"
  shows "ti_p2pool_rx_height info = (case sc_get_tip (gp_share_chain s RandomX) of Some (h, _) \<Rightarrow> h | None \<Rightarrow> 0)
    \<and> ti_p2pool_sha_height info = (case sc_get_tip (gp_share_chain s Sha3x) of Some (h, _) \<Rightarrow> h | None \<Rightarrow> 0)
    \<and> (\<exists>m. bn_tip_info bn = Inr m
          \<and> (ti_node_height info, ti_node_tip_hash info) = opt_or m (0, hash_to_vec w zero_hash))"
  using assms
  by (cases "sc_get_tip (gp_share_chain s RandomX)"; cases "sc_get_tip (gp_share_chain s Sha3x)")
     (auto simp: fresh_tip_info_def Let_def sum_to_outcome_Ok split_beta)

text \<open>Tip information returned while no other request is refreshing it is either the cached
  answer, at most the cache time old, or taken from the current tips of both share chains and
  the base node, and then cached.\<close>

theorem tip_info_is_recent:
  assumes "get_tip_info w bn now False s = (s', Ok info)"
  shows "(s' = s \<and> (\<exists>t. gp_cache_get_tip_info s = (t, Some info) \<and> elapsed now t \<le> gp_cache_time s))
    \<or> (s' = s\<lparr>gp_cache_get_tip_info := (now, Some info)\<rparr>
      \<and> ti_p2pool_rx_height info = (case sc_get_tip (gp_share_chain s RandomX) of Some (h, _) \<Rightarrow> h | None \<Rightarrow> 0)
      \<and> ti_p2pool_sha_height info = (case sc_get_tip (gp_share_chain s Sha3x) of Some (h, _) \<Rightarrow> h | None \<Rightarrow> 0)
      \<and> (\<exists>m. bn_tip_info bn = Inr m
            \<and> (ti_node_height info, ti_node_tip_hash info) = opt_or m (0, hash_to_vec w zero_hash)))"
proof -
  obtain t cached where c: "gp_cache_get_tip_info s = (t, cached)" by (metis surj_pair)
  consider (cached) "s' = s" "cached = Some info" "elapsed now t \<le> gp_cache_time s"
    | (fresh) "fresh_tip_info w bn s = Ok info" "s' = s\<lparr>gp_cache_get_tip_info := (now, Some info)\<rparr>"
    using assms c
    by (cases cached; cases "fresh_tip_info w bn s")
       (simp_all add: get_tip_info_def Let_def split: if_splits)
  then show ?thesis
  proof cases
    case cached
    then show ?thesis using c by simp
  next
    case fresh
    then show ?thesis using fresh_tip_heights [OF fresh(1)] by blast
  qed
qed

section \<open>A node with one template\<close>

text \<open>The header's remaining bytes are the nonce and the rest, its hash is their sum.\<close>

definition demo_grpc :: "(epoch_time \<times> difficulty) list grpc_world" where
  "demo_grpc = \<lparr>
     g_ext = demo_ext, header_height = (\<lambda>h. 7),
     header_hash = (\<lambda>h. of_nat (sum_list (map unat (bh_rest h)))),
     reset_nonce = (\<lambda>h. h\<lparr>bh_rest := 0 # tl (bh_rest h)\<rparr>), reset_pow_data = (\<lambda>h. h),
     hash_to_vec = (\<lambda>h. [ucast h]),
     pow_algos_try_from = (\<lambda>v. if v = 0 then Some RandomX else if v = 1 then Some Sha3x else None),
     address_from_str = (\<lambda>s. if s = [] then Inl ''empty'' else Inr (into_bytes s)),
     grpc_to_tari = (\<lambda>b. case gb_header b of
        None \<Rightarrow> Inl ''no header''
      | Some h \<Rightarrow> Inr \<lparr>tb_header = \<lparr>bh_pow_algo = Sha3x, bh_output_mr = 0, bh_rest = gh_rest h\<rparr>,
                       tb_body = gb_body b\<rparr>),
     debug_error = (\<lambda>e. ''error'')\<rparr>"

definition demo_payload :: "u8 \<Rightarrow> grpc_block" where
  "demo_payload nonce =
     \<lparr>gb_header = Some \<lparr>gh_height = 7, gh_pow = Some 1, gh_rest = [nonce, 9]\<rparr>, gb_body = []\<rparr>"

definition demo_node :: base_node where
  "demo_node = \<lparr>bn_connect = Inr (), bn_template = (\<lambda>pow shares. Inr \<lparr>tr_block = Some (demo_payload 3),
       tr_miner_data = Some \<lparr>md_target_difficulty = 50, md_rest = []\<rparr>, tr_rest = []\<rparr>),
     bn_submit = (\<lambda>b. Inl ''refused''), bn_tip_info = Inr (Some (7, [1]))\<rparr>"

definition demo_grpc_clock :: grpc_clock where
  "demo_grpc_clock = \<lparr>k_now = 2000, k_now' = 2000, k_stats = 2000\<rparr>"

definition demo_pool :: "(epoch_time \<times> difficulty) list grpc_pool" where
  "demo_pool = grpc_pool_new demo_ext 0 (\<lambda>a. demo_share demo_empty) \<lparr>random_x_factory = [], consensus_manager = [],
     genesis_block_hash = 0\<rparr> (\<lambda>a. True) ''squad'' 1000"

definition demo_request :: new_block_request where
  "demo_request = \<lparr>nr_pow = Some 1, nr_coinbase_extra = ''hi'', nr_wallet_payment_address = ''a''\<rparr>"

abbreviation demo_issued :: "(epoch_time \<times> difficulty) list grpc_pool \<times> (status, template_response \<times> u64) outcome" where
  "demo_issued \<equiv> get_new_block demo_grpc demo_node demo_grpc_clock demo_request demo_pool"

definition demo_response :: template_response where
  "demo_response = \<lparr>tr_block = Some (demo_payload 3),
     tr_miner_data = Some \<lparr>md_target_difficulty = 10, md_rest = []\<rparr>, tr_rest = []\<rparr>"

lemma demo_issued_fact1: "snd demo_issued = Ok (demo_response, 10)" by code_simp
lemma demo_issued_fact2:  "gp_list_of_templates (fst demo_issued) Sha3x = [9]" by code_simp
lemma demo_issued_fact3: "map fst (gp_template_store (fst demo_issued) Sha3x) = [9]" by code_simp
lemma demo_accepted:
  "snd (grpc_submit_block demo_grpc (demo_node\<lparr>bn_submit := \<lambda>b. Inr ()\<rparr>) demo_grpc_clock
     (Some (demo_payload 5)) (fst demo_issued)) = Ok 9"
  by code_simp

lemma demo_stored:
  "hm_get (gp_template_store (fst demo_issued) Sha3x) 9 = Some (hd (hm_values (gp_template_store (fst demo_issued) Sha3x)))"
  using demo_issued_fact3 by (cases "gp_template_store (fst demo_issued) Sha3x") auto

lemma demo_issued_result: "demo_issued = (fst demo_issued, Ok (demo_response, 10))"
  using demo_issued_fact1 by (metis prod.collapse)

lemma demo_convert:
  "grpc_to_tari demo_grpc (demo_payload n) =
     Inr \<lparr>tb_header = \<lparr>bh_pow_algo = Sha3x, bh_output_mr = 0, bh_rest = [n, 9]\<rparr>, tb_body = []\<rparr>"
  "template_key demo_grpc \<lparr>bh_pow_algo = Sha3x, bh_output_mr = 0, bh_rest = [n, 9]\<rparr> = 9"
  "i32_try_from 1 = Some 1" "pow_algos_try_from demo_grpc 1 = Some Sha3x"
  by (simp_all add: demo_grpc_def demo_payload_def template_key_def i32_try_from_def)

theorem template_stores_are_consistent_witness:
  "(grpc_step demo_grpc)\<^sup>*\<^sup>* demo_pool (fst demo_issued)
   \<and> length (gp_list_of_templates (fst demo_issued) Sha3x) \<le> 100
   \<and> (\<exists>b. hm_get (gp_template_store (fst demo_issued) Sha3x) 9 = Some b)"
proof -
  have run: "(grpc_step demo_grpc)\<^sup>*\<^sup>* demo_pool (fst demo_issued)"
    using grpc_step.request [of demo_grpc demo_pool "GetNewBlock demo_node demo_grpc_clock demo_request"]
    by (simp add: r_into_rtranclp)
  then show ?thesis
    using template_stores_are_consistent [OF run [unfolded demo_pool_def], folded demo_pool_def, of Sha3x]
    by (simp add: demo_issued_fact2)
qed


theorem submission_uses_issued_template_witness:
  "\<exists>a template. hm_get (gp_template_store (fst demo_issued) a) 9 = Some template"
  using submission_uses_issued_template
    [OF surjective_pairing [of "grpc_submit_block demo_grpc (demo_node\<lparr>bn_submit := \<lambda>b. Inr ()\<rparr>) demo_grpc_clock
       (Some (demo_payload 5)) (fst demo_issued)", unfolded demo_accepted]]
  by blast

theorem refused_by_base_node_is_lost_witness:
  "\<exists>s'. grpc_submit_block demo_grpc demo_node demo_grpc_clock (Some (demo_payload 5)) (fst demo_issued)
        = (s', Err (Internal ''submit_block failed''))
    \<and> gp_share_chain s' = gp_share_chain (fst demo_issued) \<and> gp_broadcasts s' = gp_broadcasts (fst demo_issued)"
proof (rule refused_by_base_node_is_lost [OF _ _ demo_convert(3,4) demo_convert(1)])
  show "gb_header (demo_payload 5) = Some \<lparr>gh_height = 7, gh_pow = Some 1, gh_rest = [5, 9]\<rparr>"
    by (simp add: demo_payload_def)
  show "gh_pow \<lparr>gh_height = 7, gh_pow = Some 1, gh_rest = [5, 9]\<rparr> = Some 1" by simp
  show "hm_get (gp_template_store (fst demo_issued) Sha3x) (template_key demo_grpc (tb_header
      \<lparr>tb_header = \<lparr>bh_pow_algo = Sha3x, bh_output_mr = 0, bh_rest = [5, 9]\<rparr>, tb_body = []\<rparr>))
    = Some (hd (hm_values (gp_template_store (fst demo_issued) Sha3x)))"
    by (simp add: demo_convert(2) demo_stored)
  show "achieved_difficulty demo_grpc (gp_params (fst demo_issued)) (tb_header
      \<lparr>tb_header = \<lparr>bh_pow_algo = Sha3x, bh_output_mr = 0, bh_rest = [5, 9]\<rparr>, tb_body = []\<rparr>) = Ok 100"
    by (simp add: achieved_difficulty_def demo_grpc_def demo_ext_def)
  show "network_difficulty_for demo_grpc (fst demo_issued) (tb_header
      \<lparr>tb_header = \<lparr>bh_pow_algo = Sha3x, bh_output_mr = 0, bh_rest = [5, 9]\<rparr>, tb_body = []\<rparr>) \<le> 100"
    by code_simp
  show "bn_connect demo_node \<noteq> Inr () \<or> bn_submit demo_node (demo_payload 5) \<noteq> Inr ()"
    by (simp add: demo_node_def)
qed

theorem tip_info_is_recent_witness:
  "\<exists>s' info. get_tip_info demo_grpc demo_node 5 False demo_pool = (s', Ok info)
     \<and> ti_p2pool_sha_height info = 0 \<and> gp_cache_get_tip_info s' = (5, Some info)"
proof -
  let ?x = "get_tip_info demo_grpc demo_node 5 False demo_pool"
  have "case snd ?x of Ok i \<Rightarrow> True | _ \<Rightarrow> False" by code_simp
  then obtain info where x: "?x = (fst ?x, Ok info)" by (cases ?x) (auto split: outcome.splits)
  have "gp_cache_get_tip_info demo_pool = (0, None)" by (simp add: demo_pool_def grpc_pool_new_def)
  moreover have "sc_get_tip (gp_share_chain demo_pool Sha3x) = None" by code_simp
  ultimately have "ti_p2pool_sha_height info = 0" "gp_cache_get_tip_info (fst ?x) = (5, Some info)"
    using tip_info_is_recent [OF x] by auto
  then show ?thesis using x by metis
qed

end
