(* ===== verification/StartCorrect.thy ===== *)
theory StartCorrect
  imports NetStart NetCorrect
begin

text \<open>
  The start of the service: under which peers the seed addresses are filed, what the service asks of
  the swarm until its main loop begins, and when it does not begin.
\<close>

section \<open>Seed peers\<close>

definition seeds_ok :: "seed_ext \<Rightarrow> seed_map \<Rightarrow> bool" where
  "seeds_ok e m \<longleftrightarrow> hm_ok m \<and> (\<forall>p addr. hm_get m p = Some addr \<longrightarrow> last_peer_id e addr = Some p)"

lemma seeds_ok_insert: "seeds_ok e m \<Longrightarrow> last_peer_id e addr = Some p \<Longrightarrow> seeds_ok e (hm_insert p addr m)"
  by (auto simp: seeds_ok_def hm.ok_put)

lemma seeds_ok_txt: "seeds_ok e m \<Longrightarrow> seeds_ok e (add_txt_record n e txt m)"
  by (auto simp: add_txt_record_def seeds_ok_insert split: list.split outcome.split option.split)

lemma seeds_ok_lookup: "seeds_ok e m \<Longrightarrow> seeds_ok e (lookup_seeds n e addr m)"
proof -
  assume m: "seeds_ok e m"
  have "seeds_ok e (fold (add_txt_record n e) rs m)" for rs
    using m by (induction rs arbitrary: m) (auto simp: seeds_ok_txt)
  then show ?thesis using m by (auto simp: lookup_seeds_def split: option.split)
qed

lemma seeds_ok_add: "add_seed_address n e seed m = Ok m' \<Longrightarrow> seeds_ok e m \<Longrightarrow> seeds_ok e m'"
  by (auto simp: add_seed_address_def Let_def seeds_ok_lookup intro: seeds_ok_insert split: if_splits)

lemma parse_seeds_ok: "parse_seed_peers w e s = Ok m \<Longrightarrow> seeds_ok e m"
  unfolding parse_seed_peers_def
  by (erule foldO_invariant [where P = "seeds_ok e"]) (simp_all add: seeds_ok_add, simp add: seeds_ok_def)

lemma parse_seeds_not_panic: "parse_seed_peers w e s \<noteq> Panic" "parse_seed_peers w e s \<noteq> Diverge"
proof -
  have no: "add_seed_address n e seed m \<noteq> Panic" "add_seed_address n e seed m \<noteq> Diverge" for n seed m
    by (cases "multiaddr_parse n seed"; auto simp: add_seed_address_def Let_def)+
  have "foldO (add_seed_address n e) xs m \<noteq> Panic \<and> foldO (add_seed_address n e) xs m \<noteq> Diverge" for n xs m
  proof (induction xs arbitrary: m)
    case (Cons x xs)
    then show ?case using no [of n x m] by (cases "add_seed_address n e x m") auto
  qed simp
  then show "parse_seed_peers w e s \<noteq> Panic" "parse_seed_peers w e s \<noteq> Diverge"
    by (simp_all add: parse_seed_peers_def)
qed

text \<open>An address that names its peer is taken as it is.\<close>

lemma plain_seed_kept:
  assumes "multiaddr_parse n seed = Some addr" and "seed_parts e addr = parts @ [SeedP2p p]" and "\<not> is_dns_addr e addr"
  shows "add_seed_address n e seed m = Ok (hm_insert p addr m)"
  using assms by (simp add: add_seed_address_def last_peer_id_def Let_def)

text \<open>
  An address of the domain name system that also names the peer is neither looked up nor taken
  as it is.
\<close>

lemma dnsaddr_with_peer_id_dropped:
  assumes "multiaddr_parse n seed = Some addr" and "seed_parts e addr = [Dnsaddr d, SeedP2p p]"
  shows "add_seed_address n e seed m = Ok m"
  using assms by (simp add: add_seed_address_def is_dns_addr_def lookup_seeds_def last_dnsaddr_def last_peer_id_def)

section \<open>The way to the main loop\<close>

definition listen_strings :: "'l world \<Rightarrow> u16 \<Rightarrow> string list" where
  "listen_strings w port =
     concat (map (\<lambda>c. [quic_multiaddr_str w port c, tcp_multiaddr_str w port c]) listen_configs)"

definition listen_addresses :: "'l world \<Rightarrow> u16 \<Rightarrow> multiaddr list" where
  "listen_addresses w port = List.map_filter (multiaddr_parse (w_net w)) (listen_strings w port)"

definition with_actions :: "action list \<Rightarrow> 'l service \<Rightarrow> 'l service" where
  "with_actions as s = fold act as s"

lemma with_actions_Nil [simp]: "with_actions [] s = s"
  and with_actions_act: "act a (with_actions as s) = with_actions (as @ [a]) s"
  and with_actions_twice: "with_actions bs (with_actions as s) = with_actions (as @ bs) s"
  by (simp_all add: with_actions_def)

lemma with_actions_fields:
  "sv_peer_store (with_actions as s) = sv_peer_store s" "sv_config (with_actions as s) = sv_config s"
  "sw_actions (sv_swarm (with_actions as s)) = sw_actions (sv_swarm s) @ as"
  "sv_squad (with_actions as s) = sv_squad s" "external_addresses (with_actions as s) = external_addresses s"
  unfolding with_actions_def by (induction as arbitrary: s; simp add: act_def)+

lemma listeners:
  "start_listeners w port s
    = (with_actions (map ListenOn (listen_addresses w port)) s,
       length (filter (listen_on_succeeds w) (listen_addresses w port)))"
proof -
  have one: "try_listen w a (with_actions as s, k)
      = (with_actions (as @ map ListenOn (List.map_filter (multiaddr_parse (w_net w)) [a])) s,
         k + length (filter (listen_on_succeeds w) (List.map_filter (multiaddr_parse (w_net w)) [a])))" for a as k
    by (auto simp: try_listen_def with_actions_act List.map_filter_def split: option.split)
  have "start_listeners w port s = fold (try_listen w) (listen_strings w port) (with_actions [] s, 0)"
    by (simp add: start_listeners_def listen_strings_def listen_configs_def)
  also have "fold (try_listen w) xs (with_actions as s, k)
      = (with_actions (as @ map ListenOn (List.map_filter (multiaddr_parse (w_net w)) xs)) s,
         k + length (filter (listen_on_succeeds w) (List.map_filter (multiaddr_parse (w_net w)) xs)))" for xs as k
    by (induction xs arbitrary: as k)
      (auto simp: try_listen_def with_actions_act List.map_filter_def split: option.split)
  finally show ?thesis by (simp add: listen_addresses_def)
qed

definition subscriptions :: "'l world \<Rightarrow> 'l service \<Rightarrow> action list" where
  "subscriptions w s = Subscribe (network_topic w PEER_INFO_TOPIC)
     # (if diagnostic_mode (sv_config s) then []
        else [Subscribe (squad_topic w s BLOCK_NOTIFY_TOPIC)]
          @ (if randomx_enabled (sv_config s) then [Subscribe (squad_topic w s BLOCK_NOTIFY_RX_TOPIC)] else [])
          @ (if sha3x_enabled (sv_config s) then [Subscribe (squad_topic w s BLOCK_NOTIFY_SHA3X_TOPIC)] else []))"

lemma squad_topic_act [simp]: "squad_topic w (act a s) t = squad_topic w s t" "sv_config (act a s) = sv_config s"
  by (simp_all add: squad_topic_def act_def)

lemma subscribes: "subscribe_to_topics w s = with_actions (subscriptions w s) s"
  by (simp add: subscribe_to_topics_def subscriptions_def subscribe_def with_actions_def)

definition seed_dials :: "seed_map \<Rightarrow> action list" where
  "seed_dials m = concat (map (\<lambda>(p, addr). [AddPeerAddress p addr, DialPeer p []]) m)"

lemma joins: "join_seed_peers m s = on_peers (add_seed_peers (hm_keys m)) (with_actions (seed_dials m) s)"
proof -
  have "fold (\<lambda>(p, addr) s. act (DialPeer p []) (act (AddPeerAddress p addr) s)) m (with_actions as s)
      = with_actions (as @ seed_dials m) s" for as
    by (induction m arbitrary: as) (auto simp: seed_dials_def with_actions_act)
  from this [of "[]"] show ?thesis by (simp add: join_seed_peers_def)
qed

lemma external_addr_keeps:
  assumes "set_external_addr w s = (s', r)"
  shows "sv_peer_store s' = sv_peer_store s" "sv_config s' = sv_config s" "sv_squad s' = sv_squad s"
    "sw_actions (sv_swarm s') = sw_actions (sv_swarm s)"
  using assms
  by (auto simp: set_external_addr_def add_external_address_def split: option.splits elim!: bindS_cases)

lemma parse_seeds_cong: "sv_config s' = sv_config s \<Longrightarrow> parse_seed_peers w e s' = parse_seed_peers w e s"
  by (simp add: parse_seed_peers_def)

lemma subscriptions_cong:
  "sv_config s' = sv_config s \<Longrightarrow> sv_squad s' = sv_squad s \<Longrightarrow> subscriptions w s' = subscriptions w s"
  by (simp add: subscriptions_def squad_topic_def)

lemma external_addr_result:
  "snd (set_external_addr w s)
    = (if \<exists>a. external_addr (sv_config s) = Some a \<and> multiaddr_parse (w_net w) a = None
       then Err InvalidExternalAddress else Ok ())"
  by (auto simp: set_external_addr_def ok_or_def split: option.split)

lemma start_equation:
  "service_start w e port s =
    (if filter (listen_on_succeeds w) (listen_addresses w port) = []
     then (with_actions (map ListenOn (listen_addresses w port)) s, Err NoListeners)
     else bindS (set_external_addr w (with_actions (map ListenOn (listen_addresses w port)) s)) (\<lambda>s1 _.
       if diagnostic_mode (sv_config s) then (with_actions (subscriptions w s) s1, Ok DiagnosticLoop)
       else bindS (with_actions (subscriptions w s) s1, parse_seed_peers w e s)
              (\<lambda>s2 m. (join_seed_peers m s2, Ok NormalLoop))))"
proof -
  let ?listened = "with_actions (map ListenOn (listen_addresses w port)) s"
  have step: "(let s = subscribe_to_topics w s1 in
        if diagnostic_mode (sv_config s) then (s, Ok DiagnosticLoop)
        else bindS (dial_seed_peers w e s) (\<lambda>s _. (s, Ok NormalLoop)))
      = (if diagnostic_mode (sv_config s) then (with_actions (subscriptions w s) s1, Ok DiagnosticLoop)
       else bindS (with_actions (subscriptions w s) s1, parse_seed_peers w e s)
              (\<lambda>s2 m. (join_seed_peers m s2, Ok NormalLoop)))"
    if "set_external_addr w ?listened = (s1, Ok ())" for s1
  proof -
    note s1 = external_addr_keeps [OF that, unfolded with_actions_fields]
    have sub: "subscribe_to_topics w s1 = with_actions (subscriptions w s) s1"
      using subscriptions_cong [of s1 s w] s1 by (simp add: subscribes)
    have "parse_seed_peers w e (with_actions (subscriptions w s) s1) = parse_seed_peers w e s"
      using s1 by (intro parse_seeds_cong) (simp add: with_actions_fields)
    then show ?thesis using s1
      by (cases "parse_seed_peers w e s") (simp_all add: sub with_actions_fields dial_seed_peers_def)
  qed
  have "bindS (set_external_addr w ?listened) (\<lambda>s1 _. let s = subscribe_to_topics w s1 in
        if diagnostic_mode (sv_config s) then (s, Ok DiagnosticLoop)
        else bindS (dial_seed_peers w e s) (\<lambda>s _. (s, Ok NormalLoop)))
      = bindS (set_external_addr w ?listened) (\<lambda>s1 _.
       if diagnostic_mode (sv_config s) then (with_actions (subscriptions w s) s1, Ok DiagnosticLoop)
       else bindS (with_actions (subscriptions w s) s1, parse_seed_peers w e s)
              (\<lambda>s2 m. (join_seed_peers m s2, Ok NormalLoop)))"
    by (rule bindS_cong) (simp_all add: step)
  then show ?thesis by (simp add: service_start_def listeners)
qed


definition demo_start_net :: net_ext where
  "demo_start_net = demo_net\<lparr>multiaddr_parse := Some\<rparr>"

definition demo_start_world :: "(epoch_time \<times> difficulty) list world" where
  "demo_start_world = demo_world\<lparr>w_net := demo_start_net\<rparr>"

definition demo_seeds :: seed_ext where
  "demo_seeds = \<lparr>seed_parts = (\<lambda>a. if a = ''dns'' then [Dnsaddr ''x''] else [OtherSeedPart, SeedP2p [7]]),
     txt_lookup = (\<lambda>_. Some [[[1]], [[2]]]),
     from_utf8 = (\<lambda>b. if b = [1] then Some ''dnsaddr=a'' else None)\<rparr>"

definition demo_unstarted :: "(epoch_time \<times> difficulty) list service" where
  "demo_unstarted = demo_start\<lparr>sv_config := (sv_config demo_start)\<lparr>cfg_seed_peers := [''dns'']\<rparr>\<rparr>"


text \<open>A start fails exactly when no address can be listened on, the external address is invalid,
  or, in normal mode, a seed address is.\<close>

theorem start_fails_iff:
  "(\<exists>s' err. service_start w e port s = (s', Err err)) \<longleftrightarrow>
     (\<forall>addr \<in> set (listen_addresses w port). \<not> listen_on_succeeds w addr)
   \<or> (\<exists>a. external_addr (sv_config s) = Some a \<and> multiaddr_parse (w_net w) a = None)
   \<or> (\<not> diagnostic_mode (sv_config s) \<and> (\<exists>err. parse_seed_peers w e s = Err err))"
proof (cases "filter (listen_on_succeeds w) (listen_addresses w port) = []")
  case True
  then show ?thesis by (simp add: start_equation filter_empty_conv)
next
  case False
  then have "\<not> (\<forall>addr \<in> set (listen_addresses w port). \<not> listen_on_succeeds w addr)"
    by (simp add: filter_empty_conv)
  moreover obtain s1 r where
    ext: "set_external_addr w (with_actions (map ListenOn (listen_addresses w port)) s) = (s1, r)" by fastforce
  moreover have "r = (if \<exists>a. external_addr (sv_config s) = Some a \<and> multiaddr_parse (w_net w) a = None
        then Err InvalidExternalAddress else Ok ())"
    using ext external_addr_result [of w "with_actions (map ListenOn (listen_addresses w port)) s"]
    by (simp add: with_actions_fields)
  ultimately show ?thesis using False parse_seeds_not_panic [of w e s]
    by (cases "parse_seed_peers w e s") (simp_all add: start_equation split: if_split)
qed

end
