(* ===== verification/NodeCorrect.thy ===== *)
theory NodeCorrect
  imports Node NetCorrect GrpcCorrect StartCorrect
begin

text \<open>
  The whole node: every step of it is, for the peer-to-peer service and for the service for
  miners, a run of the steps that each of them was proved for, so what was proved of them apart
  holds of them together. Then a block of a miner from its submission to the share chain of
  another node.
\<close>

section \<open>What a request of a miner does to the share chains\<close>

definition same_chains :: "'l grpc_pool \<Rightarrow> 'l grpc_pool \<Rightarrow> bool" where
  "same_chains g g' \<longleftrightarrow> gp_share_chain g' = gp_share_chain g"

lemma same_chains_refl [simp]: "same_chains g g"
  by (simp add: same_chains_def)

lemma same_chains_bindS:
  assumes "same_chains g (fst m)" and "\<And>s x. m = (s, Ok x) \<Longrightarrow> same_chains g s \<Longrightarrow> same_chains g (fst (f s x))"
  shows "same_chains g (fst (bindS m f))"
  using assms by (rule bindS_preserves)

lemma same_chains_updates [simp]:
  "same_chains g (tell_stats x g') \<longleftrightarrow> same_chains g g'"
  "same_chains g (remember_template a h b g') \<longleftrightarrow> same_chains g g'"
  "same_chains g (g'\<lparr>gp_height_difficulty_cache := c\<rparr>) \<longleftrightarrow> same_chains g g'"
  "same_chains g (g'\<lparr>gp_cache_get_tip_info := i\<rparr>) \<longleftrightarrow> same_chains g g'"
  "same_chains g (g'\<lparr>gp_max_difficulty := m\<rparr>) \<longleftrightarrow> same_chains g g'"
  "same_chains g (tell_network_difficulty gw k a d g') \<longleftrightarrow> same_chains g g'"
  by (simp_all add: same_chains_def remember_template_def Let_def tell_network_difficulty_def split: option.split)

lemma same_chains_split:
  "(\<And>a b. x = (a, b) \<Longrightarrow> same_chains g (fst (f a b))) \<Longrightarrow> same_chains g (fst (case x of (a, b) \<Rightarrow> f a b))"
  by (cases x) simp

lemma same_chains_issue:
  "same_chains g s \<Longrightarrow> same_chains g (fst (issue_template gw k a synced b target response s))"
  unfolding issue_template_def Let_def
  by (intro same_chains_bindS same_chains_split) simp_all

lemma same_chains_tip_info: "same_chains g (fst (get_tip_info gw bn now busy g))"
  by (simp add: get_tip_info_def Let_def split: prod.split option.split outcome.split)

text \<open>One share chain is left alone, given a block, or asked for the shares of a template.\<close>

definition chains_step :: "'l ext \<Rightarrow> (pow_algorithm \<Rightarrow> 'l share_chain) \<Rightarrow> (pow_algorithm \<Rightarrow> 'l share_chain) \<Rightarrow> bool" where
  "chains_step e cs cs' \<longleftrightarrow> cs' = cs
     \<or> (\<exists>a now now' b. cs' = cs(a := fst (submit_block e now now' (cs a) b)))
     \<or> (\<exists>a b solo. cs' = cs(a := fst (generate_shares_and_get_target_difficulty e (cs a) b solo)))"

lemma chains_step_same: "same_chains g g' \<Longrightarrow> chains_step e (gp_share_chain g) (gp_share_chain g')"
  by (simp add: same_chains_def chains_step_def)

lemma chains_step_generated:
  "generate_shares_and_get_target_difficulty e (cs a) b solo = (c, r) \<Longrightarrow> chains_step e cs (cs(a := c))"
  unfolding chains_step_def by (metis fst_conv)

definition chains_from :: "'l grpc_world \<Rightarrow> 'l grpc_pool \<Rightarrow> 'l grpc_pool \<Rightarrow> bool" where
  "chains_from gw g s \<longleftrightarrow> chains_step (g_ext gw) (gp_share_chain g) (gp_share_chain s)"

lemma chains_from_same: "chains_from gw g s \<Longrightarrow> same_chains s s' \<Longrightarrow> chains_from gw g s'"
  by (simp add: chains_from_def same_chains_def)

lemma chains_from_pure:
  assumes "chains_from gw g s" and "\<And>x. chains_from gw g (fst (f s x))"
  shows "chains_from gw g (fst (bindS (s, r) f))"
  using assms by (cases r) auto

lemma chains_from_refl [simp]: "chains_from gw g g"
  by (simp add: chains_from_def chains_step_def)

lemma chains_from_asked:
  "chains_from gw g (fst (with_chain a (\<lambda>c. case generate_shares_and_get_target_difficulty (g_ext gw) c b so of
                (c, r) \<Rightarrow> (c, map_err f r)) g))"
  by (auto simp: chains_from_def with_chain_def intro: chains_step_generated split: prod.split)

lemma chains_from_issue:
  "chains_from gw g s \<Longrightarrow> chains_from gw g (fst (issue_template gw k a synced b target response s))"
  using chains_from_same same_chains_issue [OF same_chains_refl] by blast

lemma new_block_chains: "chains_from gw g (fst (get_new_block gw bn k req g))"
  unfolding get_new_block_def Let_def
  by (intro chains_from_pure chains_from_refl bindS_preserves [where P = "chains_from gw g"] chains_from_asked)
    (auto split: prod.split intro!: chains_from_pure chains_from_issue)

lemma chains_from_bindS:
  assumes "same_chains g (fst m)" and "\<And>s x. m = (s, Ok x) \<Longrightarrow> same_chains g s \<Longrightarrow> chains_from gw g (fst (f s x))"
  shows "chains_from gw g (fst (bindS m f))"
proof -
  have "same_chains g s \<Longrightarrow> chains_from gw g s" for s
    using chains_from_same chains_from_refl by blast
  then show ?thesis using assms by (cases m; cases "snd m") auto
qed

lemma base_chains: "same_chains g s \<Longrightarrow> same_chains g (fst (submit_to_base_node gw bn k a payload b s))"
  using submit_to_base_node_frame [of gw bn k a payload b s] by (metis prod.collapse same_chains_def)

lemma share_chains:
  "same_chains g s \<Longrightarrow> chains_from gw g (fst (submit_share_chain_block gw k b s))"
  by (auto simp: submit_share_chain chains_with_def chains_step_def chains_from_def same_chains_def)

lemma submit_mined_chains: "same_chains g s \<Longrightarrow> chains_from gw g (fst (submit_mined gw bn k a payload b s))"
  unfolding submit_mined_def Let_def
  by (intro chains_from_bindS) (auto simp: share_chains base_chains)

lemma submit_block_chains: "chains_from gw g (fst (grpc_submit_block gw bn k block g))"
proof -
  have "same_chains g s \<Longrightarrow> chains_from gw g (fst (bindS (submit_mined gw bn k a payload b s)
      (\<lambda>s _. (s, Ok h :: (status, fixed_hash) outcome))))" for s a payload b h
    using submit_mined_chains by (intro bindS_preserves [where P = "chains_from gw g"]) auto
  then have "chains_from gw g (fst (submit_mined_block gw bn k block g))"
    unfolding submit_mined_block_def Let_def by (intro chains_from_pure chains_from_refl) simp
  then show ?thesis by (auto simp: grpc_submit_block_def split: prod.split)
qed

lemma serve_chains: "chains_from gw g (serve gw request g)"
  using new_block_chains submit_block_chains chains_from_same [OF chains_from_refl same_chains_tip_info]
  by (cases request) simp_all

section \<open>The node as its parts see it\<close>

lemma request_net_steps:
  assumes "g_ext gw = w_ext w"
  shows "(net_step w sf)\<^sup>*\<^sup>* (nd_service n) (nd_service (miner_request gw request n))"
proof (cases "nd_grpc n")
  case (Some g)
  let ?s = "nd_service n" and ?cs = "gp_share_chain (serve gw request (shared_view n g))"
  have n': "nd_service (miner_request gw request n) = ?s\<lparr>sv_share_chain := ?cs\<rparr>"
    using Some by (simp add: miner_request_def write_back_def)
  have "chains_step (w_ext w) (sv_share_chain ?s) ?cs"
    using serve_chains [of gw "shared_view n g" request] assms
    by (simp add: chains_from_def shared_view_def)
  then consider "?cs = sv_share_chain ?s"
    | a now now' b where "?cs = (sv_share_chain ?s)(a := fst (submit_block (w_ext w) now now' (sv_share_chain ?s a) b))"
    | a b solo where "?cs = (sv_share_chain ?s)
          (a := fst (generate_shares_and_get_target_difficulty (w_ext w) (sv_share_chain ?s a) b solo))"
    unfolding chains_step_def by blast
  then show ?thesis
  proof cases
    case 1
    then show ?thesis by (simp add: n')
  next
    case (2 a now now' b)
    then show ?thesis using net_step.block_submitted n' by (metis r_into_rtranclp)
  next
    case (3 a b solo)
    then show ?thesis using net_step.shares_generated n' by (metis r_into_rtranclp)
  qed
qed (simp add: miner_request_def)

lemma request_grpc_steps:
  assumes "nd_grpc n = Some g"
  shows "\<exists>g'. nd_grpc (miner_request gw request n) = Some g' \<and> (grpc_step gw)\<^sup>*\<^sup>* g g'"
proof -
  have "grpc_step gw g (shared_view n g)"
    unfolding shared_view_def by (rule grpc_step.elsewhere)
  moreover have "grpc_step gw (shared_view n g) (serve gw request (shared_view n g))"
    by (rule grpc_step.request)
  ultimately show ?thesis using assms
    by (auto simp: miner_request_def write_back_def intro: rtranclp.rtrancl_into_rtrancl)
qed

lemma node_step_service:
  assumes "node_step w gw sf n n'" and "g_ext gw = w_ext w"
  shows "(net_step w sf)\<^sup>*\<^sup>* (nd_service n) (nd_service n')"
  using assms(1)
proof cases
  case (miner request)
  then show ?thesis using request_net_steps [OF assms(2)] by simp
next
  case (publish t)
  then show ?thesis
    by (auto simp: publish_submitted_def split: list.splits prod.splits dest!: net_step.round)
next
  case (loop t inp s)
  then show ?thesis by (auto intro: net_step.round r_into_rtranclp)
next
  case (sync_task i)
  then show ?thesis by (auto intro: net_step.task r_into_rtranclp)
next
  case (swarm ext conn num counters)
  then show ?thesis by (auto intro: net_step.swarm_changes r_into_rtranclp)
next
  case silence
  then show ?thesis by (auto simp: silence_done_def intro: net_step.silence_over r_into_rtranclp)
qed

lemma node_step_grpc:
  assumes "node_step w gw sf n n'"
  shows "case nd_grpc n of None \<Rightarrow> nd_grpc n' = None
    | Some g \<Rightarrow> \<exists>g'. nd_grpc n' = Some g' \<and> (grpc_step gw)\<^sup>*\<^sup>* g g'"
  using assms
proof cases
  case (miner request)
  then show ?thesis using request_grpc_steps [of n _ gw request]
    by (auto simp: miner_request_def split: option.split)
next
  case (publish t)
  then show ?thesis
    by (auto simp: publish_submitted_def split: list.splits prod.splits option.split)
qed (auto simp: silence_done_def split: option.split)

lemma node_parts:
  assumes "(node_step w gw sf)\<^sup>*\<^sup>* n n'" and "g_ext gw = w_ext w"
  shows "(net_step w sf)\<^sup>*\<^sup>* (nd_service n) (nd_service n')
    \<and> (case nd_grpc n of None \<Rightarrow> nd_grpc n' = None
       | Some g \<Rightarrow> \<exists>g'. nd_grpc n' = Some g' \<and> (grpc_step gw)\<^sup>*\<^sup>* g g')"
  using assms(1)
proof (induction rule: rtranclp_induct)
  case base
  then show ?case by (auto split: option.split)
next
  case (step u v)
  then show ?case using node_step_service [OF step.hyps(2) assms(2)] node_step_grpc [OF step.hyps(2)]
    by (auto split: option.splits dest: rtranclp_trans)
qed


section \<open>From the start of a node\<close>

lemma quiet_with_actions: "quiet w s (with_actions as s') \<longleftrightarrow> quiet w s s'"
  unfolding with_actions_def by (induction as arbitrary: s') simp_all

lemma quiet_start: "quiet w s (fst (service_start w e port s))"
proof -
  have ext: "quiet w s (fst (set_external_addr w (with_actions as s)))" for as
  proof -
    have "quiet w s (fst (bindS (with_actions as s, r)
        (\<lambda>s addr. (add_external_address addr s, Ok () :: (start_error, unit) outcome))))" for r
      by (intro bindS_preserves [where P = "quiet w s"]) (simp_all add: quiet_with_actions add_external_address_def)
    then show ?thesis by (simp add: set_external_addr_def quiet_with_actions split: option.split)
  qed
  have joined: "quiet w s (join_seed_peers m s')" if "quiet w s s'" for m s'
    using that by (auto simp: joins quiet_with_actions intro!: quiet_on_peers peer_step.seeds)
  have "quiet w s (fst (bindS (set_external_addr w (with_actions as s)) (\<lambda>s1 _.
       if diagnostic_mode (sv_config s) then (with_actions (subscriptions w s) s1, Ok DiagnosticLoop)
       else bindS (with_actions (subscriptions w s) s1, parse_seed_peers w e s)
              (\<lambda>s2 m. (join_seed_peers m s2, Ok NormalLoop)))))" for as
    by (intro bindS_preserves [where P = "quiet w s"] ext)
      (auto simp: quiet_with_actions intro!: bindS_preserves [where P = "quiet w s"] joined)
  then show ?thesis by (simp add: start_equation quiet_with_actions)
qed

lemma quiet_service_inv:
  assumes "quiet w s s'" and "service_inv w config squad C s"
  shows "service_inv w config squad C s'"
proof -
  have "keeps w {#} {#} s s'" using assms(1) by (rule quiet_keeps)
  then show ?thesis using assms(2) reach_run.run_kept unfolding keeps_def service_inv_def by auto
qed

definition node_inv :: "'l world \<Rightarrow> 'l grpc_world \<Rightarrow> server_config \<Rightarrow> string \<Rightarrow> 'l node \<Rightarrow> bool" where
  "node_inv w gw config squad n \<longleftrightarrow>
     service_inv w (cs_p2p_service config) squad (permits_of_start (cs_p2p_service config)) (nd_service n)
   \<and> (case nd_grpc n of None \<Rightarrow> cfg_is_seed_peer (cs_p2p_service config)
      | Some g \<Rightarrow> templates_ok gw g \<and> \<not> cfg_is_seed_peer (cs_p2p_service config))"

lemma server_new_inv:
  assumes new: "server_new w now config share_chains params connected diagnostics swarm squad = Ok n"
    and wf: "\<And>a. chain_wf (sc_p2_chain (share_chains a))"
  shows "node_inv w gw config squad n"
proof -
  obtain s where s: "service_new (cs_p2p_service config) share_chains (\<lambda>_. False) (cs_share_window config) swarm squad = Ok s"
    and n: "nd_service n = s" "nd_grpc n = (if cfg_is_seed_peer (cs_p2p_service config) then None
      else Some (grpc_pool_new (w_ext w) now share_chains params (\<lambda>_. False) squad (cs_grpc_cache_time config)))"
    using new by (auto simp: server_new_def Let_def split: if_splits)
  show ?thesis using service_new_inv [OF s wf] n new_templates_ok by (auto simp: node_inv_def)
qed

lemma server_start_inv:
  "node_inv w gw config squad n \<Longrightarrow> node_inv w gw config squad (fst (server_start w e n))"
proof -
  assume inv: "node_inv w gw config squad n"
  have "nd_service (fst (server_start w e n)) = fst (service_start w e (cs_p2p_port (nd_config n)) (nd_service n))"
    and "nd_grpc (fst (server_start w e n)) = nd_grpc n"
    by (simp_all add: server_start_def split: prod.split)
  then show ?thesis using inv by (simp add: node_inv_def quiet_service_inv [OF quiet_start])
qed

lemma node_step_inv:
  assumes "node_step w gw sf n n'" and "g_ext gw = w_ext w" and "node_inv w gw config squad n"
  shows "node_inv w gw config squad n'"
  using node_step_service [OF assms(1,2)] node_step_grpc [OF assms(1)] assms(3)
    net_run.run_kept grpc_run.run_kept
  by (fastforce simp: node_inv_def split: option.splits)

text \<open>C6: A node that was set up and started, whatever miners, peers and its own tasks do in
  whatever order, keeps both share chains well-formed, runs at most twice the configured
  number of syncs of each algorithm, serves miners exactly if it is no seed peer, and lists at
  most a hundred templates.\<close>

theorem node_keeps_its_promises:
  assumes "server_new w now config share_chains params connected diagnostics swarm squad = Ok n0"
    and "server_start w e n0 = (n1, Ok kind)" and "(node_step w gw sf)\<^sup>*\<^sup>* n1 n"
    and "g_ext gw = w_ext w" and "\<And>a. chain_wf (sc_p2_chain (share_chains a))"
  shows "(\<forall>a. chain_wf (sc_p2_chain (sv_share_chain (nd_service n) a)))
    \<and> (\<forall>a. length (sv_in_progress_syncs (nd_service n) a) \<le> 2 * num_concurrent_syncs (cs_p2p_service config))
    \<and> (nd_grpc n = None \<longleftrightarrow> cfg_is_seed_peer (cs_p2p_service config))
    \<and> (\<forall>g a. nd_grpc n = Some g \<longrightarrow> length (gp_list_of_templates g a) \<le> 100)"
proof -
  have "node_inv w gw config squad n1"
    using server_start_inv [OF server_new_inv [OF assms(1,5)]] assms(2) by (metis fst_conv)
  with assms(3) have inv: "node_inv w gw config squad n"
    by (induction rule: rtranclp_induct) (auto intro: node_step_inv [OF _ assms(4)])
  then have perm: "all_permits (nd_service n) = permits_of_start (cs_p2p_service config)"
    by (simp add: node_inv_def service_inv_def)
  have "length (sv_in_progress_syncs (nd_service n) a) \<le> size (all_permits (nd_service n))" for a
    by (cases a) (simp_all add: all_permits_def size_permits)
  then have "length (sv_in_progress_syncs (nd_service n) a) \<le> 2 * num_concurrent_syncs (cs_p2p_service config)" for a
    by (simp add: perm permits_of_start_def mult_2)
  moreover have "max_stored_templates a = 100" for a
    by (cases a) (simp_all add: max_stored_templates_def MAX_STORED_TEMPLATES_RX_def MAX_STORED_TEMPLATES_SHA3X_def)
  ultimately show ?thesis using inv
    by (auto simp: node_inv_def service_inv_def chains_ok_def templates_ok_def split: option.splits)
qed

section \<open>A mined block reaches the squad\<close>

lemma broadcast_uncles:
  "gp_p2p_open g \<Longrightarrow> gp_broadcasts (fold (\<lambda>uncle s. fst (client_broadcast_block uncle s)) us g) = gp_broadcasts g @ us
     \<and> gp_p2p_open (fold (\<lambda>uncle s. fst (client_broadcast_block uncle s)) us g)"
  by (induction us arbitrary: g) (simp_all add: client_broadcast_block_def)

lemma client_open:
  "gp_p2p_open g \<Longrightarrow> client_broadcast_block b g = (g\<lparr>gp_broadcasts := gp_broadcasts g @ [b]\<rparr>, Ok ())"
  by (simp add: client_broadcast_block_def)

lemma accepted_block_is_broadcast:
  assumes "gp_p2p_open g" and "gp_synced g (block_algo b)"
    and "submit_block (g_ext gw) (k_now k) (k_now' k) (gp_share_chain g (block_algo b)) b = (c, Ok tip)"
    and "new_tip tip \<noteq> None"
  shows "\<exists>g'. submit_share_chain_block gw k b g = (g', Ok ()) \<and> gp_share_chain g' = (gp_share_chain g)(block_algo b := c)
    \<and> gp_broadcasts g' = gp_broadcasts g @ get_blocks c (b_uncles b) @ [b]"
proof -
  let ?g1 = "tell_stats (send_miner_block_accepted (k_stats k) (block_algo b))
      (g\<lparr>gp_share_chain := (gp_share_chain g)(block_algo b := c)\<rparr>)"
  let ?g2 = "fold (\<lambda>uncle s. fst (client_broadcast_block uncle s)) (get_blocks c (b_uncles b)) ?g1"
  have "submit_share_chain_block gw k b g = client_broadcast_block b ?g2"
    using assms(2-4) by (simp add: submit_share_chain_block_def with_chain_def Let_def)
  moreover have "gp_p2p_open ?g2" "gp_broadcasts ?g2 = gp_broadcasts g @ get_blocks c (b_uncles b)"
    using broadcast_uncles [of ?g1 "get_blocks c (b_uncles b)"] assms(1) by (simp_all add: tell_stats_def)
  ultimately show ?thesis by (simp add: client_open)
qed

lemma submitted_version: "submit_block e now now' c b = (c', Ok tip) \<Longrightarrow> b_version b = PROTOCOL_VERSION"
  by (auto simp: submit_block_def split: if_splits)

definition block_topic :: "'l world \<Rightarrow> string \<Rightarrow> pow_algorithm \<Rightarrow> string" where
  "block_topic w squad a =
     network_key_str w @ ''_'' @ current_chain_id w @ ''_'' @ squad @ ''_''
       @ (case a of RandomX \<Rightarrow> BLOCK_NOTIFY_RX_TOPIC | Sha3x \<Rightarrow> BLOCK_NOTIFY_SHA3X_TOPIC)
       @ ''_'' @ decimal w PROTOCOL_VERSION"

lemma published_block:
  "b_version b = PROTOCOL_VERSION \<Longrightarrow> broadcast_block w t b s
    = act (Publish (block_topic w (sv_squad s) (block_algo b))
        (NotifyPayload (notify_new_tip_block_new (c_now t) (local_peer_id s) [b]))) s"
  by (simp add: broadcast_block_def PROTOCOL_VERSION_def block_topic_def squad_topic_def Let_def split: pow_algorithm.split)

lemma block_topic_squad:
  "block_topic w (sv_squad s) a \<in> set (map (squad_topic w s)
     [BLOCK_NOTIFY_TOPIC, BLOCK_NOTIFY_RX_TOPIC, BLOCK_NOTIFY_SHA3X_TOPIC])"
  by (cases a) (simp_all add: block_topic_def squad_topic_def)

lemma block_topic_not_info: "block_topic w squad a \<noteq> network_topic w PEER_INFO_TOPIC"
proof
  assume "block_topic w squad a = network_topic w PEER_INFO_TOPIC"
  then have "squad @ ''_'' @ (case a of RandomX \<Rightarrow> BLOCK_NOTIFY_RX_TOPIC | Sha3x \<Rightarrow> BLOCK_NOTIFY_SHA3X_TOPIC) = PEER_INFO_TOPIC"
    by (simp add: block_topic_def network_topic_def)
  then have "length (squad @ ''_'' @ (case a of RandomX \<Rightarrow> BLOCK_NOTIFY_RX_TOPIC | Sha3x \<Rightarrow> BLOCK_NOTIFY_SHA3X_TOPIC))
      = length PEER_INFO_TOPIC" by (rule arg_cong)
  then show False
    by (cases a) (simp_all add: BLOCK_NOTIFY_RX_TOPIC_def BLOCK_NOTIFY_SHA3X_TOPIC_def PEER_INFO_TOPIC_def)
qed

text \<open>What a node takes from the squad: its clock and its chain are near the sender's.\<close>

definition welcomes :: "'l world \<Rightarrow> clock \<Rightarrow> epoch_time \<Rightarrow> p2block \<Rightarrow> 'l service \<Rightarrow> bool" where
  "welcomes w t sent b s \<longleftrightarrow>
     sat_sub (c_now t) 60 \<le> sent \<and> algo_enabled (sv_config s) (block_algo b)
   \<and> chain_pow (w_ext w) (sv_share_chain s (block_algo b)) \<le> b_total_pow b
   \<and> b_height b \<le> sat_add (tip_height (sv_share_chain s (block_algo b))) 10"

lemma welcome_block_entered:
  assumes "welcomes w t sent b s" and "decode_notify w data = Inr (notify_new_tip_block_new sent p [b])"
  shows "handle_new_gossipsub_message w t
      \<lparr>gm_source = Some p, gm_topic = block_topic w (sv_squad s) (block_algo b), gm_data = data\<rparr> src s
    = gossip_new_blocks w t src (notify_new_tip_block_new sent p [b]) s"
proof -
  have "max_block_height [b] = b_height b"
    by (simp add: max_block_height_def max_def)
  moreover have "notify_algo (notify_new_tip_block_new sent p [b]) = block_algo b"
    by (simp add: notify_algo_def notify_new_tip_block_new_def block_algo_def)
  moreover have "total_proof_of_work (w_ext w) (notify_new_tip_block_new sent p [b]) = b_total_pow b"
    by (simp add: total_proof_of_work_def notify_new_tip_block_new_def)
  ultimately have "gossip_block w t src (notify_new_tip_block_new sent p [b]) s
      = gossip_new_blocks w t src (notify_new_tip_block_new sent p [b]) s"
    using assms(1) by (auto simp: gossip_block_def welcomes_def not_better_def notify_new_tip_block_new_def Let_def)
  then show ?thesis
    using block_topic_squad [of w s "block_algo b"] block_topic_not_info [of w "sv_squad s" "block_algo b"]
    by (simp add: handle_new_gossipsub_message_def assms(2))
qed

lemma gossip_new_blocks_chain:
  "sv_share_chain (fst (gossip_new_blocks w t src q s)) = (sv_share_chain s)(notify_algo q :=
     fst (add_synced_blocks (w_ext w) (log_info w) (c_now t) (c_now' t) (sv_share_chain s (notify_algo q))
            (reset_verified (nt_new_blocks q))))"
proof -
  obtain s1 r where add: "sv_add_synced_blocks w t (notify_algo q) (reset_verified (nt_new_blocks q)) s = (s1, r)"
    by force
  then have "sv_share_chain s1 = (sv_share_chain s)(notify_algo q :=
     fst (add_synced_blocks (w_ext w) (log_info w) (c_now t) (c_now' t) (sv_share_chain s (notify_algo q))
            (reset_verified (nt_new_blocks q))))"
    by (auto simp: sv_add_synced_blocks_def split: prod.splits)
  moreover have "sv_share_chain (fst (bindS (grey_list_peer w x reason u) (\<lambda>s _. (s, Ok y)))) = sv_share_chain u"
    for x reason u and y :: acceptance
    by (intro bindS_preserves [of "\<lambda>v. sv_share_chain v = sv_share_chain u"])
      (auto simp: grey_list_peer_def split: prod.split)
  ultimately show ?thesis
    by (cases r) (simp_all add: gossip_new_blocks_def add Let_def send_inner_def)
qed


section \<open>A node, evaluated\<close>

definition demo_config :: server_config where
  "demo_config = server_config_default\<lparr>cs_p2p_service := p2p_config_default\<lparr>cfg_seed_peers := [''dns'']\<rparr>\<rparr>"

definition demo_params :: block_validation_params where
  "demo_params = \<lparr>random_x_factory = [], consensus_manager = [], genesis_block_hash = 0\<rparr>"

definition demo_new_node :: "(epoch_time \<times> difficulty) list node" where
  "demo_new_node = (case server_new demo_start_world 0 demo_config (\<lambda>_. demo_share demo_empty) demo_params
      (connect_base_node False [ConnectAttempt False, ConnectAttempt True]) None demo_swarm ''squad'' of Ok n \<Rightarrow> n)"

definition demo_started :: "(epoch_time \<times> difficulty) list node" where
  "demo_started = fst (server_start demo_start_world demo_seeds demo_new_node)"

definition demo_synced :: "(epoch_time \<times> difficulty) list node" where
  "demo_synced = silence_done demo_started"

lemma demo_node_new:
  "server_new demo_start_world 0 demo_config (\<lambda>_. demo_share demo_empty) demo_params
      (connect_base_node False [ConnectAttempt False, ConnectAttempt True]) None demo_swarm ''squad'' = Ok demo_new_node"
  by (simp add: demo_new_node_def server_new_def Let_def connect_base_node_def service_new_def demo_config_def
      server_config_default_def p2p_config_default_def)

lemma demo_node_started: "server_start demo_start_world demo_seeds demo_new_node = (demo_started, Ok NormalLoop)"
proof -
  have "snd (server_start demo_start_world demo_seeds demo_new_node) = Ok NormalLoop" by code_simp
  then show ?thesis by (metis demo_started_def prod.collapse)
qed

lemma demo_node_runs:
  "(node_step demo_start_world demo_grpc (\<lambda>_. []))\<^sup>*\<^sup>* demo_started
     (miner_request demo_grpc (GetTipInfo demo_node 5 False) demo_synced)"
  unfolding demo_synced_def
  by (rule rtranclp.rtrancl_into_rtrancl [OF r_into_rtranclp]) (rule node_step.silence, rule node_step.miner)

lemma demo_ext_shared: "g_ext demo_grpc = w_ext demo_start_world"
  by (simp add: demo_grpc_def demo_start_world_def demo_world_def)


theorem node_keeps_its_promises_witness:
  "chain_wf (sc_p2_chain (sv_share_chain (nd_service
     (miner_request demo_grpc (GetTipInfo demo_node 5 False) demo_synced)) Sha3x))"
  using node_keeps_its_promises [OF demo_node_new demo_node_started demo_node_runs demo_ext_shared]
    chain_wf_demo_empty by (simp add: demo_share_def)

definition demo_mined :: p2block where
  "demo_mined = demo_block 0 1 0 10 0"

definition demo_wire :: "(epoch_time \<times> difficulty) list world" where
  "demo_wire = demo_start_world\<lparr>decode_notify := \<lambda>_. Inr (notify_new_tip_block_new 2000 [9] [demo_mined])\<rparr>"

definition demo_receiver :: "(epoch_time \<times> difficulty) list service" where
  "demo_receiver = demo_start\<lparr>sv_share_chain := \<lambda>_. demo_share demo_empty\<rparr>"


end
