(* ===== verification/ConfigCorrect.thy ===== *)
theory ConfigCorrect
  imports NodeCorrect
begin

text \<open>
  From the command line to a running node: where each value of the configuration comes from,
  which squads the nodes of one prefix spread over, what the sub-command for diagnostics
  starts, and which checks the share chains of a running node make.
\<close>

section \<open>The configuration\<close>

text \<open>The configuration field by field: the option, the environment, or the default.\<close>

definition expected_config :: "environment \<Rightarrow> start_args \<Rightarrow> bytes option \<Rightarrow> string \<Rightarrow> server_config" where
  "expected_config env args identity cache_path = \<lparr>
     cs_base_node_address = ar_base_node_address args,
     cs_p2p_port = opt_or (ar_p2p_port args) 0,
     cs_grpc_port = opt_or (ar_grpc_port args) 18145,
     cs_idle_connection_timeout = from_secs 60,
     cs_p2p_service = \<lparr>
       external_addr = opt_or (map_option Some (ev_address env)) (ar_external_address args),
       cfg_seed_peers = seed_peer_list env args,
       peer_info_publish_interval = opt_or (map_option (from_secs \<circ> unat) (ar_peer_publish_interval args)) (from_secs (60 * 15)),
       stable_peer = ar_stable_peer args,
       private_key_folder = ar_private_key_folder args,
       private_key = identity,
       mdns_enabled = (\<not> ar_mdns_disabled args),
       relay_server_disabled = ar_relay_server_disabled args,
       squad_override = ar_squad_override args,
       squad_prefix = ar_squad_prefix args,
       num_squads = ar_num_squads args,
       user_agent = opt_or (ar_user_agent args) ''tari-p2pool'',
       grey_list_clear_interval = grey_list_clear_interval p2p_config_default,
       black_list_clear_interval = black_list_clear_interval p2p_config_default,
       meta_data_exchange_interval = meta_data_exchange_interval p2p_config_default,
       peer_exchange_interval = peer_exchange_interval p2p_config_default,
       cfg_is_seed_peer = ar_is_seed_peer args,
       debug_print_chain = ar_debug_print_chain args,
       sync_job_enabled = sync_job_enabled p2p_config_default,
       sha3x_enabled = (\<not> ar_sha3x_disabled args),
       randomx_enabled = (\<not> ar_randomx_disabled args),
       num_concurrent_syncs = opt_or (map_option unat (ar_num_concurrent_syncs args)) (num_concurrent_syncs p2p_config_default),
       num_sync_tips_to_keep = num_sync_tips_to_keep p2p_config_default,
       max_missing_blocks_sync_depth = max_missing_blocks_sync_depth p2p_config_default,
       diagnostic_mode = ar_diagnostic_mode args,
       diagnostic_mode_file_path = ar_diagnostic_mode_file_path args\<rparr>,
     cs_http_server = \<lparr>http_enabled = (\<not> ar_http_server_disabled args),
       http_port = opt_or (ar_stats_server_port args) 19000\<rparr>,
     cs_max_incoming_connections = Some (opt_or (ar_max_connections args) 100),
     cs_max_outgoing_connections = Some (opt_or (ar_max_connections args) 20),
     cs_network_silence_delay = opt_or (map_option ucast (ar_network_silence_delay args)) 300,
     cs_max_relay_circuits = ar_relay_server_max_circuits args,
     cs_max_relay_circuits_per_peer = ar_relay_server_max_circuits_per_peer args,
     cs_block_time_sha = opt_or (ar_block_time_sha args) 20,
     cs_block_time_rx = opt_or (ar_block_time_rx args) 30,
     cs_share_window = opt_or (ar_share_window args) 1000,
     cs_block_cache_file = cache_path,
     cs_minimum_sha3_target_difficulty = ar_minimum_sha3_target_difficulty args,
     cs_minimum_randomx_target_difficulty = ar_minimum_randomx_target_difficulty args,
     cs_grpc_cache_time = opt_or (map_option (from_secs \<circ> unat) (ar_grpc_cache_seconds args)) (from_secs 1)\<rparr>"

lemma with_opt_simps [simp]:
  "with_opt setter None c = c" "with_opt setter (Some x) c = setter x c"
  by (simp_all add: with_opt_def)

text \<open>A setter of an optional value, seen as an update of the field.\<close>

lemma with_opt_fields:
  "with_opt with_grpc_port x c = c\<lparr>cs_grpc_port := opt_or x (cs_grpc_port c)\<rparr>"
  "with_opt with_p2p_port x c = c\<lparr>cs_p2p_port := opt_or x (cs_p2p_port c)\<rparr>"
  "with_opt with_sha3_block_time y c = c\<lparr>cs_block_time_sha := opt_or y (cs_block_time_sha c)\<rparr>"
  "with_opt with_rx_block_time y c = c\<lparr>cs_block_time_rx := opt_or y (cs_block_time_rx c)\<rparr>"
  "with_opt with_share_window y c = c\<lparr>cs_share_window := opt_or y (cs_share_window c)\<rparr>"
  "with_opt with_minimum_sha3_target_difficulty y c
    = c\<lparr>cs_minimum_sha3_target_difficulty := opt_or (map_option Some y) (cs_minimum_sha3_target_difficulty c)\<rparr>"
  "with_opt with_minimum_randomx_target_difficulty y c
    = c\<lparr>cs_minimum_randomx_target_difficulty := opt_or (map_option Some y) (cs_minimum_randomx_target_difficulty c)\<rparr>"
  "with_opt (\<lambda>n. with_grpc_cache_time (from_secs (unat n))) y c
    = c\<lparr>cs_grpc_cache_time := opt_or (map_option (from_secs \<circ> unat) y) (cs_grpc_cache_time c)\<rparr>"
  "with_opt (\<lambda>n. with_network_silence_delay (ucast n)) x c
    = c\<lparr>cs_network_silence_delay := opt_or (map_option ucast x) (cs_network_silence_delay c)\<rparr>"
  "with_opt (\<lambda>n. with_max_incoming_connections n \<circ> with_max_outgoing_connections n) z c
    = c\<lparr>cs_max_incoming_connections := opt_or (map_option Some z) (cs_max_incoming_connections c),
        cs_max_outgoing_connections := opt_or (map_option Some z) (cs_max_outgoing_connections c)\<rparr>"
  "with_opt with_stats_server_port x c
    = c\<lparr>cs_http_server := (cs_http_server c)\<lparr>http_port := opt_or x (http_port (cs_http_server c))\<rparr>\<rparr>"
  by (simp_all add: with_opt_def builder_defs opt_or_def split: option.split)

lemma with_opt_p2p_fields:
  "with_opt (\<lambda>n. with_num_concurrent_syncs (unat n)) z c = c\<lparr>cs_p2p_service := (cs_p2p_service c)
     \<lparr>num_concurrent_syncs := opt_or (map_option unat z) (num_concurrent_syncs (cs_p2p_service c))\<rparr>\<rparr>"
  "with_opt with_squad_override p c = c\<lparr>cs_p2p_service := (cs_p2p_service c)
     \<lparr>squad_override := opt_or (map_option Some p) (squad_override (cs_p2p_service c))\<rparr>\<rparr>"
  "with_opt with_external_address p c = c\<lparr>cs_p2p_service := (cs_p2p_service c)
     \<lparr>external_addr := opt_or (map_option Some p) (external_addr (cs_p2p_service c))\<rparr>\<rparr>"
  "with_opt with_diagnostic_mode_file_path p c = c\<lparr>cs_p2p_service := (cs_p2p_service c)
     \<lparr>diagnostic_mode_file_path := opt_or (map_option Some p) (diagnostic_mode_file_path (cs_p2p_service c))\<rparr>\<rparr>"
  "with_peer_publish_interval y c = c\<lparr>cs_p2p_service := (cs_p2p_service c)
     \<lparr>peer_info_publish_interval := opt_or (map_option (from_secs \<circ> unat) y)
        (peer_info_publish_interval (cs_p2p_service c))\<rparr>\<rparr>"
  by (simp_all add: with_opt_def builder_defs opt_or_def split: option.split)

lemma opt_or_Some [simp]: "opt_or (map_option Some x) None = x" "opt_or (map_option Some x) (Some y) = Some (opt_or x y)"
  by (cases x; simp add: opt_or_def)+

lemma configuration:
  "config_from_args env args =
     (case (ev_identity env, ev_block_cache_path env) of
        (Some None, _) \<Rightarrow> Err InvalidIdentity
      | (_, None) \<Rightarrow> Err NoCurrentDirectory
      | (identity, Some path) \<Rightarrow> Ok (expected_config env args (Option.bind identity id) path))"
proof -
  have ok: "config_from_args env args = Ok (expected_config env args (Option.bind identity id) path)"
    if "ev_identity env = identity" "identity \<noteq> Some None" "ev_block_cache_path env = Some path" for identity path
    using that unfolding config_from_args_def Let_def
    by (cases identity)
      (auto simp: with_opt_fields with_opt_p2p_fields builder_defs expected_config_def server_config_default_def
        p2p_config_default_def http_config_default_def)
  have no_identity: "config_from_args env args = Err InvalidIdentity" if "ev_identity env = Some None"
    using that by (simp add: config_from_args_def Let_def)
  have no_path: "config_from_args env args = Err NoCurrentDirectory"
    if "ev_identity env \<noteq> Some None" "ev_block_cache_path env = None"
    using that by (cases "ev_identity env") (auto simp: config_from_args_def Let_def)
  show ?thesis
    using ok [of "ev_identity env"] no_identity no_path
    by (cases "ev_identity env"; cases "the (ev_identity env)"; cases "ev_block_cache_path env") simp_all
qed


section \<open>The sub-command for diagnostics\<close>

lemma diagnostic_config:
  assumes "config_from_args env (set_diagnostic_mode args) = Ok c"
  shows "diagnostic_mode (cs_p2p_service c)" "\<not> cfg_is_seed_peer (cs_p2p_service c)"
    "\<not> sha3x_enabled (cs_p2p_service c)" "\<not> randomx_enabled (cs_p2p_service c)"
    "http_enabled (cs_http_server c)" "cs_network_silence_delay c = 65535"
proof -
  obtain identity path where "c = expected_config env (set_diagnostic_mode args) identity path"
    using assms [unfolded configuration] by (auto split: option.splits)
  moreover have "(ucast (- 1 :: u16) :: u64) = 65535" by code_simp
  ultimately show "diagnostic_mode (cs_p2p_service c)" "\<not> cfg_is_seed_peer (cs_p2p_service c)"
    "\<not> sha3x_enabled (cs_p2p_service c)" "\<not> randomx_enabled (cs_p2p_service c)"
    "http_enabled (cs_http_server c)" "cs_network_silence_delay c = 65535"
    by (simp_all add: expected_config_def set_diagnostic_mode_def opt_or_def)
qed

lemma diagnostics_started:
  assumes "config_from_args env (set_diagnostic_mode args) = Ok config"
    and "server_new w now config share_chains params connected diagnostics swarm squad = Ok n"
    and "server_start w e n = (n', Ok kind)"
  shows "kind = DiagnosticLoop \<and> nd_http n' \<and> nd_grpc n' \<noteq> None
    \<and> sw_actions (sv_swarm (nd_service n')) = sw_actions swarm
        @ map ListenOn (listen_addresses w (cs_p2p_port config)) @ [Subscribe (network_topic w PEER_INFO_TOPIC)]
    \<and> sv_share_chain (nd_service n') = share_chains"
proof -
  note config = diagnostic_config [OF assms(1)]
  obtain s where s: "service_new (cs_p2p_service config) share_chains (\<lambda>_. False) (cs_share_window config) swarm squad = Ok s"
    and n: "nd_service n = s" "nd_config n = config" "nd_http n" "nd_grpc n \<noteq> None"
    using assms(2) config by (auto simp: server_new_def Let_def)
  have new: "sv_swarm s = swarm" "sv_config s = cs_p2p_service config" "sv_share_chain s = share_chains"
    using s by (auto simp: service_new_def split: if_splits)
  obtain s' where start: "service_start w e (cs_p2p_port config) s = (s', Ok kind)"
    and n': "n' = n\<lparr>nd_service := s'\<rparr>"
    using assms(3) n by (auto simp: server_start_def split: prod.splits)
  let ?listens = "map ListenOn (listen_addresses w (cs_p2p_port config))"
  obtain s1 where ext: "set_external_addr w (with_actions ?listens s) = (s1, Ok ())"
    and s': "s' = with_actions (subscriptions w s) s1" "kind = DiagnosticLoop"
    using start config new unfolding start_equation by (auto simp: bindS_Ok split: if_splits)
  have "sv_share_chain s' = share_chains"
    using quiet_start [of w s e "cs_p2p_port config"] start new by (simp add: quiet_def sync_view_def)
  then show ?thesis
    using s' n n' new config external_addr_keeps [OF ext, unfolded with_actions_fields]
    by (simp add: with_actions_fields subscriptions_def)
qed

text \<open>The diagnostics sub-command starts the diagnostic loop with the HTTP server on, no share
  chain topic and the share chains untouched.\<close>

theorem diagnostics_command:
  assumes "config_from_args env (set_diagnostic_mode args) = Ok config"
    and "server_new w now config share_chains params connected diagnostics swarm squad = Ok n"
    and "server_start w e n = (n', Ok kind)"
  shows "kind = DiagnosticLoop \<and> nd_http n' \<and> nd_grpc n' \<noteq> None
    \<and> sw_actions (sv_swarm (nd_service n')) = sw_actions swarm
        @ map ListenOn (listen_addresses w (cs_p2p_port config)) @ [Subscribe (network_topic w PEER_INFO_TOPIC)]
    \<and> sv_share_chain (nd_service n') = share_chains"
  using assms by (rule diagnostics_started)

section \<open>Squads\<close>

text \<open>The number of the squad comes from the last byte of the identity, so no more than 256
  squads are ever used.\<close>

theorem squads_used: "range (squad_id n) = {..<min 256 (max 1 n)}"
proof -
  have "squad_id n p < min 256 (max 1 n)" for p
  proof -
    have "unat (last p) < 256" using unsigned_less [of "last p"] by simp
    then have "(if p = [] then 0 else unat (last p)) mod max 1 n < 256"
      by (intro le_less_trans [OF mod_less_eq_dividend]) simp
    then show ?thesis by (simp add: squad_id_def)
  qed
  moreover have "i \<in> range (squad_id n)" if "i < min 256 (max 1 n)" for i
  proof
    have "unat (of_nat i :: u8) = i" using that by (simp add: unsigned_of_nat take_bit_nat_eq_self)
    then show "i = squad_id n [of_nat i]" using that by (simp add: squad_id_def)
  qed simp
  ultimately show ?thesis by auto
qed

section \<open>What the share chains of a node check\<close>

definition bypassed :: "'l share_chain \<Rightarrow> bool" where
  "bypassed s \<longleftrightarrow> sc_bypass_checks s = verification_checks \<and> ch_bypass_checks (sc_p2_chain s) = verification_checks"

lemma node_chain_bypassed:
  "node_share_chain e ago fx c params squad a = Ok s \<Longrightarrow> bypassed s"
  by (auto simp: node_share_chain_def bypassed_def opt_or_def dest: share_chain_new_settings)

lemma bypassed_settings: "share_settings s' = share_settings s \<Longrightarrow> bypassed s \<Longrightarrow> bypassed s'"
  by (simp add: bypassed_def share_settings_def chain_settings_def)

lemma bypassed_has:
  "has_difficulty_verified verification_checks" "has_target_difficulty_verified verification_checks"
  "has_median_timestamp verification_checks" "has_correct_shares verification_checks"
  "\<not> has_parents verification_checks"
  by (simp_all add: verification_checks_def has_defs vs_new_def set_defs vs_insert_def vs_contains_def vs_flag_defs)

lemma bypassed_checks:
  assumes "bypassed s"
  shows "verify_difficulty e (sc_p2_chain s) b = Ok True"
    and "verify_target_difficulty e (sc_p2_chain s) b = Ok True"
    and "verify_median_timestamp_for_block (sc_p2_chain s) b = Ok True"
    and "verify_shares_for_block e (sc_p2_chain s) b = Ok True"
    and "header_difficulty e p (b_original_header b) = Ok d \<Longrightarrow> bh_pow_algo (b_original_header b) = sc_pow_algo s
      \<Longrightarrow> validate_claimed_difficulty e s b p = Ok d"
  using assms
  by (simp_all add: bypassed_def bypassed_has verify_difficulty_def verify_target_difficulty_def
      verify_median_timestamp_for_block_def verify_shares_for_block_def validate_claimed_difficulty_def)

lemma net_steps_settings:
  assumes "(net_step w sf)\<^sup>*\<^sup>* s s'" and "syncs_ok s" and "requests_ok s"
  shows "share_settings (sv_share_chain s' a) = share_settings (sv_share_chain s a)"
  using net_steps_keep [OF assms] by (simp add: keeps_def)

lemma service_new_syncs:
  assumes "service_new config share_chains synced share_window swarm squad = Ok s"
  shows "syncs_ok s" "requests_ok s" "sv_share_chain s = share_chains"
  using assms by (auto simp: service_new_def syncs_ok_def requests_ok_def split: if_splits)

lemma running_chain_settings:
  assumes "server_new w now config share_chains params connected diagnostics swarm squad = Ok n0"
    and "server_start w e n0 = (n1, Ok kind)" and "(node_step w gw sf)\<^sup>*\<^sup>* n1 n" and "g_ext gw = w_ext w"
  shows "share_settings (sv_share_chain (nd_service n) a) = share_settings (share_chains a)"
proof -
  obtain s0 where s0: "service_new (cs_p2p_service config) share_chains (\<lambda>_. False) (cs_share_window config) swarm squad = Ok s0"
    and n0: "nd_service n0 = s0"
    using assms(1) by (auto simp: server_new_def Let_def split: if_splits)
  have "nd_service n1 = fst (service_start w e (cs_p2p_port (nd_config n0)) s0)"
    using assms(2) n0 by (auto simp: server_start_def split: prod.splits)
  then have q: "quiet w s0 (nd_service n1)" by (simp add: quiet_start)
  then have "keeps w {#} {#} s0 (nd_service n1)" by (rule quiet_keeps)
  then have ok: "syncs_ok (nd_service n1)" "requests_ok (nd_service n1)"
    and same: "share_settings (sv_share_chain (nd_service n1) a) = share_settings (share_chains a)"
    using service_new_syncs [OF s0] by (simp_all add: keeps_def)
  show ?thesis
    using net_steps_settings [OF conjunct1 [OF node_parts [OF assms(3,4)]] ok, of a] same by simp
qed

text \<open>C7: A node whose share chains are built the way the start command builds them runs for ever
  with four of the five checks switched off: of a block that is not verified yet only work and
  parents are checked, and a submission passes the difficulty check whatever its hash.\<close>

theorem running_node_checks_only_parents:
  assumes "\<And>a. node_share_chain (w_ext w) ago (fx a) config params squad a = Ok (share_chains a)"
    and "server_new w now config share_chains params connected diagnostics swarm squad = Ok n0"
    and "server_start w e n0 = (n1, Ok kind)" and "(node_step w gw sf)\<^sup>*\<^sup>* n1 n" and "g_ext gw = w_ext w"
    and "s = sv_share_chain (nd_service n) a"
  shows "(\<forall>e block v. new_status e (sc_p2_chain s) block = Ok v
        \<longrightarrow> (is_verified v \<longleftrightarrow> verify_pow_and_parents e (sc_p2_chain s) block = Ok True))
    \<and> (\<forall>e block p d. header_difficulty e p (b_original_header block) = Ok d
        \<and> bh_pow_algo (b_original_header block) = sc_pow_algo s
        \<longrightarrow> validate_claimed_difficulty e s block p = Ok d)"
proof -
  have "bypassed s"
    using bypassed_settings [OF running_chain_settings [OF assms(2-5), of a]] node_chain_bypassed [OF assms(1)]
    by (simp add: assms(6))
  note checks = bypassed_checks [OF this]
  have "is_verified v \<longleftrightarrow> verify_pow_and_parents e (sc_p2_chain s) block = Ok True"
    if "new_status e (sc_p2_chain s) block = Ok v" for e block v
    using checks(1-4) by (simp add: is_verified_iff new_status_Ok [OF that])
  then show ?thesis using checks(5) by blast
qed

definition demo_node_files :: chain_files where
  "demo_node_files = \<lparr>fx_exists = Inr False, fx_has_parent = True, fx_create_dir = Inr (), fx_rename = Inr (),
     fx_old_blocks = Ok [], fx_new_cache = []\<rparr>"

definition demo_node_chain :: "pow_algorithm \<Rightarrow> (epoch_time \<times> difficulty) list share_chain" where
  "demo_node_chain a = (case node_share_chain (w_ext demo_start_world) (\<lambda>_. Some 0) demo_node_files demo_config
      demo_params ''squad'' a of Ok s \<Rightarrow> s)"

definition demo_environment :: environment where
  "demo_environment = \<lparr>ev_local_net = False, ev_network_key_str = ''esmeralda'', ev_identity = None,
     ev_address = None, ev_block_cache_path = Some ''/block_cache''\<rparr>"

definition demo_args :: start_args where
  "demo_args = \<lparr>ar_base_dir = None, ar_grpc_port = None, ar_p2p_port = Some 18145, ar_stats_server_port = None,
     ar_external_address = None, ar_base_node_address = ''http://127.0.0.1:18182'', ar_seed_peers = None,
     ar_no_default_seed_peers = False, ar_stable_peer = False, ar_squad_prefix = ''default'',
     ar_squad_override = None, ar_num_squads = 1, ar_private_key_folder = ''.'', ar_is_seed_peer = False,
     ar_mdns_disabled = False, ar_relay_server_disabled = False, ar_relay_server_max_circuits = None,
     ar_relay_server_max_circuits_per_peer = None, ar_http_server_disabled = True, ar_user_agent = None,
     ar_peer_publish_interval = None, ar_debug_print_chain = False, ar_diagnostic_mode = False,
     ar_diagnostic_mode_file_path = None, ar_max_connections = None, ar_randomx_disabled = False,
     ar_sha3x_disabled = False, ar_block_time_sha = None, ar_block_time_rx = None,
     ar_num_concurrent_syncs = None, ar_share_window = None, ar_export_libp2p_info = None,
     ar_network_silence_delay = None, ar_minimum_sha3_target_difficulty = None,
     ar_minimum_randomx_target_difficulty = None, ar_grpc_cache_seconds = None\<rparr>"

theorem diagnostics_command_witness:
  "\<exists>config n n'. config_from_args demo_environment (set_diagnostic_mode demo_args) = Ok config
     \<and> server_start demo_start_world demo_seeds n = (n', Ok DiagnosticLoop)"
proof -
  let ?config = "config_from_args demo_environment (set_diagnostic_mode demo_args)"
  let ?new = "\<lambda>config. server_new demo_start_world 0 config (\<lambda>_. demo_share demo_empty) demo_params (Ok ()) None demo_swarm ''squad''"
  have "case ?config of Ok config \<Rightarrow> (case ?new config of
      Ok n \<Rightarrow> (case snd (server_start demo_start_world demo_seeds n) of Ok kind \<Rightarrow> True | _ \<Rightarrow> False) | _ \<Rightarrow> False) | _ \<Rightarrow> False"
    by code_simp
  then obtain config n kind where c: "?config = Ok config" and n: "?new config = Ok n"
    and "snd (server_start demo_start_world demo_seeds n) = Ok kind"
    by (auto split: outcome.splits)
  then have s: "server_start demo_start_world demo_seeds n = (fst (server_start demo_start_world demo_seeds n), Ok kind)"
    by (metis prod.collapse)
  from diagnostics_command [OF c n s] c s show ?thesis by blast
qed

lemma demo_node_chain: "node_share_chain (w_ext demo_start_world) (\<lambda>_. Some 0) demo_node_files demo_config
      demo_params ''squad'' a = Ok (demo_node_chain a)"
proof -
  let ?new = "node_share_chain (w_ext demo_start_world) (\<lambda>_. Some 0) demo_node_files demo_config demo_params ''squad''"
  have "case ?new RandomX of Ok s \<Rightarrow> True | _ \<Rightarrow> False" "case ?new Sha3x of Ok s \<Rightarrow> True | _ \<Rightarrow> False"
    by code_simp+
  then show ?thesis by (cases a) (simp_all add: demo_node_chain_def split: outcome.splits)
qed

theorem running_node_checks_only_parents_witness:
  "\<exists>n n'. server_start demo_start_world demo_seeds n = (n', Ok NormalLoop)
     \<and> (\<forall>e v block. new_status e (sc_p2_chain (sv_share_chain (nd_service (silence_done n')) Sha3x)) block = Ok v
          \<longrightarrow> (is_verified v \<longleftrightarrow>
               verify_pow_and_parents e (sc_p2_chain (sv_share_chain (nd_service (silence_done n')) Sha3x)) block = Ok True))"
proof -
  let ?new = "server_new demo_start_world 0 demo_config demo_node_chain demo_params (Ok ()) None demo_swarm ''squad''"
  let ?start = "server_start demo_start_world demo_seeds"
  have "case ?new of Ok n \<Rightarrow> (case snd (?start n) of Ok NormalLoop \<Rightarrow> True | _ \<Rightarrow> False) | _ \<Rightarrow> False"
    by code_simp
  then obtain n where n: "?new = Ok n" and "snd (?start n) = Ok NormalLoop"
    by (auto split: outcome.splits main_loop_kind.splits)
  then have s: "?start n = (fst (?start n), Ok NormalLoop)" by (metis prod.collapse)
  have step: "(node_step demo_start_world demo_grpc (\<lambda>_. []))\<^sup>*\<^sup>* (fst (?start n)) (silence_done (fst (?start n)))"
    by (rule r_into_rtranclp) (rule node_step.silence)
  from running_node_checks_only_parents [OF demo_node_chain n s step demo_ext_shared refl, of Sha3x] s
  show ?thesis by blast
qed

end
