(* ===== verification/HttpCorrect.thy ===== *)
theory HttpCorrect
  imports HttpServer ConfigCorrect
begin

text \<open>
  The HTTP server answers every request, with the status its path and parameters call for, from
  what the service and the collector hold, and changes none of it.
\<close>

section \<open>Numbers in a query\<close>

definition is_digit :: "char \<Rightarrow> bool" where
  "is_digit c \<longleftrightarrow> 48 \<le> (of_char c :: nat) \<and> (of_char c :: nat) \<le> 57"

definition digit_step :: "nat \<Rightarrow> char \<Rightarrow> nat" where
  "digit_step n c = 10 * n + (of_char c - 48)"

definition number_of :: "string \<Rightarrow> nat" where
  "number_of ds = foldl digit_step 0 ds"

definition valid_number :: "string \<Rightarrow> bool" where
  "valid_number s \<longleftrightarrow> (\<exists>sign ds. s = sign @ ds \<and> sign \<in> {[], ''+''} \<and> ds \<noteq> [] \<and> (\<forall>c \<in> set ds. is_digit c)
     \<and> number_of ds < 2 ^ 64)"

lemma foldl_digits_le: "n \<le> foldl digit_step n cs"
proof (induction cs arbitrary: n)
  case (Cons c cs)
  have "n \<le> digit_step n c" by (simp add: digit_step_def)
  also have "\<dots> \<le> foldl digit_step (digit_step n c) cs" by (rule Cons)
  finally show ?case by simp
qed simp

lemma parse_digits_iff:
  assumes "acc < limit"
  shows "parse_digits limit acc cs = Some n \<longleftrightarrow> (\<forall>c \<in> set cs. is_digit c)
    \<and> n = foldl digit_step acc cs \<and> n < limit"
  using assms
proof (induction cs arbitrary: acc)
  case (Cons c cs)
  have "parse_digits limit acc (c # cs)
    = (if is_digit c \<and> digit_step acc c < limit then parse_digits limit (digit_step acc c) cs else None)"
    by (cases "48 \<le> (of_char c :: nat)") (simp_all add: is_digit_def digit_step_def Let_def)
  then show ?case using Cons.IH [of "digit_step acc c"] foldl_digits_le [of "digit_step acc c" cs] by auto
qed auto

lemma signed:
  "(\<exists>sign ds. s = sign @ ds \<and> sign \<in> {[], ''+''} \<and> Q ds) \<longleftrightarrow> Q s \<or> (\<exists>ds. s = CHR ''+'' # ds \<and> Q ds)"
  by (auto; metis append_Cons append_Nil)

lemma sign_no_digit: "\<not> is_digit CHR ''+''" "\<not> is_digit CHR ''-''"
  by (simp_all add: is_digit_def)

lemma parse_unsigned_iff:
  assumes "0 < limit"
  shows "parse_unsigned limit s = Some n \<longleftrightarrow> (\<exists>sign ds. s = sign @ ds \<and> sign \<in> {[], ''+''} \<and> ds \<noteq> []
     \<and> (\<forall>c \<in> set ds. is_digit c) \<and> n = number_of ds \<and> n < limit)"
proof (cases s)
  case (Cons c cs)
  have digits: "parse_digits limit 0 ds = Some n \<longleftrightarrow> (\<forall>c \<in> set ds. is_digit c) \<and> n = number_of ds \<and> n < limit" for ds
    using assms by (simp add: parse_digits_iff number_of_def)
  show ?thesis
    unfolding signed using Cons sign_no_digit
    by (auto simp: parse_unsigned_def digits simp del: parse_digits.simps)
qed (simp add: parse_unsigned_def)

lemma parse_unsigned_valid: "(\<exists>n. parse_unsigned (2 ^ 64) s = Some n) \<longleftrightarrow> valid_number s"
proof -
  have "(\<exists>n. parse_unsigned (2 ^ 64) s = Some n) \<longleftrightarrow> (\<exists>n sign ds. s = sign @ ds \<and> sign \<in> {[], ''+''} \<and> ds \<noteq> []
     \<and> (\<forall>c \<in> set ds. is_digit c) \<and> n = number_of ds \<and> n < 2 ^ 64)"
    by (intro ex_cong1 parse_unsigned_iff) simp
  then show ?thesis unfolding valid_number_def by blast
qed

section \<open>A page of the chain\<close>

lemma add_chk_not_max: "a \<noteq> - 1 \<Longrightarrow> add_chk a 1 = (Ok (a + 1) :: ('e, u64) outcome)"
proof -
  assume "a \<noteq> - 1"
  then have "unat a < unat (- 1 :: u64)" by (simp add: word_order.not_eq_extremum flip: word_less_nat_alt)
  then show ?thesis by (simp add: add_chk_def checked_add_def unsigned_minus_1_eq_mask mask_eq_exp_minus_1)
qed

lemma page_loop_no_panic:
  assumes "levels_wf c" and "level_at_height c (- 1) = None" and "level_at_height c (lv_height level) = Some level"
  shows "page_loop c fuel page_size mc level n res \<noteq> Panic"
  using assms(3)
proof (induction fuel arbitrary: level n res)
  case (Suc fuel)
  have max: "lv_height level \<noteq> - 1" using Suc.prems assms(2) by auto
  have "add_chk (lv_height level) 1 = (Ok (lv_height level + 1) :: u64 sc_result)"
    by (rule add_chk_not_max [OF max])
  moreover have "page_loop c fuel page_size mc l n' r \<noteq> Panic"
    if "level_at_height c (lv_height level + 1) = Some l" for l n' r
    using that levels_wfD [OF assms(1) that] by (intro Suc.IH) simp
  ultimately show ?case by (auto simp: Let_def split: prod.split option.split)
qed simp

lemma all_blocks_Ok:
  assumes "chain_wf (sc_p2_chain s)" and "level_at_height (sc_p2_chain s) (- 1) = None"
  obtains bs where "all_blocks s start n mc = Ok bs"
proof -
  let ?c = "sc_p2_chain s"
  have wf: "levels_wf ?c" using assms(1) by (rule chain_wf_levels)
  have "all_blocks_with_lock ?c start n mc \<noteq> Panic"
  proof -
    have "page_loop ?c (Suc (length (ch_levels ?c))) n mc level 0 [] \<noteq> Panic"
      if "level_at_height ?c h = Some level" for h level
      using that levels_wfD [OF wf that] by (intro page_loop_no_panic [OF wf assms(2)]) simp
    then show ?thesis
      by (auto simp: all_blocks_with_lock_def Let_def simp del: page_loop.simps split: option.split)
  qed
  with all_blocks_pages [OF wf, where start = start and page_size = n and mc = mc] that show ?thesis
    by (cases "all_blocks_with_lock ?c start n mc") (auto simp: all_blocks_def)
qed

section \<open>Asking the service\<close>

lemma last_act [simp]: "last (sw_actions (sv_swarm (act a s))) = a"
  by (simp add: act_def)

lemma ask_simps:
  assumes "hs_service h = Some s" and "hs_loop h = NormalLoop"
  shows "ask_service w QConnectionInfo h = (h\<lparr>hs_service := Some (act (ReplyConnectionInfo (get_libp2p_connection_info s)) s)\<rparr>,
      Ok (ReplyConnectionInfo (get_libp2p_connection_info s)))"
    and "ask_service w QGetConnections h
      = (h\<lparr>hs_service := Some (act (ReplyConnections (map (connection_of w (sv_peer_store s)) (connected_peers s))) s)\<rparr>,
         Ok (ReplyConnections (map (connection_of w (sv_peer_store s)) (connected_peers s))))"
    and "\<exists>white grey. ask_service w QGetPeers h
      = (h\<lparr>hs_service := Some (act (ReplyPeers white grey) s)\<rparr>, Ok (ReplyPeers white grey))"
    and "all_blocks (sv_share_chain s a) (Some height) n True = Ok bs \<Longrightarrow>
      ask_service w (QGetChain a height n) h = (h\<lparr>hs_service := Some (act (ReplyChain bs) s)\<rparr>, Ok (ReplyChain bs))"
  using assms by (auto simp: ask_service_def handle_query_def)

section \<open>Every request is answered\<close>

definition valid_algo :: "string \<Rightarrow> bool" where
  "valid_algo a \<longleftrightarrow> to_lowercase a \<in> {''sha3x'', ''randomx''}"

definition valid_chain_query :: "(string \<Rightarrow> string option) \<Rightarrow> bool" where
  "valid_chain_query params \<longleftrightarrow>
     (\<exists>a. params ''algo'' = Some a \<and> valid_algo a)
   \<and> (\<forall>k \<in> {''height'', ''count''}. \<forall>s. params k = Some s \<longrightarrow> valid_number s)"

lemma parse_algo_valid:
  "parse_algo p = Err BAD_REQUEST \<and> (\<nexists>a. p = Some a \<and> valid_algo a)
   \<or> (\<exists>algo a. parse_algo p = Ok algo \<and> p = Some a \<and> valid_algo a)"
  by (auto simp: parse_algo_def valid_algo_def split: option.split)

lemma parse_param_valid:
  "parse_param p d = Err BAD_REQUEST \<and> \<not> (\<forall>s. p = Some s \<longrightarrow> valid_number s)
   \<or> (\<exists>n. parse_param p d = Ok n \<and> (\<forall>s. p = Some s \<longrightarrow> valid_number s))"
proof (cases p)
  case (Some s)
  show ?thesis
    using parse_unsigned_valid [of s] Some
    by (cases "parse_unsigned (2 ^ 64) s") (auto simp: parse_param_def simp del: power_numeral)
qed (simp add: parse_param_def)

lemma chain_query_parsed:
  assumes "valid_chain_query params"
  obtains a m n where "parse_algo (params ''algo'') = Ok a" "parse_param (params ''height'') 0 = Ok m"
    "parse_param (params ''count'') 20 = Ok n"
  using assms parse_algo_valid [of "params ''algo''"] parse_param_valid [of "params ''height''" 0]
    parse_param_valid [of "params ''count''" 20] that
  by (auto simp: valid_chain_query_def)

lemma chain_query_refused:
  assumes "\<not> valid_chain_query params"
  shows "handle_chain w x params h = (h, Err BAD_REQUEST)"
  using assms parse_algo_valid [of "params ''algo''"] parse_param_valid [of "params ''height''" 0]
    parse_param_valid [of "params ''count''" 20]
  by (auto simp: valid_chain_query_def handle_chain_def)

definition answering :: "'l service \<Rightarrow> 'l http_state \<Rightarrow> bool" where
  "answering s h \<longleftrightarrow> hs_service h = Some s \<and> hs_loop h = NormalLoop \<and> hs_stats h \<noteq> None \<and> chains_ok s
     \<and> (\<forall>a. level_at_height (sc_p2_chain (sv_share_chain s a)) (- 1) = None)"

definition replied :: "'l service \<Rightarrow> 'l http_state \<Rightarrow> 'l http_state \<Rightarrow> bool" where
  "replied s h h' \<longleftrightarrow> h' = h \<or> (\<exists>reply. h' = h\<lparr>hs_service := Some (act reply s)\<rparr>)"

lemma chain_query_answered:
  assumes "answering s h" and "valid_chain_query params"
  shows "\<exists>a m n bs. parse_algo (params ''algo'') = Ok a \<and> parse_param (params ''height'') 0 = Ok m
    \<and> parse_param (params ''count'') 20 = Ok n \<and> all_blocks (sv_share_chain s a) (Some (of_nat m)) n True = Ok bs
    \<and> handle_chain w x params h
        = (h\<lparr>hs_service := Some (act (ReplyChain bs) s)\<rparr>, Ok (map (block_result_of w x a) bs))"
proof -
  obtain a m n where parsed: "parse_algo (params ''algo'') = Ok a" "parse_param (params ''height'') 0 = Ok m"
    "parse_param (params ''count'') 20 = Ok n"
    using chain_query_parsed [OF assms(2)] .
  have "chain_wf (sc_p2_chain (sv_share_chain s a))" "level_at_height (sc_p2_chain (sv_share_chain s a)) (- 1) = None"
    using assms(1) by (simp_all add: answering_def chains_ok_def)
  then obtain bs where bs: "all_blocks (sv_share_chain s a) (Some (of_nat m)) n True = Ok bs"
    by (rule all_blocks_Ok)
  have "ask_service w (QGetChain a (of_nat m) n) h = (h\<lparr>hs_service := Some (act (ReplyChain bs) s)\<rparr>, Ok (ReplyChain bs))"
    using ask_simps(4) [OF _ _ bs] assms(1) by (simp add: answering_def)
  then show ?thesis using parsed bs by (auto simp: handle_chain_def)
qed

lemma answered:
  assumes "answering s h"
  shows "\<exists>info. handle_get_stats w now now' h = (h\<lparr>hs_service := Some (act (ReplyConnectionInfo info) s)\<rparr>,
      Ok (let c = the (hs_stats h) in \<lparr>ss_connection_info = info, ss_connected_since = None,
        ss_randomx_stats = \<lparr>gs_height = st_randomx_chain_height c, gs_last_block_time = now, gs_num_my_shares = 0, gs_total_shares = 0\<rparr>,
        ss_sha3x_stats = \<lparr>gs_height = st_sha3x_chain_height c, gs_last_block_time = now', gs_num_my_shares = 0, gs_total_shares = 0\<rparr>,
        ss_last_gossip_message = st_last_gossip_message c,
        ss_peer_id = (case st_local_peer_id c of Some p \<Rightarrow> peer_to_base58 (w_net w) p | None \<Rightarrow> []),
        ss_squad = (case st_last_squad c of Some squad \<Rightarrow> squad | None \<Rightarrow> [])\<rparr>))"
    and "\<exists>reply r. handle_peers w h = (h\<lparr>hs_service := Some (act reply s)\<rparr>, Ok r)"
    and "\<exists>reply r. handle_connections w h = (h\<lparr>hs_service := Some (act reply s)\<rparr>, Ok r)"
proof -
  have h: "hs_service h = Some s" "hs_loop h = NormalLoop" and "hs_stats h \<noteq> None"
    using assms by (simp_all add: answering_def)
  then show "\<exists>info. handle_get_stats w now now' h = (h\<lparr>hs_service := Some (act (ReplyConnectionInfo info) s)\<rparr>,
      Ok (let c = the (hs_stats h) in \<lparr>ss_connection_info = info, ss_connected_since = None,
        ss_randomx_stats = \<lparr>gs_height = st_randomx_chain_height c, gs_last_block_time = now, gs_num_my_shares = 0, gs_total_shares = 0\<rparr>,
        ss_sha3x_stats = \<lparr>gs_height = st_sha3x_chain_height c, gs_last_block_time = now', gs_num_my_shares = 0, gs_total_shares = 0\<rparr>,
        ss_last_gossip_message = st_last_gossip_message c,
        ss_peer_id = (case st_local_peer_id c of Some p \<Rightarrow> peer_to_base58 (w_net w) p | None \<Rightarrow> []),
        ss_squad = (case st_last_squad c of Some squad \<Rightarrow> squad | None \<Rightarrow> [])\<rparr>))"
    by (auto simp: handle_get_stats_def get_chain_stats_def ask_stats_def answer_request_def ask_simps(1) [OF h] Let_def)
  show "\<exists>reply r. handle_peers w h = (h\<lparr>hs_service := Some (act reply s)\<rparr>, Ok r)"
    using ask_simps(3) [OF h, of w] by (auto simp: handle_peers_def)
  show "\<exists>reply r. handle_connections w h = (h\<lparr>hs_service := Some (act reply s)\<rparr>, Ok r)"
    by (auto simp: handle_connections_def ask_simps(2) [OF h])
qed

lemma respond_simps [simp]:
  "respond f (h, Ok r) = (h, Ok (f r))" "respond f (h, Err e) = (h, Err e)" "respond f (h, Panic) = (h, Panic)"
  "respond f (h, Diverge) = (h, Diverge)"
  by (simp_all add: respond_def)

text \<open>C36: While the service and the statistics run in normal mode on well-formed chains that do
  not reach the last height of 64 bits, a request fails exactly when its path is unknown, when
  it asks for the miners (the handler panics), or when the query for a chain has an invalid
  algorithm, height or count; every other request is answered, and no request changes anything
  in the service.\<close>

theorem http_answers:
  assumes "answering s h" and "routes w x now now' path params h = (h', r)"
  shows "replied s h h'
    \<and> (r = Panic \<longleftrightarrow> path = ''/miners'')
    \<and> (r = Err NOT_FOUND \<longleftrightarrow> path \<notin> {''/stats'', ''/miners'', ''/health'', ''/version'', ''/chain'', ''/peer'', ''/connections''})
    \<and> (r = Err BAD_REQUEST \<longleftrightarrow> path = ''/chain'' \<and> \<not> valid_chain_query params)
    \<and> r \<noteq> Err INTERNAL_SERVER_ERROR \<and> r \<noteq> Diverge"
proof -
  note calls = answered [OF assms(1), of w] chain_query_answered [OF assms(1), of params w x]
  consider "path = ''/stats''" | "path = ''/peer''" | "path = ''/connections''"
    | "path = ''/chain''" "valid_chain_query params" | "path = ''/chain''" "\<not> valid_chain_query params"
    | "path = ''/miners''" | "path = ''/health''" | "path = ''/version''"
    | "path \<notin> {''/stats'', ''/miners'', ''/health'', ''/version'', ''/chain'', ''/peer'', ''/connections''}"
    unfolding insert_iff empty_iff by satx
  then show ?thesis
  proof cases
    case 1
    with calls(1) [of now now'] assms(2) show ?thesis by (auto simp: routes_def replied_def)
  next
    case 2
    with calls(2) assms(2) show ?thesis by (auto simp: routes_def replied_def)
  next
    case 3
    with calls(3) assms(2) show ?thesis by (auto simp: routes_def replied_def)
  next
    case 4
    with calls(4) assms(2) show ?thesis by (auto simp: routes_def replied_def)
  next
    case 5
    with chain_query_refused [of params w x h] assms(2) show ?thesis by (auto simp: routes_def replied_def)
  qed (use assms(2) in \<open>auto simp: routes_def replied_def handle_miners_with_shares_def handle_health_def handle_version_def\<close>)
qed

text \<open>A valid query for a chain is answered with the page of main chain blocks that the share
  chain of its algorithm gives for its height and count, entry by entry; the page is empty or
  has the blocks of consecutive levels, ending with the first level at which more than the
  count was reached or with the last level.\<close>

theorem http_chain_page:
  assumes "answering s h" and "valid_chain_query params"
  shows "\<exists>a m n bs. parse_algo (params ''algo'') = Ok a \<and> parse_param (params ''height'') 0 = Ok m
    \<and> parse_param (params ''count'') 20 = Ok n
    \<and> all_blocks (sv_share_chain s a) (Some (of_nat m)) n True = Ok bs
    \<and> snd (routes w x now now' ''/chain'' params h) = Ok (ChainResponse (map (block_result_of w x a) bs))
    \<and> (bs = [] \<or> (\<exists>ls. page_spec (sc_p2_chain (sv_share_chain s a)) n True 0 ls
         \<and> bs = concat (map (\<lambda>l. fst (page_blocks (sc_p2_chain (sv_share_chain s a)) True l)) ls)))"
proof -
  obtain a m n bs where facts: "parse_algo (params ''algo'') = Ok a" "parse_param (params ''height'') 0 = Ok m"
    "parse_param (params ''count'') 20 = Ok n" "all_blocks (sv_share_chain s a) (Some (of_nat m)) n True = Ok bs"
    "handle_chain w x params h
      = (h\<lparr>hs_service := Some (act (ReplyChain bs) s)\<rparr>, Ok (map (block_result_of w x a) bs))"
    using chain_query_answered [OF assms] by blast
  have "levels_wf (sc_p2_chain (sv_share_chain s a))"
    using assms(1) by (simp add: answering_def chains_ok_def chain_wf_levels)
  from all_blocks_pages [OF this, where start = "Some (of_nat m)" and page_size = n and mc = True] facts
  show ?thesis by (intro exI [of _ a] exI [of _ m] exI [of _ n] exI [of _ bs]) (simp add: routes_def all_blocks_def)
qed

section \<open>In a node\<close>

lemma query_is_node_step:
  assumes "handle_query w q (nd_service n) = (s, Ok u)"
  shows "node_step w gw sf n (n\<lparr>nd_service := s\<rparr>)"
proof (rule node_step.loop)
  show "main_loop_round w sf t (Query q) (nd_service n) = (s, Ok ())" for t
    using assms by (simp add: main_loop_round_def)
qed simp

lemma same_service [simp]: "n\<lparr>nd_service := nd_service n\<rparr> = n"
  by (cases n) simp

lemma asked_is_node_step:
  assumes "hs_service (fst (ask_service w q (http_view kind c n))) = Some s"
  shows "(node_step w gw sf)\<^sup>*\<^sup>* n (n\<lparr>nd_service := s\<rparr>)"
proof (cases "kind = DiagnosticLoop")
  case True
  then have "s = nd_service n" using assms by (simp add: ask_service_def http_view_def)
  then show ?thesis by simp
next
  case False
  obtain s' r where query: "handle_query w q (nd_service n) = (s', r)" by force
  show ?thesis
  proof (cases r)
    case (Ok u)
    then have "s = s'" using assms False query by (simp add: ask_service_def http_view_def)
    then show ?thesis using query_is_node_step query Ok by (metis r_into_rtranclp)
  next
    case Diverge
    then have "s' = nd_service n"
      using query by (auto simp: handle_query_def split: p2p_service_query.splits outcome.splits)
    then have "s = nd_service n" using assms False query Diverge by (simp add: ask_service_def http_view_def)
    then show ?thesis by simp
  qed (use assms False query in \<open>simp_all add: ask_service_def http_view_def\<close>)
qed

lemma fst_bindS: "(\<And>h x. fst (f h x) = h) \<Longrightarrow> fst (bindS m f) = fst m"
  by (cases m; cases "snd m") auto

lemma handlers_ask_once:
  "fst (handle_connections w h) = fst (ask_service w QGetConnections h)"
  "fst (handle_peers w h) = fst (ask_service w QGetPeers h)"
  "fst (handle_get_stats w now now' h) \<in> {h, fst (ask_service w QConnectionInfo h)}"
  "\<exists>q. fst (handle_chain w x params h) \<in> {h, fst (ask_service w q h)}"
  "fst (respond g m) = fst m"
proof -
  show "fst (handle_connections w h) = fst (ask_service w QGetConnections h)"
    unfolding handle_connections_def by (rule fst_bindS) (simp split: action.split)
  show "fst (handle_peers w h) = fst (ask_service w QGetPeers h)"
    unfolding handle_peers_def by (rule fst_bindS) (simp split: action.split)
  show "fst (handle_get_stats w now now' h) \<in> {h, fst (ask_service w QConnectionInfo h)}"
    unfolding handle_get_stats_def
    by (cases "ask_stats now GetLatestStats h"; cases "get_chain_stats now now' h")
      (auto intro: fst_bindS split: prod.split stats_reply.split action.split)
  show "\<exists>q. fst (handle_chain w x params h) \<in> {h, fst (ask_service w q h)}"
  proof -
    have "fst (bindS (ask_service w q h) (\<lambda>h res. case res of
        ReplyChain blocks \<Rightarrow> (h, Ok (map (block_result_of w x a) blocks)) | _ \<Rightarrow> (h, Err INTERNAL_SERVER_ERROR)))
      = fst (ask_service w q h)" for q a
      by (rule fst_bindS) (simp split: action.split)
    then show ?thesis
      unfolding handle_chain_def
      by (cases "parse_algo (params ''algo'')"; cases "parse_param (params ''height'') 0"; cases "parse_param (params ''count'') 20") auto
  qed
  show "fst (respond g m) = fst m" unfolding respond_def by (rule fst_bindS) simp
qed

lemma routes_ask_once: "\<exists>q. fst (routes w x now now' path params h) \<in> {h, fst (ask_service w q h)}"
proof -
  obtain q where q: "fst (handle_chain w x params h) \<in> {h, fst (ask_service w q h)}"
    using handlers_ask_once(4) by blast
  let ?ok = "\<lambda>s. \<exists>q. s \<in> {h, fst (ask_service w q h)}"
  have "fst (handle_miners_with_shares h) = h" by (simp add: handle_miners_with_shares_def)
  then have "?ok (fst (handle_get_stats w now now' h))" "?ok (fst (handle_miners_with_shares h))" "?ok h"
    "?ok (fst (handle_chain w x params h))" "?ok (fst (handle_peers w h))" "?ok (fst (handle_connections w h))"
    using handlers_ask_once(3) [of w now now' h] q unfolding handlers_ask_once(1,2) by blast+
  then show ?thesis unfolding routes_def by (simp add: handlers_ask_once(5))
qed

text \<open>A request over HTTP is, for the node, a step or none.\<close>

theorem http_request_is_node_step:
  assumes "hs_service (fst (routes w x now now' path params (http_view kind c n))) = Some s"
  shows "(node_step w gw sf)\<^sup>*\<^sup>* n (n\<lparr>nd_service := s\<rparr>)"
proof -
  obtain q where "fst (routes w x now now' path params (http_view kind c n))
      \<in> {http_view kind c n, fst (ask_service w q (http_view kind c n))}"
    using routes_ask_once by blast
  then consider "hs_service (http_view kind c n) = Some s" | "hs_service (fst (ask_service w q (http_view kind c n))) = Some s"
    using assms by auto
  then show ?thesis
  proof cases
    case 1
    then have "s = nd_service n" by (simp add: http_view_def)
    then show ?thesis by simp
  qed (rule asked_is_node_step)
qed

section \<open>The server in diagnostic mode\<close>

lemma diagnostic_loop_waits:
  assumes "hs_service h = Some s" and "hs_loop h = DiagnosticLoop"
  shows "snd (handle_connections w h) = Diverge" "snd (handle_peers w h) = Diverge"
    and "valid_chain_query params \<Longrightarrow> snd (handle_chain w x params h) = Diverge"
    and "hs_stats h = Some c \<Longrightarrow> snd (handle_get_stats w now now' h) = Diverge"
proof -
  have ask: "ask_service w q h = (h, Diverge)" for q using assms by (simp add: ask_service_def)
  show "snd (handle_connections w h) = Diverge" "snd (handle_peers w h) = Diverge"
    by (simp_all add: handle_connections_def handle_peers_def ask)
  show "snd (handle_chain w x params h) = Diverge" if "valid_chain_query params"
    by (rule chain_query_parsed [OF that]) (simp add: handle_chain_def ask)
  show "snd (handle_get_stats w now now' h) = Diverge" if "hs_stats h = Some c"
    using that by (simp add: handle_get_stats_def get_chain_stats_def ask_stats_def answer_request_def ask)
qed

text \<open>A node started by the diagnostics sub-command runs the HTTP server, but its loop never
  reads the queries: a request for statistics, peers, connections or a chain is never
  answered.\<close>

theorem diagnostic_node_leaves_requests:
  assumes "config_from_args env (set_diagnostic_mode args) = Ok config"
    and "server_new w now config share_chains params connected diagnostics swarm squad = Ok n"
    and "server_start w e n = (n', Ok kind)"
    and "path \<in> {''/stats'', ''/peer'', ''/connections''} \<or> path = ''/chain'' \<and> valid_chain_query query"
  shows "nd_http n' \<and> snd (routes w x t t' path query (http_view kind (Some c) n')) = Diverge"
proof -
  let ?h = "http_view kind (Some c) n'"
  have "kind = DiagnosticLoop" and http: "nd_http n'" using diagnostics_started [OF assms(1-3)] by simp_all
  then have "hs_service ?h = Some (nd_service n')" "hs_loop ?h = DiagnosticLoop" and stats: "hs_stats ?h = Some c"
    by (simp_all add: http_view_def)
  note waits = diagnostic_loop_waits [OF this(1,2)]
  have lifted: "snd (respond f m) = Diverge" if "snd m = Diverge" for f :: "'b \<Rightarrow> http_response" and m :: "'c http_state \<times> _"
    using that by (cases m) simp
  from assms(4) consider "path = ''/stats''" | "path = ''/peer''" | "path = ''/connections''"
    | "path = ''/chain''" "valid_chain_query query" by blast
  then show ?thesis
    by cases (simp_all add: routes_def lifted waits(1,2,3) waits(4) [OF stats] http)
qed


section \<open>Requests, evaluated\<close>

definition demo_http_ext :: http_ext where
  "demo_http_ext = \<lparr>hx_hex = (\<lambda>h. if h = 1 then ''01'' else ''ff''), hx_height = (\<lambda>_. 7),
     hx_algo = (\<lambda>a. case a of Sha3x \<Rightarrow> ''Sha3x'' | RandomX \<Rightarrow> ''RandomX''), hx_version = ''1.0.0''\<rparr>"

definition demo_http :: "(epoch_time \<times> difficulty) list http_state" where
  "demo_http = \<lparr>hs_service = Some demo_start, hs_loop = NormalLoop, hs_stats = Some (stats_collector_new demo_ext 5)\<rparr>"

definition demo_query :: "string \<Rightarrow> string option" where
  "demo_query k = (if k = ''algo'' then Some ''SHA3X'' else if k = ''count'' then Some ''+5'' else None)"

lemma demo_answering: "answering demo_start demo_http"
proof -
  have chains: "sv_share_chain demo_start = demo_chains"
    by (simp add: demo_start_def service_new_def p2p_config_default_def)
  have "level_at_height (sc_p2_chain (demo_chains a)) (- 1) = None" for a
    by (simp add: demo_chains_def demo_one_def demo_defs level_at_height_def)
  then show ?thesis using demo_chains_wf by (simp add: answering_def demo_http_def chains_ok_def chains)
qed

lemma demo_query_valid: "valid_chain_query demo_query"
proof -
  have "valid_number ''+5''" by (simp add: parse_unsigned_valid [symmetric] parse_unsigned_def)
  moreover have "valid_algo ''SHA3X''" unfolding valid_algo_def by code_simp
  ultimately show ?thesis by (simp add: valid_chain_query_def demo_query_def)
qed

theorem http_answers_witness:
  "\<exists>h' r. routes demo_world demo_http_ext 9 9 ''/chain'' demo_query demo_http = (h', r)
     \<and> replied demo_start demo_http h' \<and> r \<noteq> Panic \<and> r \<noteq> Err BAD_REQUEST \<and> r \<noteq> Err INTERNAL_SERVER_ERROR"
  using http_answers [OF demo_answering, of demo_world demo_http_ext 9 9 "''/chain''" demo_query] demo_query_valid
  by (cases "routes demo_world demo_http_ext 9 9 ''/chain'' demo_query demo_http") auto

theorem http_chain_page_witness:
  "\<exists>bs. all_blocks (sv_share_chain demo_start Sha3x) (Some 0) 5 True = Ok bs
     \<and> snd (routes demo_world demo_http_ext 9 9 ''/chain'' demo_query demo_http)
       = Ok (ChainResponse (map (block_result_of demo_world demo_http_ext Sha3x) bs))"
proof -
  have parsed: "parse_algo (demo_query ''algo'') = Ok Sha3x" "parse_param (demo_query ''height'') 0 = Ok 0"
    "parse_param (demo_query ''count'') 20 = Ok 5"
    by code_simp+
  show ?thesis
    using http_chain_page [OF demo_answering demo_query_valid, of demo_world demo_http_ext 9 9] parsed by auto
qed

theorem http_request_is_node_step_witness:
  "(node_step demo_world demo_grpc (\<lambda>_. []))\<^sup>*\<^sup>* demo_synced
     (demo_synced\<lparr>nd_service := act (ReplyConnectionInfo (get_libp2p_connection_info (nd_service demo_synced)))
        (nd_service demo_synced)\<rparr>)"
proof -
  have "hs_service (fst (routes demo_world demo_http_ext 9 9 ''/stats'' demo_query
      (http_view NormalLoop (Some (stats_collector_new demo_ext 5)) demo_synced)))
    = Some (act (ReplyConnectionInfo (get_libp2p_connection_info (nd_service demo_synced))) (nd_service demo_synced))"
    by (simp add: routes_def respond_def http_view_def handle_get_stats_def get_chain_stats_def ask_stats_def
        answer_request_def ask_simps(1))
  then show ?thesis by (rule http_request_is_node_step)
qed

theorem diagnostic_node_leaves_requests_witness:
  "\<exists>n kind. snd (routes demo_start_world demo_http_ext 9 9 ''/peer'' (\<lambda>_. None)
      (http_view kind (Some (stats_collector_new demo_ext 5)) n)) = Diverge \<and> nd_http n"
proof -
  let ?config = "config_from_args demo_environment (set_diagnostic_mode demo_args)"
  let ?new = "\<lambda>config. server_new demo_start_world 0 config (\<lambda>_. demo_share demo_empty) demo_params (Ok ()) None demo_swarm ''squad''"
  have "case ?config of Ok config \<Rightarrow> (case ?new config of
      Ok n \<Rightarrow> (case snd (server_start demo_start_world demo_seeds n) of Ok kind \<Rightarrow> True | _ \<Rightarrow> False) | _ \<Rightarrow> False) | _ \<Rightarrow> False"
    by code_simp
  then obtain config n kind where c: "?config = Ok config" and n: "?new config = Ok n"
    and "snd (server_start demo_start_world demo_seeds n) = Ok kind"
    by (auto split: outcome.splits)
  then have s: "server_start demo_start_world demo_seeds n = (fst (server_start demo_start_world demo_seeds n), Ok kind)"
    by (metis prod.collapse)
  from diagnostic_node_leaves_requests [OF c n s, where path = "''/peer''" and query = "\<lambda>_. None"
      and x = demo_http_ext and t = 9 and t' = 9]
  show ?thesis by blast
qed

end
