(* ===== verification/CommandLine.thy ===== *)
theory CommandLine
  imports ConfigCorrect
begin

text \<open>
  The process: the key of the node and the set-up of its swarm (\<open>server/p2p/setup.rs\<close>,
  \<open>server/p2p/util.rs\<close>), how the sub-commands build and run a node
  (\<open>cli/args.rs\<close>, \<open>cli/commands/*.rs\<close>), and what the process tells its caller (\<open>main.rs\<close>).

  Keys are opaque; their encoding and hexadecimal notation are arguments. The folder of the key
  is the one file in it and what the file system allows.
\<close>

section \<open>The key of the node\<close>

type_synonym key_pair = bytes

record key_ext =
  kx_encode :: "key_pair \<Rightarrow> bytes option"
  kx_decode :: "bytes \<Rightarrow> key_pair option"
  kx_peer_id :: "key_pair \<Rightarrow> peer_id"
  kx_to_hex :: "bytes \<Rightarrow> string"
  kx_from_hex :: "string \<Rightarrow> bytes option"

text \<open>What is read back is what was written.\<close>

definition key_laws :: "key_ext \<Rightarrow> bool" where
  "key_laws x \<longleftrightarrow> (\<forall>k raw. kx_encode x k = Some raw \<longrightarrow> kx_decode x raw = Some k)
     \<and> (\<forall>raw. kx_from_hex x (kx_to_hex x raw) = Some raw)"

record key_dir =
  kd_file :: "bytes option"
  kd_can_open :: bool
  kd_can_read :: bool
  kd_can_create :: bool
  kd_can_write :: bool

datatype key_error = KeyDecoding | KeyEncoding | KeyIo

text \<open>A file that is there is never created anew: \<open>File::create_new\<close> refuses it.\<close>

definition create_key :: "key_ext \<Rightarrow> key_pair \<Rightarrow> key_dir \<Rightarrow> key_dir \<times> (key_error, key_pair) outcome" where
  "create_key x generated d =
     (if kd_file d \<noteq> None \<or> \<not> kd_can_create d then (d, Err KeyIo)
      else
        let d = d\<lparr>kd_file := Some []\<rparr> in
        bindS (d, ok_or KeyEncoding (kx_encode x generated)) (\<lambda>d raw.
          if kd_can_write d then (d\<lparr>kd_file := Some raw\<rparr>, Ok generated) else (d, Err KeyIo)))"

definition keypair ::
    "key_ext \<Rightarrow> p2p_config \<Rightarrow> key_pair \<Rightarrow> key_dir \<Rightarrow> key_dir \<times> (key_error, key_pair) outcome" where
  "keypair x config generated d =
     (if \<not> stable_peer config then (d, Ok generated)
      else case private_key config of
             Some k \<Rightarrow> (d, Ok k)
           | None \<Rightarrow>
               (case (if kd_can_open d then kd_file d else None) of
                  Some content \<Rightarrow>
                    if kd_can_read d then (d, ok_or KeyDecoding (kx_decode x content))
                    else create_key x generated d
                | None \<Rightarrow> create_key x generated d))"

record generate_identity_result =
  gi_peer_id :: peer_id
  gi_private_key :: string

definition generate_identity :: "key_ext \<Rightarrow> key_pair \<Rightarrow> (key_error, generate_identity_result) outcome" where
  "generate_identity x generated =
     bindO (ok_or KeyEncoding (kx_encode x generated)) (\<lambda>raw.
       Ok \<lparr>gi_peer_id = kx_peer_id x generated, gi_private_key = kx_to_hex x raw\<rparr>)"

text \<open>The variable \<open>SHA_P2POOL_IDENTITY\<close>, as \<open>ev_identity\<close> has it.\<close>

definition identity_variable :: "key_ext \<Rightarrow> string option \<Rightarrow> key_pair option option" where
  "identity_variable x var =
     map_option (\<lambda>identity_cbor. Option.bind (kx_from_hex x identity_cbor) (kx_decode x)) var"

section \<open>The set-up of the swarm\<close>

record relay_config =
  rc_max_circuits :: nat
  rc_max_reservations :: nat
  rc_max_circuits_per_peer :: nat
  rc_reservation_rate_per_ip :: "(nat \<times> duration) option"

text \<open>What the behaviours of the swarm are configured with; a behaviour that is off is \<open>None\<close>.\<close>

record swarm_setup =
  su_handshake_timeout :: duration
  su_gossip_max_transmit_size :: nat
  su_gossip_validate_messages :: bool
  su_mdns :: bool
  su_relay_server :: "relay_config option"
  su_share_chain_sync :: "string \<times> duration"
  su_direct_peer_exchange :: "string \<times> duration"
  su_meta_data_exchange :: "string \<times> duration"
  su_catch_up_sync :: "string \<times> duration"
  su_identify_protocol :: string
  su_push_listen_addr_updates :: bool
  su_ping_timeout :: duration

definition relay_config_of :: "relay_config \<Rightarrow> server_config \<Rightarrow> relay_config" where
  "relay_config_of default_config config =
     (let c = (case cs_max_relay_circuits config of
                 Some max_value \<Rightarrow> default_config\<lparr>rc_max_circuits := max_value, rc_max_reservations := max_value\<rparr>
               | None \<Rightarrow> default_config);
          c = (case cs_max_relay_circuits_per_peer config of
                 Some max_value \<Rightarrow> c\<lparr>rc_max_circuits_per_peer := max_value\<rparr> | None \<Rightarrow> c)
      in c\<lparr>rc_reservation_rate_per_ip := Some (600, from_secs 60)\<rparr>)"

definition swarm_setup_of :: "relay_config \<Rightarrow> server_config \<Rightarrow> swarm_setup" where
  "swarm_setup_of default_config config = \<lparr>
     su_handshake_timeout = from_secs 30,
     su_gossip_max_transmit_size = 1024 * 1024 * 6,
     su_gossip_validate_messages = True,
     su_mdns = mdns_enabled (cs_p2p_service config),
     su_relay_server =
       (if relay_server_disabled (cs_p2p_service config) then None
        else Some (relay_config_of default_config config)),
     su_share_chain_sync = (''/share_chain_sync/5'', from_secs 30),
     su_direct_peer_exchange = (''/tari_direct_peer_info/5'', from_secs 60),
     su_meta_data_exchange = (''/tari_meta_data_info/5'', from_secs 60),
     su_catch_up_sync = (''/catch_up_sync/5'', from_secs 30),
     su_identify_protocol = ''/p2pool/1.0.0'',
     su_push_listen_addr_updates = True,
     su_ping_timeout = from_secs 30\<rparr>"

text \<open>A swarm that has done nothing yet.\<close>

definition new_swarm :: "key_ext \<Rightarrow> key_pair \<Rightarrow> swarm" where
  "new_swarm x k = \<lparr>
     sw_local_peer_id = kx_peer_id x k, sw_external_addresses = [], sw_connected_peers = [], sw_num_peers = 0,
     sw_counters = \<lparr>pending_incoming = 0, pending_outgoing = 0, established_incoming = 0, established_outgoing = 0\<rparr>,
     sw_next_sync_id = 0, sw_next_catch_up_id = 0, sw_actions = []\<rparr>"

section \<open>A node from the command line\<close>

datatype server_error =
    ConfigError config_error
  | SwarmKeyError key_error
  | ShareChainFailed share_chain_error
  | ServerFailed connect_error

text \<open>What the process finds besides its arguments.\<close>

record surroundings =
  sr_environment :: environment
  sr_generated :: key_pair
  sr_now :: instant
  sr_ago :: "int \<Rightarrow> int option"
  sr_files :: "pow_algorithm \<Rightarrow> chain_files"
  sr_params :: block_validation_params
  sr_connect_proxy :: "bool \<times> connect_event list"
  sr_connect_miners :: "bool \<times> connect_event list"

text \<open>The proxy of the base node connects first, then the service for miners.\<close>

definition base_node_connections :: "surroundings \<Rightarrow> (connect_error, unit) outcome" where
  "base_node_connections sr =
     bindO (case sr_connect_proxy sr of (first, events) \<Rightarrow> connect_base_node first events) (\<lambda>_.
       case sr_connect_miners sr of (first, events) \<Rightarrow> connect_base_node first events)"

definition server ::
    "'l world \<Rightarrow> key_ext \<Rightarrow> surroundings \<Rightarrow> start_args \<Rightarrow> key_dir
     \<Rightarrow> key_dir \<times> (server_error, 'l node) outcome" where
  "server w x sr args d =
     bindS (d, map_err ConfigError (config_from_args (sr_environment sr) args)) (\<lambda>d config.
     bindS (case keypair x (cs_p2p_service config) (sr_generated sr) d of
              (d, r) \<Rightarrow> (d, map_err SwarmKeyError r)) (\<lambda>d k.
       let swarm = new_swarm x k;
           squad = choose_squad (\<lambda>n. decimal w (of_nat n)) config (sw_local_peer_id swarm);
           collector = (if ar_diagnostic_mode args then Some diagnostics_collector_new else None);
           share_chain = (\<lambda>a. node_share_chain (w_ext w) (sr_ago sr) (sr_files sr a) config (sr_params sr) squad a)
       in bindS (d, map_err ShareChainFailed (share_chain Sha3x)) (\<lambda>d share_chain_sha3x.
          bindS (d, map_err ShareChainFailed (share_chain RandomX)) (\<lambda>d share_chain_random_x.
            (d, map_err ServerFailed
                  (server_new w (sr_now sr) config
                     (\<lambda>a. case a of Sha3x \<Rightarrow> share_chain_sha3x | RandomX \<Rightarrow> share_chain_random_x)
                     (sr_params sr) (base_node_connections sr) collector swarm squad))))))"

section \<open>Sub-commands\<close>

datatype command =
    Start start_args
  | DiagnosticsCommand start_args
  | GenerateIdentity
  | ListSquads start_args u64

definition base_dir :: "string option \<Rightarrow> command \<Rightarrow> (unit, string) outcome" where
  "base_dir home_dir c =
     (let home = (case home_dir of None \<Rightarrow> Panic | Some home \<Rightarrow> Ok (home @ ''/.tari/p2pool'')) in
      case c of
        Start args \<Rightarrow> (case ar_base_dir args of Some dir \<Rightarrow> Ok dir | None \<Rightarrow> home)
      | DiagnosticsCommand args \<Rightarrow> (case ar_base_dir args of Some dir \<Rightarrow> Ok dir | None \<Rightarrow> home)
      | GenerateIdentity \<Rightarrow> home
      | ListSquads args timeout \<Rightarrow> (case ar_base_dir args of Some dir \<Rightarrow> Ok dir | None \<Rightarrow> home))"

text \<open>\<open>run_server\<close> builds a node from its arguments and runs it to its end.\<close>

definition run_with_cli ::
    "(start_args \<Rightarrow> ('e, unit) outcome) \<Rightarrow> ('e, generate_identity_result) outcome \<Rightarrow> command \<Rightarrow> ('e, unit) outcome" where
  "run_with_cli run_server identity c =
     (case c of
        Start args \<Rightarrow> run_server args
      | DiagnosticsCommand args \<Rightarrow> run_server (set_diagnostic_mode args)
      | GenerateIdentity \<Rightarrow> bindO identity (\<lambda>_. Ok ())
      | ListSquads args timeout \<Rightarrow> Panic)"

text \<open>
  What the process passes to \<open>exit\<close> when its command ends: the result of the command is
  dropped; a panic ends the process with 500 from the hook in a debug build, with 101 otherwise.
\<close>

definition exit_code :: "bool \<Rightarrow> ('e, unit) outcome \<Rightarrow> int option" where
  "exit_code debug_assertions r =
     (case r of
        Ok _ \<Rightarrow> Some 0
      | Err _ \<Rightarrow> Some 0
      | Panic \<Rightarrow> Some (if debug_assertions then 500 else 101)
      | Diverge \<Rightarrow> None)"

section \<open>Handing over the identity of a node\<close>

text \<open>
  \<open>LibP2pInfo::read_from_file\<close>: it looks for the file every hundred milliseconds. Each look is
  the time since the start and whether the file is there; none left is a wait without end.
\<close>

datatype read_error = TimedOut | ReadFailed

fun wait_for_file :: "nat \<Rightarrow> (nat \<times> bool) list \<Rightarrow> (read_error, unit) outcome" where
  "wait_for_file timeout [] = Diverge"
| "wait_for_file timeout ((elapsed_time, exists) # looks) =
     (if exists then Ok ()
      else if timeout \<le> elapsed_time then Err TimedOut
      else wait_for_file timeout looks)"

definition read_from_file ::
    "nat \<Rightarrow> (nat \<times> bool) list \<Rightarrow> (peer_id \<times> string) option \<Rightarrow> (read_error, peer_id \<times> string) outcome" where
  "read_from_file timeout looks content =
     bindO (wait_for_file timeout looks) (\<lambda>_. ok_or ReadFailed content)"

end
