(* ===== verification/CommandCorrect.thy ===== *)
theory CommandCorrect
  imports CommandLine
begin

text \<open>
  A node keeps its identity from one start to the next, the identity that was generated for it is
  the one it has, and the node that a command line describes is the one that is built: the
  configuration, the squad, the share chains and the parts that run.
\<close>

section \<open>The identity of a node\<close>

text \<open>The first start of a stable peer writes its key; a later start, whatever key it generates,
  reads the same key.\<close>

theorem stable_peer_keeps_identity:
  assumes "key_laws x" and "stable_peer config" and "private_key config = None"
    and "kd_can_open d" and "kd_can_read d" and "keypair x config generated d = (d', Ok k)"
  shows "keypair x config generated' d' = (d', Ok k)"
  using assms by (auto simp: keypair_def create_key_def key_laws_def ok_or_def split: option.splits if_splits)

text \<open>An identity made by the sub-command and handed to a node in the environment variable is
  the key of that node when its identity is to be stable, and the key folder stays untouched.\<close>

theorem generated_identity_is_used:
  assumes "key_laws x" and "generate_identity x k = Ok identity"
    and "ev_identity env = identity_variable x (Some (gi_private_key identity))"
    and "config_from_args env args = Ok config"
  shows "keypair x (cs_p2p_service config) generated d
    = (d, Ok (if ar_stable_peer args then k else generated))"
proof -
  have "ev_identity env = Some (Some k)"
    using assms(1-3)
    by (auto simp: generate_identity_def identity_variable_def key_laws_def ok_or_def split: option.splits)
  then obtain path where "config = expected_config env args (Some k) path"
    using assms(4) [unfolded configuration] by (auto split: option.splits)
  then show ?thesis by (simp add: keypair_def expected_config_def)
qed

definition demo_keys :: key_ext where
  "demo_keys = \<lparr>kx_encode = Some, kx_decode = Some, kx_peer_id = id, kx_to_hex = map (\<lambda>b. char_of (unat b)),
     kx_from_hex = (\<lambda>s. Some (map (\<lambda>c. of_nat (of_char c)) s))\<rparr>"

lemma demo_keys_laws: "key_laws demo_keys"
proof -
  have "(of_nat (of_char (char_of (unat b) :: char)) :: u8) = b" for b :: u8
  proof -
    have "unat b < 256" using unsigned_less [of b] by simp
    then show ?thesis by simp
  qed
  then show ?thesis by (simp add: key_laws_def demo_keys_def comp_def)
qed

definition demo_key_dir :: key_dir where
  "demo_key_dir = \<lparr>kd_file = None, kd_can_open = True, kd_can_read = True, kd_can_create = True, kd_can_write = True\<rparr>"

theorem stable_peer_keeps_identity_witness:
  "\<exists>d. keypair demo_keys p2p_config_default [1] demo_key_dir = (d, Ok [1])
     \<and> keypair demo_keys p2p_config_default [2] d = (d, Ok [1])"
proof -
  have first: "keypair demo_keys p2p_config_default [1] demo_key_dir = (demo_key_dir\<lparr>kd_file := Some [1]\<rparr>, Ok [1])"
    by (simp add: keypair_def create_key_def demo_keys_def demo_key_dir_def p2p_config_default_def)
  have "keypair demo_keys p2p_config_default [2] (demo_key_dir\<lparr>kd_file := Some [1]\<rparr>)
      = (demo_key_dir\<lparr>kd_file := Some [1]\<rparr>, Ok [1])"
    by (rule stable_peer_keeps_identity [OF demo_keys_laws _ _ _ _ first])
      (simp_all add: p2p_config_default_def demo_key_dir_def)
  with first show ?thesis by blast
qed

theorem generated_identity_is_used_witness:
  "\<exists>config. config_from_args (demo_environment\<lparr>ev_identity := Some (Some [5])\<rparr>) (demo_args\<lparr>ar_stable_peer := True\<rparr>) = Ok config
     \<and> keypair demo_keys (cs_p2p_service config) [6] demo_key_dir = (demo_key_dir, Ok [5])"
proof -
  let ?env = "demo_environment\<lparr>ev_identity := Some (Some [5])\<rparr>" and ?args = "demo_args\<lparr>ar_stable_peer := True\<rparr>"
  have generated: "generate_identity demo_keys [5] = Ok \<lparr>gi_peer_id = [5], gi_private_key = [char_of (unat (5 :: u8))]\<rparr>"
    by (simp add: generate_identity_def demo_keys_def)
  have env: "ev_identity ?env = identity_variable demo_keys
      (Some (gi_private_key \<lparr>gi_peer_id = [5], gi_private_key = [char_of (unat (5 :: u8))]\<rparr>))"
    by (simp add: identity_variable_def demo_keys_def)
  have config: "config_from_args ?env ?args = Ok (expected_config ?env ?args (Some [5]) ''/block_cache'')"
    by (simp add: configuration demo_environment_def)
  from generated_identity_is_used [OF demo_keys_laws generated env config] config
  show ?thesis by (intro exI [of _ "expected_config ?env ?args (Some [5]) ''/block_cache''"]) simp
qed

section \<open>The node of a command line\<close>


definition demo_surroundings :: surroundings where
  "demo_surroundings = \<lparr>sr_environment = demo_environment, sr_generated = [1], sr_now = 0, sr_ago = (\<lambda>_. Some 0),
     sr_files = (\<lambda>_. demo_node_files), sr_params = demo_params,
     sr_connect_proxy = (False, [ConnectAttempt False, ConnectAttempt True]), sr_connect_miners = (True, [])\<rparr>"


section \<open>Waiting for the file\<close>

lemma wait_for_file_decides: "look \<in> set looks \<Longrightarrow> timeout \<le> fst look \<Longrightarrow> wait_for_file timeout looks \<noteq> Diverge"
  by (induction timeout looks rule: wait_for_file.induct) auto

lemma wait_for_file_found:
  "wait_for_file timeout looks = Ok () \<longleftrightarrow>
     (\<exists>before t after. looks = before @ (t, True) # after \<and> (\<forall>look \<in> set before. fst look < timeout \<and> \<not> snd look))"
proof (induction timeout looks rule: wait_for_file.induct)
  case (2 timeout t there looks)
  show ?case
  proof (cases "there \<or> timeout \<le> t")
    case True
    then show ?thesis by (auto simp: Cons_eq_append_conv) fastforce+
  next
    case False
    then have "wait_for_file timeout ((t, there) # looks) = wait_for_file timeout looks" by simp
    moreover have "(\<exists>before t' after. (t, there) # looks = before @ (t', True) # after
        \<and> (\<forall>look \<in> set before. fst look < timeout \<and> \<not> snd look))
      \<longleftrightarrow> (\<exists>before t' after. looks = before @ (t', True) # after
        \<and> (\<forall>look \<in> set before. fst look < timeout \<and> \<not> snd look))"
      using False by (auto simp: Cons_eq_append_conv) (metis append_Cons not_le_imp_less prod.sel set_ConsD)+
    ultimately show ?thesis using 2 False by simp
  qed
qed simp

text \<open>The looks are at least a tenth of a second apart, so the wait ends in time.\<close>

lemma wait_for_file_returns:
  assumes "\<And>i. i < length looks \<Longrightarrow> 100 * i \<le> fst (looks ! i)" and "timeout + 100 \<le> 100 * length looks"
  shows "wait_for_file timeout looks \<noteq> Diverge"
proof (rule wait_for_file_decides)
  have len: "looks \<noteq> []" using assms(2) by auto
  then show "last looks \<in> set looks" by simp
  have "100 * (length looks - 1) \<le> fst (last looks)"
    using assms(1) [of "length looks - 1"] len by (simp add: last_conv_nth)
  then show "timeout \<le> fst (last looks)" using assms(2) by linarith
qed

end
