(* ===== verification/BaseNodeProxy.thy ===== *)
theory BaseNodeProxy
  imports Node "HOL-Library.Sublist"
begin

text \<open>
  The proxy of the base node, \<open>server/grpc/base_node.rs\<close>: every call of a miner that the pool
  does not serve itself goes to the base node and its answer comes back. A streaming answer is
  copied, message by message, by a task of its own into a channel of bounded size.

  The base node is a parameter: what it answers to a call. Requests and messages are not looked
  into, so their types are left open. Slow calls are only logged.
\<close>

section \<open>Calls\<close>

definition LIST_HEADERS_PAGE_SIZE :: nat where "LIST_HEADERS_PAGE_SIZE = 10"
definition GET_BLOCKS_PAGE_SIZE :: nat where "GET_BLOCKS_PAGE_SIZE = 10"
definition GET_TOKENS_IN_CIRCULATION_PAGE_SIZE :: nat where "GET_TOKENS_IN_CIRCULATION_PAGE_SIZE = 1000"
definition GET_DIFFICULTY_PAGE_SIZE :: nat where "GET_DIFFICULTY_PAGE_SIZE = 1000"

datatype base_node_method =
    BnListHeaders | BnGetHeaderByHash | BnGetBlocks | BnGetNetworkState | BnGetBlockTiming
    | BnGetConstants | BnGetBlockSize | BnGetBlockFees | BnGetVersion | BnCheckForUpdates
    | BnGetTokensInCirculation | BnGetNetworkDifficulty | BnGetNewBlockTemplate | BnGetNewBlock
    | BnGetNewBlockWithCoinbases | BnGetNewBlockTemplateWithCoinbases | BnGetNewBlockBlob
    | BnSubmitBlock | BnSubmitBlockBlob | BnSubmitTransaction | BnGetSyncInfo | BnGetSyncProgress
    | BnGetTipInfo | BnSearchKernels | BnSearchUtxos | BnFetchMatchingUtxos | BnGetPeers
    | BnGetMempoolTransactions | BnTransactionState | BnIdentify | BnGetNetworkStatus
    | BnListConnectedPeers | BnGetMempoolStats | BnGetActiveValidatorNodes | BnGetShardKey
    | BnGetTemplateRegistrations | BnGetSideChainUtxos

text \<open>
  \<open>bc_stream\<close> lists what \<open>stream.message()\<close> returns, one after another, until the stream is at
  its end; \<open>Inl\<close> is an error.
\<close>

record ('q, 'r, 'e) base_node_client =
  bc_simple :: "base_node_method \<Rightarrow> 'q \<Rightarrow> 'e + 'r"
  bc_stream :: "base_node_method \<Rightarrow> 'q \<Rightarrow> 'e + ('e + 'r) list"

definition proxy_simple_result :: "('q, 'r, 'e) base_node_client \<Rightarrow> base_node_method \<Rightarrow> 'q \<Rightarrow> 'e + 'r" where
  "proxy_simple_result client call request =
     (case bc_simple client call request of Inr resp \<Rightarrow> Inr resp | Inl error \<Rightarrow> Inl error)"

section \<open>Streams\<close>

text \<open>
  A stream on its way: what the base node has still to send, what waits in the channel, what the
  miner has received, whether the copying task has ended, and whether the miner has gone away.
\<close>

record ('r, 'e) proxy_stream =
  ps_upstream :: "('e + 'r) list"
  ps_buffer :: "'r list"
  ps_received :: "'r list"
  ps_task_done :: bool
  ps_closed :: bool

definition streaming_response :: "'e + ('e + 'r) list \<Rightarrow> 'e + ('r, 'e) proxy_stream" where
  "streaming_response result =
     (case result of
        Inr messages \<Rightarrow>
          Inr \<lparr>ps_upstream = messages, ps_buffer = [], ps_received = [], ps_task_done = False, ps_closed = False\<rparr>
      | Inl status \<Rightarrow> Inl status)"

text \<open>
  A channel of size \<open>n\<close> with one sender takes \<open>n + 1\<close> messages. When the miner has gone away,
  sending fails, which is logged, and the task goes on to the next message.
\<close>

inductive stream_step :: "nat \<Rightarrow> ('r, 'e) proxy_stream \<Rightarrow> ('r, 'e) proxy_stream \<Rightarrow> bool" for page_size where
  forward: "ps_upstream s = Inr m # rest \<Longrightarrow> \<not> ps_task_done s \<Longrightarrow> \<not> ps_closed s \<Longrightarrow> length (ps_buffer s) < page_size + 1 \<Longrightarrow>
    stream_step page_size s (s\<lparr>ps_upstream := rest, ps_buffer := ps_buffer s @ [m]\<rparr>)"
| discard: "ps_upstream s = Inr m # rest \<Longrightarrow> \<not> ps_task_done s \<Longrightarrow> ps_closed s \<Longrightarrow>
    stream_step page_size s (s\<lparr>ps_upstream := rest\<rparr>)"
| failed: "ps_upstream s = Inl e # rest \<Longrightarrow> \<not> ps_task_done s \<Longrightarrow> stream_step page_size s (s\<lparr>ps_task_done := True\<rparr>)"
| ended: "ps_upstream s = [] \<Longrightarrow> \<not> ps_task_done s \<Longrightarrow> stream_step page_size s (s\<lparr>ps_task_done := True\<rparr>)"
| receive: "ps_buffer s = m # rest \<Longrightarrow> \<not> ps_closed s \<Longrightarrow>
    stream_step page_size s (s\<lparr>ps_buffer := rest, ps_received := ps_received s @ [m]\<rparr>)"
| close: "\<not> ps_closed s \<Longrightarrow> stream_step page_size s (s\<lparr>ps_closed := True, ps_buffer := []\<rparr>)"

text \<open>What the miner sees as the end of the stream.\<close>

definition stream_over :: "('r, 'e) proxy_stream \<Rightarrow> bool" where
  "stream_over s \<longleftrightarrow> \<not> ps_closed s \<and> ps_task_done s \<and> ps_buffer s = []"

definition proxy_stream_result ::
    "('q, 'r, 'e) base_node_client \<Rightarrow> base_node_method \<Rightarrow> 'q \<Rightarrow> 'e + ('r, 'e) proxy_stream" where
  "proxy_stream_result client call request = streaming_response (bc_stream client call request)"

section \<open>The service\<close>

text \<open>The calls whose answer is a stream, with the size of the channel.\<close>

fun page_size_of :: "base_node_method \<Rightarrow> nat option" where
  "page_size_of BnListHeaders = Some LIST_HEADERS_PAGE_SIZE"
| "page_size_of BnGetBlocks = Some GET_BLOCKS_PAGE_SIZE"
| "page_size_of BnGetTokensInCirculation = Some GET_TOKENS_IN_CIRCULATION_PAGE_SIZE"
| "page_size_of BnGetNetworkDifficulty = Some GET_DIFFICULTY_PAGE_SIZE"
| "page_size_of BnSearchKernels = Some GET_BLOCKS_PAGE_SIZE"
| "page_size_of BnSearchUtxos = Some GET_BLOCKS_PAGE_SIZE"
| "page_size_of BnFetchMatchingUtxos = Some GET_BLOCKS_PAGE_SIZE"
| "page_size_of BnGetPeers = Some GET_BLOCKS_PAGE_SIZE"
| "page_size_of BnGetMempoolTransactions = Some GET_BLOCKS_PAGE_SIZE"
| "page_size_of BnGetActiveValidatorNodes = Some 1000"
| "page_size_of BnGetTemplateRegistrations = Some 10"
| "page_size_of BnGetSideChainUtxos = Some 10"
| "page_size_of m = None"

datatype ('r, 'e) base_node_reply = Unary "'e + 'r" | Streaming nat "'e + ('r, 'e) proxy_stream"

definition base_node_serve ::
    "('q, 'r, 'e) base_node_client \<Rightarrow> base_node_method \<Rightarrow> 'q \<Rightarrow> ('r, 'e) base_node_reply" where
  "base_node_serve client call request =
     (case page_size_of call of
        Some page_size \<Rightarrow> Streaming page_size (proxy_stream_result client call request)
      | None \<Rightarrow> Unary (proxy_simple_result client call request))"

section \<open>What the miner receives\<close>

text \<open>The messages before the first error.\<close>

fun messages_of :: "('e + 'r) list \<Rightarrow> 'r list" where
  "messages_of (Inr m # rest) = m # messages_of rest"
| "messages_of _ = []"

definition still_to_come :: "('r, 'e) proxy_stream \<Rightarrow> 'r list" where
  "still_to_come s = ps_buffer s @ (if ps_task_done s then [] else messages_of (ps_upstream s))"

definition stream_inv :: "nat \<Rightarrow> 'r list \<Rightarrow> ('r, 'e) proxy_stream \<Rightarrow> bool" where
  "stream_inv page_size msgs s \<longleftrightarrow> length (ps_buffer s) \<le> page_size + 1
     \<and> prefix (ps_received s) msgs \<and> (\<not> ps_closed s \<longrightarrow> ps_received s @ still_to_come s = msgs)"

lemma stream_step_inv: "stream_step page_size s s' \<Longrightarrow> stream_inv page_size msgs s \<Longrightarrow> stream_inv page_size msgs s'"
  by (induction rule: stream_step.induct) (auto simp: stream_inv_def still_to_come_def prefix_def)

lemma stream_steps_inv:
  "(stream_step page_size)\<^sup>*\<^sup>* s s' \<Longrightarrow> stream_inv page_size msgs s \<Longrightarrow> stream_inv page_size msgs s'"
  by (induction rule: rtranclp_induct) (auto intro: stream_step_inv)

text \<open>Every step of the task or of the miner brings the stream nearer to its end.\<close>

definition stream_left :: "('r, 'e) proxy_stream \<Rightarrow> nat" where
  "stream_left s = 2 * length (ps_upstream s) + length (ps_buffer s)
     + (if ps_task_done s then 0 else 1) + (if ps_closed s then 0 else 1)"

lemma stream_step_left: "stream_step page_size s s' \<Longrightarrow> stream_left s' < stream_left s"
  by (induction rule: stream_step.induct) (auto simp: stream_left_def)

lemma stream_progress:
  assumes "\<not> ps_closed s" and "\<not> stream_over s"
  shows "\<exists>s'. stream_step page_size s s' \<and> \<not> ps_closed s'"
proof (cases "ps_buffer s")
  case (Cons m rest)
  then show ?thesis using assms(1) stream_step.receive [of s m rest page_size] by auto
next
  case Nil
  then have more: "\<not> ps_task_done s" using assms by (simp add: stream_over_def)
  show ?thesis
  proof (cases "ps_upstream s")
    case Nil
    then show ?thesis using stream_step.ended [OF Nil more, of page_size] assms(1) by auto
  next
    case (Cons a rest)
    show ?thesis
    proof (cases a)
      case (Inl e)
      then show ?thesis using stream_step.failed [of s e rest page_size] Cons more assms(1) by auto
    next
      case (Inr m)
      then show ?thesis
        using stream_step.forward [of s m rest page_size] Cons more assms(1) \<open>ps_buffer s = []\<close> by auto
    qed
  qed
qed

text \<open>C35: Through the proxy a miner receives the messages of a stream of the base node in order,
  none lost or repeated, with at most one more than the page size buffered; when the stream is
  over it has received all messages before the first error, and unless the miner hangs up the
  stream can always be brought to that end.\<close>

theorem proxied_stream_complete:
  assumes "base_node_serve client call request = Streaming page_size (Inr s0)"
    and "bc_stream client call request = Inr messages" and "(stream_step page_size)\<^sup>*\<^sup>* s0 s"
  shows "prefix (ps_received s) (messages_of messages)
    \<and> length (ps_buffer s) \<le> page_size + 1
    \<and> (stream_over s \<longrightarrow> ps_received s = messages_of messages)
    \<and> (\<not> ps_closed s \<longrightarrow> (\<exists>s'. (stream_step page_size)\<^sup>*\<^sup>* s s' \<and> stream_over s'))"
proof -
  have s0: "stream_inv page_size (messages_of messages) s0"
    using assms(1,2) by (auto simp: base_node_serve_def proxy_stream_result_def streaming_response_def
        stream_inv_def still_to_come_def split: option.splits)
  have "\<exists>s'. (stream_step page_size)\<^sup>*\<^sup>* s s' \<and> stream_over s'" if "\<not> ps_closed s"
    using that
  proof (induction "stream_left s" arbitrary: s rule: less_induct)
    case less
    show ?case
    proof (cases "stream_over s")
      case False
      then obtain u where "stream_step page_size s u" "\<not> ps_closed u"
        using stream_progress [OF less.prems] by blast
      then show ?thesis using less.hyps [OF stream_step_left] by (meson converse_rtranclp_into_rtranclp)
    qed auto
  qed
  with stream_steps_inv [OF assms(3) s0] show ?thesis
    by (auto simp: stream_inv_def stream_over_def still_to_come_def)
qed

text \<open>A stream that breaks off looks to the miner like one that has come to its end.\<close>

lemma broken_stream_looks_complete:
  "messages_of (map Inr ms @ Inl e # rest) = messages_of (map Inr ms)"
  by (induction ms) simp_all

definition demo_node_client :: "(nat, nat, string) base_node_client" where
  "demo_node_client = \<lparr>bc_simple = (\<lambda>_ q. Inr q), bc_stream = (\<lambda>_ q. Inr [Inr q, Inr (q + 1), Inl ''reset'', Inr 9])\<rparr>"

theorem proxied_stream_complete_witness:
  "\<exists>s0 s. base_node_serve demo_node_client BnListHeaders 4 = Streaming 10 (Inr s0)
     \<and> (stream_step 10)\<^sup>*\<^sup>* s0 s \<and> stream_over s \<and> ps_received s = [4, 5]"
proof -
  obtain s0 where s0: "base_node_serve demo_node_client BnListHeaders 4 = Streaming 10 (Inr s0)" and "\<not> ps_closed s0"
    by (simp add: base_node_serve_def proxy_stream_result_def streaming_response_def demo_node_client_def
        LIST_HEADERS_PAGE_SIZE_def)
  have stream: "bc_stream demo_node_client BnListHeaders 4 = Inr [Inr 4, Inr 5, Inl ''reset'', Inr 9]"
    by (simp add: demo_node_client_def)
  obtain s where s: "(stream_step 10)\<^sup>*\<^sup>* s0 s" "stream_over s"
    using proxied_stream_complete [OF s0 stream rtranclp.rtrancl_refl] \<open>\<not> ps_closed s0\<close> by blast
  with proxied_stream_complete [OF s0 stream s(1)] s0 show ?thesis by auto
qed

lemma proxied_call_unchanged:
  "page_size_of call = None \<Longrightarrow> base_node_serve client call request = Unary (bc_simple client call request)"
  by (cases "bc_simple client call request") (simp_all add: base_node_serve_def proxy_simple_result_def)

end
