(* ===== verification/Spec2Isabelle.thy ===== *)
theory Spec2Isabelle
  imports StorageCorrect CatchUp DiagnosticMode HttpCorrect CommandCorrect BaseNodeProxy
begin

text \<open>
  A verification library for the Tari p2pool node (\<open>p2pool/src\<close>).

  The node keeps one share chain per proof-of-work algorithm. Miners submit blocks, other
  nodes send theirs, and the chain decides which blocks are valid, which form the main
  chain, and how the reward of the next block is shared among the miners of the last blocks.
  The peer-to-peer service fetches missing blocks, tells others about new ones and keeps the
  lists of peers. Miners get their templates from a gRPC service, which also passes blocks that
  are good enough on to the Tari base node; other calls for the base node go through a proxy.
  A HTTP server shows statistics, peers and chains. The command line makes a configuration, from
  which the node and its parts are built. In the diagnostic mode the node only tries its
  connections to other nodes, writes down what it found and ends.

  \<^bold>\<open>Theories and the code they model.\<close>

  \<^item> \<open>Prelude\<close>: machine integers, outcomes, loops that may fail, hash maps with the
    interface \<open>keyed_store\<close>. \<open>ShareTypes\<close>: constants, errors, data of the Tari crates
    (\<open>sharechain/mod.rs\<close>, \<open>sharechain/error.rs\<close>).
  \<^item> \<open>P2Block\<close>: the block, its status bits and its builder (\<open>sharechain/p2block.rs\<close>).
  \<^item> \<open>BlockCache\<close>: the interface \<open>block_cache\<close> and the LMDB storage behind it
    (\<open>sharechain/lmdb_block_storage.rs\<close>); \<open>StorageCorrect\<close> proves the refinement.
  \<^item> \<open>ChainLevel\<close> (\<open>sharechain/p2chain_level.rs\<close>), \<open>ChainAdd\<close>, \<open>P2Chain\<close>,
    \<open>ChainVerify\<close>, \<open>ChainUpdate\<close> (\<open>sharechain/p2chain.rs\<close>): levels, results of an
    addition, state and lookups, the five checks of a block, and the entry of a block into the
    chain. \<open>ChainInvariant\<close> and \<open>ChainTermination\<close> prove preservation and return,
    \<open>CheckCorrect\<close> what the checks mean, \<open>ForkChoice\<close> what becomes the main chain.
  \<^item> \<open>BlockTree\<close> (blocks as a tree, the interfaces \<open>any_order\<close> and \<open>convergent\<close>),
    \<open>Received\<close>, \<open>Arrival\<close>, \<open>ForkWork\<close>, \<open>Convergence\<close>: the chain of a running node
    specified by the set of blocks it has received (without uncles, while nothing is cleaned
    up). Every operation of \<open>sharechain/p2chain.rs\<close> on the way of a block into the chain is
    followed on that record, up to the loop of the queue, whose invariant is \<open>working\<close>.
    \<open>ConvergeCorrect\<close> has what follows for two nodes with the same blocks, and for a restart.
  \<^item> \<open>ShareChain\<close>, \<open>ShareService\<close> (\<open>sharechain/in_memory.rs\<close>): submission and
    validation, payouts, templates, paging and sync; \<open>ShareCorrect\<close> has the theorems.
  \<^item> \<open>Messages\<close>, \<open>RelayStore\<close>, \<open>PeerStore\<close> (\<open>server/p2p\<close>): messages and the
    two stores of peers; \<open>PeerCorrect\<close> has the step relation and its invariant.
  \<^item> \<open>NetTypes\<close>, \<open>NetPeers\<close>, \<open>NetSync\<close>, \<open>NetLoop\<close> (\<open>server/p2p/network.rs\<close>): the
    service's state and what it asks of libp2p; the exchange of peers, relays and the choice of
    connections; gossip, missing blocks and catch-up under permits; events, the main loop and
    the step relation \<open>net_step\<close>. \<open>NetFrame\<close> states what each handler leaves alone,
    \<open>NetRounds\<close> that every step keeps permits, depths, chains and peer store in order, and
    \<open>NetCorrect\<close> has the theorems, over all reachable states.
  \<^item> \<open>SyncedBlocks\<close>, \<open>PeerPage\<close>, \<open>CatchUp\<close>: the catch-up of a node with a peer, over the
    record of received blocks. The first interprets \<open>any_order\<close> on \<open>add_synced_blocks\<close>, the
    second says which page of blocks \<open>request_sync\<close> answers with, the third composes the
    functions of both sides into the dialog \<open>catch_up\<close>, whose fuel is the number of attempts
    left, and proves that the node ends with at least the work of the peer.
  \<^item> \<open>NetStart\<close> (\<open>server/p2p/network.rs\<close>): listeners, seed peers and topics at the start;
    \<open>StartCorrect\<close> says when the start succeeds and what it asks of libp2p.
  \<^item> \<open>Diagnostics\<close> (\<open>server/diagnostics\<close>): the collector of reports; \<open>DiagnosticsCorrect\<close>
    specifies it by the history of reports. \<open>NetDiagnostic\<close> (\<open>server/p2p/network.rs\<close>): the
    loop of the diagnostic mode and its state machine; \<open>DiagnosticMode\<close> proves that it ends
    and what it leaves alone.
  \<^item> \<open>CoinbaseExtra\<close> (\<open>server/grpc/util.rs\<close>): the field with squad and miner text.
    \<open>GrpcPool\<close> (\<open>server/grpc/p2pool.rs\<close>): templates, submission, tip information;
    \<open>GrpcCorrect\<close> has the step relation's invariant and the theorems.
  \<^item> \<open>StatsCollector\<close> (\<open>server/http/stats_collector.rs\<close>): samples and counters, with the
    summary of all samples as their specification.
  \<^item> \<open>ServerConfig\<close> (\<open>server/config.rs\<close>, \<open>cli/args.rs\<close>, \<open>cli/commands/util.rs\<close>): the
    configuration and its builder, the options, the squad and the share chains of a node.
    \<open>Node\<close> (\<open>server/server.rs\<close>): the parts of a node, what they share, and the step relation
    \<open>node_step\<close>. \<open>ChainSettings\<close> shows which settings never change, \<open>NodeCorrect\<close> that
    the runs of a node are runs of its parts, with what follows for the whole, and
    \<open>ConfigCorrect\<close> what a node of the start command or of the diagnostics command does.
  \<^item> \<open>HttpServer\<close> (\<open>server/http\<close>): routes and handlers; \<open>HttpCorrect\<close> has the answers.
    \<open>BaseNodeProxy\<close> (\<open>server/grpc/base_node.rs\<close>): calls and streams of the base node.
  \<^item> \<open>CommandLine\<close> (\<open>cli\<close>, \<open>server/p2p/setup.rs\<close>, \<open>server/p2p/util.rs\<close>, \<open>main.rs\<close>): the
    key of the node, the parameters of the swarm, the sub-commands; \<open>CommandCorrect\<close> has the
    node that a command line starts.
  \<^item> \<open>DemoChain\<close>: a small chain on which the witnesses evaluate.

  \<^bold>\<open>Conventions.\<close> A struct is a record, an error a value of \<open>outcome\<close>, a mutable receiver
  an argument returned updated next to the outcome, so the changes made before an early
  return stay. A lock is held for a whole operation, so an operation is one step. Clocks,
  random choices and functions of other crates are arguments; what a theorem assumes of
  them is a named hypothesis (\<open>acc_arith\<close>, \<open>bincode_roundtrip\<close>, \<open>base58_conv\<close>,
  \<open>algo_conv\<close>, \<open>key_laws\<close>). Arithmetic that the release profile checks panics on overflow.

  \<^bold>\<open>Fuel.\<close> Loops that walk down the chain by parent links carry a height-sized fuel, the
  queue of \<open>verify_chain\<close> the number of blocks on record; \<open>add_block_to_chain_returns\<close> and
  \<open>submission_total\<close> show that it is never used up. A wait for another part or process that
  its list of events does not end is the outcome \<open>Diverge\<close>.

  \<^bold>\<open>Interleaving.\<close> The peer-to-peer service is one loop with tasks beside it: a step is a
  round of the loop, a stage of a task between two of its waiting points, or a change made by
  another part (libp2p's connections, a block submitted over gRPC). A gRPC request is one step;
  the steps of others in between change share chains and synced flags arbitrarily. A step of a
  node is a step of one of its parts, which see the share chains and flags the service holds.
  The diagnostic mode is a list of inputs of its loop and of the collector beside it, each with
  its time; the proxied stream of a call is a step relation of three parties.

  \<^bold>\<open>Not modelled.\<close> Inside libp2p, tonic, axum and clap: the composition of the swarm's
  behaviours, the servers' sockets, the parsing of arguments. Time limits that drop a request;
  JSON, the panic log, the exported identity file and the debug graph, which only write; the
  set-up of logging, log lines and timing warnings; the unused builder methods of the
  configuration; the integration tests, which start processes.
\<close>

end
